(* ===== verification/Prelude.thy ===== *)
theory Prelude
  imports Main "HOL-Library.Word" "HOL-Library.Sublist"
begin

text \<open>
  The base of the development: the part of Go's \<open>strings\<close> and \<open>strconv\<close> packages the program
  uses, as executable functions on byte strings, with the lemmas the component theories share.

  A Go string is a sequence of bytes and is modelled by \<^typ>\<open>string\<close> (a list of 8-bit
  characters); \<open>len(s)\<close> is \<^const>\<open>length\<close> and \<open>s[i:j]\<close> is \<open>take\<close>/\<open>drop\<close>. Case mapping and
  white space are those of the ASCII range: a byte of 128 or above has no case and is no
  space (the program applies them to host names, addresses, header values and hex ids).
  Instants and durations are integers counting nanoseconds.
\<close>

named_theorems go_simps \<open>evaluation of the string functions on patterns\<close>
named_theorems go_defs \<open>definitions unfolded when a goal is evaluated\<close>

type_synonym time = int
type_synonym duration = int

section \<open>Time\<close>

definition second :: duration where "second = 1000000000"
definition millisecond :: duration where "millisecond = 1000000"
definition minute :: duration where "minute = 60 * second"
definition hour :: duration where "hour = 3600 * second"

text \<open>The zero \<open>time.Time\<close> (1 January of year 1, UTC), in nanoseconds of the Unix epoch.\<close>

definition zero_time :: time where "zero_time = -62135596800 * second"

definition is_zero_time :: "time \<Rightarrow> bool" where "is_zero_time t \<longleftrightarrow> t = zero_time"

lemmas time_defs = second_def millisecond_def minute_def hour_def zero_time_def is_zero_time_def

text \<open>A signed 64-bit value.\<close>

definition int64_ok :: "int \<Rightarrow> bool" where
  "int64_ok n \<longleftrightarrow> - (2 ^ 63) \<le> n \<and> n < 2 ^ 63"

section \<open>Characters\<close>

definition is_space :: "char \<Rightarrow> bool" where
  "is_space c \<longleftrightarrow> c \<in> {CHR 0x09, CHR 0x0A, CHR 0x0B, CHR 0x0C, CHR 0x0D, CHR '' ''}"

definition lower_char :: "char \<Rightarrow> char" where
  "lower_char c = (let n = of_char c :: nat in if 65 \<le> n \<and> n \<le> 90 then char_of (n + 32) else c)"

definition is_digit :: "char \<Rightarrow> bool" where
  "is_digit c \<longleftrightarrow> 48 \<le> (of_char c :: nat) \<and> (of_char c :: nat) \<le> 57"

definition digit_char :: "nat \<Rightarrow> char" where "digit_char n = char_of (48 + n)"
definition digit_val :: "char \<Rightarrow> nat" where "digit_val c = of_char c - 48"

lemma of_lower_char:
  "(of_char (lower_char c) :: nat) =
     (if 65 \<le> (of_char c :: nat) \<and> (of_char c :: nat) \<le> 90 then of_char c + 32 else of_char c)"
  by (simp add: lower_char_def Let_def)

lemma char_eq_code: "c = d \<longleftrightarrow> (of_char c :: nat) = of_char d"
  by (metis char_of_char)

lemma lower_char_idem [simp]: "lower_char (lower_char c) = lower_char c"
  by (auto simp: char_eq_code of_lower_char simp del: of_char_eq_iff)

lemma is_space_code:
  "is_space c \<longleftrightarrow> (of_char c :: nat) \<in> {9, 10, 11, 12, 13, 32}"
  by (simp add: is_space_def char_eq_code del: of_char_eq_iff)

lemma is_space_lower [simp]: "is_space (lower_char c) = is_space c"
  by (auto simp: is_space_code of_lower_char)

lemma lower_char_eq_iff:
  assumes "\<not> (65 \<le> (of_char d :: nat) \<and> (of_char d :: nat) \<le> 90)"
    and "\<not> (97 \<le> (of_char d :: nat) \<and> (of_char d :: nat) \<le> 122)"
  shows "lower_char c = d \<longleftrightarrow> c = d"
  using assms by (auto simp: char_eq_code of_lower_char simp del: of_char_eq_iff split: if_splits)

lemma lower_char_at [simp]: "lower_char c = CHR ''@'' \<longleftrightarrow> c = CHR ''@''"
  by (rule lower_char_eq_iff) simp_all

lemma lower_char_dot [simp]: "lower_char c = CHR ''.'' \<longleftrightarrow> c = CHR ''.''"
  by (rule lower_char_eq_iff) simp_all

lemma digit_val_char [simp]: "n < 10 \<Longrightarrow> digit_val (digit_char n) = n"
  by (simp add: digit_val_def digit_char_def)

lemma digit_char_simps [simp]:
  "digit_char 0 = CHR ''0''" "digit_char (Suc 0) = CHR ''1''" "digit_char 1 = CHR ''1''" "digit_char 2 = CHR ''2''"
  "digit_char 3 = CHR ''3''" "digit_char 4 = CHR ''4''" "digit_char 5 = CHR ''5''" "digit_char 6 = CHR ''6''"
  "digit_char 7 = CHR ''7''" "digit_char 8 = CHR ''8''" "digit_char 9 = CHR ''9''"
  by (simp_all add: digit_char_def char_of_def bit_0)

lemma is_digit_char [simp]: "n < 10 \<Longrightarrow> is_digit (digit_char n)"
  by (simp add: is_digit_def digit_char_def)

section \<open>Package strings\<close>

definition to_lower :: "string \<Rightarrow> string" where "to_lower s = map lower_char s"

definition trim_left :: "string \<Rightarrow> string" where "trim_left s = dropWhile is_space s"
definition trim_right :: "string \<Rightarrow> string" where "trim_right s = rev (dropWhile is_space (rev s))"
definition trim_space :: "string \<Rightarrow> string" where "trim_space s = trim_right (trim_left s)"

definition has_prefix :: "string \<Rightarrow> string \<Rightarrow> bool" where
  "has_prefix s p \<longleftrightarrow> take (length p) s = p"

definition has_suffix :: "string \<Rightarrow> string \<Rightarrow> bool" where
  "has_suffix s p \<longleftrightarrow> length p \<le> length s \<and> drop (length s - length p) s = p"

definition trim_prefix :: "string \<Rightarrow> string \<Rightarrow> string" where
  "trim_prefix s p = (if has_prefix s p then drop (length p) s else s)"

definition trim_suffix :: "string \<Rightarrow> string \<Rightarrow> string" where
  "trim_suffix s p = (if has_suffix s p then take (length s - length p) s else s)"

fun index_byte :: "string \<Rightarrow> char \<Rightarrow> nat option" where
  "index_byte [] c = None"
| "index_byte (x # xs) c = (if x = c then Some 0 else map_option Suc (index_byte xs c))"

definition last_index_byte :: "string \<Rightarrow> char \<Rightarrow> nat option" where
  "last_index_byte s c = map_option (\<lambda>i. length s - 1 - i) (index_byte (rev s) c)"

fun index_str :: "string \<Rightarrow> string \<Rightarrow> nat option" where
  "index_str [] p = (if p = [] then Some 0 else None)"
| "index_str (x # xs) p = (if has_prefix (x # xs) p then Some 0 else map_option Suc (index_str xs p))"

definition contains_str :: "string \<Rightarrow> string \<Rightarrow> bool" where
  "contains_str s p \<longleftrightarrow> index_str s p \<noteq> None"

fun split_on :: "string \<Rightarrow> char \<Rightarrow> string list" where
  "split_on [] c = [[]]"
| "split_on (x # xs) c =
     (if x = c then [] # split_on xs c
      else (case split_on xs c of [] \<Rightarrow> [[x]] | w # ws \<Rightarrow> (x # w) # ws))"

fun join_with :: "string list \<Rightarrow> string \<Rightarrow> string" where
  "join_with [] sep = []"
| "join_with [w] sep = w"
| "join_with (w # v # ws) sep = w @ sep @ join_with (v # ws) sep"

text \<open>\<open>strings.EqualFold\<close>.\<close>

definition equal_fold :: "string \<Rightarrow> string \<Rightarrow> bool" where
  "equal_fold a b \<longleftrightarrow> to_lower a = to_lower b"

lemmas [go_defs] = to_lower_def trim_left_def trim_right_def trim_space_def has_prefix_def
  has_suffix_def trim_prefix_def trim_suffix_def last_index_byte_def contains_str_def
  equal_fold_def is_space_def lower_char_def


subsection \<open>Case and white space\<close>

lemma to_lower_simps [simp]:
  "to_lower [] = []" "to_lower (x # xs) = lower_char x # to_lower xs"
  "to_lower (xs @ ys) = to_lower xs @ to_lower ys" "to_lower (to_lower s) = to_lower s"
  "length (to_lower s) = length s" "to_lower s = [] \<longleftrightarrow> s = []"
  by (simp_all add: to_lower_def)

lemma to_lower_take_drop:
  "to_lower (take n s) = take n (to_lower s)" "to_lower (drop n s) = drop n (to_lower s)"
  by (simp_all add: to_lower_def take_map drop_map)

lemma dropWhile_space_lower:
  "dropWhile is_space (to_lower s) = to_lower (dropWhile is_space s)"
  by (induction s) auto

lemma to_lower_rev: "to_lower (rev s) = rev (to_lower s)"
  by (simp add: to_lower_def rev_map)

lemma trim_space_to_lower: "trim_space (to_lower s) = to_lower (trim_space s)"
  by (simp add: trim_space_def trim_left_def trim_right_def dropWhile_space_lower
      to_lower_rev flip: to_lower_rev)

lemma trim_space_Nil [simp]: "trim_space [] = []"
  by (simp add: trim_space_def trim_left_def trim_right_def)

lemma trim_right_ends: "trim_right s = [] \<or> \<not> is_space (last (trim_right s))"
  unfolding trim_right_def
  by (metis hd_dropWhile last_rev rev_is_Nil_conv dropWhile_eq_Nil_conv)

lemma trim_right_prefix: "\<exists>r. s = trim_right s @ r"
proof -
  have "s = rev (takeWhile is_space (rev s) @ dropWhile is_space (rev s))"
    by simp
  then have "s = trim_right s @ rev (takeWhile is_space (rev s))"
    unfolding trim_right_def rev_append .
  then show ?thesis by (rule exI)
qed

lemma trim_space_parts: "\<exists>l r. s = l @ trim_space s @ r"
proof -
  have "s = takeWhile is_space s @ trim_left s"
    by (simp add: trim_left_def)
  moreover obtain r where "trim_left s = trim_space s @ r"
    using trim_right_prefix [of "trim_left s"] unfolding trim_space_def by blast
  ultimately have "s = takeWhile is_space s @ trim_space s @ r"
    by simp
  then show ?thesis by blast
qed

lemma set_trim_space: "set (trim_space s) \<subseteq> set s"
  using trim_space_parts [of s] by (metis Un_iff set_append subsetI)

lemma length_trim_space: "length (trim_space s) \<le> length s"
  using trim_space_parts [of s] by (metis length_append le_add2 le_trans le_add1)

lemma trim_left_ends: "trim_left s = [] \<or> \<not> is_space (hd (trim_left s))"
  unfolding trim_left_def by (metis hd_dropWhile dropWhile_eq_Nil_conv)

lemma trim_space_ends:
  "trim_space s = [] \<or> (\<not> is_space (hd (trim_space s)) \<and> \<not> is_space (last (trim_space s)))"
proof (cases "trim_space s = []")
  case False
  obtain r where r: "trim_left s = trim_space s @ r"
    using trim_right_prefix [of "trim_left s"] unfolding trim_space_def by blast
  then have "hd (trim_left s) = hd (trim_space s)" and "trim_left s \<noteq> []"
    using False by simp_all
  then show ?thesis
    using trim_left_ends [of s] trim_right_ends [of "trim_left s"] False
    by (simp add: trim_space_def)
qed simp

text \<open>A string is trimmed when trimming would leave it alone.\<close>

definition trimmed :: "string \<Rightarrow> bool" where
  "trimmed s \<longleftrightarrow> s = [] \<or> (\<not> is_space (hd s) \<and> \<not> is_space (last s))"

lemma trimmed_trim_space [simp]: "trimmed (trim_space s)"
  using trim_space_ends [of s] by (simp add: trimmed_def)

lemma trim_space_trimmed: "trimmed s \<Longrightarrow> trim_space s = s"
proof (cases s rule: rev_cases)
  case (snoc ys y)
  assume "trimmed s"
  with snoc have hd: "\<not> is_space (hd s)" and l: "\<not> is_space y"
    by (auto simp: trimmed_def)
  then have "trim_left s = s"
    by (cases s) (auto simp: trim_left_def snoc)
  moreover have "trim_right s = s"
    using l by (simp add: trim_right_def snoc)
  ultimately show ?thesis by (simp add: trim_space_def)
qed simp

lemma trim_space_idem [simp]: "trim_space (trim_space s) = trim_space s"
  by (simp add: trim_space_trimmed)

lemma trimmed_to_lower: "trimmed s \<Longrightarrow> trimmed (to_lower s)"
  by (cases s rule: rev_cases) (auto simp: trimmed_def hd_append to_lower_def hd_map)

subsection \<open>Prefixes, suffixes, positions\<close>

lemma has_prefix_iff: "has_prefix s p \<longleftrightarrow> (\<exists>r. s = p @ r)"
  unfolding has_prefix_def by (metis append_eq_conv_conj append_take_drop_id)

lemma has_suffix_iff: "has_suffix s p \<longleftrightarrow> (\<exists>r. s = r @ p)"
proof
  assume "has_suffix s p"
  then have "s = take (length s - length p) s @ p"
    unfolding has_suffix_def by (metis append_take_drop_id)
  then show "\<exists>r. s = r @ p" by blast
qed (auto simp: has_suffix_def)

lemma has_prefix_append [simp]: "has_prefix (p @ r) p"
  by (simp add: has_prefix_iff)

lemma has_suffix_append [simp]: "has_suffix (r @ p) p"
  by (simp add: has_suffix_iff)

lemma trim_suffix_append [simp]: "trim_suffix (r @ p) p = r"
  by (simp add: trim_suffix_def)

lemma index_byte_None [simp]: "index_byte s c = None \<longleftrightarrow> c \<notin> set s"
  by (induction s) auto

lemma index_byte_Some:
  "index_byte s c = Some i \<longleftrightarrow>
     i < length s \<and> s ! i = c \<and> c \<notin> set (take i s)"
proof (induction s arbitrary: i)
  case (Cons x xs)
  show ?case
  proof (cases i)
    case (Suc j)
    then show ?thesis using Cons.IH [of j] by auto
  qed auto
qed simp

lemma index_byte_append:
  "c \<notin> set s \<Longrightarrow> index_byte (s @ c # t) c = Some (length s)"
  by (simp add: index_byte_Some nth_append)

lemma last_index_byte_None [simp]: "last_index_byte s c = None \<longleftrightarrow> c \<notin> set s"
  by (simp add: last_index_byte_def)

lemma last_index_byte_append:
  "c \<notin> set t \<Longrightarrow> last_index_byte (s @ c # t) c = Some (length s)"
  using index_byte_append [of c "rev t" "rev s"] by (simp add: last_index_byte_def)

lemma last_index_byte_Some:
  assumes "last_index_byte s c = Some i"
  shows "i < length s" "s = take i s @ c # drop (Suc i) s" "c \<notin> set (drop (Suc i) s)"
proof -
  obtain j where j: "index_byte (rev s) c = Some j" and i: "i = length s - 1 - j"
    using assms by (auto simp: last_index_byte_def)
  have jl: "j < length s" and jc: "rev s ! j = c" and jn: "c \<notin> set (take j (rev s))"
    using j by (simp_all add: index_byte_Some)
  have ij: "j = length s - Suc i" and il: "i < length s" using jl i by auto
  show "i < length s" by (rule il)
  have "s ! i = c" using jc jl il ij by (simp add: rev_nth)
  then show "s = take i s @ c # drop (Suc i) s" using il by (metis id_take_nth_drop)
  have "take j (rev s) = rev (drop (Suc i) s)"
    using ij il by (simp add: take_rev)
  then show "c \<notin> set (drop (Suc i) s)" using jn by simp
qed

subsection \<open>Splitting and joining\<close>

lemma split_on_not_Nil [simp]: "split_on s c \<noteq> []"
  by (induction s) (auto split: list.splits)

lemma join_split_on: "join_with (split_on s c) [c] = s"
proof (induction s)
  case (Cons x xs)
  obtain w ws where "split_on xs c = w # ws"
    by (cases "split_on xs c") auto
  with Cons show ?case by (cases ws) auto
qed simp

lemma split_on_no_sep: "w \<in> set (split_on s c) \<Longrightarrow> c \<notin> set w"
  by (induction s arbitrary: w) (auto split: if_splits list.splits)

lemma split_on_append:
  "c \<notin> set w \<Longrightarrow> split_on (w @ c # s) c = w # split_on s c"
  by (induction w) auto

lemma split_on_single: "c \<notin> set w \<Longrightarrow> split_on w c = [w]"
  by (induction w) auto

lemma split_on_join:
  "ws \<noteq> [] \<Longrightarrow> \<forall>w \<in> set ws. c \<notin> set w \<Longrightarrow> split_on (join_with ws [c]) c = ws"
  by (induction ws "[c]" rule: join_with.induct) (auto simp: split_on_single split_on_append)

lemma length_split_on: "length (split_on s c) = Suc (count_list s c)"
proof (induction s)
  case (Cons x xs)
  then show ?case by (cases "split_on xs c") auto
qed simp

lemma join_with_drop_suffix:
  "i < length ws \<Longrightarrow> \<exists>p. join_with ws sep = p @ join_with (drop i ws) sep"
proof (induction ws sep arbitrary: i rule: join_with.induct)
  case (3 w v ws sep)
  show ?case
  proof (cases i)
    case (Suc j)
    with 3 obtain p where "join_with (v # ws) sep = p @ join_with (drop j (v # ws)) sep"
      by auto
    then show ?thesis using Suc by (metis append.assoc drop_Suc_Cons join_with.simps(3))
  qed simp
qed auto


section \<open>Package strconv\<close>

fun show_nat :: "nat \<Rightarrow> string" where
  "show_nat n = (if n < 10 then [digit_char n] else show_nat (n div 10) @ [digit_char (n mod 10)])"

declare show_nat.simps [simp del]

text \<open>\<open>strconv.Itoa\<close>, \<open>strconv.FormatInt(_, 10)\<close> and the verb \<open>%d\<close>.\<close>

definition format_int :: "int \<Rightarrow> string" where
  "format_int n = (if n < 0 then CHR ''-'' # show_nat (nat (- n)) else show_nat (nat n))"

definition digits_val :: "string \<Rightarrow> nat" where
  "digits_val s = foldl (\<lambda>a c. 10 * a + digit_val c) 0 s"

text \<open>
  \<open>strconv.ParseInt(_, 10, 64)\<close> and \<open>strconv.Atoi\<close>: an optional sign, at least one digit, digits
  only, and a value of 64 signed bits. \<^const>\<open>None\<close> is the error.
\<close>

definition parse_int :: "string \<Rightarrow> int option" where
  "parse_int s =
     (let neg = has_prefix s ''-'';
          body = (if neg \<or> has_prefix s ''+'' then drop 1 s else s)
      in if body = [] \<or> \<not> list_all is_digit body then None
         else (let v = (if neg then - int (digits_val body) else int (digits_val body))
               in if int64_ok v then Some v else None))"

text \<open>\<open>strconv.ParseBool\<close>.\<close>

definition parse_bool :: "string \<Rightarrow> bool option" where
  "parse_bool s =
     (if s \<in> {''1'', ''t'', ''T'', ''true'', ''TRUE'', ''True''} then Some True
      else if s \<in> {''0'', ''f'', ''F'', ''false'', ''FALSE'', ''False''} then Some False
      else None)"

lemma digits_val_snoc: "digits_val (s @ [c]) = 10 * digits_val s + digit_val c"
  by (simp add: digits_val_def)

lemma show_nat_not_Nil [simp]: "show_nat n \<noteq> []"
  by (subst show_nat.simps) simp

lemma show_nat_digits: "list_all is_digit (show_nat n)"
proof (induction n rule: show_nat.induct)
  case (1 n)
  then show ?case by (subst show_nat.simps) simp
qed

lemma digits_val_show_nat: "digits_val (show_nat n) = n"
proof (induction n rule: show_nat.induct)
  case (1 n)
  show ?case
  proof (cases "n < 10")
    case True
    then show ?thesis by (subst show_nat.simps) (simp add: digits_val_def)
  next
    case False
    with 1 show ?thesis by (subst show_nat.simps) (simp add: digits_val_snoc)
  qed
qed

lemma is_digit_not:
  assumes "is_digit c" shows "c \<noteq> CHR ''-''" "c \<noteq> CHR ''+''" "c \<noteq> CHR ''.''"
    "c \<noteq> CHR '':''" "\<not> is_space c"
  using assms by (auto simp: is_digit_def is_space_def)

lemma hd_show_nat: "is_digit (hd (show_nat n))"
  using show_nat_digits [of n] by (cases "show_nat n") auto

lemma has_prefix_single: "has_prefix s [c] \<longleftrightarrow> s \<noteq> [] \<and> hd s = c"
  by (cases s) (auto simp: has_prefix_def)

lemma parse_format_int [simp]: "int64_ok n \<Longrightarrow> parse_int (format_int n) = Some n"
  using hd_show_nat [of "nat n"] show_nat_digits [of "nat n"] show_nat_digits [of "nat (- n)"]
  by (auto simp: parse_int_def format_int_def has_prefix_single digits_val_show_nat Let_def
      dest: is_digit_not)

lemma format_int_chars:
  "c \<in> set (format_int n) \<Longrightarrow> is_digit c \<or> c = CHR ''-''"
  using show_nat_digits [of "nat n"] show_nat_digits [of "nat (- n)"]
  by (auto simp: format_int_def list_all_iff split: if_splits)

lemma format_int_trimmed: "trimmed (format_int n)" and format_int_not_Nil [simp]: "format_int n \<noteq> []"
proof -
  have "\<not> is_space c" if "c \<in> set (format_int n)" for c
    using format_int_chars [OF that] by (auto simp: is_space_def is_digit_def)
  moreover show "format_int n \<noteq> []" by (simp add: format_int_def)
  ultimately show "trimmed (format_int n)" by (simp add: trimmed_def)
qed

lemma parse_int_range: "parse_int s = Some v \<Longrightarrow> int64_ok v"
  by (auto simp: parse_int_def Let_def split: if_splits)

end
