(* ===== verification/Model.thy ===== *)
theory Model
  imports Prelude
begin

text \<open>
  The data of \<open>internal/model/model.go\<close>: the documents kept in MongoDB (domains, accounts,
  messages), the payload SMTP hands to the workers, and the request bodies of the API.
  A BSON object id is twelve bytes, ordered as the database orders them: a 96-bit word. Message
  bytes are lists of 8-bit words. \<open>omitempty\<close> and the other struct tags only concern the
  encoders, which are library code.
\<close>

type_synonym byte = "8 word"
type_synonym bytes = "byte list"
type_synonym object_id = "96 word"

record mail_address =
  ma_name :: string
  ma_address :: string

record attachment =
  at_id :: string
  at_filename :: string
  at_content_type :: string
  at_disposition :: string
  at_transfer_encoding :: string
  at_size :: int

record mail_domain =
  dm_id :: object_id
  dm_domain :: string
  dm_is_active :: bool
  dm_is_private :: bool
  dm_created_at :: time
  dm_updated_at :: time

record account =
  ac_id :: object_id
  ac_address :: string
  ac_password :: string
  ac_quota :: int
  ac_used :: int
  ac_is_deleted :: bool
  ac_created_at :: time
  ac_updated_at :: time

record message =
  ms_id :: object_id
  ms_account_id :: object_id
  ms_msgid :: string
  ms_from :: mail_address
  ms_to :: "mail_address list"
  ms_cc :: "mail_address list"
  ms_bcc :: "mail_address list"
  ms_subject :: string
  ms_intro :: string
  ms_text :: string
  ms_html :: "string list"
  ms_has_attachments :: bool
  ms_attachments :: "attachment list"
  ms_size :: int
  ms_seen :: bool
  ms_is_deleted :: bool
  ms_keep :: bool
  ms_ingest_stream :: string
  ms_ingest_seq :: int
  ms_flagged :: bool
  ms_retention :: bool
  ms_retention_date :: time
  ms_download_url :: string
  ms_raw_message :: bytes
  ms_created_at :: time
  ms_updated_at :: time

text \<open>\<open>IncomingEmail\<close>; the last two fields come from JetStream and are not serialised.\<close>

record incoming_email =
  ie_from :: string
  ie_to :: "string list"
  ie_raw_message :: bytes
  ie_remote_addr :: string
  ie_received_at :: int
  ie_ingest_stream :: string
  ie_ingest_seq :: int

definition empty_email :: incoming_email where
  "empty_email = \<lparr>ie_from = [], ie_to = [], ie_raw_message = [], ie_remote_addr = [],
     ie_received_at = 0, ie_ingest_stream = [], ie_ingest_seq = 0\<rparr>"

record token_request =
  tr_address :: string
  tr_password :: string

record token_response =
  tp_token :: string
  tp_id :: string

record create_account_request =
  cr_address :: string
  cr_domain :: string
  cr_password :: string

record update_message_request =
  ur_seen :: "bool option"
  ur_keep :: "bool option"

record 'm hydra_collection =
  hc_context :: string
  hc_id :: string
  hc_type :: string
  hc_total_items :: int
  hc_member :: "'m list"
  hc_next_cursor :: string

end
