(* ===== verification/Codec.thy ===== *)
theory Codec
  imports Model
begin

text \<open>
  The binary envelope of \<open>internal/queue/codec.go\<close>: four magic bytes, a version, then strings,
  byte strings and counters, each prefixed or written as an unsigned varint. Encoding and
  decoding are the code's functions; \<open>encoding/json\<close>, used for payloads without the magic bytes,
  is the parameter \<open>json\<close>. Offsets into the data are natural numbers: they start at 5 and grow.
\<close>

unbundle bit_operations_syntax

datatype queue_error =
    NilEmail | NilOut | NilMsg
  | StringTooLarge | TooManyRecipients | RecipientTooLarge | RawTooLarge
  | EmptyPayload | JsonFallback | UnsupportedVersion byte
  | Truncated | TruncatedVarint | VarintOverflow | TruncatedString | TruncatedBytes
  | TrailingBytes | InvalidHeaderValue | InvalidRecipient | InvalidReceivedAt

definition email_magic :: bytes where "email_magic = [0x4D, 0x41, 0x49, 0x4C]"
definition email_codec_version :: byte where "email_codec_version = 1"
definition max_to_count :: nat where "max_to_count = 2048"
definition max_string_len :: nat where "max_string_len = 16384"
definition max_raw_len :: nat where "max_raw_len = 67108864"

lemmas codec_limits = max_to_count_def max_string_len_def max_raw_len_def

text \<open>The conversions \<open>[]byte(s)\<close> and \<open>string(b)\<close>, and \<open>uint64(n)\<close> of a length.\<close>

definition bytes_of_string :: "string \<Rightarrow> bytes" where "bytes_of_string s = map of_char s"
definition string_of_bytes :: "bytes \<Rightarrow> string" where
  "string_of_bytes b = map (\<lambda>w. char_of (unat w)) b"
definition uint64_of_len :: "nat \<Rightarrow> 64 word" where "uint64_of_len n = word_of_nat n"

section \<open>Writing\<close>

text \<open>\<open>binary.PutUvarint\<close>: seven bits at a time, the high bit set on all but the last byte.\<close>

function put_uvarint :: "64 word \<Rightarrow> bytes" where
  "put_uvarint x =
     (if 128 \<le> x then (ucast x OR 128) # put_uvarint (drop_bit 7 x) else [ucast x])"
  by pat_completeness auto
termination
proof (relation "measure unat")
  show "(drop_bit 7 x, x) \<in> measure unat" if "128 \<le> x" for x :: "64 word"
    using that by (simp add: drop_bit_eq_div word_le_nat_alt unat_div)
qed simp

declare put_uvarint.simps [simp del]

definition append_uvarint :: "bytes \<Rightarrow> 64 word \<Rightarrow> bytes" where
  "append_uvarint dst v = dst @ put_uvarint v"

definition append_string :: "bytes \<Rightarrow> string \<Rightarrow> bytes" where
  "append_string dst s = append_uvarint dst (uint64_of_len (length s)) @ bytes_of_string s"

definition append_bytes :: "bytes \<Rightarrow> bytes \<Rightarrow> bytes" where
  "append_bytes dst b = append_uvarint dst (uint64_of_len (length b)) @ b"

definition encode_incoming_email :: "incoming_email option \<Rightarrow> queue_error + bytes" where
  "encode_incoming_email email =
     (case email of None \<Rightarrow> Inl NilEmail
      | Some e \<Rightarrow>
        if max_string_len < length (ie_from e) \<or> max_string_len < length (ie_remote_addr e)
        then Inl StringTooLarge
        else if max_to_count < length (ie_to e) then Inl TooManyRecipients
        else if list_ex (\<lambda>r. max_string_len < length r) (ie_to e) then Inl RecipientTooLarge
        else if max_raw_len < length (ie_raw_message e) then Inl RawTooLarge
        else
          (let buf = email_magic @ [email_codec_version];
               buf = append_string buf (ie_from e);
               buf = append_string buf (ie_remote_addr e);
               buf = append_uvarint buf (word_of_int (ie_received_at e));
               buf = append_uvarint buf (uint64_of_len (length (ie_to e)));
               buf = foldl append_string buf (ie_to e)
           in Inr (append_bytes buf (ie_raw_message e))))"

section \<open>Reading\<close>

text \<open>\<open>n\<close> is the loop counter of at most \<open>binary.MaxVarintLen64\<close> (10) bytes, \<open>s\<close> the shift.\<close>

function read_uvarint_loop ::
  "bytes \<Rightarrow> nat \<Rightarrow> nat \<Rightarrow> 64 word \<Rightarrow> nat \<Rightarrow> queue_error + 64 word \<times> nat" where
  "read_uvarint_loop data i n x s =
     (if n < 10 then
        if length data \<le> i then Inl TruncatedVarint
        else (let b = data ! i in
              if b < 0x80 then
                if n = 9 \<and> 1 < b then Inl VarintOverflow
                else Inr (x OR push_bit s (ucast b), i + 1)
              else read_uvarint_loop data (i + 1) (n + 1)
                     (x OR push_bit s (ucast (b AND 0x7F))) (s + 7))
      else Inl VarintOverflow)"
  by pat_completeness auto
termination
  by (relation "measure (\<lambda>(data, i, n, x, s). 10 - n)") auto

declare read_uvarint_loop.simps [simp del]

definition read_uvarint :: "bytes \<Rightarrow> nat \<Rightarrow> queue_error + 64 word \<times> nat" where
  "read_uvarint data off =
     (if length data \<le> off then Inl Truncated else read_uvarint_loop data off 0 0 0)"

definition uint64_remaining :: "bytes \<Rightarrow> nat \<Rightarrow> 64 word" where
  "uint64_remaining data i = word_of_int (int (length data) - int i)"

definition read_string :: "bytes \<Rightarrow> nat \<Rightarrow> queue_error + string \<times> nat" where
  "read_string data off =
     (case read_uvarint data off of Inl err \<Rightarrow> Inl err
      | Inr (n, i) \<Rightarrow>
        if uint64_of_len max_string_len < n then Inl StringTooLarge
        else if uint64_remaining data i < n then Inl TruncatedString
        else Inr (string_of_bytes (take (unat n) (drop i data)), i + unat n))"

definition read_bytes :: "bytes \<Rightarrow> nat \<Rightarrow> queue_error + bytes \<times> nat" where
  "read_bytes data off =
     (case read_uvarint data off of Inl err \<Rightarrow> Inl err
      | Inr (n, i) \<Rightarrow>
        if uint64_of_len max_raw_len < n then Inl RawTooLarge
        else if uint64_remaining data i < n then Inl TruncatedBytes
        else Inr (take (unat n) (drop i data), i + unat n))"

text \<open>The recipients' loop of \<open>decodeIncomingEmail\<close>.\<close>

fun read_strings :: "bytes \<Rightarrow> nat \<Rightarrow> nat \<Rightarrow> queue_error + string list \<times> nat" where
  "read_strings data off 0 = Inr ([], off)"
| "read_strings data off (Suc k) =
     (case read_string data off of Inl err \<Rightarrow> Inl err
      | Inr (r, off') \<Rightarrow>
        (case read_strings data off' k of Inl err \<Rightarrow> Inl err
         | Inr (rs, off'') \<Rightarrow> Inr (r # rs, off'')))"

text \<open>
  \<open>decodeIncomingEmail(data, out)\<close>: the value of \<open>*out\<close> after a success; the fields the codec
  does not carry (\<open>IngestStream\<close>, \<open>IngestSeq\<close>) keep what they held. After an error the caller
  drops \<open>*out\<close>.
\<close>

definition decode_incoming_email ::
  "(bytes \<Rightarrow> incoming_email \<Rightarrow> incoming_email option) \<Rightarrow> bytes \<Rightarrow> incoming_email option
     \<Rightarrow> queue_error + incoming_email" where
  "decode_incoming_email json data outp =
     (case outp of None \<Rightarrow> Inl NilOut
      | Some out0 \<Rightarrow>
        if data = [] then Inl EmptyPayload
        else if length data < 5 \<or> take 4 data \<noteq> email_magic then
          (case json data out0 of None \<Rightarrow> Inl JsonFallback | Some e \<Rightarrow> Inr e)
        else if data ! 4 \<noteq> email_codec_version then Inl (UnsupportedVersion (data ! 4))
        else
          (case read_string data 5 of Inl err \<Rightarrow> Inl err
           | Inr (from, off1) \<Rightarrow>
          (case read_string data off1 of Inl err \<Rightarrow> Inl err
           | Inr (remote, off2) \<Rightarrow>
          (case read_uvarint data off2 of Inl err \<Rightarrow> Inl err
           | Inr (received_at, off3) \<Rightarrow>
          (case read_uvarint data off3 of Inl err \<Rightarrow> Inl err
           | Inr (to_count, off4) \<Rightarrow>
             if uint64_of_len max_to_count < to_count then Inl TooManyRecipients
             else
          (case read_strings data off4 (unat to_count) of Inl err \<Rightarrow> Inl err
           | Inr (to, off5) \<Rightarrow>
          (case read_bytes data off5 of Inl err \<Rightarrow> Inl err
           | Inr (raw, off6) \<Rightarrow>
             if off6 \<noteq> length data then Inl TrailingBytes
             else Inr (out0\<lparr>ie_from := from, ie_remote_addr := remote,
                            ie_received_at := sint received_at, ie_to := to,
                            ie_raw_message := raw\<rparr>))))))))"

section \<open>Varints\<close>

lemma string_of_bytes_of_string [simp]: "string_of_bytes (bytes_of_string s) = s"
proof -
  have "char_of (unat (of_char c :: byte)) = c" for c
  proof -
    have "unat (of_char c :: byte) = of_char c"
      by (cases c) (simp add: of_char_def split: if_splits)
    then show ?thesis by simp
  qed
  then show ?thesis by (simp add: string_of_bytes_def bytes_of_string_def comp_def)
qed

lemma length_bytes_of_string [simp]: "length (bytes_of_string s) = length s"
  by (simp add: bytes_of_string_def)

lemma varint_masks: "(127 :: 64 word) = mask 7" "(127 :: byte) = mask 7" "(128 :: byte) = 2 ^ 7"
  by (simp_all add: mask_eq_exp_minus_1 )

lemma seven_bits: "(v AND 127) OR push_bit 7 (drop_bit 7 v) = (v :: 64 word)"
proof (rule bit_word_eqI)
  fix n assume "n < LENGTH(64)"
  then show "bit (v AND 127 OR push_bit 7 (drop_bit 7 v)) n \<longleftrightarrow> bit v n"
    by (cases "n < 7") (simp_all add: varint_masks bit_simps)
qed

lemma low_byte: "ucast ((ucast (v :: 64 word) OR 128 :: byte) AND 127) = v AND 127"
proof -
  have b: "(ucast v OR 128 :: byte) AND 127 = ucast v AND 127"
    by (simp add: bit.conj_disj_distrib2)
  have "ucast (ucast v AND 127 :: byte) = v AND 127"
  proof (rule bit_word_eqI)
    fix n assume "n < LENGTH(64)"
    then show "bit (ucast (ucast v AND 127 :: byte) :: 64 word) n \<longleftrightarrow> bit (v AND 127) n"
      by (auto simp: varint_masks(1,2) bit_simps)
  qed
  then show ?thesis unfolding b .
qed

lemma high_byte: "\<not> (ucast (v :: 64 word) OR 128 :: byte) < 128"
  using le_word_or1 [of "128 :: byte" "ucast v"] by (simp add: not_less)
lemma high_byte': "\<not> (ucast (v :: 64 word) OR 128 :: byte) < 128"
  using le_word_or2 [of "128 :: byte" "ucast v"] by (simp add: not_less or.commute)

lemma small_byte: "(v :: 64 word) < 128 \<Longrightarrow> (ucast v :: byte) < 128 \<and> ucast (ucast v :: byte) = v"
  by (simp add: word_less_nat_alt  word_unat_eq_iff unsigned_ucast_eq take_bit_eq_mod unat_mod)

lemma drop_small: "unat (v :: 64 word) < 2 ^ k \<Longrightarrow> 7 \<le> k \<Longrightarrow> unat (drop_bit 7 v) < 2 ^ (k - 7)"
proof -
  assume v: "unat v < 2 ^ k" and k: "7 \<le> k"
  have "(2::nat) ^ k = 2 ^ (k - 7) * 2 ^ 7"
    using k by (metis le_add_diff_inverse2 power_add)
  with v show ?thesis by (simp add: drop_bit_eq_div unat_div less_mult_imp_div_less)
qed

lemma read_put_uvarint_loop:
  "n \<le> 9 \<Longrightarrow> unat v < 2 ^ (64 - 7 * n) \<Longrightarrow>
   read_uvarint_loop (pre @ put_uvarint v @ rest) (length pre) n x (7 * n) =
     Inr (x OR push_bit (7 * n) v, length pre + length (put_uvarint v))"
proof (induction v arbitrary: pre n x rule: put_uvarint.induct)
  case (1 v)
  show ?case
  proof (cases "128 \<le> v")
    case False
    then have b: "(ucast v :: byte) < 128 \<and> ucast (ucast v :: byte) = v"
      by (simp add: small_byte not_le)
    have "\<not> 1 < (ucast v :: byte)" if "n = 9"
    proof -
      have "unat v < 2" using 1(3) that by simp
      then show ?thesis using b
        by (simp add: word_less_nat_alt unsigned_ucast_eq take_bit_eq_mod unat_mod)
    qed
    then show ?thesis using False b 1(2)
      by (subst read_uvarint_loop.simps) (auto simp: put_uvarint.simps [of v] nth_append Let_def)
  next
    case True
    have n: "n \<noteq> 9"
    proof
      assume "n = 9"
      with 1(3) have "unat v < 2" by simp
      with True show False by (simp add: word_le_nat_alt)
    qed
    have put: "put_uvarint v = (ucast v OR 128) # put_uvarint (drop_bit 7 v)"
      using True by (simp add: put_uvarint.simps [of v])
    have small: "unat (drop_bit 7 v) < 2 ^ (64 - 7 * (n + 1))"
      using drop_small [OF 1(3)] 1(2) n by (simp add: diff_diff_add)
    have sum: "push_bit (7 * n) (v AND 127) OR push_bit (7 * (n + 1)) (drop_bit 7 v) = push_bit (7 * n) v"
      using arg_cong [OF seven_bits [of v], of "push_bit (7 * n)"]
      by (simp add: push_bit_or push_bit_push_bit add.commute)
    have "read_uvarint_loop (pre @ put_uvarint v @ rest) (length pre) n x (7 * n) =
        read_uvarint_loop ((pre @ [ucast v OR 128]) @ put_uvarint (drop_bit 7 v) @ rest)
          (length (pre @ [ucast v OR 128 :: byte])) (n + 1) (x OR push_bit (7 * n) (v AND 127)) (7 * (n + 1))"
      using 1(2) n high_byte [of v] by (subst read_uvarint_loop.simps) (simp add: put nth_append low_byte add.commute)
    also have "\<dots> = Inr ((x OR push_bit (7 * n) (v AND 127)) OR push_bit (7 * (n + 1)) (drop_bit 7 v),
        length (pre @ [ucast v OR 128 :: byte]) + length (put_uvarint (drop_bit 7 v)))"
      by (rule 1(1)) (use True 1(2) n small in simp_all)
    also have "\<dots> = Inr (x OR push_bit (7 * n) v, length pre + length (put_uvarint v))"
      by (simp only: put or.assoc sum) simp
    finally show ?thesis .
  qed
qed

lemma put_uvarint_not_Nil [simp]: "put_uvarint v \<noteq> []"
  by (subst put_uvarint.simps) simp

lemma read_put_uvarint [simp]:
  "read_uvarint (pre @ put_uvarint v @ rest) (length pre) = Inr (v, length pre + length (put_uvarint v))"
  using read_put_uvarint_loop [of 0 v pre rest 0] unsigned_less [of v] by (simp add: read_uvarint_def)

lemma length_put_uvarint: "unat v < 2 ^ (7 * k) \<Longrightarrow> 0 < k \<Longrightarrow> length (put_uvarint v) \<le> k"
proof (induction v arbitrary: k rule: put_uvarint.induct)
  case (1 v)
  show ?case
  proof (cases "128 \<le> v")
    case True
    have k: "1 < k"
    proof (rule ccontr)
      assume "\<not> 1 < k"
      with 1(3) have "k = 1" by simp
      with 1(2) True show False by (simp add: word_le_nat_alt)
    qed
    have "unat (drop_bit 7 v) < 2 ^ (7 * (k - 1))"
      using drop_small [OF 1(2)] k by (simp add: right_diff_distrib')
    then have "length (put_uvarint (drop_bit 7 v)) \<le> k - 1"
      using 1(1) True k by simp
    then show ?thesis using True k by (simp add: put_uvarint.simps [of v])
  next
    case False
    then show ?thesis using 1(3) by (simp add: put_uvarint.simps [of v])
  qed
qed

lemma length_put_uvarint_10: "length (put_uvarint v) \<le> 10"
proof (rule length_put_uvarint)
  have "unat v < 2 ^ 64" using unsigned_less [of v] by simp
  then show "unat v < 2 ^ (7 * 10)" by (rule order.strict_trans) simp
qed simp

section \<open>The round trip\<close>

lemma unat_uint64_of_len [simp]: "n < 2 ^ 64 \<Longrightarrow> unat (uint64_of_len n) = n"
  by (simp add: uint64_of_len_def unat_of_nat take_bit_eq_mod)

lemma len64: "LENGTH(64) = 64" by simp

lemma unat_uint64_remaining:
  assumes "i \<le> length data" "length data < 2 ^ 64"
  shows "unat (uint64_remaining data i) = length data - i"
proof -
  have "uint64_remaining data i = word_of_nat (length data - i)"
    unfolding uint64_remaining_def of_nat_diff [OF assms(1), symmetric] by (rule of_int_of_nat_eq)
  moreover have "length data - i < 2 ^ 64" using assms(2) by (rule less_imp_diff_less)
  ultimately show ?thesis by (simp only: unat_of_nat take_bit_eq_mod len64) simp
qed

definition put_string :: "string \<Rightarrow> bytes" where
  "put_string s = put_uvarint (uint64_of_len (length s)) @ bytes_of_string s"

lemma append_string_put: "append_string dst s = dst @ put_string s"
  by (simp add: append_string_def append_uvarint_def put_string_def)

lemma foldl_append_string: "foldl append_string dst ss = dst @ concat (map put_string ss)"
  by (induction ss arbitrary: dst) (simp_all add: append_string_put)

lemma read_put_string:
  assumes "length s \<le> max_string_len" "length (pre @ put_string s @ rest) < 2 ^ 64"
  shows "read_string (pre @ put_string s @ rest) (length pre)
           = Inr (s, length (pre @ put_string s))"
proof -
  let ?v = "uint64_of_len (length s)" and ?d = "pre @ put_string s @ rest"
  have len: "length s < 2 ^ 64" using assms(1) by (simp add: max_string_len_def)
  have n: "unat ?v = length s" using len by simp
  have big: "\<not> uint64_of_len max_string_len < ?v"
    using assms(1) len by (simp add: word_less_nat_alt max_string_len_def)
  have i: "length pre + length (put_uvarint ?v) \<le> length ?d"
    by (simp add: put_string_def)
  have rem: "\<not> uint64_remaining ?d (length pre + length (put_uvarint ?v)) < ?v"
    unfolding word_less_nat_alt unat_uint64_remaining [OF i assms(2)] n
    by (simp add: put_string_def)
  have rd: "read_uvarint ?d (length pre) = Inr (?v, length pre + length (put_uvarint ?v))"
    using read_put_uvarint [of pre ?v "bytes_of_string s @ rest"] by (simp add: put_string_def)
  show ?thesis
    unfolding read_string_def rd using big rem n by (simp add: put_string_def)
qed

lemma read_put_strings:
  assumes "\<forall>s \<in> set ss. length s \<le> max_string_len"
    and "length (pre @ concat (map put_string ss) @ rest) < 2 ^ 64"
  shows "read_strings (pre @ concat (map put_string ss) @ rest) (length pre) (length ss)
           = Inr (ss, length (pre @ concat (map put_string ss)))"
  using assms
proof (induction ss arbitrary: pre)
  case (Cons s ss)
  have "read_string (pre @ put_string s @ concat (map put_string ss) @ rest) (length pre)
      = Inr (s, length (pre @ put_string s))"
    by (rule read_put_string) (use Cons.prems in simp_all)
  moreover have "read_strings ((pre @ put_string s) @ concat (map put_string ss) @ rest)
      (length (pre @ put_string s)) (length ss)
      = Inr (ss, length ((pre @ put_string s) @ concat (map put_string ss)))"
    by (rule Cons.IH) (use Cons.prems in simp_all)
  ultimately show ?case by simp
qed simp

lemma read_put_bytes:
  assumes "length b \<le> max_raw_len"
    and "length (pre @ put_uvarint (uint64_of_len (length b)) @ b) < 2 ^ 64"
  shows "read_bytes (pre @ put_uvarint (uint64_of_len (length b)) @ b) (length pre)
           = Inr (b, length (pre @ put_uvarint (uint64_of_len (length b)) @ b))"
proof -
  let ?v = "uint64_of_len (length b)"
  let ?d = "pre @ put_uvarint ?v @ b"
  have len: "length b < 2 ^ 64" using assms(1) by (simp add: max_raw_len_def)
  have n: "unat ?v = length b" using len by simp
  have big: "\<not> uint64_of_len max_raw_len < ?v"
    using assms(1) len by (simp add: word_less_nat_alt max_raw_len_def)
  have rem: "\<not> uint64_remaining ?d (length pre + length (put_uvarint ?v)) < ?v"
    unfolding word_less_nat_alt by (subst unat_uint64_remaining) (use assms(2) n in simp_all)
  show ?thesis
    unfolding read_bytes_def read_put_uvarint using big rem n by simp
qed

lemma encode_incoming_email_Inr:
  assumes "encode_incoming_email (Some e) = Inr data"
  shows "length (ie_from e) \<le> max_string_len" "length (ie_remote_addr e) \<le> max_string_len"
    "length (ie_to e) \<le> max_to_count" "\<forall>r \<in> set (ie_to e). length r \<le> max_string_len"
    "length (ie_raw_message e) \<le> max_raw_len"
    "data = (email_magic @ [email_codec_version]) @ put_string (ie_from e)
       @ put_string (ie_remote_addr e) @ put_uvarint (word_of_int (ie_received_at e))
       @ put_uvarint (uint64_of_len (length (ie_to e))) @ concat (map put_string (ie_to e))
       @ put_uvarint (uint64_of_len (length (ie_raw_message e))) @ ie_raw_message e"
  using assms
  by (auto simp: encode_incoming_email_def list_ex_iff Let_def append_string_put append_bytes_def
      append_uvarint_def foldl_append_string split: if_splits)


lemma length_put_string: "length (put_string s) \<le> 10 + length s"
  using length_put_uvarint_10 [of "uint64_of_len (length s)"] by (simp add: put_string_def)

lemma length_concat_put_string:
  "\<forall>s \<in> set ss. length s \<le> k \<Longrightarrow> length (concat (map put_string ss)) \<le> length ss * (10 + k)"
proof (induction ss)
  case (Cons s ss)
  then show ?case using length_put_string [of s] by simp
qed simp

lemma length_encoded:
  assumes "encode_incoming_email (Some e) = Inr data"
  shows "length data < 2 ^ 64"
proof -
  note enc = encode_incoming_email_Inr [OF assms]
  have "length (concat (map put_string (ie_to e))) \<le> max_to_count * (10 + max_string_len)"
    using length_concat_put_string [OF enc(4)] enc(3) by (meson le_trans mult_le_mono1)
  then have "length data \<le> 100000000 + 100000000 + 100000000"
    unfolding enc(6) using enc(1,2,5) length_put_string [of "ie_from e"]
      length_put_string [of "ie_remote_addr e"]
      length_put_uvarint_10 [of "word_of_int (ie_received_at e)"]
      length_put_uvarint_10 [of "uint64_of_len (length (ie_to e))"]
      length_put_uvarint_10 [of "uint64_of_len (length (ie_raw_message e))"]
    by (simp add: email_magic_def codec_limits)
  then show ?thesis by simp
qed

lemma int64_word_roundtrip: "int64_ok n \<Longrightarrow> sint (word_of_int n :: 64 word) = n"
  by (simp add: int64_ok_def signed_of_int signed_take_bit_int_eq_self)

text \<open>The fields \<open>decodeIncomingEmail\<close> leaves to the JetStream metadata.\<close>

definition with_ingest :: "incoming_email \<Rightarrow> incoming_email \<Rightarrow> incoming_email" where
  "with_ingest out0 e = e\<lparr>ie_ingest_stream := ie_ingest_stream out0, ie_ingest_seq := ie_ingest_seq out0\<rparr>"

lemma decode_encode_incoming_email:
  assumes enc: "encode_incoming_email (Some e) = Inr data" and r: "int64_ok (ie_received_at e)"
  shows "decode_incoming_email json data (Some out0) = Inr (with_ingest out0 e)"
proof -
  note E = encode_incoming_email_Inr [OF enc]
  note len = length_encoded [OF enc, unfolded E(6)]
  let ?h = "email_magic @ [email_codec_version]"
  let ?u = "put_uvarint (word_of_int (ie_received_at e))"
  let ?c = "put_uvarint (uint64_of_len (length (ie_to e)))"
  let ?b = "put_uvarint (uint64_of_len (length (ie_raw_message e)))"
  let ?d1 = "?h @ put_string (ie_from e)"
  let ?d2 = "?d1 @ put_string (ie_remote_addr e)"
  let ?d3 = "?d2 @ ?u"
  let ?d4 = "?d3 @ ?c"
  let ?d5 = "?d4 @ concat (map put_string (ie_to e))"
  have h5: "length ?h = 5" and hd: "take 4 data = email_magic" "data ! 4 = email_codec_version"
    "\<not> length data < 5" "data \<noteq> []"
    by (simp_all add: E(6) email_magic_def)
  have s1: "read_string data 5 = Inr (ie_from e, length ?d1)"
    using read_put_string [OF E(1), of ?h] len unfolding E(6) h5 [symmetric] by simp
  have s2: "read_string data (length ?d1) = Inr (ie_remote_addr e, length ?d2)"
    using read_put_string [OF E(2), of ?d1] len unfolding E(6) by simp
  have s3: "read_uvarint data (length ?d2) = Inr (word_of_int (ie_received_at e), length ?d3)"
    using read_put_uvarint [of ?d2] unfolding E(6) by simp
  have s4: "read_uvarint data (length ?d3) = Inr (uint64_of_len (length (ie_to e)), length ?d4)"
    using read_put_uvarint [of ?d3] unfolding E(6) by simp
  have c: "unat (uint64_of_len (length (ie_to e))) = length (ie_to e)"
    "\<not> uint64_of_len max_to_count < uint64_of_len (length (ie_to e))"
    using E(3) by (simp_all add: word_less_nat_alt max_to_count_def)
  have s5: "read_strings data (length ?d4) (length (ie_to e)) = Inr (ie_to e, length ?d5)"
    using read_put_strings [OF E(4), of ?d4] len unfolding E(6) by simp
  have s6: "read_bytes data (length ?d5) = Inr (ie_raw_message e, length data)"
    using read_put_bytes [OF E(5), of ?d5] len unfolding E(6) by simp
  show ?thesis
    unfolding decode_incoming_email_def
    by (simp only: option.case hd s1 s2 s3 s4 s5 s6 c sum.case prod.case if_False simp_thms)
       (simp add: with_ingest_def int64_word_roundtrip [OF r])
qed

section \<open>What a decoder accepts\<close>

lemma email_magic_not_Nil [simp]: "email_magic \<noteq> []" "[] \<noteq> email_magic"
  by (simp_all add: email_magic_def)

lemma read_uvarint_loop_Inr:
  "read_uvarint_loop data i n x s = Inr (v, j) \<Longrightarrow>
     i < j \<and> j \<le> length data \<and> read_uvarint_loop (data @ extra) i n x s = Inr (v, j)"
proof (induction data i n x s rule: read_uvarint_loop.induct)
  case (1 data i n x s)
  have c: "n < 10" "i < length data"
    using 1(2) by (auto simp: read_uvarint_loop.simps [of data i n x s] split: if_splits)
  show ?case
  proof (cases "data ! i < 0x80")
    case True
    with 1(2) c show ?thesis
      by (auto simp: read_uvarint_loop.simps [of _ i n x s] nth_append Let_def split: if_splits)
  next
    case False
    with 1 c show ?thesis
      by (auto simp: read_uvarint_loop.simps [of _ i n x s] nth_append Let_def)
  qed
qed

lemma read_uvarint_Inr:
  assumes "read_uvarint data i = Inr (v, j)"
  shows "i < j" "j \<le> length data" "read_uvarint (data @ extra) i = Inr (v, j)"
  using assms read_uvarint_loop_Inr [of data i 0 0 0 v j extra]
  by (auto simp: read_uvarint_def split: if_splits)

lemma uint64_room:
  assumes "\<not> uint64_remaining data i < n" "i \<le> length data" "length data < 2 ^ 64"
  shows "i + unat n \<le> length data"
  using assms unat_uint64_remaining [OF assms(2,3)] by (simp add: word_less_nat_alt)

lemma read_string_Inr:
  assumes "read_string data i = Inr (s, j)" and d: "length data < 2 ^ 64"
  shows "length s \<le> max_string_len" "i < j" "j \<le> length data"
    "length (data @ extra) < 2 ^ 64 \<Longrightarrow> read_string (data @ extra) i = Inr (s, j)"
proof -
  obtain n k where nk: "read_uvarint data i = Inr (n, k)" and big: "\<not> uint64_of_len max_string_len < n"
    and room: "\<not> uint64_remaining data k < n"
    and s: "s = string_of_bytes (take (unat n) (drop k data))" and j: "j = k + unat n"
    using assms(1) by (auto simp: read_string_def split: sum.splits if_splits)
  note u = read_uvarint_Inr [OF nk]
  have r: "k + unat n \<le> length data" by (rule uint64_room [OF room u(2) d])
  have "unat n \<le> max_string_len" using big by (simp add: word_less_nat_alt max_string_len_def)
  then show "length s \<le> max_string_len" using s r by (simp add: string_of_bytes_def)
  show "i < j" "j \<le> length data" using u(1) r j by simp_all
  assume e: "length (data @ extra) < 2 ^ 64"
  have "unat (uint64_remaining (data @ extra) k) = length (data @ extra) - k"
    by (rule unat_uint64_remaining [OF _ e]) (use u(2) in simp)
  then have "\<not> uint64_remaining (data @ extra) k < n"
    using r by (simp add: word_less_nat_alt)
  then show "read_string (data @ extra) i = Inr (s, j)"
    using big r u(2) unfolding read_string_def u(3) by (simp add: s j)
qed

lemma read_bytes_Inr:
  assumes "read_bytes data i = Inr (b, j)" and d: "length data < 2 ^ 64"
  shows "length b \<le> max_raw_len" "i < j" "j \<le> length data"
    "length (data @ extra) < 2 ^ 64 \<Longrightarrow> read_bytes (data @ extra) i = Inr (b, j)"
proof -
  obtain n k where nk: "read_uvarint data i = Inr (n, k)" and big: "\<not> uint64_of_len max_raw_len < n"
    and room: "\<not> uint64_remaining data k < n"
    and b: "b = take (unat n) (drop k data)" and j: "j = k + unat n"
    using assms(1) by (auto simp: read_bytes_def split: sum.splits if_splits)
  note u = read_uvarint_Inr [OF nk]
  have r: "k + unat n \<le> length data" by (rule uint64_room [OF room u(2) d])
  have "unat n \<le> max_raw_len" using big by (simp add: word_less_nat_alt max_raw_len_def)
  then show "length b \<le> max_raw_len" using b r by simp
  show "i < j" "j \<le> length data" using u(1) r j by simp_all
  assume e: "length (data @ extra) < 2 ^ 64"
  have "unat (uint64_remaining (data @ extra) k) = length (data @ extra) - k"
    by (rule unat_uint64_remaining [OF _ e]) (use u(2) in simp)
  then have "\<not> uint64_remaining (data @ extra) k < n"
    using r by (simp add: word_less_nat_alt)
  then show "read_bytes (data @ extra) i = Inr (b, j)"
    using big r u(2) unfolding read_bytes_def u(3) by (simp add: b j)
qed

lemma read_strings_Inr:
  assumes "read_strings data i k = Inr (ss, j)" and "length data < 2 ^ 64"
  shows "length ss = k \<and> (\<forall>s \<in> set ss. length s \<le> max_string_len) \<and> i \<le> j \<and> (i \<le> length data \<longrightarrow> j \<le> length data)
    \<and> (length (data @ extra) < 2 ^ 64 \<longrightarrow> read_strings (data @ extra) i k = Inr (ss, j))"
  using assms(1)
proof (induction k arbitrary: i ss j)
  case (Suc k)
  then obtain s i' ss' where h: "read_string data i = Inr (s, i')"
    "read_strings data i' k = Inr (ss', j)" "ss = s # ss'"
    by (auto split: sum.splits)
  note a = read_string_Inr(1-3) [OF h(1) assms(2)] read_string_Inr(4) [OF h(1) assms(2), of extra]
  show ?case using Suc.IH [OF h(2)] a h(3) by auto
qed simp

text \<open>The six reads of a successful binary decoding.\<close>

lemma decode_incoming_email_Inr:
  assumes dec: "decode_incoming_email json data (Some out0) = Inr e"
    and magic: "take 4 data = email_magic" and len: "5 \<le> length data"
  obtains o1 o2 o3 o4 o5 r n
  where "data ! 4 = email_codec_version"
    "read_string data 5 = Inr (ie_from e, o1)" "read_string data o1 = Inr (ie_remote_addr e, o2)"
    "read_uvarint data o2 = Inr (r, o3)" "ie_received_at e = sint r"
    "read_uvarint data o3 = Inr (n, o4)" "\<not> uint64_of_len max_to_count < n"
    "read_strings data o4 (unat n) = Inr (ie_to e, o5)"
    "read_bytes data o5 = Inr (ie_raw_message e, length data)"
    "e = with_ingest out0 e"
proof -
  have "data \<noteq> []" "\<not> (length data < 5 \<or> take 4 data \<noteq> email_magic)" using magic len by auto
  with dec obtain f b m b2 r b3 n b4 ts b5 w where *: "data ! 4 = email_codec_version"
    "read_string data 5 = Inr (f, b)" "read_string data b = Inr (m, b2)"
    "read_uvarint data b2 = Inr (r, b3)" "read_uvarint data b3 = Inr (n, b4)"
    "\<not> uint64_of_len max_to_count < n" "read_strings data b4 (unat n) = Inr (ts, b5)"
    "read_bytes data b5 = Inr (w, length data)"
    "e = out0\<lparr>ie_from := f, ie_remote_addr := m, ie_received_at := sint r, ie_to := ts,
       ie_raw_message := w\<rparr>"
    by (auto simp: decode_incoming_email_def split: if_splits sum.splits)
  show thesis
    by (rule that [of b b2 r b3 n b4 b5]) (use * in \<open>simp_all add: with_ingest_def\<close>)
qed

lemma decoded_within_limits:
  assumes "decode_incoming_email json data (Some out0) = Inr e"
    and "take 4 data = email_magic" "5 \<le> length data" "length data < 2 ^ 63"
  shows "\<exists>w. encode_incoming_email (Some e) = Inr w" "int64_ok (ie_received_at e)"
proof -
  have d: "length data < 2 ^ 64" using assms(4) by simp
  show "\<exists>w. encode_incoming_email (Some e) = Inr w"
  proof (rule decode_incoming_email_Inr [OF assms(1-3)])
    fix o1 o2 o3 o4 o5 r n
    assume *: "read_string data 5 = Inr (ie_from e, o1)" "read_string data o1 = Inr (ie_remote_addr e, o2)"
      "\<not> uint64_of_len max_to_count < n" "read_strings data o4 (unat n) = Inr (ie_to e, o5)"
      "read_bytes data o5 = Inr (ie_raw_message e, length data)"
    have "unat n \<le> max_to_count" using *(3) by (simp add: word_less_nat_alt max_to_count_def)
    then show ?thesis
      using read_string_Inr(1) [OF *(1) d] read_string_Inr(1) [OF *(2) d]
        read_strings_Inr [OF *(4) d] read_bytes_Inr(1) [OF *(5) d]
      by (auto simp: encode_incoming_email_def list_ex_iff not_less)
  qed
  show "int64_ok (ie_received_at e)"
  proof (rule decode_incoming_email_Inr [OF assms(1-3)])
    fix r :: "64 word" assume "ie_received_at e = sint r"
    then show ?thesis using sint_range_size [of r] by (simp add: int64_ok_def word_size)
  qed
qed

lemma decode_trailing:
  assumes "decode_incoming_email json data (Some out0) = Inr e"
    and "take 4 data = email_magic" "5 \<le> length data" "length (data @ extra) < 2 ^ 63" "extra \<noteq> []"
  shows "decode_incoming_email json (data @ extra) (Some out0) = Inl TrailingBytes"
proof (rule decode_incoming_email_Inr [OF assms(1-3)])
  fix o1 o2 o3 o4 o5 r n
  assume *: "data ! 4 = email_codec_version"
    "read_string data 5 = Inr (ie_from e, o1)" "read_string data o1 = Inr (ie_remote_addr e, o2)"
    "read_uvarint data o2 = Inr (r, o3)" "read_uvarint data o3 = Inr (n, o4)"
    "\<not> uint64_of_len max_to_count < n" "read_strings data o4 (unat n) = Inr (ie_to e, o5)"
    "read_bytes data o5 = Inr (ie_raw_message e, length data)"
  have d: "length data < 2 ^ 64" "length (data @ extra) < 2 ^ 64" using assms(4) by simp_all
  have h: "\<not> (length (data @ extra) < 5 \<or> take 4 (data @ extra) \<noteq> email_magic)" "data @ extra \<noteq> []"
    "(data @ extra) ! 4 = email_codec_version"
    using assms(2,3) *(1) by (auto simp: nth_append)
  have s: "read_string (data @ extra) 5 = Inr (ie_from e, o1)"
    "read_string (data @ extra) o1 = Inr (ie_remote_addr e, o2)"
    "read_uvarint (data @ extra) o2 = Inr (r, o3)" "read_uvarint (data @ extra) o3 = Inr (n, o4)"
    "read_strings (data @ extra) o4 (unat n) = Inr (ie_to e, o5)"
    "read_bytes (data @ extra) o5 = Inr (ie_raw_message e, length data)"
    using read_string_Inr(4) [OF *(2) d] read_string_Inr(4) [OF *(3) d] read_uvarint_Inr(3) [OF *(4)]
      read_uvarint_Inr(3) [OF *(5)] read_strings_Inr [OF *(7) d(1), of extra] d(2)
      read_bytes_Inr(4) [OF *(8) d] by simp_all
  show ?thesis
    unfolding decode_incoming_email_def using h *(6) assms(5) by (simp add: s)
qed


section \<open>Codecs as an interface\<close>

text \<open>
  What the queue relies on: an e-mail the publisher accepts is read back by the consumer, apart
  from the ingest fields, which the consumer fills in itself. The binary envelope is one
  implementation, the header encoding of \<open>queue.go\<close> the other.
\<close>

locale email_codec =
  fixes enc :: "incoming_email \<Rightarrow> 'err + 'wire"
    and dec :: "'wire \<Rightarrow> incoming_email \<Rightarrow> 'err + incoming_email"
    and sendable :: "incoming_email \<Rightarrow> bool"
  assumes round_trip: "sendable e \<Longrightarrow> \<exists>w. enc e = Inr w \<and> dec w out0 = Inr (with_ingest out0 e)"
begin

lemma sent_is_read: "sendable e \<Longrightarrow> enc e = Inr w \<Longrightarrow> dec w out0 = Inr (with_ingest out0 e)"
  using round_trip [of e out0] by auto

lemma enc_injective:
  "sendable e \<Longrightarrow> sendable e' \<Longrightarrow> enc e = enc e' \<Longrightarrow> with_ingest out0 e = with_ingest out0 e'"
  using round_trip [of e out0] round_trip [of e' out0] by auto

lemma batch_is_read:
  "list_all sendable es \<Longrightarrow>
     \<exists>ws. map enc es = map Inr ws \<and> map (\<lambda>w. dec w out0) ws = map (\<lambda>e. Inr (with_ingest out0 e)) es"
proof (induction es)
  case (Cons e es)
  then obtain w ws where "enc e = Inr w" "dec w out0 = Inr (with_ingest out0 e)"
    "map enc es = map Inr ws" "map (\<lambda>w. dec w out0) ws = map (\<lambda>e. Inr (with_ingest out0 e)) es"
    using round_trip [of e out0] by auto
  then show ?case by (intro exI [of _ "w # ws"]) simp
qed simp

end

definition within_limits :: "incoming_email \<Rightarrow> bool" where
  "within_limits e \<longleftrightarrow>
     length (ie_from e) \<le> max_string_len \<and> length (ie_remote_addr e) \<le> max_string_len \<and>
     length (ie_to e) \<le> max_to_count \<and> list_all (\<lambda>r. length r \<le> max_string_len) (ie_to e) \<and>
     length (ie_raw_message e) \<le> max_raw_len \<and> int64_ok (ie_received_at e)"

lemma encode_within_limits: "within_limits e \<Longrightarrow> \<exists>w. encode_incoming_email (Some e) = Inr w"
  by (auto simp: within_limits_def encode_incoming_email_def list_all_iff list_ex_iff not_less)

interpretation binary_codec: email_codec
  "\<lambda>e. encode_incoming_email (Some e)" "\<lambda>w out0. decode_incoming_email json w (Some out0)" within_limits
  for json
proof unfold_locales
  fix e out0 assume e: "within_limits e"
  then obtain w where w: "encode_incoming_email (Some e) = Inr w"
    using encode_within_limits by blast
  have "int64_ok (ie_received_at e)" using e by (simp add: within_limits_def)
  with w show "\<exists>w. encode_incoming_email (Some e) = Inr w \<and>
      decode_incoming_email json w (Some out0) = Inr (with_ingest out0 e)"
    using decode_encode_incoming_email by blast
qed

section \<open>Properties of the envelope\<close>

definition sample_email :: incoming_email where
  "sample_email = \<lparr>ie_from = ''a@b'', ie_to = [''c@d''], ie_raw_message = [72, 105],
     ie_remote_addr = ''1'', ie_received_at = 300, ie_ingest_stream = [], ie_ingest_seq = 0\<rparr>"

definition sample_envelope :: bytes where
  "sample_envelope = [0x4D, 0x41, 0x49, 0x4C, 1, 3, 97, 64, 98, 1, 49, 172, 2, 1, 3, 99, 64, 100, 2, 72, 105]"

lemma with_ingest_sample [simp]: "with_ingest empty_email sample_email = sample_email"
  by (simp add: with_ingest_def empty_email_def sample_email_def)

lemma int64_ok_sample [simp]: "int64_ok (ie_received_at sample_email)"
  by (simp add: sample_email_def int64_ok_def)

lemma put_uvarint_small: "x < 128 \<Longrightarrow> put_uvarint x = [ucast x]"
  by (simp add: put_uvarint.simps not_le)

lemma encode_sample: "encode_incoming_email (Some sample_email) = Inr sample_envelope"
proof -
  have "put_uvarint 300 = [172, 2]"
    by (simp add: put_uvarint.simps drop_bit_eq_div)
  then show ?thesis
    by (simp add: encode_incoming_email_def sample_email_def sample_envelope_def codec_limits
        append_string_def append_bytes_def append_uvarint_def uint64_of_len_def put_uvarint_small
        bytes_of_string_def email_magic_def email_codec_version_def)
qed

text \<open>
  C22: an incoming e-mail within the size limits is encoded, and decoding the bytes gives back its
  sender, remote address, reception time, recipients in order and raw message, whatever the JSON
  fallback does; only the two ingest fields keep what the consumer had put there.
\<close>

theorem binary_envelope_roundtrip:
  assumes "within_limits e"
  shows "\<exists>w. encode_incoming_email (Some e) = Inr w \<and>
    decode_incoming_email json w (Some out0) = Inr (with_ingest out0 e)"
  using assms by (rule binary_codec.round_trip)

theorem binary_envelope_roundtrip_witness:
  "decode_incoming_email (\<lambda>_ _. None) sample_envelope (Some empty_email) = Inr sample_email"
proof -
  have "within_limits sample_email"
    by (simp add: within_limits_def sample_email_def codec_limits int64_ok_def)
  from binary_envelope_roundtrip [OF this, of "\<lambda>_ _. None" empty_email] show ?thesis
    by (simp add: encode_sample)
qed

text \<open>
  What the decoder accepts in the binary form is always within the limits again (16 KiB per
  string, 2048 recipients, 64 MiB of raw message, a 64-bit reception time), so it can be
  re-encoded; no declared length makes it read past the data.
\<close>

theorem binary_decode_bounded:
  assumes "decode_incoming_email json data (Some out0) = Inr e"
    and "take 4 data = email_magic" "5 \<le> length data" "length data < 2 ^ 63"
  shows "within_limits e \<and> (\<exists>w. encode_incoming_email (Some e) = Inr w)"
proof -
  from decoded_within_limits [OF assms] obtain w where
    w: "encode_incoming_email (Some e) = Inr w" and r: "int64_ok (ie_received_at e)" by blast
  show ?thesis
    using encode_incoming_email_Inr [OF w] r w by (simp add: within_limits_def list_all_iff)
qed

theorem binary_decode_bounded_witness:
  "within_limits sample_email \<and> (\<exists>w. encode_incoming_email (Some sample_email) = Inr w)"
proof (rule binary_decode_bounded)
  show "decode_incoming_email (\<lambda>_ _. None) sample_envelope (Some empty_email) = Inr sample_email"
    using decode_encode_incoming_email [OF encode_sample, of "\<lambda>_ _. None" empty_email] by simp
qed (simp_all add: sample_envelope_def email_magic_def)

text \<open>
  The binary form is self-delimiting: any bytes after a complete envelope are refused as
  trailing bytes, so no envelope is a proper prefix of another one.
\<close>

theorem binary_trailing_refused:
  assumes "decode_incoming_email json data (Some out0) = Inr e"
    and "take 4 data = email_magic" "5 \<le> length data" "length (data @ extra) < 2 ^ 63" "extra \<noteq> []"
  shows "decode_incoming_email json (data @ extra) (Some out0) = Inl TrailingBytes"
  using assms by (rule decode_trailing)

theorem binary_trailing_refused_witness:
  "decode_incoming_email (\<lambda>_ _. None) (sample_envelope @ [0]) (Some empty_email) = Inl TrailingBytes"
proof (rule binary_trailing_refused)
  show "decode_incoming_email (\<lambda>_ _. None) sample_envelope (Some empty_email) = Inr sample_email"
    using decode_encode_incoming_email [OF encode_sample, of "\<lambda>_ _. None" empty_email] by simp
qed (simp_all add: sample_envelope_def email_magic_def)

end
