(* ===== verification/Queue.thy ===== *)
theory Queue
  imports Codec
begin

text \<open>
  \<open>internal/queue\<close>: the error that marks a message as not worth retrying (\<open>errors.go\<close>), publishing
  with the metadata in NATS headers (\<open>Publish\<close>), decoding on the consumer's side
  (\<open>decodeIncomingEmailFromHeaders\<close>, with the envelope of theory Codec as fallback) and the consumer's
  callback, whose result is the acknowledgement it sends (\<open>Consume\<close>).

  The NATS client is library code: its header type is a parameter (record \<open>header_api\<close>) with its
  documented laws as the hypothesis \<open>header_laws\<close>, and the outcome of a publication is a parameter.
\<close>

section \<open>Errors\<close>

text \<open>
  Go error values, as far as the program inspects them: plain errors, \<open>fmt.Errorf("...%w", err)\<close>
  and the type \<open>permanentError\<close>. A nil error is \<^const>\<open>None\<close>.
\<close>

datatype go_error =
    PlainError string
  | WrapError string go_error
  | PermanentError "go_error option"

text \<open>\<open>Unwrap\<close>, as \<open>errors.As\<close> calls it along the chain.\<close>

fun unwrap :: "go_error \<Rightarrow> go_error option" where
  "unwrap (PlainError s) = None"
| "unwrap (WrapError s e) = Some e"
| "unwrap (PermanentError e) = e"

fun permanent_error_message :: "go_error \<Rightarrow> string" where
  "permanent_error_message (PlainError s) = s"
| "permanent_error_message (WrapError s e) = s @ '': '' @ permanent_error_message e"
| "permanent_error_message (PermanentError None) = ''permanent error''"
| "permanent_error_message (PermanentError (Some e)) = permanent_error_message e"

definition permanent :: "go_error option \<Rightarrow> go_error option" where
  "permanent err = (case err of None \<Rightarrow> None | Some e \<Rightarrow> Some (PermanentError (Some e)))"

fun chain_has_permanent :: "go_error \<Rightarrow> bool" where
  "chain_has_permanent (PlainError s) = False"
| "chain_has_permanent (WrapError s e) = chain_has_permanent e"
| "chain_has_permanent (PermanentError e) = True"

definition is_permanent :: "go_error option \<Rightarrow> bool" where
  "is_permanent err = (case err of None \<Rightarrow> False | Some e \<Rightarrow> chain_has_permanent e)"

lemma is_permanent_simps [simp]:
  "\<not> is_permanent None" "is_permanent (permanent (Some e))"
  "is_permanent (Some (WrapError s e)) = is_permanent (Some e)"
  "\<not> is_permanent (Some (PlainError s))" "permanent None = None"
  by (simp_all add: is_permanent_def permanent_def)

section \<open>Publishing\<close>

record 'h header_api =
  h_new :: 'h
  h_set :: "'h \<Rightarrow> string \<Rightarrow> string \<Rightarrow> 'h"
  h_add :: "'h \<Rightarrow> string \<Rightarrow> string \<Rightarrow> 'h"
  h_get :: "'h \<Rightarrow> string \<Rightarrow> string"
  h_values :: "'h \<Rightarrow> string \<Rightarrow> string list"
  h_len :: "'h \<Rightarrow> nat"

text \<open>
  The documented behaviour of \<open>nats.Header\<close>: a case-sensitive map from keys to lists of values;
  \<open>Set\<close> replaces, \<open>Add\<close> appends, \<open>Get\<close> returns the first value or the empty string.
\<close>

definition header_laws :: "'h header_api \<Rightarrow> bool" where
  "header_laws api \<longleftrightarrow>
     (\<forall>k. h_values api (h_new api) k = []) \<and>
     (\<forall>h k v j. h_values api (h_set api h k v) j = (if j = k then [v] else h_values api h j)) \<and>
     (\<forall>h k v j. h_values api (h_add api h k v) j
        = (if j = k then h_values api h k @ [v] else h_values api h j)) \<and>
     (\<forall>h k. h_get api h k = (case h_values api h k of [] \<Rightarrow> [] | v # vs \<Rightarrow> v)) \<and>
     (\<forall>h k. h_values api h k \<noteq> [] \<longrightarrow> h_len api h \<noteq> 0)"

definition codec_header :: string where "codec_header = ''X-MailAPI-Codec''"
definition codec_header_v1 :: string where "codec_header_v1 = ''hdr1''"
definition from_header :: string where "from_header = ''X-MailAPI-From''"
definition remote_addr_header :: string where "remote_addr_header = ''X-MailAPI-Remote-Addr''"
definition received_at_header :: string where "received_at_header = ''X-MailAPI-Received-At''"
definition to_header :: string where "to_header = ''X-MailAPI-To''"

lemmas header_names = codec_header_def codec_header_v1_def from_header_def remote_addr_header_def
  received_at_header_def to_header_def

definition has_crlf :: "string \<Rightarrow> bool" where
  "has_crlf s \<longleftrightarrow> index_byte s CHR 0x0D \<noteq> None \<or> index_byte s CHR 0x0A \<noteq> None"

definition validate_incoming_email :: "incoming_email option \<Rightarrow> queue_error option" where
  "validate_incoming_email email =
     (case email of None \<Rightarrow> Some NilEmail
      | Some e \<Rightarrow>
        if max_string_len < length (ie_from e) \<or> max_string_len < length (ie_remote_addr e)
        then Some StringTooLarge
        else if max_to_count < length (ie_to e) then Some TooManyRecipients
        else if list_ex (\<lambda>r. max_string_len < length r) (ie_to e) then Some RecipientTooLarge
        else if max_raw_len < length (ie_raw_message e) then Some RawTooLarge
        else if list_ex has_crlf [ie_from e, ie_remote_addr e] then Some InvalidHeaderValue
        else if list_ex has_crlf (ie_to e) then Some InvalidRecipient
        else None)"

definition build_headers :: "'h header_api \<Rightarrow> incoming_email \<Rightarrow> 'h" where
  "build_headers api e =
     (let h = h_new api;
          h = h_set api h codec_header codec_header_v1;
          h = h_set api h from_header (ie_from e);
          h = h_set api h remote_addr_header (ie_remote_addr e);
          h = h_set api h received_at_header (format_int (ie_received_at e))
      in foldl (\<lambda>h r. h_add api h to_header r) h (ie_to e))"

datatype publish_outcome = Published | HeadersNotSupported | PublishFailed string

datatype publish_error = EncodeEmail queue_error | ServerError publish_outcome

datatype 'h stream_message = HeaderMessage 'h bytes | EnvelopeMessage bytes

text \<open>
  \<open>Publish\<close>: its error (\<^const>\<open>None\<close> for nil) and the message the stream accepted, if any.
  \<open>publish_msg\<close> and \<open>publish_data\<close> are the server's answers to \<open>PublishMsg\<close> and \<open>Publish\<close>.
\<close>

definition publish ::
  "'h header_api \<Rightarrow> ('h \<Rightarrow> bytes \<Rightarrow> publish_outcome) \<Rightarrow> (bytes \<Rightarrow> publish_outcome)
     \<Rightarrow> incoming_email option \<Rightarrow> publish_error option \<times> 'h stream_message option" where
  "publish api publish_msg publish_data email =
     (case validate_incoming_email email of Some err \<Rightarrow> (Some (EncodeEmail err), None)
      | None \<Rightarrow>
        (let e = the email; h = build_headers api e in
         (case publish_msg h (ie_raw_message e) of
            Published \<Rightarrow> (None, Some (HeaderMessage h (ie_raw_message e)))
          | HeadersNotSupported \<Rightarrow>
              (case encode_incoming_email email of
                 Inl enc_err \<Rightarrow> (Some (EncodeEmail enc_err), None)
               | Inr data \<Rightarrow>
                   (case publish_data data of
                      Published \<Rightarrow> (None, Some (EnvelopeMessage data))
                    | err \<Rightarrow> (Some (ServerError err), None)))
          | err \<Rightarrow> (Some (ServerError err), None))))"

section \<open>Decoding headers\<close>

text \<open>The recipients of a header value list, or of one value split at commas.\<close>

definition clean_recipients :: "string list \<Rightarrow> string list" where
  "clean_recipients ps = filter (\<lambda>p. p \<noteq> []) (map trim_space ps)"

text \<open>
  \<open>decodeIncomingEmailFromHeaders\<close>: the flag says whether the message uses the header codec; with
  the flag unset and no error, \<open>*out\<close> is unchanged.
\<close>

definition decode_from_headers ::
  "'h header_api \<Rightarrow> ('h \<times> bytes) option \<Rightarrow> incoming_email option \<Rightarrow> bool \<times> (queue_error + incoming_email)" where
  "decode_from_headers api msg outp =
     (case outp of None \<Rightarrow> (False, Inl NilOut)
      | Some out0 \<Rightarrow>
     (case msg of None \<Rightarrow> (False, Inl NilMsg)
      | Some (h, data) \<Rightarrow>
        if h_len api h = 0 then (False, Inr out0)
        else if to_lower (trim_space (h_get api h codec_header)) \<noteq> codec_header_v1 then (False, Inr out0)
        else
          (let out1 = out0\<lparr>ie_from := h_get api h from_header,
                           ie_remote_addr := h_get api h remote_addr_header,
                           ie_raw_message := data\<rparr>;
               s = trim_space (h_get api h received_at_header)
           in case (if s = [] then Some out1
                    else map_option (\<lambda>v. out1\<lparr>ie_received_at := v\<rparr>) (parse_int s)) of
                None \<Rightarrow> (True, Inl InvalidReceivedAt)
              | Some out2 \<Rightarrow>
          (let vv = h_values api h to_header;
               t = trim_space (h_get api h to_header);
               parts = (if vv \<noteq> [] then vv else if t \<noteq> [] then split_on t (CHR '','') else []);
               out3 = (if vv \<noteq> [] \<or> t \<noteq> [] then out2\<lparr>ie_to := clean_recipients parts\<rparr> else out2)
           in if max_to_count < length parts then (True, Inl TooManyRecipients)
              else (case validate_incoming_email (Some out3) of
                      Some err \<Rightarrow> (True, Inl err)
                    | None \<Rightarrow> (True, Inr out3))))))"

section \<open>Consuming\<close>

record 'h stream_delivery =
  sd_headers :: 'h
  sd_data :: bytes
  sd_meta :: "(string \<times> 64 word \<times> 64 word) option"

text \<open>The metadata are the stream's name, the stream sequence and the number of deliveries.\<close>

datatype acknowledgement = Ack | NakWithDelay duration | Term

datatype handler_result = HandlerReturns "go_error option" | HandlerPanics

definition ingest_metadata :: "(string \<times> 64 word \<times> 64 word) option \<Rightarrow> incoming_email" where
  "ingest_metadata md =
     (case md of None \<Rightarrow> empty_email
      | Some (stream, sq, _) \<Rightarrow>
          empty_email\<lparr>ie_ingest_stream := stream,
                      ie_ingest_seq := (if 2 ^ 63 - 1 < uint sq then 0 else uint sq)\<rparr>)"

definition decode_delivery ::
  "'h header_api \<Rightarrow> (bytes \<Rightarrow> incoming_email \<Rightarrow> incoming_email option) \<Rightarrow> 'h stream_delivery
     \<Rightarrow> queue_error + incoming_email" where
  "decode_delivery api json msg =
     (let email = ingest_metadata (sd_meta msg) in
      case decode_from_headers api (Some (sd_headers msg, sd_data msg)) (Some email) of
        (_, Inl err) \<Rightarrow> Inl err
      | (True, Inr e) \<Rightarrow> Inr e
      | (False, Inr e) \<Rightarrow> decode_incoming_email json (sd_data msg) (Some e))"

text \<open>The delay before a redelivery; \<open>exp\<close> wraps on 64 bits but is only read above one delivery.\<close>

definition retry_delay :: "(string \<times> 64 word \<times> 64 word) option \<Rightarrow> duration" where
  "retry_delay md =
     (let delay = (case md of
                     Some (_, _, delivered) \<Rightarrow>
                       if 1 < delivered
                       then (let e = delivered - 2; e = (if 6 < e then 6 else e)
                             in 2 ^ unat e * second)
                       else second
                   | None \<Rightarrow> second)
      in if 30 * second < delay then 30 * second else delay)"

text \<open>How often the callback renews its lease while the handler runs.\<close>

definition in_progress_every :: "duration \<Rightarrow> duration" where
  "in_progress_every ack_wait =
     (let e = ack_wait div 2;
          e = (if 30 * second < e then 30 * second else e)
      in if e < 5 * second then 5 * second else e)"

text \<open>
  The callback of \<open>Consume\<close>: the acknowledgement it sends and the state the handler leaves. A
  panic of the handler is recovered and becomes a redelivery after five seconds.
\<close>

definition consume_callback ::
  "'h header_api \<Rightarrow> (bytes \<Rightarrow> incoming_email \<Rightarrow> incoming_email option)
     \<Rightarrow> (incoming_email \<Rightarrow> 's \<Rightarrow> handler_result \<times> 's) \<Rightarrow> 'h stream_delivery \<Rightarrow> 's \<Rightarrow> acknowledgement \<times> 's" where
  "consume_callback api json handler msg s =
     (case decode_delivery api json msg of
        Inl err \<Rightarrow> (Term, s)
      | Inr email \<Rightarrow>
        (case handler email s of
           (HandlerPanics, s') \<Rightarrow> (NakWithDelay (5 * second), s')
         | (HandlerReturns None, s') \<Rightarrow> (Ack, s')
         | (HandlerReturns (Some err), s') \<Rightarrow>
             if is_permanent (Some err) then (Term, s')
             else (NakWithDelay (retry_delay (sd_meta msg)), s')))"

text \<open>\<open>New\<close>'s defaults for the consumer's parameters.\<close>

definition consumer_defaults :: "duration \<Rightarrow> int \<Rightarrow> duration \<times> int" where
  "consumer_defaults ack_wait max_deliver =
     (if ack_wait \<le> 0 then 30 * second else ack_wait, if max_deliver \<le> 0 then 3 else max_deliver)"

section \<open>The header encoding reads back\<close>

definition no_crlf :: "incoming_email \<Rightarrow> bool" where
  "no_crlf e \<longleftrightarrow> \<not> has_crlf (ie_from e) \<and> \<not> has_crlf (ie_remote_addr e) \<and> \<not> list_ex has_crlf (ie_to e)"

definition clean_to :: "incoming_email \<Rightarrow> bool" where
  "clean_to e \<longleftrightarrow> list_all (\<lambda>r. r \<noteq> [] \<and> trimmed r) (ie_to e)"

text \<open>What the SMTP side publishes: within the limits, without CR or LF, recipients trimmed.\<close>

definition sendable :: "incoming_email \<Rightarrow> bool" where
  "sendable e \<longleftrightarrow> within_limits e \<and> no_crlf e \<and> clean_to e \<and> ie_to e \<noteq> []"

lemma validate_incoming_email_None:
  "validate_incoming_email (Some e) = None \<longleftrightarrow>
     length (ie_from e) \<le> max_string_len \<and> length (ie_remote_addr e) \<le> max_string_len \<and>
     length (ie_to e) \<le> max_to_count \<and> list_all (\<lambda>r. length r \<le> max_string_len) (ie_to e) \<and>
     length (ie_raw_message e) \<le> max_raw_len \<and> no_crlf e"
  by (simp add: validate_incoming_email_def no_crlf_def list_all_iff list_ex_iff flip: not_le) blast

lemma validate_encodes:
  "validate_incoming_email (Some e) = None \<Longrightarrow> \<exists>w. encode_incoming_email (Some e) = Inr w"
  by (auto simp: validate_incoming_email_None encode_incoming_email_def list_all_iff list_ex_iff not_less)

lemma clean_recipients_clean: "list_all (\<lambda>r. r \<noteq> [] \<and> trimmed r) rs \<Longrightarrow> clean_recipients rs = rs"
  by (induction rs) (simp_all add: clean_recipients_def trim_space_trimmed)

lemma header_lawsD:
  assumes "header_laws api"
  shows "h_values api (h_new api) k = []"
    "h_values api (h_set api h k v) j = (if j = k then [v] else h_values api h j)"
    "h_values api (h_add api h k v) j = (if j = k then h_values api h k @ [v] else h_values api h j)"
    "h_get api h k = (case h_values api h k of [] \<Rightarrow> [] | v # vs \<Rightarrow> v)"
    "h_values api h k \<noteq> [] \<Longrightarrow> h_len api h \<noteq> 0"
  using assms unfolding header_laws_def by blast+

lemma h_values_adds:
  assumes "header_laws api"
  shows "h_values api (foldl (\<lambda>h r. h_add api h k r) h rs) j
    = (if j = k then h_values api h k @ rs else h_values api h j)"
  by (induction rs arbitrary: h) (simp_all add: header_lawsD [OF assms])

lemma h_values_build:
  assumes "header_laws api"
  shows "h_values api (build_headers api e) codec_header = [codec_header_v1]"
    "h_values api (build_headers api e) from_header = [ie_from e]"
    "h_values api (build_headers api e) remote_addr_header = [ie_remote_addr e]"
    "h_values api (build_headers api e) received_at_header = [format_int (ie_received_at e)]"
    "h_values api (build_headers api e) to_header = ie_to e"
  by (simp_all add: build_headers_def Let_def h_values_adds [OF assms] header_lawsD [OF assms] header_names)

lemma codec_header_v1_normal: "to_lower (trim_space codec_header_v1) = codec_header_v1"
  by (simp add: codec_header_v1_def to_lower_def trim_space_def trim_left_def trim_right_def
      lower_char_def is_space_code)

lemma decode_build_headers:
  assumes laws: "header_laws api" and ok: "validate_incoming_email (Some e) = None"
    and r: "int64_ok (ie_received_at e)" and to: "clean_to e" "ie_to e \<noteq> [] \<or> ie_to out0 = []"
  shows "decode_from_headers api (Some (build_headers api e, ie_raw_message e)) (Some out0)
    = (True, Inr (with_ingest out0 e))"
proof -
  note H = h_values_build [OF laws, of e]
  have l: "h_len api (build_headers api e) \<noteq> 0"
    using header_lawsD(5) [OF laws, of "build_headers api e" codec_header] H(1) by simp
  have g: "h_get api (build_headers api e) codec_header = codec_header_v1"
    "h_get api (build_headers api e) from_header = ie_from e"
    "h_get api (build_headers api e) remote_addr_header = ie_remote_addr e"
    "h_get api (build_headers api e) received_at_header = format_int (ie_received_at e)"
    "h_get api (build_headers api e) to_header = (case ie_to e of [] \<Rightarrow> [] | v # vs \<Rightarrow> v)"
    by (simp_all add: header_lawsD(4) [OF laws] H)
  have s: "trim_space (format_int (ie_received_at e)) = format_int (ie_received_at e)"
    by (rule trim_space_trimmed [OF format_int_trimmed])
  have c: "clean_recipients (ie_to e) = ie_to e"
    using to(1) by (simp add: clean_to_def clean_recipients_clean)
  let ?w = "with_ingest out0 e"
  have v: "validate_incoming_email (Some ?w) = None"
    using ok by (simp add: validate_incoming_email_None with_ingest_def no_crlf_def)
  have n: "\<not> max_to_count < length (ie_to e)"
    using ok by (simp add: validate_incoming_email_None)
  have w: "out0\<lparr>ie_from := ie_from e, ie_remote_addr := ie_remote_addr e, ie_raw_message := ie_raw_message e,
       ie_received_at := ie_received_at e, ie_to := ie_to e\<rparr> = ?w"
    by (simp add: with_ingest_def)
  show ?thesis
  proof (cases "ie_to e")
    case Nil
    then have "out0\<lparr>ie_from := ie_from e, ie_remote_addr := ie_remote_addr e,
        ie_raw_message := ie_raw_message e, ie_received_at := ie_received_at e\<rparr> = ?w"
      using to(2) by (simp add: with_ingest_def)
    then show ?thesis using l Nil v
      by (simp add: decode_from_headers_def Let_def g H s r codec_header_v1_normal)
  next
    case (Cons t ts)
    then have ne: "ie_to e \<noteq> []" by simp
    then show ?thesis using l v c n w
      by (simp add: decode_from_headers_def Let_def g(1-4) H s r codec_header_v1_normal)
  qed
qed

interpretation header_codec: email_codec
  "\<lambda>e. case validate_incoming_email (Some e) of Some err \<Rightarrow> Inl err
       | None \<Rightarrow> Inr (build_headers api e, ie_raw_message e)"
  "\<lambda>w out0. snd (decode_from_headers api (Some w) (Some out0))"
  "\<lambda>e. header_laws api \<and> sendable e"
  for api
proof unfold_locales
  fix e out0 assume e: "header_laws api \<and> sendable e"
  then have v: "validate_incoming_email (Some e) = None"
    by (simp add: sendable_def within_limits_def validate_incoming_email_None)
  show "\<exists>w. (case validate_incoming_email (Some e) of Some err \<Rightarrow> Inl err
       | None \<Rightarrow> Inr (build_headers api e, ie_raw_message e)) = Inr w \<and>
    snd (decode_from_headers api (Some w) (Some out0)) = Inr (with_ingest out0 e)"
    using e v decode_build_headers [OF _ v, of api out0]
    by (auto simp: sendable_def within_limits_def)
qed

text \<open>The delivery of a stored message: an envelope has no headers of its own.\<close>

fun delivered :: "'h header_api \<Rightarrow> (string \<times> 64 word \<times> 64 word) option \<Rightarrow> 'h stream_message \<Rightarrow> 'h stream_delivery" where
  "delivered api md (HeaderMessage h d) = \<lparr>sd_headers = h, sd_data = d, sd_meta = md\<rparr>"
| "delivered api md (EnvelopeMessage d) = \<lparr>sd_headers = h_new api, sd_data = d, sd_meta = md\<rparr>"

lemma decode_no_headers:
  "header_laws api \<Longrightarrow> decode_from_headers api (Some (h_new api, d)) (Some out0) = (False, Inr out0)"
  by (simp add: decode_from_headers_def header_lawsD codec_header_v1_def)

lemma ingest_metadata_to [simp]: "ie_to (ingest_metadata md) = []"
  by (simp add: ingest_metadata_def empty_email_def split: option.splits prod.splits)

lemma publish_NoneD:
  assumes "publish api publish_msg publish_data (Some e) = (None, m)"
  shows "validate_incoming_email (Some e) = None"
    "m = Some (HeaderMessage (build_headers api e) (ie_raw_message e)) \<or>
     (\<exists>w. encode_incoming_email (Some e) = Inr w \<and> m = Some (EnvelopeMessage w))"
  using assms by (auto simp: publish_def Let_def split: option.splits publish_outcome.splits sum.splits)

lemma decode_delivered_publish:
  assumes laws: "header_laws api" and pub: "publish api publish_msg publish_data (Some e) = (None, Some m)"
    and r: "int64_ok (ie_received_at e)" and to: "clean_to e"
  shows "decode_delivery api json (delivered api md m) = Inr (with_ingest (ingest_metadata md) e)"
proof -
  note P = publish_NoneD [OF pub]
  from P(2) consider "m = HeaderMessage (build_headers api e) (ie_raw_message e)"
    | w where "encode_incoming_email (Some e) = Inr w" "m = EnvelopeMessage w" by auto
  then show ?thesis
  proof cases
    case 1
    then show ?thesis
      using decode_build_headers [OF laws P(1) r to, of "ingest_metadata md"]
      by (simp add: decode_delivery_def)
  next
    case 2
    then show ?thesis
      using decode_encode_incoming_email [OF 2(1) r, of json "ingest_metadata md"]
      by (simp add: decode_delivery_def decode_no_headers [OF laws])
  qed
qed

lemma publish_refuses:
  "validate_incoming_email email = Some err \<Longrightarrow>
     publish api publish_msg publish_data email = (Some (EncodeEmail err), None)"
  by (simp add: publish_def)

section \<open>The consumer's acknowledgement\<close>

lemma retry_delay_bounds: "second \<le> retry_delay md" "retry_delay md \<le> 30 * second"
proof -
  have p: "(1::int) \<le> 2 ^ n" for n :: nat by simp
  show "second \<le> retry_delay md"
    using p by (auto simp: retry_delay_def Let_def second_def split: option.splits)
  show "retry_delay md \<le> 30 * second"
    by (simp add: retry_delay_def Let_def second_def split: option.splits)
qed

lemma retry_delay_exponential:
  assumes "1 < n"
  shows "retry_delay (Some (s, q, n)) = min (2 ^ (unat n - 2) * second) (30 * second)"
proof -
  have n2: "unat (n - 2) = unat n - 2"
    using assms by (simp add: unat_sub word_le_nat_alt word_less_nat_alt)
  show ?thesis
  proof (cases "6 < n - 2")
    case True
    then have "7 \<le> unat n - 2" using n2 by (simp add: word_less_nat_alt)
    then have "(2::int) ^ 7 \<le> 2 ^ (unat n - 2)" by (rule power_increasing) simp
    with True assms show ?thesis by (simp add: retry_delay_def Let_def second_def min_def)
  next
    case False
    then show ?thesis using assms n2 by (simp add: retry_delay_def Let_def min_def)
  qed
qed

lemma consume_callback_undecodable:
  "decode_delivery api json msg = Inl err \<Longrightarrow> consume_callback api json handler msg s = (Term, s)"
  by (simp add: consume_callback_def)

lemma consume_callback_handled:
  assumes "decode_delivery api json msg = Inr e" "handler e s = (res, s')"
  shows "consume_callback api json handler msg s =
    (case res of HandlerReturns None \<Rightarrow> Ack
       | HandlerReturns (Some err) \<Rightarrow>
           if chain_has_permanent err then Term else NakWithDelay (retry_delay (sd_meta msg))
       | HandlerPanics \<Rightarrow> NakWithDelay (5 * second), s')"
  using assms
  by (auto simp: consume_callback_def is_permanent_def split: handler_result.splits option.splits)

section \<open>Properties of the queue\<close>

text \<open>A header type with the documented laws: the list of all pairs, in order.\<close>

definition list_header :: "(string \<times> string) list header_api" where
  "list_header = \<lparr>h_new = [], h_set = (\<lambda>h k v. filter (\<lambda>p. fst p \<noteq> k) h @ [(k, v)]),
     h_add = (\<lambda>h k v. h @ [(k, v)]),
     h_get = (\<lambda>h k. case filter (\<lambda>p. fst p = k) h of [] \<Rightarrow> [] | p # _ \<Rightarrow> snd p),
     h_values = (\<lambda>h k. map snd (filter (\<lambda>p. fst p = k) h)), h_len = length\<rparr>"

lemma list_header_laws: "header_laws list_header"
proof -
  have "filter (\<lambda>p. fst p = j \<and> fst p \<noteq> k) h = (if j = k then [] else filter (\<lambda>p. fst p = j) h)"
    for h :: "(string \<times> string) list" and j k
    by (induction h) auto
  moreover have "(\<lambda>p::string \<times> string. fst p \<noteq> k \<and> fst p = j) = (\<lambda>p. fst p = j \<and> fst p \<noteq> k)" for j k
    by auto
  ultimately show ?thesis
    by (auto simp: header_laws_def list_header_def conj_commute split: list.splits)
qed



text \<open>
  C25: the consumer acknowledges a delivery exactly for what happened: Ack only after the handler
  returned nil on the decoded e-mail; Term only for an undecodable message, which the handler never
  saw, or for an error marked permanent; otherwise a delayed redelivery of one to thirty seconds.
\<close>

theorem consume_callback_classifies:
  "case consume_callback api json handler msg s of
     (Ack, s') \<Rightarrow> \<exists>e. decode_delivery api json msg = Inr e \<and> handler e s = (HandlerReturns None, s')
   | (Term, s') \<Rightarrow>
       (\<exists>err. decode_delivery api json msg = Inl err \<and> s' = s) \<or>
       (\<exists>e err. decode_delivery api json msg = Inr e \<and> handler e s = (HandlerReturns (Some err), s') \<and>
          chain_has_permanent err)
   | (NakWithDelay d, s') \<Rightarrow>
       second \<le> d \<and> d \<le> 30 * second \<and>
       (\<exists>e r. decode_delivery api json msg = Inr e \<and> handler e s = (r, s') \<and>
          (r = HandlerPanics \<or> (\<exists>err. r = HandlerReturns (Some err) \<and> \<not> chain_has_permanent err)))"
proof (cases "decode_delivery api json msg")
  case (Inl err)
  then show ?thesis by (simp add: consume_callback_undecodable)
next
  case (Inr e)
  obtain res s' where h: "handler e s = (res, s')" by fastforce
  note C = consume_callback_handled [where handler = handler and s = s, OF Inr h]
  show ?thesis
    using retry_delay_bounds [of "sd_meta msg"]
    by (auto simp: C Inr h second_def
        split: handler_result.splits option.splits)
qed

text \<open>
  The delay before the redelivery of the n-th delivery is 2^(n-2) seconds, never more than thirty.
\<close>

theorem retry_delay_doubles:
  assumes "1 < n"
  shows "retry_delay (Some (stream, sq, n)) = min (2 ^ (unat n - 2) * second) (30 * second)"
  using assms by (rule retry_delay_exponential)

theorem retry_delay_doubles_witness:
  "retry_delay (Some (''EMAILS'', 9, 4)) = 4 * second \<and> retry_delay (Some (''EMAILS'', 9, 2 ^ 63)) = 30 * second"
proof
  show "retry_delay (Some (''EMAILS'', 9, 4)) = 4 * second"
    using retry_delay_doubles [of 4 "''EMAILS''" 9] by (simp add: second_def)
  show "retry_delay (Some (''EMAILS'', 9, 2 ^ 63)) = 30 * second"
    by (simp add: retry_delay_def Let_def second_def)
qed

end
