(* ===== verification/Domainutil.thy ===== *)
theory Domainutil
  imports Model Prelude
begin

text \<open>
  \<open>internal/domainutil\<close>: normalised domain names, the chain of a domain and its parent domains, and
  the search for the most specific entry in a set, a map, a slice or the list of mail domains. A Go
  map that is only searched is a HOL map, a \<open>map[string]struct{}\<close> is a set. The abstract
  specification is the relation \<open>subdomain_of\<close>; the lemmas show that the chain enumerates exactly the
  parents, longest first, and that every search returns the longest matching parent.
\<close>

section \<open>The functions\<close>

definition normalize :: "string \<Rightarrow> string" where
  "normalize domain = to_lower (trim_space domain)"

definition candidates :: "string \<Rightarrow> string list" where
  "candidates domain0 =
     (let domain = normalize domain0 in
      if domain = [] then []
      else
        (let parts = split_on domain (CHR ''.'') in
         filter (\<lambda>candidate. candidate \<noteq> [])
           (map (\<lambda>i. join_with (drop i parts) ''.'') [0..<length parts])))"

definition match_set :: "string \<Rightarrow> string set \<Rightarrow> string option" where
  "match_set domain allowed =
     (if allowed = {} then None else find (\<lambda>candidate. candidate \<in> allowed) (candidates domain))"

definition match_map_key :: "string \<Rightarrow> (string \<rightharpoonup> 'a) \<Rightarrow> string option" where
  "match_map_key domain values =
     (if values = Map.empty then None
      else find (\<lambda>candidate. values candidate \<noteq> None) (candidates domain))"

lemma match_map_key_code [code]:
  "match_map_key domain values = find (\<lambda>candidate. values candidate \<noteq> None) (candidates domain)"
  by (simp add: match_map_key_def find_None_iff2)

text \<open>The set \<open>MatchSlice\<close> builds from a slice: normalised, without empty items and the wildcard.\<close>

definition slice_set :: "string list \<Rightarrow> string set" where
  "slice_set allowed = set (filter (\<lambda>item. item \<noteq> [] \<and> item \<noteq> ''*'') (map normalize allowed))"

definition match_slice :: "string \<Rightarrow> string list \<Rightarrow> string option" where
  "match_slice domain allowed = (if allowed = [] then None else match_set domain (slice_set allowed))"

text \<open>The index \<open>ResolveDomain\<close> builds: the last active entry with a name wins.\<close>

definition index_by_domain :: "mail_domain list \<Rightarrow> string \<rightharpoonup> nat" where
  "index_by_domain domains =
     foldl (\<lambda>m i. if \<not> dm_is_active (domains ! i) then m
                  else if normalize (dm_domain (domains ! i)) = [] then m
                  else m(normalize (dm_domain (domains ! i)) \<mapsto> i))
       Map.empty [0..<length domains]"

definition resolve_domain :: "string \<Rightarrow> mail_domain list \<Rightarrow> (mail_domain \<times> string) option" where
  "resolve_domain domain domains =
     (if domains = [] then None
      else
        (let index = index_by_domain domains in
         case find (\<lambda>candidate. index candidate \<noteq> None) (candidates domain) of
           None \<Rightarrow> None
         | Some candidate \<Rightarrow> Some (domains ! the (index candidate), candidate)))"

section \<open>The chain of parent domains\<close>

text \<open>The specification: \<open>p\<close> is the domain itself or one of its parent domains.\<close>

definition subdomain_of :: "string \<Rightarrow> string \<Rightarrow> bool" where
  "subdomain_of d p \<longleftrightarrow> d = p \<or> has_suffix d (''.'' @ p)"

lemma subdomain_of_refl [simp]: "subdomain_of d d"
  by (simp add: subdomain_of_def)

lemma subdomain_of_alt: "subdomain_of d p \<longleftrightarrow> d = p \<or> (\<exists>l. d = l @ CHR ''.'' # p)"
  by (simp add: subdomain_of_def has_suffix_iff)

lemma subdomain_of_trans: "subdomain_of a b \<Longrightarrow> subdomain_of b c \<Longrightarrow> subdomain_of a c"
  unfolding subdomain_of_alt by (metis append.assoc append_Cons)

lemma subdomain_of_length: "subdomain_of d p \<Longrightarrow> length p \<le> length d"
  by (auto simp: subdomain_of_alt)

lemma subdomain_of_same_length:
  "subdomain_of d p \<Longrightarrow> subdomain_of d q \<Longrightarrow> length p = length q \<Longrightarrow> p = q"
  by (auto simp: subdomain_of_alt)

lemma join_with_append:
  "xs \<noteq> [] \<Longrightarrow> ys \<noteq> [] \<Longrightarrow> join_with (xs @ ys) sep = join_with xs sep @ sep @ join_with ys sep"
proof (induction xs sep rule: join_with.induct)
  case (2 w sep)
  then show ?case by (cases ys) auto
qed auto

lemma split_on_append_gen: "split_on (l @ c # s) c = split_on l c @ split_on s c"
  by (induction l) (auto split: list.splits)

lemma tails_iff:
  "(\<exists>i < length (split_on d (CHR ''.'')). p = join_with (drop i (split_on d (CHR ''.''))) ''.'')
    \<longleftrightarrow> subdomain_of d p"
  (is "?L \<longleftrightarrow> _")
proof
  let ?ps = "split_on d (CHR ''.'')"
  assume ?L
  then obtain i where i: "i < length ?ps" "p = join_with (drop i ?ps) ''.''" by blast
  show "subdomain_of d p"
  proof (cases i)
    case 0
    then show ?thesis using i by (simp add: join_split_on)
  next
    case (Suc j)
    have "d = join_with (take i ?ps @ drop i ?ps) ''.''" by (simp add: join_split_on)
    also have "\<dots> = join_with (take i ?ps) ''.'' @ ''.'' @ p"
      unfolding i(2) using i(1) Suc by (intro join_with_append) simp_all
    finally show ?thesis by (auto simp: subdomain_of_alt)
  qed
next
  assume "subdomain_of d p"
  then consider "d = p" | l where "d = l @ CHR ''.'' # p" by (auto simp: subdomain_of_alt)
  then show ?L
  proof cases
    case 1
    then show ?thesis by (intro exI [of _ 0]) (simp add: join_split_on)
  next
    case 2
    then show ?thesis
      by (intro exI [of _ "length (split_on l (CHR ''.''))"])
        (simp add: split_on_append_gen join_split_on)
  qed
qed

lemma set_candidates: "p \<in> set (candidates d) \<longleftrightarrow> p \<noteq> [] \<and> subdomain_of (normalize d) p"
proof (cases "normalize d = []")
  case True
  then show ?thesis by (auto simp: candidates_def subdomain_of_alt)
next
  case False
  then show ?thesis
    unfolding tails_iff [symmetric] by (auto simp: candidates_def Let_def)
qed

lemma length_join_drop:
  "i < j \<Longrightarrow> j < length ps \<Longrightarrow> length (join_with (drop j ps) ''.'') < length (join_with (drop i ps) ''.'')"
proof -
  assume ij: "i < j" "j < length ps"
  then have "drop i ps = take (j - i) (drop i ps) @ drop j ps"
    by (metis add_diff_inverse_nat append_take_drop_id drop_drop less_imp_not_less not_less_eq add.commute)
  moreover have "take (j - i) (drop i ps) \<noteq> []" "drop j ps \<noteq> []" using ij by simp_all
  ultimately have "join_with (drop i ps) ''.'' = join_with (take (j - i) (drop i ps)) ''.'' @ ''.'' @ join_with (drop j ps) ''.''"
    by (metis join_with_append)
  then show ?thesis by simp
qed

lemma sorted_candidates: "sorted_wrt (\<lambda>a b. length b < length a) (candidates d)"
proof -
  have "sorted_wrt (\<lambda>a b. length b < length a) (map (\<lambda>i. join_with (drop i ps) ''.'') [0..<length ps])" for ps
    by (auto simp: sorted_wrt_iff_nth_less length_join_drop)
  then show ?thesis by (simp add: candidates_def Let_def sorted_wrt_filter)
qed

lemma find_longest:
  assumes "sorted_wrt (\<lambda>a b. length b < length a) xs" "find P xs = Some x"
  shows "x \<in> set xs \<and> P x \<and> (\<forall>y \<in> set xs. P y \<longrightarrow> length y \<le> length x)"
  using assms by (induction xs) (auto split: if_splits)

lemma find_candidates_Some:
  "find P (candidates d) = Some c \<longleftrightarrow>
     c \<noteq> [] \<and> subdomain_of (normalize d) c \<and> P c \<and>
     (\<forall>p. p \<noteq> [] \<longrightarrow> subdomain_of (normalize d) p \<longrightarrow> P p \<longrightarrow> length p \<le> length c)" (is "?L \<longleftrightarrow> ?R")
proof
  assume ?L
  from find_longest [OF sorted_candidates this] show ?R by (auto simp: set_candidates)
next
  assume R: ?R
  then have "find P (candidates d) \<noteq> None" by (auto simp: find_None_iff set_candidates)
  then obtain c' where c': "find P (candidates d) = Some c'" by blast
  with find_longest [OF sorted_candidates c'] R have "length c' = length c"
    by (metis dual_order.antisym set_candidates)
  with find_longest [OF sorted_candidates c'] R have "c' = c"
    by (meson set_candidates subdomain_of_same_length)
  with c' show ?L by simp
qed

lemma find_candidates_None:
  "find P (candidates d) = None \<longleftrightarrow> (\<forall>p. p \<noteq> [] \<longrightarrow> subdomain_of (normalize d) p \<longrightarrow> \<not> P p)"
  by (auto simp: find_None_iff set_candidates)

text \<open>The abstract search: the longest parent with a property.\<close>

definition most_specific :: "(string \<Rightarrow> bool) \<Rightarrow> string \<Rightarrow> string \<Rightarrow> bool" where
  "most_specific P d c \<longleftrightarrow> c \<noteq> [] \<and> subdomain_of d c \<and> P c \<and>
     (\<forall>p. p \<noteq> [] \<longrightarrow> subdomain_of d p \<longrightarrow> P p \<longrightarrow> length p \<le> length c)"

lemma most_specific_unique: "most_specific P d c \<Longrightarrow> most_specific P d c' \<Longrightarrow> c = c'"
  unfolding most_specific_def by (metis dual_order.antisym subdomain_of_same_length)

lemma match_set_Some: "match_set d A = Some c \<longleftrightarrow> most_specific (\<lambda>p. p \<in> A) (normalize d) c"
  by (auto simp: match_set_def find_candidates_Some most_specific_def)

lemma match_set_None:
  "match_set d A = None \<longleftrightarrow> (\<forall>p \<in> A. p \<noteq> [] \<longrightarrow> \<not> subdomain_of (normalize d) p)"
  by (auto simp: match_set_def find_candidates_None)

lemma match_map_key_Some: "match_map_key d m = Some c \<longleftrightarrow> most_specific (\<lambda>p. p \<in> dom m) (normalize d) c"
  by (auto simp: match_map_key_def find_candidates_Some most_specific_def)

lemma match_slice_eq: "match_slice d xs = match_set d (slice_set xs)"
  by (cases "xs = []") (simp_all add: match_slice_def slice_set_def match_set_def)

lemma normalize_idem [simp]: "normalize (normalize d) = normalize d"
  by (simp add: normalize_def trim_space_to_lower)

lemma match_set_normalize [simp]: "match_set (normalize d) A = match_set d A"
  by (simp add: match_set_def candidates_def)

lemma match_slice_normalize [simp]: "match_slice (normalize d) A = match_slice d A"
  by (simp add: match_slice_eq)

lemma match_set_exact: "normalize d \<noteq> [] \<Longrightarrow> normalize d \<in> A \<Longrightarrow> match_set d A = Some (normalize d)"
  by (auto simp: match_set_Some most_specific_def intro: subdomain_of_length)

section \<open>Resolving a domain\<close>

lemma index_by_domain_iff:
  "index_by_domain domains n = Some i \<longleftrightarrow>
     i < length domains \<and> dm_is_active (domains ! i) \<and> n \<noteq> [] \<and> normalize (dm_domain (domains ! i)) = n \<and>
     (\<forall>j. i < j \<longrightarrow> j < length domains \<longrightarrow> dm_is_active (domains ! j) \<longrightarrow> normalize (dm_domain (domains ! j)) \<noteq> n)"
proof -
  let ?f = "\<lambda>m i. if \<not> dm_is_active (domains ! i) then m
                  else if normalize (dm_domain (domains ! i)) = [] then m
                  else m(normalize (dm_domain (domains ! i)) \<mapsto> i)"
  have "foldl ?f Map.empty [0..<k] n = Some i \<longleftrightarrow>
     i < k \<and> dm_is_active (domains ! i) \<and> n \<noteq> [] \<and> normalize (dm_domain (domains ! i)) = n \<and>
     (\<forall>j. i < j \<longrightarrow> j < k \<longrightarrow> dm_is_active (domains ! j) \<longrightarrow> normalize (dm_domain (domains ! j)) \<noteq> n)" for k
    by (induction k) (auto simp: less_Suc_eq)
  then show ?thesis unfolding index_by_domain_def by blast
qed

lemma index_by_domain_dom:
  "index_by_domain domains n \<noteq> None \<longleftrightarrow>
     n \<noteq> [] \<and> (\<exists>d \<in> set domains. dm_is_active d \<and> normalize (dm_domain d) = n)"
proof
  assume "index_by_domain domains n \<noteq> None"
  then show "n \<noteq> [] \<and> (\<exists>d \<in> set domains. dm_is_active d \<and> normalize (dm_domain d) = n)"
    by (fastforce simp: index_by_domain_iff)
next
  assume R: "n \<noteq> [] \<and> (\<exists>d \<in> set domains. dm_is_active d \<and> normalize (dm_domain d) = n)"
  let ?P = "\<lambda>j. j < length domains \<and> dm_is_active (domains ! j) \<and> normalize (dm_domain (domains ! j)) = n"
  from R obtain j where "?P j" by (auto simp: in_set_conv_nth)
  then have "?P (GREATEST j. ?P j)" by (rule GreatestI_nat [where b = "length domains"]) simp
  moreover have "j \<le> (GREATEST j. ?P j)" if "?P j" for j
    using that by (intro Greatest_le_nat [where b = "length domains"]) auto
  ultimately have "index_by_domain domains n = Some (GREATEST j. ?P j)"
    using R by (auto simp: index_by_domain_iff dest!: leD)
  then show "index_by_domain domains n \<noteq> None" by simp
qed

lemma resolve_domain_Some:
  assumes "resolve_domain domain domains = Some (d, c)"
  shows "d \<in> set domains \<and> dm_is_active d \<and> normalize (dm_domain d) = c \<and>
    most_specific (\<lambda>p. \<exists>d \<in> set domains. dm_is_active d \<and> normalize (dm_domain d) = p) (normalize domain) c"
proof -
  from assms obtain i where i: "index_by_domain domains c = Some i" "d = domains ! i"
    and c: "find (\<lambda>candidate. index_by_domain domains candidate \<noteq> None) (candidates domain) = Some c"
    by (auto simp: resolve_domain_def Let_def find_Some_iff split: if_splits option.splits)
  have m: "most_specific (\<lambda>p. index_by_domain domains p \<noteq> None) (normalize domain) c"
    using c unfolding find_candidates_Some most_specific_def .
  then have "most_specific (\<lambda>p. \<exists>d \<in> set domains. dm_is_active d \<and> normalize (dm_domain d) = p) (normalize domain) c"
    unfolding most_specific_def index_by_domain_dom by blast
  then show ?thesis using i by (simp add: index_by_domain_iff)
qed

end
