(* ===== verification/ExpiringCache.thy ===== *)
theory ExpiringCache
  imports Prelude
begin

text \<open>
  The data structure three caches of the program share: a \<open>sync.Map\<close> with an atomic counter of its
  entries (\<open>internal/cache/cache.go\<close>, \<open>internal/auth/token_cache.go\<close>, \<open>internal/smtp/server.go\<close>). Every
  operation on the map and the counter is atomic; a cache operation is modelled as running alone.
  The order in which \<open>Range\<close> visits the keys is a parameter \<open>visit\<close> with the hypothesis \<open>range_law\<close>:
  every key once, in any order.

  The locales state what an expiring cache promises: its counter is the number of its entries, its
  entries were put there by an operation, and (for the bounded ones) it never outgrows its limit.
\<close>

section \<open>A map with a counter\<close>

record 'v counted_map =
  cm_m :: "string \<rightharpoonup> 'v"
  cm_size :: int

definition load_and_delete :: "string \<Rightarrow> ('v, 'z) counted_map_scheme \<Rightarrow> ('v, 'z) counted_map_scheme" where
  "load_and_delete k s =
     (case cm_m s k of None \<Rightarrow> s
      | Some _ \<Rightarrow> s\<lparr>cm_m := (cm_m s)(k := None), cm_size := cm_size s - 1\<rparr>)"

definition load_or_store :: "string \<Rightarrow> 'v \<Rightarrow> ('v, 'z) counted_map_scheme \<Rightarrow> ('v, 'z) counted_map_scheme" where
  "load_or_store k v s =
     (case cm_m s k of None \<Rightarrow> s\<lparr>cm_m := (cm_m s)(k \<mapsto> v), cm_size := cm_size s + 1\<rparr>
      | Some _ \<Rightarrow> s\<lparr>cm_m := (cm_m s)(k \<mapsto> v)\<rparr>)"

text \<open>\<open>Range\<close> with a body that deletes the entries that satisfy a condition.\<close>

definition range_delete ::
  "('v \<Rightarrow> bool) \<Rightarrow> string list \<Rightarrow> ('v, 'z) counted_map_scheme \<Rightarrow> ('v, 'z) counted_map_scheme" where
  "range_delete dead order s =
     foldl (\<lambda>s k. case cm_m s k of None \<Rightarrow> s
                   | Some v \<Rightarrow> if dead v then load_and_delete k s else s) s order"

definition range_law :: "((string \<rightharpoonup> 'v) \<Rightarrow> string list) \<Rightarrow> bool" where
  "range_law visit \<longleftrightarrow> (\<forall>m. finite (dom m) \<longrightarrow> set (visit m) = dom m \<and> distinct (visit m))"

definition exact :: "('v, 'z) counted_map_scheme \<Rightarrow> bool" where
  "exact s \<longleftrightarrow> finite (dom (cm_m s)) \<and> cm_size s = int (card (dom (cm_m s)))"

lemma card_dom_remove:
  "finite (dom m) \<Longrightarrow> m k = Some v \<Longrightarrow> int (card (dom (m(k := None)))) = int (card (dom m)) - 1"
proof -
  assume f: "finite (dom m)" and k: "m k = Some v"
  then have "k \<in> dom m" by auto
  with f have "Suc (card (dom m - {k})) = card (dom m)" by (rule card_Suc_Diff1)
  moreover have "dom (m(k := None)) = dom m - {k}" by simp
  ultimately show ?thesis by (metis add_diff_cancel_left' of_nat_Suc)
qed

lemma exact_load_and_delete [intro]: "exact s \<Longrightarrow> exact (load_and_delete k s)"
  unfolding exact_def load_and_delete_def using card_dom_remove [of "cm_m s" k]
  by (auto split: option.splits)

lemma exact_load_or_store [intro]: "exact s \<Longrightarrow> exact (load_or_store k v s)"
  unfolding exact_def load_or_store_def
  by (auto simp: insert_absorb card_insert_if split: option.splits)

lemma cm_m_load_and_delete [simp]: "cm_m (load_and_delete k s) = (cm_m s)(k := None)"
  by (auto simp: load_and_delete_def split: option.splits)

lemma cm_m_load_or_store [simp]: "cm_m (load_or_store k v s) = (cm_m s)(k \<mapsto> v)"
  by (simp add: load_or_store_def split: option.splits)

lemma more_load_and_delete [simp]: "counted_map.more (load_and_delete k s) = counted_map.more s"
  by (simp add: load_and_delete_def split: option.splits)

lemma more_load_or_store [simp]: "counted_map.more (load_or_store k v s) = counted_map.more s"
  by (simp add: load_or_store_def split: option.splits)

lemma size_load_and_delete: "cm_size (load_and_delete k s) \<le> cm_size s"
  by (simp add: load_and_delete_def split: option.splits)

lemma size_load_or_store:
  "cm_size (load_or_store k v s) = (if cm_m s k = None then cm_size s + 1 else cm_size s)"
  by (simp add: load_or_store_def split: option.splits)

lemma range_delete_Nil [simp]: "range_delete dead [] s = s"
  by (simp add: range_delete_def)

lemma range_delete_Cons:
  "range_delete dead (k # ks) s =
     range_delete dead ks (case cm_m s k of None \<Rightarrow> s | Some v \<Rightarrow> if dead v then load_and_delete k s else s)"
  by (simp add: range_delete_def)

lemma exact_range_delete [intro]: "exact s \<Longrightarrow> exact (range_delete dead ks s)"
proof (induction ks arbitrary: s)
  case (Cons k ks)
  then show ?case by (auto simp: range_delete_Cons split: option.splits)
qed simp

lemma size_range_delete: "cm_size (range_delete dead ks s) \<le> cm_size s"
proof (induction ks arbitrary: s)
  case (Cons k ks)
  show ?case
    using Cons.IH [of s] Cons.IH [of "load_and_delete k s"] size_load_and_delete [of k s]
    by (auto simp: range_delete_Cons split: option.splits)
qed simp

lemma more_range_delete [simp]: "counted_map.more (range_delete dead ks s) = counted_map.more s"
proof (induction ks arbitrary: s)
  case (Cons k ks)
  then show ?case by (auto simp: range_delete_Cons split: option.splits)
qed simp

lemma cm_m_range_delete:
  "cm_m (range_delete dead ks s) k =
     (case cm_m s k of None \<Rightarrow> None | Some v \<Rightarrow> if k \<in> set ks \<and> dead v then None else Some v)"
proof (induction ks arbitrary: s)
  case Nil
  then show ?case by (simp split: option.splits)
next
  case (Cons j ks)
  show ?case by (auto simp: range_delete_Cons Cons.IH split: option.splits)
qed

section \<open>What a cache promises\<close>

locale expiring_cache =
  fixes step :: "'op \<Rightarrow> 's \<Rightarrow> 's"
    and entries :: "'s \<Rightarrow> 'k \<rightharpoonup> 'v"
    and count :: "'s \<Rightarrow> int"
    and puts :: "'op \<Rightarrow> 'k \<Rightarrow> 'v \<Rightarrow> bool"
  assumes step_count:
      "finite (dom (entries s)) \<Longrightarrow> count s = int (card (dom (entries s))) \<Longrightarrow>
       finite (dom (entries (step op s))) \<and> count (step op s) = int (card (dom (entries (step op s))))"
    and step_puts: "entries (step op s) k = Some v \<Longrightarrow> entries s k = Some v \<or> puts op k v"
begin

lemma run_count:
  "finite (dom (entries s)) \<Longrightarrow> count s = int (card (dom (entries s))) \<Longrightarrow>
   finite (dom (entries (foldl (\<lambda>s op. step op s) s ops))) \<and>
   count (foldl (\<lambda>s op. step op s) s ops) = int (card (dom (entries (foldl (\<lambda>s op. step op s) s ops))))"
proof (induction ops arbitrary: s)
  case (Cons op ops)
  then show ?case using step_count [of s op] by simp
qed simp

lemma run_puts:
  "entries (foldl (\<lambda>s op. step op s) s ops) k = Some v \<Longrightarrow>
   entries s k = Some v \<or> (\<exists>op \<in> set ops. puts op k v)"
proof (induction ops arbitrary: s)
  case (Cons op ops)
  from Cons.IH [of "step op s"] Cons.prems step_puts [of op s k v] show ?case by auto
qed simp

end

locale bounded_cache = expiring_cache step entries count puts
  for step :: "'op \<Rightarrow> 's \<Rightarrow> 's" and entries :: "'s \<Rightarrow> 'k \<rightharpoonup> 'v"
    and count :: "'s \<Rightarrow> int" and puts :: "'op \<Rightarrow> 'k \<Rightarrow> 'v \<Rightarrow> bool" +
  fixes cap :: "'s \<Rightarrow> int"
  assumes step_cap: "cap (step op s) = cap s"
    and step_bound: "0 < cap s \<Longrightarrow> count s \<le> cap s \<Longrightarrow> count (step op s) \<le> cap s"
begin

lemma run_bound:
  "0 < cap s \<Longrightarrow> count s \<le> cap s \<Longrightarrow>
   count (foldl (\<lambda>s op. step op s) s ops) \<le> cap s \<and> cap (foldl (\<lambda>s op. step op s) s ops) = cap s"
proof (induction ops arbitrary: s)
  case (Cons op ops)
  then show ?case using step_bound [of s op] step_cap [of op s] by (metis foldl_Cons)
qed simp

end

end
