(* ===== verification/RateLimiter.thy ===== *)
theory RateLimiter
  imports Prelude
begin

text \<open>
  The interface of a rate limiter, as the HTTP middlewares and the SMTP server use it
  (\<open>RateLimitChecker\<close> and \<open>KeyRateLimitChecker\<close> in \<open>internal/middleware\<close>, \<open>cache.Interface\<close> in
  \<open>internal/smtp\<close>): a check returns an error or whether the request is allowed. The contract is stated
  with a ghost counter \<open>used\<close> of the current window: a granted request is counted, and no counter
  exceeds its limit by granting. The lemma proved from it bounds the grants of a whole window.
\<close>

type_synonym ('k, 'e, 's) limiter = "'k \<Rightarrow> int \<Rightarrow> duration \<Rightarrow> time \<times> time \<Rightarrow> 's \<Rightarrow> ('e + bool) \<times> 's"

text \<open>A run of requests, each with its key and clock readings; \<open>lim\<close> gives the limit of a key.\<close>

fun run_checks ::
  "('k, 'e, 's) limiter \<Rightarrow> ('k \<Rightarrow> int) \<Rightarrow> duration \<Rightarrow> ('k \<times> time \<times> time) list \<Rightarrow> 's \<Rightarrow> ('k \<times> ('e + bool)) list" where
  "run_checks check lim w [] s = []"
| "run_checks check lim w ((k, clk) # rs) s =
     (let (r, s') = check k (lim k) w clk s in (k, r) # run_checks check lim w rs s')"

definition granted :: "'k \<Rightarrow> ('k \<times> ('e + bool)) list \<Rightarrow> nat" where
  "granted k rs = length (filter (\<lambda>(j, r). j = k \<and> r = Inr True) rs)"

lemma granted_simps [simp]:
  "granted k [] = 0"
  "granted k ((j, r) # rs) = (if j = k \<and> r = Inr True then Suc (granted k rs) else granted k rs)"
  by (simp_all add: granted_def)

locale rate_limiter =
  fixes check :: "('k, 'e, 's) limiter"
    and used :: "'s \<Rightarrow> 'k \<Rightarrow> int"
    and valid :: "'s \<Rightarrow> bool"
  assumes check_valid: "valid s \<Longrightarrow> valid (snd (check k limit w clk s))"
    and check_mono: "valid s \<Longrightarrow> used s j \<le> used (snd (check k limit w clk s)) j"
    and check_granted: "valid s \<Longrightarrow> 0 < limit \<Longrightarrow> check k limit w clk s = (Inr True, s') \<Longrightarrow>
      used s k + 1 \<le> used s' k \<and> used s' k \<le> limit"
    and check_unlimited: "limit \<le> 0 \<Longrightarrow> check k limit w clk s = (Inr True, s)"
begin

lemma granted_bound:
  "valid s \<Longrightarrow> 0 < lim k \<Longrightarrow> int (granted k (run_checks check lim w rs s)) \<le> max 0 (lim k - used s k)"
proof (induction rs arbitrary: s)
  case (Cons req rs)
  obtain j clk where req: "req = (j, clk)" by (cases req)
  obtain r s' where c: "check j (lim j) w clk s = (r, s')" by fastforce
  have v: "valid s'" using check_valid [OF Cons.prems(1), of j "lim j" w clk] c by simp
  have m: "used s k \<le> used s' k" using check_mono [OF Cons.prems(1), of k j "lim j" w clk] c by simp
  note IH = Cons.IH [OF v Cons.prems(2)]
  show ?case
  proof (cases "j = k \<and> r = Inr True")
    case True
    then have c': "check k (lim k) w clk s = (Inr True, s')" "j = k" using c by simp_all
    then have "used s k + 1 \<le> used s' k \<and> used s' k \<le> lim k"
      using check_granted [OF Cons.prems(1), of "lim k" k w clk s'] Cons.prems(2) by simp
    then show ?thesis using IH by (simp add: req c' max_def)
  next
    case False
    then have "granted k (run_checks check lim w (req # rs) s) = granted k (run_checks check lim w rs s')"
      by (auto simp: req c)
    then show ?thesis using IH m by (simp add: max_def split: if_splits)
  qed
qed simp

lemma unlimited_granted: "lim k \<le> 0 \<Longrightarrow> run_checks check lim w ((k, clk) # rs) s = (k, Inr True) # run_checks check lim w rs s"
  by (simp add: check_unlimited)

end

end
