(* ===== verification/Auth.thy ===== *)
theory Auth
  imports Model ExpiringCache
begin

text \<open>
  \<open>internal/auth\<close>: JSON web tokens for accounts (\<open>auth.go\<close>) and the cache of validated tokens
  (\<open>token_cache.go\<close>). The JWT library is a parameter: \<open>sign\<close> for \<open>SignedString\<close>, \<open>parse\<close> for
  \<open>ParseWithClaims\<close> with its own reading of the clock, \<open>numeric_date\<close> for the truncation of times;
  \<open>jwt_time_law\<close> and \<open>jwt_sign_law\<close> state what it documents. Every reading of \<open>time.Now()\<close> is an
  argument.
\<close>

section \<open>The cache of tokens\<close>

record claims =
  cl_account_id :: string
  cl_address :: string
  cl_expires_at :: "time option"
  cl_issued_at :: "time option"
  cl_not_before :: "time option"

record token_cache_entry =
  te_claims :: claims
  te_expires :: time
  te_stored_at :: time

record token_cache = "token_cache_entry counted_map" +
  tc_max_entries :: int
  tc_sweep_interval :: duration
  tc_last_sweep_unix :: time

definition new_token_cache :: "int \<Rightarrow> duration \<Rightarrow> token_cache" where
  "new_token_cache max_entries sweep_interval =
     \<lparr>cm_m = Map.empty, cm_size = 0,
      tc_max_entries = (if max_entries \<le> 0 then 1 else max_entries),
      tc_sweep_interval = (if sweep_interval \<le> 0 then 30 * second else sweep_interval),
      tc_last_sweep_unix = 0\<rparr>"

definition entry_expired :: "time \<Rightarrow> token_cache_entry \<Rightarrow> bool" where
  "entry_expired now e \<longleftrightarrow> \<not> is_zero_time (te_expires e) \<and> \<not> now < te_expires e"

type_synonym token_visit = "(string \<rightharpoonup> token_cache_entry) \<Rightarrow> string list"

definition tc_maybe_sweep :: "token_visit \<Rightarrow> time \<Rightarrow> token_cache \<Rightarrow> token_cache" where
  "tc_maybe_sweep visit now tc =
     (let last = tc_last_sweep_unix tc in
      if last \<noteq> 0 \<and> now - last < tc_sweep_interval tc then tc
      else range_delete (entry_expired now) (visit (cm_m tc)) (tc\<lparr>tc_last_sweep_unix := now\<rparr>))"

definition tc_get ::
  "token_visit \<Rightarrow> string \<Rightarrow> time \<Rightarrow> token_cache \<Rightarrow> claims option \<times> token_cache" where
  "tc_get visit token now tc =
     (case cm_m tc token of
        None \<Rightarrow> (None, tc_maybe_sweep visit now tc)
      | Some e \<Rightarrow>
          if entry_expired now e
          then (None, tc_maybe_sweep visit now (load_and_delete token tc))
          else (Some (te_claims e), tc_maybe_sweep visit now tc))"

text \<open>A zero expiry stands for a missing \<open>ExpiresAt\<close>; such a token is not cached.\<close>

definition claims_expiry :: "claims \<Rightarrow> time" where
  "claims_expiry c = (case cl_expires_at c of None \<Rightarrow> zero_time | Some t \<Rightarrow> t)"

definition tc_put ::
  "token_visit \<Rightarrow> string \<Rightarrow> claims option \<Rightarrow> time \<Rightarrow> token_cache \<Rightarrow> token_cache" where
  "tc_put visit token c now tc =
     (if c = None \<or> token = [] then tc
      else
        (let claims = the c; expires = claims_expiry claims in
         if is_zero_time expires then tc
         else if \<not> now < expires then tc
         else if 0 < tc_max_entries tc \<and> tc_max_entries tc \<le> cm_size tc \<and> cm_m tc token = None
         then tc_maybe_sweep visit now tc
         else
           (let e = \<lparr>te_claims = claims, te_expires = expires, te_stored_at = now\<rparr>
            in tc_maybe_sweep visit now (load_or_store token e tc))))"

section \<open>Tokens\<close>

datatype auth_error = ErrInvalidToken | ErrExpiredToken

datatype jwt_method = SigningMethodHMAC | OtherSigningMethod

text \<open>What the library reports: an expired token, any other error.\<close>

datatype jwt_error = JwtTokenExpired | JwtError

type_synonym key_func = "jwt_method \<Rightarrow> auth_error + bytes"
type_synonym jwt_parse = "key_func \<Rightarrow> time \<Rightarrow> string \<Rightarrow> jwt_error + claims \<times> bool"

record auth =
  au_secret :: bytes
  au_expiry :: duration
  au_cache :: "token_cache option"

definition new_auth :: "bytes \<Rightarrow> duration \<Rightarrow> auth" where
  "new_auth secret expiry =
     \<lparr>au_secret = secret, au_expiry = expiry, au_cache = Some (new_token_cache 50000 (30 * second))\<rparr>"

definition generate_token_with_expiry ::
  "(time \<Rightarrow> time) \<Rightarrow> (bytes \<Rightarrow> claims \<Rightarrow> 'e + string) \<Rightarrow> auth \<Rightarrow> string \<Rightarrow> string \<Rightarrow> duration \<Rightarrow> time
     \<Rightarrow> 'e + string" where
  "generate_token_with_expiry numeric_date sign a account_id address expiry0 now =
     (let expiry = (if expiry0 \<le> 0 then au_expiry a else expiry0);
          claims = \<lparr>cl_account_id = account_id, cl_address = address,
                    cl_expires_at = Some (numeric_date (now + expiry)),
                    cl_issued_at = Some (numeric_date now),
                    cl_not_before = Some (numeric_date now)\<rparr>
      in sign (au_secret a) claims)"

definition generate_token ::
  "(time \<Rightarrow> time) \<Rightarrow> (bytes \<Rightarrow> claims \<Rightarrow> 'e + string) \<Rightarrow> auth \<Rightarrow> string \<Rightarrow> string \<Rightarrow> time \<Rightarrow> 'e + string" where
  "generate_token numeric_date sign a account_id address now =
     generate_token_with_expiry numeric_date sign a account_id address (au_expiry a) now"

definition auth_key_func :: "auth \<Rightarrow> key_func" where
  "auth_key_func a m = (case m of SigningMethodHMAC \<Rightarrow> Inr (au_secret a) | _ \<Rightarrow> Inl ErrInvalidToken)"

text \<open>
  \<open>ValidateToken\<close> with its readings of the clock: before the cache lookup, in the parser and before
  the insertion.
\<close>

record clock = ck_get :: time  ck_parse :: time  ck_put :: time

definition parse_token :: "jwt_parse \<Rightarrow> auth \<Rightarrow> time \<Rightarrow> string \<Rightarrow> auth_error + claims" where
  "parse_token parse a now token =
     (case parse (auth_key_func a) now token of
        Inl JwtTokenExpired \<Rightarrow> Inl ErrExpiredToken
      | Inl JwtError \<Rightarrow> Inl ErrInvalidToken
      | Inr (claims, valid) \<Rightarrow> if valid then Inr claims else Inl ErrInvalidToken)"

definition validate_token ::
  "token_visit \<Rightarrow> jwt_parse \<Rightarrow> clock \<Rightarrow> string \<Rightarrow> auth \<Rightarrow> (auth_error + claims) \<times> auth" where
  "validate_token visit parse ck token a =
     (if token = [] then (Inl ErrInvalidToken, a)
      else
        (let (hit, a1) = (case au_cache a of None \<Rightarrow> (None, a)
                          | Some tc \<Rightarrow> (let (r, tc') = tc_get visit token (ck_get ck) tc
                                        in (r, a\<lparr>au_cache := Some tc'\<rparr>)))
         in case hit of
              Some c \<Rightarrow> (Inr c, a1)
            | None \<Rightarrow>
              (case parse_token parse a1 (ck_parse ck) token of
                 Inl err \<Rightarrow> (Inl err, a1)
               | Inr claims \<Rightarrow>
                   (Inr claims,
                    a1\<lparr>au_cache := map_option (tc_put visit token (Some claims) (ck_put ck)) (au_cache a1)\<rparr>))))"

section \<open>The cache is exact and bounded\<close>

datatype token_op = TcGet string time | TcPut string "claims option" time

definition tc_step :: "token_visit \<Rightarrow> token_op \<Rightarrow> token_cache \<Rightarrow> token_cache" where
  "tc_step visit op tc = (case op of TcGet token now \<Rightarrow> snd (tc_get visit token now tc)
                           | TcPut token c now \<Rightarrow> tc_put visit token c now tc)"

text \<open>What an operation may put into the cache: unexpired claims, with their own expiry.\<close>

definition tc_puts :: "token_op \<Rightarrow> string \<Rightarrow> token_cache_entry \<Rightarrow> bool" where
  "tc_puts op token e = (case op of TcGet _ _ \<Rightarrow> False
     | TcPut tok c now \<Rightarrow> tok = token \<and> c = Some (te_claims e) \<and> te_stored_at e = now \<and>
         te_expires e = claims_expiry (te_claims e) \<and> now < te_expires e \<and> \<not> is_zero_time (te_expires e))"

lemma exact_update [simp]:
  "exact (tc\<lparr>tc_last_sweep_unix := n\<rparr>) = exact tc"
  by (simp add: exact_def)

lemma exact_tc_maybe_sweep [intro]: "exact tc \<Longrightarrow> exact (tc_maybe_sweep visit now tc)"
  by (auto simp: tc_maybe_sweep_def Let_def)

lemma exact_tc_get [intro]: "exact tc \<Longrightarrow> exact (snd (tc_get visit token now tc))"
  by (auto simp: tc_get_def split: option.splits)

lemma exact_tc_put [intro]: "exact tc \<Longrightarrow> exact (tc_put visit token c now tc)"
  by (auto simp: tc_put_def Let_def)

lemma tc_maybe_sweep_entries:
  "cm_m (tc_maybe_sweep visit now tc) k = Some e \<Longrightarrow> cm_m tc k = Some e"
  by (auto simp: tc_maybe_sweep_def Let_def cm_m_range_delete split: if_splits option.splits)

lemma size_tc_maybe_sweep: "cm_size (tc_maybe_sweep visit now tc) \<le> cm_size tc"
  using size_range_delete [of "entry_expired now" "visit (cm_m tc)" "tc\<lparr>tc_last_sweep_unix := now\<rparr>"]
  by (auto simp: tc_maybe_sweep_def Let_def)

lemma cap_range_delete [simp]: "tc_max_entries (range_delete dead ks tc) = tc_max_entries tc"
  using more_range_delete [of dead ks tc] by (metis token_cache.surjective counted_map.ext_inject
      counted_map.select_convs(3) token_cache.select_convs(1))

lemma cap_load [simp]:
  "tc_max_entries (load_and_delete k tc) = tc_max_entries tc"
  "tc_max_entries (load_or_store k e tc) = tc_max_entries tc"
  by (simp_all add: load_and_delete_def load_or_store_def split: option.splits)

lemma cap_tc_maybe_sweep [simp]: "tc_max_entries (tc_maybe_sweep visit now tc) = tc_max_entries tc"
  by (simp add: tc_maybe_sweep_def Let_def)

lemma tc_get_entries: "cm_m (snd (tc_get visit token now tc)) k = Some e \<Longrightarrow> cm_m tc k = Some e"
  by (auto simp: tc_get_def split: option.splits if_splits dest!: tc_maybe_sweep_entries)

lemma tc_put_entries:
  "cm_m (tc_put visit token c now tc) k = Some e \<Longrightarrow> cm_m tc k = Some e \<or> tc_puts (TcPut token c now) k e"
  by (auto simp: tc_put_def tc_puts_def Let_def split: if_splits dest!: tc_maybe_sweep_entries)

lemma tc_step_entries:
  "cm_m (tc_step visit op tc) k = Some e \<Longrightarrow> cm_m tc k = Some e \<or> tc_puts op k e"
  by (cases op) (auto simp: tc_step_def dest: tc_get_entries tc_put_entries)

lemma tc_step_cap: "tc_max_entries (tc_step visit op tc) = tc_max_entries tc"
  by (cases op) (simp_all add: tc_step_def tc_get_def tc_put_def Let_def split: option.splits)

lemma tc_step_bound:
  assumes "0 < tc_max_entries tc" "cm_size tc \<le> tc_max_entries tc"
  shows "cm_size (tc_step visit op tc) \<le> tc_max_entries tc"
proof (cases op)
  case (TcGet token now)
  have "cm_size (snd (tc_get visit token now tc)) \<le> cm_size tc"
    using size_tc_maybe_sweep [of visit now tc] size_load_and_delete [of token tc]
      size_tc_maybe_sweep [of visit now "load_and_delete token tc"]
    by (auto simp: tc_get_def split: option.splits)
  then show ?thesis using assms TcGet by (simp add: tc_step_def)
next
  case (TcPut token c now)
  have s: "cm_size t \<le> n \<Longrightarrow> cm_size (tc_maybe_sweep visit now t) \<le> n" for t n
    using size_tc_maybe_sweep [of visit now t] by linarith
  show ?thesis
    using assms TcPut by (auto simp: tc_step_def tc_put_def Let_def size_load_or_store intro!: s)
qed

interpretation token_cache: bounded_cache "tc_step visit" cm_m cm_size tc_puts tc_max_entries
  for visit
proof unfold_locales
  fix op and s :: token_cache
  assume "finite (dom (cm_m s))" "cm_size s = int (card (dom (cm_m s)))"
  then have "exact s" by (simp add: exact_def)
  then have "exact (tc_step visit op s)" by (cases op) (auto simp: tc_step_def)
  then show "finite (dom (cm_m (tc_step visit op s))) \<and>
      cm_size (tc_step visit op s) = int (card (dom (cm_m (tc_step visit op s))))"
    by (simp add: exact_def)
qed (simp_all add: tc_step_entries tc_step_cap tc_step_bound)

section \<open>The cache is transparent\<close>

text \<open>
  A token accepted at some time is accepted, with the same claims, at every later time before its
  expiry: what \<open>ParseWithClaims\<close> documents about the clock.
\<close>

definition jwt_time_law :: "jwt_parse \<Rightarrow> bool" where
  "jwt_time_law parse \<longleftrightarrow>
     (\<forall>kf t t' token c v. parse kf t token = Inr (c, v) \<longrightarrow> t \<le> t' \<longrightarrow>
        (\<forall>e. cl_expires_at c = Some e \<longrightarrow> t' < e) \<longrightarrow> parse kf t' token = Inr (c, v))"

definition cache_sound :: "jwt_parse \<Rightarrow> time \<Rightarrow> auth \<Rightarrow> bool" where
  "cache_sound parse now a \<longleftrightarrow>
     (\<forall>tc token e. au_cache a = Some tc \<longrightarrow> cm_m tc token = Some e \<longrightarrow>
        te_expires e = claims_expiry (te_claims e) \<and> \<not> is_zero_time (te_expires e) \<and>
        (\<exists>t \<le> now. parse_token parse a t token = Inr (te_claims e)))"

lemma auth_key_func_cache [simp]: "auth_key_func (a\<lparr>au_cache := c\<rparr>) = auth_key_func a"
  by (rule ext) (simp add: auth_key_func_def split: jwt_method.splits)

lemma parse_token_cache [simp]: "parse_token parse (a\<lparr>au_cache := c\<rparr>) = parse_token parse a"
  by (rule ext)+ (simp add: parse_token_def)

lemma parse_token_later:
  assumes "jwt_time_law parse" "parse_token parse a t token = Inr c" "t \<le> t'"
    and "cl_expires_at c = Some e" "t' < e"
  shows "parse_token parse a t' token = Inr c"
proof -
  from assms(2) have p: "parse (auth_key_func a) t token = Inr (c, True)"
    by (auto simp: parse_token_def split: sum.splits jwt_error.splits if_splits)
  have "parse (auth_key_func a) t' token = Inr (c, True)"
    using assms(1) p assms(3-5) unfolding jwt_time_law_def by (metis option.inject)
  then show ?thesis by (simp add: parse_token_def)
qed

lemma tc_get_hit:
  "tc_get visit token now tc = (Some c, tc') \<Longrightarrow>
     \<exists>e. cm_m tc token = Some e \<and> c = te_claims e \<and> (is_zero_time (te_expires e) \<or> now < te_expires e)"
  by (auto simp: tc_get_def entry_expired_def split: option.splits if_splits)

definition uncached :: "jwt_parse \<Rightarrow> auth \<Rightarrow> time \<Rightarrow> string \<Rightarrow> auth_error + claims" where
  "uncached parse a now token = (if token = [] then Inl ErrInvalidToken else parse_token parse a now token)"

lemma cache_sound_sub:
  assumes "cache_sound parse now a" "now \<le> now'"
    and "\<And>tc' token e. c' = Some tc' \<Longrightarrow> cm_m tc' token = Some e \<Longrightarrow>
      (\<exists>tc. au_cache a = Some tc \<and> cm_m tc token = Some e) \<or>
      te_expires e = claims_expiry (te_claims e) \<and> \<not> is_zero_time (te_expires e) \<and>
        (\<exists>t \<le> now'. parse_token parse a t token = Inr (te_claims e))"
  shows "cache_sound parse now' (a\<lparr>au_cache := c'\<rparr>)"
  unfolding cache_sound_def
proof (intro allI impI)
  fix tc token e assume "au_cache (a\<lparr>au_cache := c'\<rparr>) = Some tc" "cm_m tc token = Some e"
  with assms(3) [of tc token e] assms(1,2)
  show "te_expires e = claims_expiry (te_claims e) \<and> \<not> is_zero_time (te_expires e) \<and>
      (\<exists>t \<le> now'. parse_token parse (a\<lparr>au_cache := c'\<rparr>) t token = Inr (te_claims e))"
    unfolding cache_sound_def parse_token_cache by (auto, meson order_trans)
qed

lemma validate_token_sound:
  assumes law: "jwt_time_law parse" and s: "cache_sound parse now a"
    and ck: "now \<le> ck_get ck" "ck_get ck \<le> ck_parse ck" "ck_parse ck \<le> ck_put ck"
  shows "(\<exists>t \<in> {ck_get ck, ck_parse ck}. fst (validate_token visit parse ck token a) = uncached parse a t token)
    \<and> cache_sound parse (ck_put ck) (snd (validate_token visit parse ck token a))
    \<and> au_secret (snd (validate_token visit parse ck token a)) = au_secret a"
proof (cases "token = []")
  case True
  then show ?thesis
    using cache_sound_sub [OF s, of "ck_put ck" "au_cache a"] ck
    by (auto simp: validate_token_def uncached_def)
next
  case ne: False
  show ?thesis
  proof (cases "au_cache a")
    case None
    then have "cache_sound parse t a" for t by (simp add: cache_sound_def)
    then show ?thesis using ne None
      by (auto simp: validate_token_def uncached_def cache_sound_def split: sum.splits)
  next
    case (Some tc)
    obtain hit tc' where g: "tc_get visit token (ck_get ck) tc = (hit, tc')" by fastforce
    have sub: "cm_m tc' k = Some e \<Longrightarrow> cm_m tc k = Some e" for k e
      using tc_get_entries [of visit token "ck_get ck" tc k e] g by simp
    have s1: "cache_sound parse (ck_put ck) (a\<lparr>au_cache := Some tc'\<rparr>)"
      using s ck Some by (intro cache_sound_sub [OF s]) (auto dest: sub)
    show ?thesis
    proof (cases hit)
      case hit: (Some c)
      from tc_get_hit [of visit token "ck_get ck" tc c tc'] g hit obtain e where
        e: "cm_m tc token = Some e" "c = te_claims e"
          "is_zero_time (te_expires e) \<or> ck_get ck < te_expires e" by auto
      with s Some obtain t where t: "t \<le> now" "parse_token parse a t token = Inr c"
        and x: "te_expires e = claims_expiry c" "\<not> is_zero_time (te_expires e)"
        unfolding cache_sound_def by metis
      from x have "cl_expires_at c = Some (te_expires e)"
        by (auto simp: claims_expiry_def is_zero_time_def split: option.splits)
      then have "parse_token parse a (ck_get ck) token = Inr c"
        using parse_token_later [OF law t(2)] t(1) ck e(3) x(2) by (auto intro: order_trans)
      then show ?thesis using ne Some g hit s1
        by (auto simp: validate_token_def uncached_def)
    next
      case miss: None
      show ?thesis
      proof (cases "parse_token parse a (ck_parse ck) token")
        case (Inl err)
        then show ?thesis using ne Some g miss s1 by (auto simp: validate_token_def uncached_def)
      next
        case (Inr c)
        have "cache_sound parse (ck_put ck)
            (a\<lparr>au_cache := Some (tc_put visit token (Some c) (ck_put ck) tc')\<rparr>)"
        proof (rule cache_sound_sub [OF s])
          fix tc'' k e
          assume "Some (tc_put visit token (Some c) (ck_put ck) tc') = Some tc''" "cm_m tc'' k = Some e"
          then have "cm_m tc' k = Some e \<or> tc_puts (TcPut token (Some c) (ck_put ck)) k e"
            using tc_put_entries [of visit token "Some c" "ck_put ck" tc' k e] by simp
          then show "(\<exists>tc. au_cache a = Some tc \<and> cm_m tc k = Some e) \<or>
            te_expires e = claims_expiry (te_claims e) \<and> \<not> is_zero_time (te_expires e) \<and>
              (\<exists>t \<le> ck_put ck. parse_token parse a t k = Inr (te_claims e))"
            using Some Inr ck(3) by (auto simp: tc_puts_def dest: sub)
        qed (use ck in simp)
        then show ?thesis using ne Some g miss Inr by (auto simp: validate_token_def uncached_def)
      qed
    qed
  qed
qed

text \<open>A sequence of validations; the clock never runs backwards.\<close>

fun validate_all ::
  "token_visit \<Rightarrow> jwt_parse \<Rightarrow> (clock \<times> string) list \<Rightarrow> auth \<Rightarrow> (auth_error + claims) list" where
  "validate_all visit parse [] a = []"
| "validate_all visit parse ((ck, token) # rs) a =
     (let (r, a') = validate_token visit parse ck token a in r # validate_all visit parse rs a')"

fun clocks_run :: "time \<Rightarrow> (clock \<times> string) list \<Rightarrow> bool" where
  "clocks_run now [] = True"
| "clocks_run now ((ck, _) # rs) =
     (now \<le> ck_get ck \<and> ck_get ck \<le> ck_parse ck \<and> ck_parse ck \<le> ck_put ck \<and> clocks_run (ck_put ck) rs)"

definition answer_ok :: "jwt_parse \<Rightarrow> auth \<Rightarrow> clock \<times> string \<Rightarrow> auth_error + claims \<Rightarrow> bool" where
  "answer_ok parse a req r =
     (r = uncached parse a (ck_get (fst req)) (snd req) \<or> r = uncached parse a (ck_parse (fst req)) (snd req))"

lemma uncached_secret: "au_secret a = au_secret b \<Longrightarrow> uncached parse a = uncached parse b"
proof -
  assume "au_secret a = au_secret b"
  then have "auth_key_func a = auth_key_func b"
    by (intro ext) (simp add: auth_key_func_def split: jwt_method.splits)
  then show ?thesis by (intro ext) (simp add: uncached_def parse_token_def)
qed

lemma validate_all_answers:
  assumes "jwt_time_law parse"
  shows "cache_sound parse now a \<Longrightarrow> clocks_run now rs \<Longrightarrow>
    list_all2 (answer_ok parse a) rs (validate_all visit parse rs a)"
proof (induction rs arbitrary: now a)
  case (Cons req rs)
  obtain ck token where req: "req = (ck, token)" by fastforce
  obtain r a' where v: "validate_token visit parse ck token a = (r, a')" by fastforce
  have ck: "now \<le> ck_get ck" "ck_get ck \<le> ck_parse ck" "ck_parse ck \<le> ck_put ck" "clocks_run (ck_put ck) rs"
    using Cons.prems(2) req by simp_all
  have sound: "answer_ok parse a req r" "cache_sound parse (ck_put ck) a'" "au_secret a' = au_secret a"
    using validate_token_sound [OF assms Cons.prems(1) ck(1-3), of visit token] v req
    by (auto simp: answer_ok_def)
  have "answer_ok parse a' = answer_ok parse a"
    by (intro ext) (simp add: answer_ok_def uncached_secret [OF sound(3)])
  with Cons.IH [OF sound(2) ck(4)] sound(1) req v show ?case by simp
qed simp

lemma cache_sound_new: "cache_sound parse now (new_auth secret expiry)"
  by (simp add: cache_sound_def new_auth_def new_token_cache_def)

section \<open>Issued tokens\<close>

text \<open>
  Signing and parsing: a signed token is not empty, and parsing it with the signing key gives back
  the claims exactly while they are valid; \<open>NumericDate\<close> truncates by less than a second.
\<close>

definition jwt_sign_law ::
  "(time \<Rightarrow> time) \<Rightarrow> (bytes \<Rightarrow> claims \<Rightarrow> 'e + string) \<Rightarrow> jwt_parse \<Rightarrow> bool" where
  "jwt_sign_law numeric_date sign parse \<longleftrightarrow>
     (\<forall>t. numeric_date t \<le> t \<and> t < numeric_date t + second) \<and>
     (\<forall>secret c token kf t. sign secret c = Inr token \<longrightarrow> kf SigningMethodHMAC = Inr secret \<longrightarrow>
        token \<noteq> [] \<and>
        parse kf t token =
          (if (case cl_expires_at c of None \<Rightarrow> False | Some e \<Rightarrow> \<not> t < e) then Inl JwtTokenExpired
           else if (case cl_not_before c of None \<Rightarrow> False | Some n \<Rightarrow> t < n) then Inl JwtError
           else Inr (c, True)))"

lemma issued_token_parses:
  assumes law: "jwt_sign_law numeric_date sign parse"
    and gen: "generate_token_with_expiry numeric_date sign a account_id address expiry now = Inr token"
  shows "token \<noteq> []"
    "now \<le> t \<Longrightarrow> t < numeric_date (now + (if expiry \<le> 0 then au_expiry a else expiry)) \<Longrightarrow>
       \<exists>c. parse_token parse a t token = Inr c \<and> cl_account_id c = account_id \<and> cl_address c = address"
    "numeric_date (now + (if expiry \<le> 0 then au_expiry a else expiry)) \<le> t \<Longrightarrow>
       parse_token parse a t token = Inl ErrExpiredToken"
proof -
  let ?x = "if expiry \<le> 0 then au_expiry a else expiry"
  let ?c = "\<lparr>cl_account_id = account_id, cl_address = address, cl_expires_at = Some (numeric_date (now + ?x)),
             cl_issued_at = Some (numeric_date now), cl_not_before = Some (numeric_date now)\<rparr>"
  have s: "sign (au_secret a) ?c = Inr token"
    using gen by (simp add: generate_token_with_expiry_def Let_def)
  have k: "auth_key_func a SigningMethodHMAC = Inr (au_secret a)" by (simp add: auth_key_func_def)
  have n: "numeric_date now \<le> now" using law by (simp add: jwt_sign_law_def)
  have all: "token \<noteq> [] \<and> parse (auth_key_func a) t token =
     (if \<not> t < numeric_date (now + ?x) then Inl JwtTokenExpired
      else if t < numeric_date now then Inl JwtError else Inr (?c, True))" for t
    using law s k unfolding jwt_sign_law_def by fastforce
  show "token \<noteq> []" using all by blast
  show "\<exists>c. parse_token parse a t token = Inr c \<and> cl_account_id c = account_id \<and> cl_address c = address"
    if "now \<le> t" "t < numeric_date (now + ?x)"
    using that n all [of t] by (simp add: parse_token_def)
  show "parse_token parse a t token = Inl ErrExpiredToken" if "numeric_date (now + ?x) \<le> t"
    using that all [of t] by (simp add: parse_token_def)
qed

section \<open>Properties of authentication\<close>

text \<open>
  However often the token cache is read, filled and swept, its counter is the number of its
  entries, it never exceeds its limit, and every entry was put there with the expiry of its claims.
\<close>

theorem token_cache_invariant:
  "let tc = foldl (\<lambda>tc op. tc_step visit op tc) (new_token_cache max_entries sweep_interval) ops in
   finite (dom (cm_m tc)) \<and> cm_size tc = int (card (dom (cm_m tc))) \<and> cm_size tc \<le> max 1 max_entries \<and>
   (\<forall>token. case cm_m tc token of None \<Rightarrow> True | Some e \<Rightarrow> list_ex (\<lambda>op. tc_puts op token e) ops)"
proof -
  let ?n = "new_token_cache max_entries sweep_interval"
  let ?tc = "foldl (\<lambda>tc op. tc_step visit op tc) ?n ops"
  have n: "cm_m ?n = Map.empty" "cm_size ?n = 0" "tc_max_entries ?n = (if max_entries \<le> 0 then 1 else max_entries)"
    by (simp_all add: new_token_cache_def)
  then have "finite (dom (cm_m ?tc)) \<and> cm_size ?tc = int (card (dom (cm_m ?tc)))"
    by (intro token_cache.run_count) simp_all
  moreover have "cm_size ?tc \<le> max 1 max_entries"
    using token_cache.run_bound [of ?n visit ops] n by (simp split: if_splits)
  moreover have "cm_m ?tc token = Some e \<Longrightarrow> list_ex (\<lambda>op. tc_puts op token e) ops" for token e
    using token_cache.run_puts [of visit ?n ops token e] n(1) by (simp add: list_ex_iff)
  ultimately show ?thesis by (simp add: Let_def split: option.splits)
qed

text \<open>
  C21: the cache is transparent: in any sequence of validations, each answer of ValidateToken is what
  validation without a cache gives at one of the instants at which that call reads the clock; in
  particular no token is accepted from the cache after its expiry.
\<close>

theorem validation_cache_transparent:
  assumes "jwt_time_law parse" and "clocks_run now rs"
  shows "list_all2 (answer_ok parse (new_auth secret expiry)) rs
    (validate_all visit parse rs (new_auth secret expiry))"
  using assms by (intro validate_all_answers [OF _ cache_sound_new])

definition sample_claims :: claims where
  "sample_claims = \<lparr>cl_account_id = ''a1'', cl_address = ''u@x.io'', cl_expires_at = Some 100,
     cl_issued_at = None, cl_not_before = None\<rparr>"

definition sample_parse :: jwt_parse where
  "sample_parse kf t token =
     (if token \<noteq> ''tok'' \<or> kf SigningMethodHMAC \<noteq> Inr [7] then Inl JwtError
      else if t < 100 then Inr (sample_claims, True) else Inl JwtTokenExpired)"

lemma sample_parse_law: "jwt_time_law sample_parse"
  by (auto simp: jwt_time_law_def sample_parse_def sample_claims_def split: if_splits)

definition sample_requests :: "(clock \<times> string) list" where
  "sample_requests = [(\<lparr>ck_get = 1, ck_parse = 2, ck_put = 3\<rparr>, ''tok''), (\<lparr>ck_get = 4, ck_parse = 5, ck_put = 6\<rparr>, ''tok''),
     (\<lparr>ck_get = 100, ck_parse = 101, ck_put = 102\<rparr>, ''tok'')]"

theorem validation_cache_transparent_witness:
  "list_all2 (answer_ok sample_parse (new_auth [7] 50)) sample_requests
     (validate_all (\<lambda>_. [''tok'']) sample_parse sample_requests (new_auth [7] 50)) \<and>
   validate_all (\<lambda>_. [''tok'']) sample_parse sample_requests (new_auth [7] 50)
     = [Inr sample_claims, Inr sample_claims, Inl ErrExpiredToken]"
proof
  have "clocks_run 0 sample_requests" by (simp add: sample_requests_def)
  then show "list_all2 (answer_ok sample_parse (new_auth [7] 50)) sample_requests
     (validate_all (\<lambda>_. [''tok'']) sample_parse sample_requests (new_auth [7] 50))"
    by (rule validation_cache_transparent [OF sample_parse_law])
  show "validate_all (\<lambda>_. [''tok'']) sample_parse sample_requests (new_auth [7] 50)
     = [Inr sample_claims, Inr sample_claims, Inl ErrExpiredToken]"
    by (simp add: sample_requests_def new_auth_def new_token_cache_def validate_token_def tc_get_def tc_put_def
        tc_maybe_sweep_def Let_def parse_token_def sample_parse_def auth_key_func_def claims_expiry_def
        sample_claims_def is_zero_time_def zero_time_def second_def range_delete_def entry_expired_def
        load_or_store_def load_and_delete_def)
qed

text \<open>
  C30: a token issued for an account is accepted, with that account's id and address, from its issue
  until its (truncated) expiry, and refused as expired afterwards, also through the cache.
\<close>

theorem issued_token_validates:
  assumes "jwt_sign_law numeric_date sign parse" and "jwt_time_law parse"
    and "cache_sound parse now a"
    and "generate_token_with_expiry numeric_date sign a account_id address expiry now = Inr token"
    and "now \<le> ck_get ck" "ck_get ck \<le> ck_parse ck" "ck_parse ck \<le> ck_put ck"
  shows "(ck_parse ck < numeric_date (now + (if expiry \<le> 0 then au_expiry a else expiry)) \<longrightarrow>
      (\<exists>c. fst (validate_token visit parse ck token a) = Inr c \<and>
         cl_account_id c = account_id \<and> cl_address c = address)) \<and>
    (numeric_date (now + (if expiry \<le> 0 then au_expiry a else expiry)) \<le> ck_get ck \<longrightarrow>
      fst (validate_token visit parse ck token a) = Inl ErrExpiredToken)"
proof -
  note I = issued_token_parses [OF assms(1,4)]
  from validate_token_sound [OF assms(2,3,5-7), of visit token] obtain t where
    t: "t \<in> {ck_get ck, ck_parse ck}" "fst (validate_token visit parse ck token a) = uncached parse a t token"
    by blast
  have le: "ck_get ck \<le> t" "t \<le> ck_parse ck" using t(1) assms(6) by auto
  show ?thesis using I(2) [of t] I(3) [of t] I(1) t(2) le assms(5) by (simp add: uncached_def)
qed

definition sample_issued :: claims where
  "sample_issued = \<lparr>cl_account_id = ''a1'', cl_address = ''u@x.io'', cl_expires_at = Some (15 * second),
     cl_issued_at = Some (5 * second), cl_not_before = Some (5 * second)\<rparr>"

definition sample_sign :: "bytes \<Rightarrow> claims \<Rightarrow> unit + string" where
  "sample_sign secret c = (if secret = [7] \<and> c = sample_issued then Inr ''jwt'' else Inl ())"

definition sample_date :: "time \<Rightarrow> time" where "sample_date t = t - t mod second"

definition sample_verify :: jwt_parse where
  "sample_verify kf t token =
     (if token \<noteq> ''jwt'' \<or> kf SigningMethodHMAC \<noteq> Inr [7] then Inl JwtError
      else if \<not> t < 15 * second then Inl JwtTokenExpired
      else if t < 5 * second then Inl JwtError else Inr (sample_issued, True))"

lemma sample_sign_law: "jwt_sign_law sample_date sample_sign sample_verify"
proof -
  have "second - t mod second > 0" for t by (simp add: second_def)
  then have "sample_date t \<le> t \<and> t < sample_date t + second" for t
    by (simp add: sample_date_def second_def)
  then show ?thesis
    by (auto simp: jwt_sign_law_def sample_sign_def sample_verify_def sample_issued_def split: if_splits)
qed

lemma sample_verify_law: "jwt_time_law sample_verify"
  by (auto simp: jwt_time_law_def sample_verify_def sample_issued_def split: if_splits)

theorem issued_token_validates_witness:
  "\<exists>c. fst (validate_token (\<lambda>_. []) sample_verify \<lparr>ck_get = 6 * second, ck_parse = 6 * second, ck_put = 6 * second\<rparr>
      ''jwt'' (new_auth [7] (10 * second))) = Inr c \<and> cl_account_id c = ''a1'' \<and> cl_address c = ''u@x.io''"
proof -
  have g: "generate_token_with_expiry sample_date sample_sign (new_auth [7] (10 * second)) ''a1'' ''u@x.io'' 0
      (5 * second) = Inr ''jwt''"
    by (simp add: generate_token_with_expiry_def new_auth_def sample_sign_def sample_issued_def sample_date_def
        second_def)
  have "6 * second < sample_date (5 * second + au_expiry (new_auth [7] (10 * second)))"
    by (simp add: sample_date_def second_def new_auth_def)
  then show ?thesis
    using issued_token_validates [OF sample_sign_law sample_verify_law cache_sound_new g,
        of "\<lparr>ck_get = 6 * second, ck_parse = 6 * second, ck_put = 6 * second\<rparr>" "\<lambda>_. []"]
    by (simp add: second_def)
qed

end
