(* ===== verification/Cache.thy ===== *)
theory Cache
  imports Model ExpiringCache RateLimiter
begin

text \<open>
  \<open>internal/cache/cache.go\<close>: the Redis keys, the cache of known addresses, fixed-window rate limits
  with the Lua script \<open>incrExpireScript\<close>, and the local cache of keys that are over their limit.

  Redis is a service: its commands are the parameters of record \<open>redis_api\<close> over a state \<open>'r\<close>; what
  the code relies on is the hypothesis \<open>redis_laws\<close>. \<open>EVAL\<close> runs a script atomically and may fail
  before or after running it. Every reading of \<open>time.Now()\<close> is an argument.
\<close>

section \<open>Redis\<close>

datatype redis_error = RedisError

record 'r redis_api =
  rd_eval :: "('r \<Rightarrow> int \<times> 'r) \<Rightarrow> 'r \<Rightarrow> (redis_error + int) \<times> 'r"
  rd_incr :: "string \<Rightarrow> 'r \<Rightarrow> int \<times> 'r"
  rd_pexpire :: "string \<Rightarrow> int \<Rightarrow> 'r \<Rightarrow> 'r"
  rd_pttl :: "string \<Rightarrow> 'r \<Rightarrow> redis_error + duration"
  rd_set :: "string \<Rightarrow> string \<Rightarrow> duration \<Rightarrow> 'r \<Rightarrow> redis_error option \<times> 'r"
  rd_exists :: "string \<Rightarrow> 'r \<Rightarrow> redis_error + int"
  rd_del :: "string \<Rightarrow> 'r \<Rightarrow> redis_error option \<times> 'r"

text \<open>
  The laws: a script that reports a result has run once, one that reports an error has run once or
  not at all; \<open>INCR\<close> adds one to the key's counter and returns it; \<open>PEXPIRE\<close> with a positive time
  changes no counter (with any other it deletes the key).
\<close>

definition redis_laws :: "'r redis_api \<Rightarrow> ('r \<Rightarrow> string \<Rightarrow> int) \<Rightarrow> bool" where
  "redis_laws api counter \<longleftrightarrow>
     (\<forall>f r n r'. rd_eval api f r = (Inr n, r') \<longrightarrow> f r = (n, r')) \<and>
     (\<forall>f r e r'. rd_eval api f r = (Inl e, r') \<longrightarrow> r' = r \<or> r' = snd (f r)) \<and>
     (\<forall>k r. fst (rd_incr api k r) = counter r k + 1) \<and>
     (\<forall>k r j. counter (snd (rd_incr api k r)) j = (if j = k then counter r k + 1 else counter r j)) \<and>
     (\<forall>k ms r. 0 < ms \<longrightarrow> counter (rd_pexpire api k ms r) = counter r)"

text \<open>The Lua script: \<open>INCR\<close>, and the time to live on the first increment only.\<close>

definition incr_expire_script :: "'r redis_api \<Rightarrow> string \<Rightarrow> int \<Rightarrow> 'r \<Rightarrow> int \<times> 'r" where
  "incr_expire_script api key ttl_ms r =
     (let (current, r1) = rd_incr api key r;
          r2 = (if current = 1 then rd_pexpire api key ttl_ms r1 else r1)
      in (current, r2))"

section \<open>Keys over their limit\<close>

record block_cache = "int counted_map" +
  bc_max_entries :: int
  bc_sweep_interval :: duration

definition new_block_cache :: "int \<Rightarrow> duration \<Rightarrow> block_cache" where
  "new_block_cache max_entries sweep_interval =
     \<lparr>cm_m = Map.empty, cm_size = 0, bc_max_entries = max_entries,
      bc_sweep_interval = (if sweep_interval \<le> 0 then 30 * second else sweep_interval)\<rparr>"

definition bc_is_blocked :: "string \<Rightarrow> time \<Rightarrow> block_cache \<Rightarrow> bool \<times> block_cache" where
  "bc_is_blocked key now bc =
     (case cm_m bc key of
        None \<Rightarrow> (False, bc)
      | Some exp \<Rightarrow> if now < exp then (True, bc) else (False, load_and_delete key bc))"

definition bc_block :: "string \<Rightarrow> time \<Rightarrow> time \<Rightarrow> block_cache \<Rightarrow> block_cache" where
  "bc_block key until now bc =
     (if until \<le> now then bc
      else if 0 < bc_max_entries bc \<and> bc_max_entries bc \<le> cm_size bc \<and> cm_m bc key = None then bc
      else load_or_store key until bc)"

definition bc_sweep :: "((string \<rightharpoonup> int) \<Rightarrow> string list) \<Rightarrow> time \<Rightarrow> block_cache \<Rightarrow> block_cache" where
  "bc_sweep visit now bc = range_delete (\<lambda>exp. exp \<le> now) (visit (cm_m bc)) bc"

section \<open>The cache\<close>

record 'r cache =
  ca_redis :: 'r
  ca_blocked :: "block_cache option"

definition address_key :: "string \<Rightarrow> string" where "address_key addr = ''addr:'' @ addr"
definition event_channel :: "string \<Rightarrow> string" where "event_channel account_id = ''email:events:'' @ account_id"
definition rate_limit_key :: "string \<Rightarrow> string" where "rate_limit_key ip = ''rl:'' @ ip"
definition smtp_rate_limit_key :: "string \<Rightarrow> string" where "smtp_rate_limit_key ip = ''smtp_rl:'' @ ip"
definition key_rate_limit_key :: "string \<Rightarrow> string" where "key_rate_limit_key api_key = ''rl:key:'' @ api_key"
definition key_domain_rate_limit_key :: "string \<Rightarrow> string \<Rightarrow> string" where
  "key_domain_rate_limit_key api_key domain = ''rl:key:'' @ api_key @ '':d:'' @ domain"

definition set_address :: "'r redis_api \<Rightarrow> string \<Rightarrow> duration \<Rightarrow> 'r cache \<Rightarrow> redis_error option \<times> 'r cache" where
  "set_address api addr ttl c =
     (let (err, r) = rd_set api (address_key addr) ''1'' ttl (ca_redis c) in (err, c\<lparr>ca_redis := r\<rparr>))"

definition has_address :: "'r redis_api \<Rightarrow> string \<Rightarrow> 'r cache \<Rightarrow> redis_error + bool" where
  "has_address api addr c =
     (case rd_exists api (address_key addr) (ca_redis c) of Inl err \<Rightarrow> Inl err | Inr val \<Rightarrow> Inr (0 < val))"

definition remove_address :: "'r redis_api \<Rightarrow> string \<Rightarrow> 'r cache \<Rightarrow> redis_error option \<times> 'r cache" where
  "remove_address api addr c =
     (let (err, r) = rd_del api (address_key addr) (ca_redis c) in (err, c\<lparr>ca_redis := r\<rparr>))"

text \<open>\<open>Milliseconds\<close> truncates; after the lower bound of one this is the same as \<^const>\<open>divide\<close>.\<close>

definition incr_with_ttl :: "'r redis_api \<Rightarrow> string \<Rightarrow> duration \<Rightarrow> 'r cache \<Rightarrow> (redis_error + int) \<times> 'r cache" where
  "incr_with_ttl api key window c =
     (let ttl_ms = (if window div millisecond \<le> 0 then 1 else window div millisecond);
          (res, r) = rd_eval api (incr_expire_script api key ttl_ms) (ca_redis c)
      in (res, c\<lparr>ca_redis := r\<rparr>))"

definition is_blocked :: "time \<Rightarrow> string \<Rightarrow> 'r cache \<Rightarrow> bool \<times> 'r cache" where
  "is_blocked now key c =
     (case ca_blocked c of None \<Rightarrow> (False, c)
      | Some bc \<Rightarrow> (let (b, bc') = bc_is_blocked key now bc in (b, c\<lparr>ca_blocked := Some bc'\<rparr>)))"

definition block_until_window_reset ::
  "'r redis_api \<Rightarrow> time \<Rightarrow> time \<Rightarrow> string \<Rightarrow> duration \<Rightarrow> 'r cache \<Rightarrow> 'r cache" where
  "block_until_window_reset api now now_block key window c =
     (case ca_blocked c of None \<Rightarrow> c
      | Some bc \<Rightarrow>
        (let ttl = (case rd_pttl api key (ca_redis c) of Inl err \<Rightarrow> window
                    | Inr ttl \<Rightarrow> if ttl \<le> 0 \<or> window < ttl then window else ttl)
         in c\<lparr>ca_blocked := Some (bc_block key (now + ttl) now_block bc)\<rparr>))"

text \<open>
  The body the four \<open>Check*RateLimit\<close> methods have in common; they differ in the key only. The two
  readings of the clock are at the start and in \<open>Block\<close>.
\<close>

definition check_fixed_window ::
  "'r redis_api \<Rightarrow> string \<Rightarrow> int \<Rightarrow> duration \<Rightarrow> time \<times> time \<Rightarrow> 'r cache \<Rightarrow> (redis_error + bool) \<times> 'r cache" where
  "check_fixed_window api key limit window clk c =
     (if limit \<le> 0 then (Inr True, c)
      else
        (let now = fst clk; (blocked, c1) = is_blocked now key c in
         if blocked then (Inr False, c1)
         else
           (case incr_with_ttl api key window c1 of
              (Inl err, c2) \<Rightarrow> (Inl err, c2)
            | (Inr current, c2) \<Rightarrow>
                (let allowed = current \<le> limit;
                     c3 = (if \<not> allowed then block_until_window_reset api now (snd clk) key window c2 else c2)
                 in (Inr allowed, c3)))))"

definition check_rate_limit ::
  "'r redis_api \<Rightarrow> string \<Rightarrow> int \<Rightarrow> duration \<Rightarrow> time \<times> time \<Rightarrow> 'r cache \<Rightarrow> (redis_error + bool) \<times> 'r cache" where
  "check_rate_limit api ip = check_fixed_window api (rate_limit_key ip)"

definition check_smtp_rate_limit ::
  "'r redis_api \<Rightarrow> string \<Rightarrow> int \<Rightarrow> duration \<Rightarrow> time \<times> time \<Rightarrow> 'r cache \<Rightarrow> (redis_error + bool) \<times> 'r cache" where
  "check_smtp_rate_limit api ip = check_fixed_window api (smtp_rate_limit_key ip)"

definition check_key_rate_limit ::
  "'r redis_api \<Rightarrow> string \<Rightarrow> int \<Rightarrow> duration \<Rightarrow> time \<times> time \<Rightarrow> 'r cache \<Rightarrow> (redis_error + bool) \<times> 'r cache" where
  "check_key_rate_limit api api_key = check_fixed_window api (key_rate_limit_key api_key)"

definition check_key_domain_rate_limit ::
  "'r redis_api \<Rightarrow> string \<Rightarrow> string \<Rightarrow> int \<Rightarrow> duration \<Rightarrow> time \<times> time \<Rightarrow> 'r cache
     \<Rightarrow> (redis_error + bool) \<times> 'r cache" where
  "check_key_domain_rate_limit api api_key domain =
     check_fixed_window api (key_domain_rate_limit_key api_key domain)"

section \<open>The cache of blocked keys is exact and bounded\<close>

datatype block_op = BcIsBlocked string time | BcBlock string time time | BcSweep time

definition bc_step :: "((string \<rightharpoonup> int) \<Rightarrow> string list) \<Rightarrow> block_op \<Rightarrow> block_cache \<Rightarrow> block_cache" where
  "bc_step visit op bc =
     (case op of BcIsBlocked key now \<Rightarrow> snd (bc_is_blocked key now bc)
      | BcBlock key until now \<Rightarrow> bc_block key until now bc
      | BcSweep now \<Rightarrow> bc_sweep visit now bc)"

definition bc_puts :: "block_op \<Rightarrow> string \<Rightarrow> time \<Rightarrow> bool" where
  "bc_puts op key exp = (case op of BcBlock k until now \<Rightarrow> k = key \<and> until = exp \<and> now < until | _ \<Rightarrow> False)"

lemma bc_cap [simp]:
  "bc_max_entries (load_and_delete k bc) = bc_max_entries bc"
  "bc_max_entries (load_or_store k e bc) = bc_max_entries bc"
  by (simp_all add: load_and_delete_def load_or_store_def split: option.splits)

lemma bc_cap_range_delete [simp]: "bc_max_entries (range_delete dead ks bc) = bc_max_entries bc"
  using more_range_delete [of dead ks bc] by (metis block_cache.surjective counted_map.ext_inject
      counted_map.select_convs(3) block_cache.select_convs(1))

interpretation block_cache: bounded_cache "bc_step visit" cm_m cm_size bc_puts bc_max_entries
  for visit
proof unfold_locales
  fix op and s :: block_cache
  assume "finite (dom (cm_m s))" "cm_size s = int (card (dom (cm_m s)))"
  then have "exact s" by (simp add: exact_def)
  then have "exact (bc_step visit op s)"
    by (cases op) (auto simp: bc_step_def bc_is_blocked_def bc_block_def bc_sweep_def split: option.splits)
  then show "finite (dom (cm_m (bc_step visit op s))) \<and>
      cm_size (bc_step visit op s) = int (card (dom (cm_m (bc_step visit op s))))"
    by (simp add: exact_def)
next
  fix op and s :: block_cache and k v assume "cm_m (bc_step visit op s) k = Some v"
  then show "cm_m s k = Some v \<or> bc_puts op k v"
    by (cases op) (auto simp: bc_step_def bc_puts_def bc_is_blocked_def bc_block_def bc_sweep_def
        cm_m_range_delete split: option.splits if_splits)
next
  fix op and s :: block_cache
  show "bc_max_entries (bc_step visit op s) = bc_max_entries s"
    by (cases op) (simp_all add: bc_step_def bc_is_blocked_def bc_block_def bc_sweep_def split: option.splits)
next
  fix op and s :: block_cache assume s: "0 < bc_max_entries s" "cm_size s \<le> bc_max_entries s"
  then show "cm_size (bc_step visit op s) \<le> bc_max_entries s"
    using size_range_delete [of _ "visit (cm_m s)" s] size_load_and_delete [of _ s]
    by (cases op) (auto simp: bc_step_def bc_is_blocked_def bc_block_def bc_sweep_def size_load_or_store
        split: option.splits intro: order_trans)
qed

section \<open>The fixed window\<close>

lemma redis_lawsD:
  assumes "redis_laws api counter"
  shows "rd_eval api f r = (Inr n, r') \<Longrightarrow> f r = (n, r')"
    "rd_eval api f r = (Inl e, r') \<Longrightarrow> r' = r \<or> r' = snd (f r)"
    "fst (rd_incr api k r) = counter r k + 1"
    "counter (snd (rd_incr api k r)) j = (if j = k then counter r k + 1 else counter r j)"
    "0 < ms \<Longrightarrow> counter (rd_pexpire api k ms r) = counter r"
  using assms unfolding redis_laws_def by blast+

lemma incr_expire_script_counts:
  assumes "redis_laws api counter" "0 < ms"
  shows "fst (incr_expire_script api k ms r) = counter r k + 1"
    "counter (snd (incr_expire_script api k ms r)) j = (if j = k then counter r k + 1 else counter r j)"
  using redis_lawsD(3,4) [OF assms(1), of k r] redis_lawsD(5) [OF assms]
  by (auto simp: incr_expire_script_def Let_def split: prod.splits)

lemma incr_with_ttl_result:
  assumes "redis_laws api counter" "incr_with_ttl api key window c = (res, c')"
  shows "ca_blocked c' = ca_blocked c"
    "counter (ca_redis c) j \<le> counter (ca_redis c') j"
    "res = Inr n \<Longrightarrow> n = counter (ca_redis c) key + 1 \<and> counter (ca_redis c') key = n"
proof -
  let ?ms = "if window div millisecond \<le> 0 then 1 else window div millisecond"
  let ?f = "incr_expire_script api key ?ms"
  have ms: "0 < ?ms" by simp
  note S = incr_expire_script_counts [OF assms(1) ms, of key "ca_redis c"]
  obtain r where e: "rd_eval api ?f (ca_redis c) = (res, r)" and c': "c' = c\<lparr>ca_redis := r\<rparr>"
    using assms(2) by (auto simp: incr_with_ttl_def Let_def split: prod.splits)
  show "ca_blocked c' = ca_blocked c" by (simp add: c')
  have ok: "?f (ca_redis c) = (n, r)" if "res = Inr n" for n
    using redis_lawsD(1) [OF assms(1)] e that by blast
  show "counter (ca_redis c) j \<le> counter (ca_redis c') j"
  proof (cases res)
    case (Inl err)
    with e redis_lawsD(2) [OF assms(1)] have "r = ca_redis c \<or> r = snd (?f (ca_redis c))" by blast
    then show ?thesis using S(2) [of j] c' by auto
  next
    case (Inr n)
    from ok [OF this] show ?thesis using S(2) [of j] c' by simp
  qed
  show "n = counter (ca_redis c) key + 1 \<and> counter (ca_redis c') key = n" if "res = Inr n"
    using ok [OF that] S(1) S(2) [of key] c' by simp
qed

lemma is_blocked_redis [simp]: "ca_redis (snd (is_blocked now key c)) = ca_redis c"
  by (simp add: is_blocked_def split: option.splits prod.splits)

lemma block_redis [simp]: "ca_redis (block_until_window_reset api now now2 key window c) = ca_redis c"
  by (simp add: block_until_window_reset_def Let_def split: option.splits)

lemma check_fixed_window_used:
  assumes "redis_laws api counter"
  shows "counter (ca_redis c) j \<le> counter (ca_redis (snd (check_fixed_window api key limit window clk c))) j"
proof -
  obtain b c1 where b: "is_blocked (fst clk) key c = (b, c1)" by fastforce
  obtain res c2 where i: "incr_with_ttl api key window c1 = (res, c2)" by fastforce
  have r: "ca_redis c1 = ca_redis c" using is_blocked_redis [of "fst clk" key c] b by simp
  show ?thesis
    using incr_with_ttl_result(2) [OF assms i, of j] r
    by (auto simp: check_fixed_window_def Let_def b i split: sum.splits)
qed

lemma check_fixed_window_granted:
  assumes "redis_laws api counter" "0 < limit" "check_fixed_window api key limit window clk c = (Inr True, c')"
  shows "counter (ca_redis c') key = counter (ca_redis c) key + 1 \<and> counter (ca_redis c') key \<le> limit"
proof -
  obtain b c1 where b: "is_blocked (fst clk) key c = (b, c1)" by fastforce
  obtain res c2 where i: "incr_with_ttl api key window c1 = (res, c2)" by fastforce
  have r: "ca_redis c1 = ca_redis c" using is_blocked_redis [of "fst clk" key c] b by simp
  from assms(2,3) obtain n where "res = Inr n" "n \<le> limit" "c' = c2"
    by (auto simp: check_fixed_window_def Let_def b i split: if_splits sum.splits)
  with incr_with_ttl_result(3) [OF assms(1) i, of n] r show ?thesis by simp
qed

lemma check_fixed_window_unlimited: "limit \<le> 0 \<Longrightarrow> check_fixed_window api key limit window clk c = (Inr True, c)"
  by (simp add: check_fixed_window_def)

lemmas fixed_window = check_fixed_window_used check_fixed_window_unlimited

interpretation ip_limiter: rate_limiter "check_rate_limit api" "\<lambda>c ip. counter (ca_redis c) (rate_limit_key ip)"
    "\<lambda>_. redis_laws api counter"
  for api counter
  by unfold_locales (auto simp: check_rate_limit_def fixed_window dest: check_fixed_window_granted)

interpretation smtp_limiter: rate_limiter "check_smtp_rate_limit api"
    "\<lambda>c ip. counter (ca_redis c) (smtp_rate_limit_key ip)" "\<lambda>_. redis_laws api counter"
  for api counter
  by unfold_locales (auto simp: check_smtp_rate_limit_def fixed_window dest: check_fixed_window_granted)

interpretation key_limiter: rate_limiter "check_key_rate_limit api"
    "\<lambda>c k. counter (ca_redis c) (key_rate_limit_key k)" "\<lambda>_. redis_laws api counter"
  for api counter
  by unfold_locales (auto simp: check_key_rate_limit_def fixed_window dest: check_fixed_window_granted)

interpretation key_domain_limiter: rate_limiter "\<lambda>(k, d). check_key_domain_rate_limit api k d"
    "\<lambda>c (k, d). counter (ca_redis c) (key_domain_rate_limit_key k d)" "\<lambda>_. redis_laws api counter"
  for api counter
  by unfold_locales (auto simp: check_key_domain_rate_limit_def fixed_window dest: check_fixed_window_granted)

section \<open>Refusals and blocks\<close>

lemma is_blocked_True: "is_blocked now key c = (True, c') \<Longrightarrow>
    c' = c \<and> (\<exists>bc exp. ca_blocked c = Some bc \<and> cm_m bc key = Some exp \<and> now < exp)"
  by (auto simp: is_blocked_def bc_is_blocked_def split: option.splits if_splits prod.splits)

lemma check_fixed_window_refused:
  assumes "redis_laws api counter" "check_fixed_window api key limit window clk c = (Inr False, c')"
  shows "0 < limit \<and>
    ((\<exists>bc exp. ca_blocked c = Some bc \<and> cm_m bc key = Some exp \<and> fst clk < exp \<and> c' = c) \<or>
     limit < counter (ca_redis c') key)"
proof -
  obtain b c1 where b: "is_blocked (fst clk) key c = (b, c1)" by fastforce
  obtain res c2 where i: "incr_with_ttl api key window c1 = (res, c2)" by fastforce
  have l: "0 < limit" using assms(2) by (simp add: check_fixed_window_def split: if_splits)
  show ?thesis
  proof (cases b)
    case True
    then have "c' = c1" using assms(2) l by (simp add: check_fixed_window_def Let_def b)
    then show ?thesis using is_blocked_True [of "fst clk" key c c1] b True l by auto
  next
    case False
    with assms(2) l obtain n where n: "res = Inr n" "\<not> n \<le> limit" "ca_redis c' = ca_redis c2"
      by (auto simp: check_fixed_window_def Let_def b i split: if_splits sum.splits)
    with incr_with_ttl_result(3) [OF assms(1) i n(1)] l show ?thesis by simp
  qed
qed

text \<open>The blocks a check leaves: those of before, or one on its key of at most a window.\<close>

definition blocked_until :: "'r cache \<Rightarrow> string \<Rightarrow> time option" where
  "blocked_until c key = (case ca_blocked c of None \<Rightarrow> None | Some bc \<Rightarrow> cm_m bc key)"

lemma is_blocked_blocks:
  "is_blocked now key c = (b, c1) \<Longrightarrow> blocked_until c1 k = Some t \<Longrightarrow> blocked_until c k = Some t"
  by (auto simp: is_blocked_def bc_is_blocked_def blocked_until_def split: option.splits if_splits prod.splits)

lemma block_until_window_reset_blocks:
  assumes "blocked_until (block_until_window_reset api now now2 key window c) k = Some t"
  shows "blocked_until c k = Some t \<or> k = key \<and> t \<le> now + window \<and> now2 < t"
  using assms
  by (auto simp: block_until_window_reset_def bc_block_def blocked_until_def Let_def not_le
      split: option.splits sum.splits if_splits)

lemma check_fixed_window_blocks:
  assumes "blocked_until (snd (check_fixed_window api key limit window clk c)) k = Some t"
  shows "blocked_until c k = Some t \<or> k = key \<and> t \<le> fst clk + window \<and> snd clk < t"
proof -
  obtain b c1 where b: "is_blocked (fst clk) key c = (b, c1)" by fastforce
  obtain res c2 where i: "incr_with_ttl api key window c1 = (res, c2)" by fastforce
  have c2: "blocked_until c2 k = blocked_until c1 k"
    using i by (auto simp: incr_with_ttl_def Let_def blocked_until_def split: prod.splits)
  have "blocked_until c k = Some t \<or> blocked_until c1 k = Some t \<or> blocked_until c2 k = Some t \<or>
      blocked_until (block_until_window_reset api (fst clk) (snd clk) key window c2) k = Some t"
    using assms by (auto simp: check_fixed_window_def Let_def b i split: if_splits sum.splits)
  then show ?thesis
    using is_blocked_blocks [OF b] c2 block_until_window_reset_blocks [of api "fst clk" "snd clk" key window c2 k t]
    by auto
qed

section \<open>Properties of rate limiting\<close>

text \<open>
  C20: within a window (while Redis does not expire the counter) the requests of an address that
  CheckRateLimit grants, in any interleaving with requests of other addresses and with failing
  scripts, are at most the limit minus what the window has already counted.
\<close>

theorem rate_limit_window_bound:
  assumes "redis_laws api counter" and "0 < limit"
  shows "int (granted ip (run_checks (check_rate_limit api) (\<lambda>_. limit) window reqs c))
    \<le> max 0 (limit - counter (ca_redis c) (rate_limit_key ip))"
  using ip_limiter.granted_bound [of api counter "\<lambda>_. limit" ip window reqs c] assms by simp

definition sample_redis :: "(string \<Rightarrow> int) redis_api" where
  "sample_redis = \<lparr>rd_eval = (\<lambda>f r. (Inr (fst (f r)), snd (f r))), rd_incr = (\<lambda>k r. (r k + 1, r(k := r k + 1))),
     rd_pexpire = (\<lambda>k ms r. if 0 < ms then r else r(k := 0)), rd_pttl = (\<lambda>k r. Inr (20 * second)),
     rd_set = (\<lambda>k v ttl r. (None, r(k := 1))), rd_exists = (\<lambda>k r. Inr (r k)), rd_del = (\<lambda>k r. (None, r(k := 0)))\<rparr>"

lemma sample_redis_laws: "redis_laws sample_redis (\<lambda>r. r)"
  by (auto simp: redis_laws_def sample_redis_def)

definition sample_cache :: "(string \<Rightarrow> int) cache" where
  "sample_cache = \<lparr>ca_redis = (\<lambda>_. 0), ca_blocked = Some (new_block_cache 10 second)\<rparr>"

theorem rate_limit_window_bound_witness:
  "int (granted ''1'' (run_checks (check_rate_limit sample_redis) (\<lambda>_. 2) minute
      [(''1'', 0, 0), (''1'', 1, 1), (''2'', 1, 1), (''1'', 2, 2)] sample_cache)) \<le> 2 \<and>
   map snd (run_checks (check_rate_limit sample_redis) (\<lambda>_. 2) minute
      [(''1'', 0, 0), (''1'', 1, 1), (''2'', 1, 1), (''1'', 2, 2)] sample_cache)
     = [Inr True, Inr True, Inr True, Inr False]"
proof
  show "int (granted ''1'' (run_checks (check_rate_limit sample_redis) (\<lambda>_. 2) minute
      [(''1'', 0, 0), (''1'', 1, 1), (''2'', 1, 1), (''1'', 2, 2)] sample_cache)) \<le> 2"
    using rate_limit_window_bound [OF sample_redis_laws, of 2 "''1''" minute
      "[(''1'', 0, 0), (''1'', 1, 1), (''2'', 1, 1), (''1'', 2, 2)]" sample_cache]
    by (simp add: sample_cache_def)
  show "map snd (run_checks (check_rate_limit sample_redis) (\<lambda>_. 2) minute
      [(''1'', 0, 0), (''1'', 1, 1), (''2'', 1, 1), (''1'', 2, 2)] sample_cache)
     = [Inr True, Inr True, Inr True, Inr False]"
    by (simp add: check_rate_limit_def check_fixed_window_def Let_def is_blocked_def bc_is_blocked_def
        sample_cache_def new_block_cache_def incr_with_ttl_def sample_redis_def incr_expire_script_def
        time_defs rate_limit_key_def)
qed

text \<open>
  C31: a refusal is justified: either the key has a local block that has not expired, and Redis is not
  touched, or the counter in Redis is above the limit; and a check never blocks another key than its
  own, nor its own for longer than the window.
\<close>

theorem rate_limit_refusal_justified:
  assumes "redis_laws api counter" and "check_fixed_window api key limit window clk c = (Inr False, c')"
  shows "0 < limit \<and>
    ((\<exists>exp. blocked_until c key = Some exp \<and> fst clk < exp \<and> c' = c) \<or> limit < counter (ca_redis c') key) \<and>
    (\<forall>k t. blocked_until c' k = Some t \<longrightarrow>
       blocked_until c k = Some t \<or> k = key \<and> t \<le> fst clk + window \<and> snd clk < t)"
  using check_fixed_window_refused [OF assms] check_fixed_window_blocks [of api key limit window clk c] assms(2)
  by (auto simp: blocked_until_def)

theorem rate_limit_refusal_justified_witness:
  "(0::int) < 1 \<and> blocked_until (snd (check_fixed_window sample_redis ''k'' 1 minute (5, 6)
     (snd (check_fixed_window sample_redis ''k'' 1 minute (3, 4) sample_cache)))) ''k'' = Some (5 + 20 * second)"
proof -
  let ?c1 = "snd (check_fixed_window sample_redis ''k'' 1 minute (3, 4) sample_cache)"
  let ?r = "check_fixed_window sample_redis ''k'' 1 minute (5, 6) ?c1"
  note unfold = check_fixed_window_def Let_def is_blocked_def bc_is_blocked_def bc_block_def
    sample_cache_def new_block_cache_def incr_with_ttl_def sample_redis_def incr_expire_script_def
    time_defs block_until_window_reset_def blocked_until_def
  have "?r = (Inr False, snd ?r)" by (simp add: unfold)
  from rate_limit_refusal_justified [OF sample_redis_laws this] have "(0::int) < 1" by simp
  moreover have "blocked_until (snd ?r) ''k'' = Some (5 + 20 * second)" by (simp add: unfold)
  ultimately show ?thesis by simp
qed

text \<open>
  The local cache of blocked keys counts its entries exactly and never exceeds its limit, so a
  flood of random keys cannot exhaust memory; every block it holds was asked for and lay in the future.
\<close>

theorem block_cache_invariant:
  "let bc = foldl (\<lambda>bc op. bc_step visit op bc) (new_block_cache max_entries sweep_interval) ops in
   finite (dom (cm_m bc)) \<and> cm_size bc = int (card (dom (cm_m bc))) \<and>
   (max_entries \<le> 0 \<or> cm_size bc \<le> max_entries) \<and>
   (\<forall>key. case cm_m bc key of None \<Rightarrow> True | Some t \<Rightarrow> list_ex (\<lambda>op. bc_puts op key t) ops)"
proof -
  let ?n = "new_block_cache max_entries sweep_interval"
  let ?bc = "foldl (\<lambda>bc op. bc_step visit op bc) ?n ops"
  have n: "cm_m ?n = Map.empty" "cm_size ?n = 0" "bc_max_entries ?n = max_entries"
    by (simp_all add: new_block_cache_def)
  then have "finite (dom (cm_m ?bc)) \<and> cm_size ?bc = int (card (dom (cm_m ?bc)))"
    by (intro block_cache.run_count) simp_all
  moreover have "max_entries \<le> 0 \<or> cm_size ?bc \<le> max_entries"
    using block_cache.run_bound [of ?n visit ops] n by (cases "max_entries \<le> 0") simp_all
  moreover have "cm_m ?bc key = Some t \<Longrightarrow> list_ex (\<lambda>op. bc_puts op key t) ops" for key t
    using block_cache.run_puts [of visit ?n ops key t] n(1) by (simp add: list_ex_iff)
  ultimately show ?thesis by (simp add: Let_def split: option.splits)
qed

end
