(* ===== verification/Middleware.thy ===== *)
theory Middleware
  imports Domainutil Auth Cache
begin

text \<open>
  \<open>internal/middleware/middleware.go\<close> and \<open>accesslog.go\<close>: the Gin middlewares that authenticate a
  request with an API key or a JSON web token, limit its rate and decide which mail domains it may
  use. The values the middlewares keep in a \<open>gin.Context\<close> are the record \<open>req_context\<close>, a field that is
  \<^const>\<open>None\<close> was not set; a middleware returns \<open>Next\<close> (\<open>c.Next()\<close>) or \<open>Abort\<close> with the status and the
  message of \<open>AbortWithStatusJSON\<close>. The type assertions on context values always succeed, since the
  keys are set in this file only.
\<close>

section \<open>Request context\<close>

record api_key_info =
  ki_name :: string
  ki_domains :: "string list"
  ki_default_domain :: string
  ki_default_subdomain :: string
  ki_domain_set :: "string set option"
  ki_wildcard :: bool
  ki_rpm_limit :: int
  ki_domain_limits :: "string \<rightharpoonup> int"

record req_context =
  cx_api_key_domains :: "string list option"
  cx_api_key_name :: "string option"
  cx_api_key :: "string option"
  cx_api_key_info :: "api_key_info option"
  cx_account_id :: "string option"
  cx_address :: "string option"

definition fresh_context :: req_context where
  "fresh_context = \<lparr>cx_api_key_domains = None, cx_api_key_name = None, cx_api_key = None,
     cx_api_key_info = None, cx_account_id = None, cx_address = None\<rparr>"

text \<open>\<open>c.GetString\<close>: the empty string for a missing value.\<close>

definition get_string :: "string option \<Rightarrow> string" where
  "get_string v = (case v of None \<Rightarrow> [] | Some s \<Rightarrow> s)"

datatype flow = Next | Abort int string

section \<open>Authentication\<close>

definition bearer_token_from_authorization :: "string \<Rightarrow> string option" where
  "bearer_token_from_authorization header0 =
     (let header = trim_space header0 in
      if length header < 7 then None
      else if \<not> equal_fold (take 6 header) ''Bearer'' then None
      else if header ! 6 \<noteq> CHR '' '' \<and> header ! 6 \<noteq> CHR 0x09 then None
      else Some (trim_space (drop 6 header)))"

definition domain_from_address :: "string \<Rightarrow> string" where
  "domain_from_address address =
     (case last_index_byte address (CHR ''@'') of
        Some i \<Rightarrow> if i + 1 < length address then to_lower (drop (i + 1) address) else []
      | None \<Rightarrow> [])"

text \<open>
  \<open>BearerAuth\<close>: \<open>validate\<close> is \<open>ValidateToken\<close> of the \<open>Auth\<close> it is given, whose state is \<open>'s\<close>.
\<close>

definition bearer_auth ::
  "(string \<rightharpoonup> api_key_info) \<Rightarrow> (string \<Rightarrow> 's \<Rightarrow> (auth_error + claims) \<times> 's)
     \<Rightarrow> string \<Rightarrow> req_context \<Rightarrow> 's \<Rightarrow> flow \<times> req_context \<times> 's" where
  "bearer_auth api_keys validate header cx0 s =
     (let cx = (if api_keys = Map.empty then cx0\<lparr>cx_api_key_domains := Some [''*'']\<rparr> else cx0) in
      if header = [] then (Next, cx, s)
      else
        (case bearer_token_from_authorization header of
           None \<Rightarrow> (Next, cx, s)
         | Some token \<Rightarrow>
             if has_prefix token ''sk_'' \<or> has_prefix token ''dk_''
             then
               (case api_keys token of
                  None \<Rightarrow> (Abort 401 ''invalid API key'', cx, s)
                | Some info \<Rightarrow>
                    (Next, cx\<lparr>cx_api_key_domains := Some (ki_domains info), cx_api_key_name := Some (ki_name info),
                              cx_api_key := Some token, cx_api_key_info := Some info\<rparr>, s))
             else
               (case validate token s of
                  (Inl err, s') \<Rightarrow> (Abort 401 ''invalid or expired token'', cx, s')
                | (Inr claims, s') \<Rightarrow>
                    (let cx1 = cx\<lparr>cx_account_id := Some (cl_account_id claims),
                                  cx_address := Some (cl_address claims)\<rparr>;
                         domain = domain_from_address (cl_address claims);
                         cx2 = (if domain \<noteq> [] then cx1\<lparr>cx_api_key_domains := Some [domain]\<rparr> else cx1)
                     in (Next, cx2, s')))))"

definition require_api_key :: "bool \<Rightarrow> req_context \<Rightarrow> flow \<times> req_context" where
  "require_api_key has_api_keys cx =
     (if \<not> has_api_keys
      then (Next, if cx_api_key_domains cx = None then cx\<lparr>cx_api_key_domains := Some [''*'']\<rparr> else cx)
      else if cx_api_key cx \<noteq> None then (Next, cx)
      else if get_string (cx_account_id cx) \<noteq> [] then (Next, cx)
      else (Abort 401 ''API key required (Authorization: Bearer sk_... or dk_...)'', cx))"

definition auth_required :: "req_context \<Rightarrow> flow \<times> req_context" where
  "auth_required cx =
     (if get_string (cx_account_id cx) = [] then (Abort 401 ''authentication required'', cx) else (Next, cx))"

section \<open>Rate limits\<close>

definition rate_limit ::
  "('k, 'e, 's) limiter \<Rightarrow> int \<Rightarrow> duration \<Rightarrow> time \<times> time \<Rightarrow> 'k \<Rightarrow> 's \<Rightarrow> flow \<times> 's" where
  "rate_limit check limit window clk ip s =
     (case check ip limit window clk s of
        (Inl err, s') \<Rightarrow> (Next, s')
      | (Inr allowed, s') \<Rightarrow> if \<not> allowed then (Abort 429 ''rate limit exceeded'', s') else (Next, s'))"

definition api_key_rate_limit ::
  "(string, 'e, 's) limiter \<Rightarrow> time \<times> time \<Rightarrow> req_context \<Rightarrow> 's \<Rightarrow> flow \<times> 's" where
  "api_key_rate_limit check clk cx s =
     (case cx_api_key_info cx of
        None \<Rightarrow> (Next, s)
      | Some info \<Rightarrow>
          if 0 < ki_rpm_limit info
          then (case check (get_string (cx_api_key cx)) (ki_rpm_limit info) minute clk s of
                  (Inr False, s') \<Rightarrow> (Abort 429 ''API key rate limit exceeded'', s')
                | (_, s') \<Rightarrow> (Next, s'))
          else (Next, s))"

definition check_domain_rate_limit ::
  "(string \<times> string, 'e, 's) limiter \<Rightarrow> time \<times> time \<Rightarrow> req_context \<Rightarrow> string \<Rightarrow> 's \<Rightarrow> bool \<times> 's" where
  "check_domain_rate_limit check clk cx domain s =
     (case cx_api_key_info cx of
        None \<Rightarrow> (True, s)
      | Some info \<Rightarrow>
          (case match_map_key domain (ki_domain_limits info) of
             None \<Rightarrow> (True, s)
           | Some m \<Rightarrow>
               (case ki_domain_limits info m of
                  None \<Rightarrow> (True, s)
                | Some limit \<Rightarrow>
                    if limit \<le> 0 then (True, s)
                    else (case check (get_string (cx_api_key cx), m) limit minute clk s of
                            (Inl err, s') \<Rightarrow> (True, s')
                          | (Inr allowed, s') \<Rightarrow> (allowed, s')))))"

section \<open>Domains a request may use\<close>

definition get_allowed_domains :: "req_context \<Rightarrow> string list" where
  "get_allowed_domains cx = (case cx_api_key_domains cx of None \<Rightarrow> [''*''] | Some allowed \<Rightarrow> allowed)"

definition is_domain_allowed :: "req_context \<Rightarrow> string \<Rightarrow> bool" where
  "is_domain_allowed cx domain0 =
     (let domain = normalize domain0 in
      if domain = [] then False
      else
        (case cx_api_key_info cx of
           Some info \<Rightarrow>
             if ki_wildcard info then True
             else (case ki_domain_set info of
                     Some ds \<Rightarrow> match_set domain ds \<noteq> None
                   | None \<Rightarrow>
                       if list_ex (\<lambda>d. normalize d = ''*'') (ki_domains info) then True
                       else match_slice domain (ki_domains info) \<noteq> None)
         | None \<Rightarrow>
             if list_ex (\<lambda>d. normalize d = ''*'') (get_allowed_domains cx) then True
             else match_slice domain (get_allowed_domains cx) \<noteq> None))"

definition is_domain_explicitly_allowed :: "req_context \<Rightarrow> string \<Rightarrow> bool" where
  "is_domain_explicitly_allowed cx domain0 =
     (let domain = to_lower (trim_space domain0) in
      if domain = [] then False
      else
        (case cx_api_key_info cx of
           Some info \<Rightarrow>
             (case ki_domain_set info of
                Some ds \<Rightarrow> domain \<in> ds
              | None \<Rightarrow> list_ex (\<lambda>d. d = domain) (ki_domains info))
         | None \<Rightarrow> list_ex (\<lambda>d. to_lower (trim_space d) = domain) (get_allowed_domains cx)))"

definition has_wildcard_access :: "req_context \<Rightarrow> bool" where
  "has_wildcard_access cx =
     (case cx_api_key_info cx of
        Some info \<Rightarrow> if ki_wildcard info then True else list_ex (\<lambda>d. d = ''*'') (ki_domains info)
      | None \<Rightarrow> list_ex (\<lambda>d. d = ''*'') (get_allowed_domains cx))"

definition domain_scope_check :: "req_context \<Rightarrow> flow \<times> req_context" where
  "domain_scope_check cx =
     (let address = get_string (cx_address cx) in
      if address \<noteq> [] \<and> \<not> is_domain_allowed cx (domain_from_address address)
      then (Abort 403 ''domain not allowed for this API key'', cx)
      else (Next, cx))"

section \<open>Access log\<close>

text \<open>
  \<open>AccessLog\<close>: whether a request is logged and the sampling counter afterwards; \<open>n%uint64(sampleEvery)\<close>
  is on the wrapped 64-bit counter.
\<close>

definition access_log :: "int \<Rightarrow> duration \<Rightarrow> bool \<Rightarrow> int \<Rightarrow> duration \<Rightarrow> 64 word \<Rightarrow> bool \<times> 64 word" where
  "access_log sample_every0 slow_threshold errors_only status latency counter =
     (let sample_every = (if sample_every0 \<le> 0 then 1 else sample_every0);
          is_error = (400 \<le> status);
          is_slow = (0 < slow_threshold \<and> slow_threshold \<le> latency)
      in if errors_only \<and> \<not> is_error then (False, counter)
         else if \<not> is_error \<and> \<not> is_slow \<and> 1 < sample_every
         then (let n = counter + 1 in (n mod word_of_int sample_every = 0, n))
         else (True, counter))"

text \<open>The line it prints, up to the formatting of the values: the path with the query, if any.\<close>

definition access_log_path :: "string \<Rightarrow> string \<Rightarrow> string" where
  "access_log_path path raw_query = (if raw_query \<noteq> [] then path @ ''?'' @ raw_query else path)"

section \<open>The middleware as a client of the limiter\<close>

context rate_limiter
begin

text \<open>A request passes the limit only if the window has room for it, or if the limiter failed (fail open).\<close>

lemma rate_limit_Next:
  assumes "valid s" "0 < limit" "rate_limit check limit w clk ip s = (Next, s')"
  shows "(\<exists>err. check ip limit w clk s = (Inl err, s')) \<or> used s ip + 1 \<le> used s' ip \<and> used s' ip \<le> limit"
  using assms check_granted [OF assms(1,2), of ip w clk s']
  by (auto simp: rate_limit_def split: prod.splits sum.splits if_splits)

lemma rate_limit_Abort:
  "rate_limit check limit w clk ip s = (Abort code msg, s') \<Longrightarrow>
     0 < limit \<and> code = 429 \<and> check ip limit w clk s = (Inr False, s')"
  using check_unlimited [of limit ip w clk s]
  by (cases "limit \<le> 0") (auto simp: rate_limit_def split: prod.splits sum.splits if_splits)

end

end
