(* ===== verification/Net.thy ===== *)
theory Net
  imports Prelude
begin

text \<open>
  What the program uses of the packages \<open>net\<close> and \<open>path/filepath\<close>, as the Go standard library
  implements it on Unix: \<open>SplitHostPort\<close>, \<open>JoinHostPort\<close>, \<open>ParseIP\<close> and \<open>IsLoopback\<close>, \<open>Clean\<close>, \<open>Dir\<close> and
  \<open>Join\<close>; and \<open>strconv.Atoi\<close>. An error is \<^const>\<open>None\<close>, since the program never looks at its text.
\<close>

section \<open>Host and port\<close>

definition split_host_port :: "string \<Rightarrow> (string \<times> string) option" where
  "split_host_port hostport =
     (case last_index_byte hostport (CHR '':'') of
        None \<Rightarrow> None
      | Some i \<Rightarrow>
          (let parsed =
             (if hd hostport = CHR ''[''
              then (case index_byte hostport (CHR '']'') of
                      None \<Rightarrow> None
                    | Some e \<Rightarrow> if e + 1 = i then Some (take (e - 1) (drop 1 hostport), 1, e + 1) else None)
              else (let host = take i hostport in
                    if index_byte host (CHR '':'') \<noteq> None then None else Some (host, 0, 0)))
           in case parsed of
                None \<Rightarrow> None
              | Some (host, j, k) \<Rightarrow>
                  if index_byte (drop j hostport) (CHR ''['') \<noteq> None then None
                  else if index_byte (drop k hostport) (CHR '']'') \<noteq> None then None
                  else Some (host, drop (i + 1) hostport)))"

definition join_host_port :: "string \<Rightarrow> string \<Rightarrow> string" where
  "join_host_port host port =
     (if index_byte host (CHR '':'') \<noteq> None then ''['' @ host @ '']:'' @ port else host @ '':'' @ port)"

text \<open>\<open>Atoi\<close> is \<open>ParseInt\<close> in base ten on 64-bit platforms.\<close>

abbreviation atoi :: "string \<Rightarrow> int option" where "atoi \<equiv> parse_int"

lemma split_join_host_port:
  assumes "CHR ''['' \<notin> set host" "CHR '']'' \<notin> set host"
    and "CHR '':'' \<notin> set port" "CHR ''['' \<notin> set port" "CHR '']'' \<notin> set port"
  shows "split_host_port (join_host_port host port) = Some (host, port)"
proof (cases "CHR '':'' \<in> set host")
  case True
  let ?s = "''['' @ host @ '']:'' @ port"
  have s: "?s = (CHR ''['' # host @ [CHR '']'']) @ CHR '':'' # port" by simp
  have "last_index_byte ?s (CHR '':'') = Some (length host + 2)"
    unfolding s using assms(3) by (subst last_index_byte_append) simp_all
  moreover have "index_byte ?s (CHR '']'') = Some (length host + 1)"
    using index_byte_append [of "CHR '']''" "CHR ''['' # host"] assms(2) by simp
  moreover have "index_byte (drop 1 ?s) (CHR ''['') = None" "index_byte (drop (length host + 2) ?s) (CHR '']'') = None"
    using assms by simp_all
  ultimately show ?thesis
    using True by (simp add: join_host_port_def split_host_port_def Let_def)
next
  case False
  then have "last_index_byte (host @ CHR '':'' # port) (CHR '':'') = Some (length host)"
    using assms(3) by (subst last_index_byte_append) simp_all
  moreover have "hd (host @ CHR '':'' # port) \<noteq> CHR ''[''"
    using assms(1) by (cases host) auto
  ultimately show ?thesis
    using False assms by (simp add: join_host_port_def split_host_port_def Let_def)
qed

section \<open>IP addresses\<close>

text \<open>An address is its sixteen bytes; an IPv4 address is mapped into \<open>::ffff:0:0/96\<close>.\<close>

type_synonym ip = "nat list"

definition ipv4_prefix :: ip where "ipv4_prefix = replicate 10 0 @ [255, 255]"

text \<open>One decimal field: one to three digits, no leading zero, at most 255.\<close>

definition ipv4_field :: "string \<Rightarrow> nat option" where
  "ipv4_field f =
     (if f = [] \<or> \<not> list_all is_digit f then None
      else if 1 < length f \<and> hd f = CHR ''0'' then None
      else if 255 < digits_val f then None else Some (digits_val f))"

definition parse_ipv4 :: "string \<Rightarrow> nat list option" where
  "parse_ipv4 s =
     (let fs = split_on s (CHR ''.'') in
      if length fs = 4 \<and> list_all (\<lambda>f. ipv4_field f \<noteq> None) fs then Some (map (the \<circ> ipv4_field) fs) else None)"

definition hex_digit :: "char \<Rightarrow> nat option" where
  "hex_digit c =
     (let n = (of_char c :: nat) in
      if is_digit c then Some (digit_val c)
      else if 97 \<le> n \<and> n \<le> 102 then Some (n - 87)
      else if 65 \<le> n \<and> n \<le> 70 then Some (n - 55) else None)"

definition hex_prefix :: "string \<Rightarrow> string" where
  "hex_prefix s = takeWhile (\<lambda>c. hex_digit c \<noteq> None) s"

definition hex_val :: "string \<Rightarrow> nat" where
  "hex_val s = foldl (\<lambda>n c. 16 * n + the (hex_digit c)) 0 s"

text \<open>
  The loop of \<open>parseIPv6\<close>: the bytes so far, the position of the ellipsis and the rest of the input;
  each turn adds two bytes (or the four of a trailing IPv4 address), so eight turns suffice.
\<close>

fun ipv6_loop :: "nat \<Rightarrow> ip \<Rightarrow> nat option \<Rightarrow> string \<Rightarrow> (ip \<times> nat option \<times> string) option" where
  "ipv6_loop 0 ip ell s = Some (ip, ell, s)"
| "ipv6_loop (Suc n) ip ell s =
     (let h = hex_prefix s; rest = drop (length h) s in
      if h = [] \<or> 4 < length h then None
      else if rest \<noteq> [] \<and> hd rest = CHR ''.''
      then (if (ell = None \<and> length ip \<noteq> 12) \<or> 16 < length ip + 4 then None
            else map_option (\<lambda>b. (ip @ b, ell, [])) (parse_ipv4 s))
      else
        (let ip' = ip @ [hex_val h div 256, hex_val h mod 256] in
         if rest = [] then Some (ip', ell, [])
         else if hd rest \<noteq> CHR '':'' \<or> length rest = 1 then None
         else
           (let s1 = tl rest in
            if hd s1 = CHR '':''
            then (if ell \<noteq> None then None
                  else if tl s1 = [] then Some (ip', Some (length ip'), [])
                  else ipv6_loop n ip' (Some (length ip')) (tl s1))
            else ipv6_loop n ip' ell s1)))"

definition parse_ipv6 :: "string \<Rightarrow> ip option" where
  "parse_ipv6 s0 =
     (let lead = has_prefix s0 ''::''; s = (if lead then drop 2 s0 else s0) in
      if lead \<and> s = [] then Some (replicate 16 0)
      else
        (case ipv6_loop 8 [] (if lead then Some 0 else None) s of
           None \<Rightarrow> None
         | Some (ip, ell, rest) \<Rightarrow>
             if rest \<noteq> [] then None
             else if length ip < 16
             then (case ell of None \<Rightarrow> None
                   | Some e \<Rightarrow> Some (take e ip @ replicate (16 - length ip) 0 @ drop e ip))
             else if ell \<noteq> None then None else Some ip))"

definition parse_ip :: "string \<Rightarrow> ip option" where
  "parse_ip s =
     (case find (\<lambda>c. c = CHR ''.'' \<or> c = CHR '':'' \<or> c = CHR ''%'') s of
        None \<Rightarrow> None
      | Some c \<Rightarrow>
          if c = CHR ''.'' then map_option (\<lambda>b. ipv4_prefix @ b) (parse_ipv4 s)
          else if c = CHR '':'' then (if CHR ''%'' \<in> set s then None else parse_ipv6 s)
          else None)"

definition ip_is_loopback :: "ip \<Rightarrow> bool" where
  "ip_is_loopback ip =
     (if take 12 ip = ipv4_prefix then ip ! 12 = 127 else ip = replicate 15 0 @ [1])"

section \<open>File paths\<close>

definition path_step :: "bool \<Rightarrow> string list \<Rightarrow> string \<Rightarrow> string list" where
  "path_step rooted out e =
     (if e = [] \<or> e = ''.'' then out
      else if e = ''..''
      then (if out \<noteq> [] \<and> last out \<noteq> ''..'' then butlast out
            else if rooted then out else out @ [''..''])
      else out @ [e])"

definition path_clean :: "string \<Rightarrow> string" where
  "path_clean path =
     (let rooted = has_prefix path ''/'';
          out = foldl (path_step rooted) [] (split_on path (CHR ''/''));
          s = (if rooted then ''/'' else []) @ join_with out ''/''
      in if s = [] then ''.'' else s)"

definition path_dir :: "string \<Rightarrow> string" where
  "path_dir path =
     path_clean (case last_index_byte path (CHR ''/'') of None \<Rightarrow> [] | Some i \<Rightarrow> take (i + 1) path)"

definition path_is_abs :: "string \<Rightarrow> bool" where "path_is_abs path = has_prefix path ''/''"

definition path_join :: "string list \<Rightarrow> string" where
  "path_join elems =
     (let es = dropWhile (\<lambda>e. e = []) elems in if es = [] then [] else path_clean (join_with es ''/''))"

end
