(* ===== verification/Config.thy ===== *)
theory Config
  imports Complex_Main Model Net
begin

text \<open>
  \<open>internal/config\<close>: the configuration file as records (\<open>config.go\<close>), its defaults and \<open>Load\<close>, the
  redacted copy that is printed (\<open>redact.go\<close>) and the validation of each service's part
  (\<open>validate.go\<close>). The YAML decoder, the file system and \<open>url.Parse\<close> of a foreign URL are parameters. A
  nil slice and an empty one are the same list; a Go map is the list of its entries in the order in
  which \<open>range\<close> visits it.
\<close>

section \<open>The configuration\<close>

record domain_config =
  dc_domain :: string
  dc_is_active :: bool
  dc_is_private :: bool
  dc_ips :: "string list"

record api_key_config =
  ak_key :: string
  ak_name :: string
  ak_domains :: "string list"
  ak_default_domain :: string
  ak_default_subdomain :: string
  ak_rpm_limit :: int
  ak_domain_limits :: "(string \<times> int) list"

record debug_server_config =
  ds_enabled :: bool
  ds_host :: string
  ds_port :: int
  ds_metrics :: bool
  ds_pprof :: bool

record access_log_config =
  al_enabled :: bool
  al_sample_every :: int
  al_slow_threshold :: duration
  al_errors_only :: bool

record api_server_config =
  as_host :: string
  as_port :: int
  as_access_log :: access_log_config
  as_max_concurrent_bcrypt :: int
  as_trusted_proxies :: "string list"
  as_debug :: debug_server_config
  as_base_host :: string
  as_default_dialect :: string
  as_enabled_dialects :: "string list"
  as_unknown_dialect :: string

record smtp_tls_config =
  st_enabled :: bool
  st_cert_file :: string
  st_key_file :: string
  st_require_tls :: bool
  st_min_version :: string

record smtp_server_config =
  ss_host :: string
  ss_port :: int
  ss_domain :: string
  ss_max_message_bytes :: int
  ss_max_recipients :: int
  ss_read_timeout :: duration
  ss_write_timeout :: duration
  ss_tls :: smtp_tls_config
  ss_debug :: debug_server_config

record worker_server_config =
  ws_debug :: debug_server_config

record server_config =
  sv_api :: api_server_config
  sv_smtp :: smtp_server_config
  sv_worker :: worker_server_config

record cfworker_dialect_config =
  cw_upstream :: string
  cw_timeout :: duration

record yyds_plan_config =
  yp_id :: string
  yp_name :: string
  yp_description :: string
  yp_price_monthly :: rat
  yp_max_domains :: int
  yp_max_inboxes :: int
  yp_max_api_keys :: int
  yp_max_subdomain_depth :: int
  yp_max_messages_per_day :: int
  yp_max_api_calls_daily :: int
  yp_max_api_calls_weekly :: int
  yp_max_api_calls_monthly :: int
  yp_max_webhooks :: int
  yp_max_wildcard_rules :: int
  yp_retention_days :: int
  yp_max_attachment_bytes :: int
  yp_storage_bytes :: int
  yp_max_rps :: int
  yp_features :: "string list"
  yp_sort_order :: int
  yp_is_active :: bool

record yyds_pricing_currency_config =
  yc_code :: string
  yc_suffix :: string
  yc_symbol :: string

record yyds_pricing_package_config =
  yk_quantity :: int
  yk_price_cents :: int

record yyds_pricing_rate_limit_config =
  yr_tier :: string
  yr_display_name :: string
  yr_max_daily :: int
  yr_rps :: int
  yr_burst :: int

record yyds_pricing_config =
  yg_currency :: yyds_pricing_currency_config
  yg_packages :: "yyds_pricing_package_config list"
  yg_rate_limits :: "yyds_pricing_rate_limit_config list"

record yyds_domain_reward_config =
  yw_credit_expire_days :: int
  yw_credits_per_cycle :: int
  yw_run_hour :: int
  yw_usage_per_credit :: int

record yyds_top_domain_config =
  yt_domain :: string
  yt_is_verified :: bool
  yt_usage_today :: int
  yt_usage_total :: int

record yyds_hourly_stat_config =
  yh_hour :: string
  yh_inboxes :: int
  yh_api_calls :: int

record yyds_daily_trend_config =
  yd_date :: string
  yd_inboxes :: int
  yd_api_calls :: int
  yd_users :: int

record yyds_stats_config =
  ys_total_users :: int
  ys_total_domains :: int
  ys_verified_domains :: int
  ys_public_domains :: int
  ys_total_inboxes :: int
  ys_anon_inboxes :: int
  ys_total_stored_messages :: int
  ys_total_historical_messages :: int
  ys_total_created_inboxes :: int
  ys_total_messages :: int
  ys_today_api_calls :: int
  ys_top_domains :: "yyds_top_domain_config list"
  ys_hourly_activity :: "yyds_hourly_stat_config list"
  ys_daily_trend :: "yyds_daily_trend_config list"

record yyds_dialect_config =
  yy_public_base_url :: string
  yy_plans :: "yyds_plan_config list"
  yy_pricing :: yyds_pricing_config
  yy_domain_reward :: yyds_domain_reward_config
  yy_stats :: yyds_stats_config

record dialects_config =
  di_cfworker :: cfworker_dialect_config
  di_yyds :: yyds_dialect_config

record mongodb_config =
  mg_uri :: string
  mg_database :: string
  mg_max_pool_size :: int
  mg_min_pool_size :: int
  mg_max_connecting :: int
  mg_connect_timeout :: duration
  mg_server_selection_timeout :: duration
  mg_max_conn_idle_time :: duration
  mg_app_name :: string

record redis_config =
  rc_addr :: string
  rc_password :: string
  rc_db :: int

record nats_config =
  nc_url :: string
  nc_stream :: string
  nc_subject :: string
  nc_consumer_ack_wait :: duration
  nc_consumer_max_deliver :: int

record minio_config =
  mc_endpoint :: string
  mc_access_key :: string
  mc_secret_key :: string
  mc_bucket :: string
  mc_use_ssl :: bool

record jwt_config =
  jc_secret :: string
  jc_expiry :: duration

record config =
  cf_domains :: "domain_config list"
  cf_api_keys :: "api_key_config list"
  cf_rate_limit_global :: int
  cf_server :: server_config
  cf_dialects :: dialects_config
  cf_mongodb :: mongodb_config
  cf_redis :: redis_config
  cf_nats :: nats_config
  cf_minio :: minio_config
  cf_jwt :: jwt_config
  cf_account_ttl :: duration
  cf_message_ttl :: duration

section \<open>Defaults and Load\<close>

definition default_debug :: "int \<Rightarrow> debug_server_config" where
  "default_debug port =
     \<lparr>ds_enabled = False, ds_host = ''127.0.0.1'', ds_port = port, ds_metrics = True, ds_pprof = False\<rparr>"

definition default_api_server :: api_server_config where
  "default_api_server =
     \<lparr>as_host = ''0.0.0.0'', as_port = 8080,
      as_access_log = \<lparr>al_enabled = True, al_sample_every = 100, al_slow_threshold = 500 * millisecond,
                       al_errors_only = False\<rparr>,
      as_max_concurrent_bcrypt = 0, as_trusted_proxies = [], as_debug = default_debug 6060,
      as_base_host = [], as_default_dialect = ''duck'', as_enabled_dialects = [],
      as_unknown_dialect = ''reject''\<rparr>"

definition default_smtp_server :: smtp_server_config where
  "default_smtp_server =
     \<lparr>ss_host = ''0.0.0.0'', ss_port = 25, ss_domain = ''mail.example.com'',
      ss_max_message_bytes = 20 * 2 ^ 20, ss_max_recipients = 50,
      ss_read_timeout = 60 * second, ss_write_timeout = 60 * second,
      ss_tls = \<lparr>st_enabled = False, st_cert_file = [], st_key_file = [], st_require_tls = False,
                st_min_version = []\<rparr>,
      ss_debug = default_debug 6061\<rparr>"

text \<open>The currency symbol is the yen sign in UTF-8.\<close>

definition default_yyds :: yyds_dialect_config where
  "default_yyds =
     \<lparr>yy_public_base_url = [], yy_plans = [],
      yy_pricing = \<lparr>yg_currency = \<lparr>yc_code = ''CNY'', yc_suffix = [], yc_symbol = [CHR 0xC2, CHR 0xA5]\<rparr>,
                    yg_packages = [], yg_rate_limits = []\<rparr>,
      yy_domain_reward = \<lparr>yw_credit_expire_days = 0, yw_credits_per_cycle = 0, yw_run_hour = 0,
                          yw_usage_per_credit = 0\<rparr>,
      yy_stats = \<lparr>ys_total_users = 0, ys_total_domains = 0, ys_verified_domains = 0, ys_public_domains = 0,
                  ys_total_inboxes = 0, ys_anon_inboxes = 0, ys_total_stored_messages = 0,
                  ys_total_historical_messages = 0, ys_total_created_inboxes = 0, ys_total_messages = 0,
                  ys_today_api_calls = 0, ys_top_domains = [], ys_hourly_activity = [], ys_daily_trend = []\<rparr>\<rparr>"

definition default_config :: config where
  "default_config =
     \<lparr>cf_domains = [], cf_api_keys = [], cf_rate_limit_global = 0,
      cf_server = \<lparr>sv_api = default_api_server, sv_smtp = default_smtp_server,
                   sv_worker = \<lparr>ws_debug = default_debug 6062\<rparr>\<rparr>,
      cf_dialects = \<lparr>di_cfworker = \<lparr>cw_upstream = [], cw_timeout = 15 * second\<rparr>, di_yyds = default_yyds\<rparr>,
      cf_mongodb = \<lparr>mg_uri = ''mongodb://localhost:27017'', mg_database = ''mailapi'', mg_max_pool_size = 0,
                    mg_min_pool_size = -1, mg_max_connecting = 0, mg_connect_timeout = 10 * second,
                    mg_server_selection_timeout = 10 * second, mg_max_conn_idle_time = 5 * minute,
                    mg_app_name = ''mailapi''\<rparr>,
      cf_redis = \<lparr>rc_addr = ''localhost:6379'', rc_password = [], rc_db = 0\<rparr>,
      cf_nats = \<lparr>nc_url = ''nats://localhost:4222'', nc_stream = ''EMAILS'', nc_subject = ''emails.incoming'',
                 nc_consumer_ack_wait = 30 * second, nc_consumer_max_deliver = 3\<rparr>,
      cf_minio = \<lparr>mc_endpoint = ''localhost:9000'', mc_access_key = ''minioadmin'',
                  mc_secret_key = ''minioadmin'', mc_bucket = ''attachments'', mc_use_ssl = False\<rparr>,
      cf_jwt = \<lparr>jc_secret = ''change-me-to-a-random-secret'', jc_expiry = hour\<rparr>,
      cf_account_ttl = 168 * hour, cf_message_ttl = 168 * hour\<rparr>"

lemmas default_config_defs = default_config_def default_api_server_def default_smtp_server_def
  default_debug_def default_yyds_def

definition resolve_path_relative_to_config :: "string \<Rightarrow> string \<Rightarrow> string" where
  "resolve_path_relative_to_config config_path p0 =
     (let p = trim_space p0 in
      if p = [] then []
      else if path_is_abs p then p
      else
        (let base = path_dir config_path in
         if base = [] \<or> base = ''.'' then path_clean p else path_clean (path_join [base, p])))"

datatype load_error = FileNotExist | ReadError | YamlError

definition load ::
  "(string \<Rightarrow> load_error + bytes) \<Rightarrow> (bytes \<Rightarrow> config \<Rightarrow> config option) \<Rightarrow> string \<Rightarrow> load_error + config" where
  "load read_file unmarshal path =
     (case read_file path of
        Inl FileNotExist \<Rightarrow> Inr default_config
      | Inl err \<Rightarrow> Inl err
      | Inr data \<Rightarrow>
          (case unmarshal data default_config of
             None \<Rightarrow> Inl YamlError
           | Some cfg \<Rightarrow>
               (let tls = ss_tls (sv_smtp (cf_server cfg));
                    tls' = tls\<lparr>st_cert_file := resolve_path_relative_to_config path (st_cert_file tls),
                               st_key_file := resolve_path_relative_to_config path (st_key_file tls)\<rparr>;
                    smtp = (sv_smtp (cf_server cfg))\<lparr>ss_tls := tls'\<rparr>
                in Inr (cfg\<lparr>cf_server := (cf_server cfg)\<lparr>sv_smtp := smtp\<rparr>\<rparr>))))"

section \<open>The redacted copy\<close>

definition redacted :: string where "redacted = ''<redacted>''"

definition redact_api_key :: "string \<Rightarrow> string" where
  "redact_api_key v0 =
     (let v = trim_space v0 in
      if v = [] then []
      else if has_prefix v ''sk_'' then ''sk_'' @ redacted
      else if has_prefix v ''dk_'' then ''dk_'' @ redacted
      else redacted)"

definition redact_secret :: "string \<Rightarrow> string" where
  "redact_secret v = (if trim_space v = [] then v else redacted)"

definition redact_userinfo :: "string \<Rightarrow> string" where
  "redact_userinfo v0 =
     (let v = trim_space v0 in
      if v = [] then []
      else
        (case index_str v ''://'' of
           None \<Rightarrow> redacted
         | Some i \<Rightarrow>
             (case index_str (drop (i + 3) v) ''@'' of
                None \<Rightarrow> v
              | Some j0 \<Rightarrow>
                  (let j = j0 + (i + 3) in take (i + 3) v @ redacted @ ''@'' @ drop (j + 1) v))))"

definition redact :: "config option \<Rightarrow> config option" where
  "redact cfg_ptr =
     (case cfg_ptr of None \<Rightarrow> None
      | Some cfg \<Rightarrow> Some
         (cfg\<lparr>cf_api_keys := map (\<lambda>k. k\<lparr>ak_key := redact_api_key (ak_key k)\<rparr>) (cf_api_keys cfg),
              cf_mongodb := (cf_mongodb cfg)\<lparr>mg_uri := redact_userinfo (mg_uri (cf_mongodb cfg))\<rparr>,
              cf_redis := (cf_redis cfg)\<lparr>rc_password := redact_secret (rc_password (cf_redis cfg))\<rparr>,
              cf_nats := (cf_nats cfg)\<lparr>nc_url := redact_userinfo (nc_url (cf_nats cfg))\<rparr>,
              cf_minio := (cf_minio cfg)\<lparr>mc_access_key := redact_secret (mc_access_key (cf_minio cfg)),
                                         mc_secret_key := redact_secret (mc_secret_key (cf_minio cfg))\<rparr>,
              cf_jwt := (cf_jwt cfg)\<lparr>jc_secret := redact_secret (jc_secret (cf_jwt cfg))\<rparr>\<rparr>))"

section \<open>What the redacted copy hides\<close>

lemma index_str_found:
  "hd p \<notin> set a \<Longrightarrow> p \<noteq> [] \<Longrightarrow> index_str (a @ p @ b) p = Some (length a)"
proof (induction a)
  case Nil
  then show ?case by (cases p) (auto simp: has_prefix_iff)
next
  case (Cons x a)
  then have "\<not> has_prefix (x # a @ p @ b) p" by (cases p) (auto simp: has_prefix_iff)
  then show ?case using Cons by simp
qed

lemma redact_userinfo_form:
  assumes "trim_space v = scheme @ ''://'' @ userinfo @ ''@'' @ rest"
    and "CHR '':'' \<notin> set scheme" "CHR ''@'' \<notin> set userinfo"
  shows "redact_userinfo v = scheme @ ''://'' @ redacted @ ''@'' @ rest"
proof -
  have i: "index_str (scheme @ ''://'' @ userinfo @ ''@'' @ rest) ''://'' = Some (length scheme)"
    using assms(2) by (intro index_str_found) simp_all
  have j: "index_str (userinfo @ ''@'' @ rest) ''@'' = Some (length userinfo)"
    using assms(3) by (intro index_str_found) simp_all
  show ?thesis
    using i j by (simp add: redact_userinfo_def Let_def assms(1) eval_nat_numeral)
qed

text \<open>Two values a secret may have without the printed configuration differing.\<close>

definition secret_variant :: "string \<Rightarrow> string \<Rightarrow> bool" where
  "secret_variant v v' \<longleftrightarrow> trim_space v \<noteq> [] \<and> trim_space v' \<noteq> []"

definition key_variant :: "string \<Rightarrow> string \<Rightarrow> bool" where
  "key_variant v v' \<longleftrightarrow> trim_space v \<noteq> [] \<and> trim_space v' \<noteq> [] \<and>
     has_prefix (trim_space v) ''sk_'' = has_prefix (trim_space v') ''sk_'' \<and>
     has_prefix (trim_space v) ''dk_'' = has_prefix (trim_space v') ''dk_''"

text \<open>The same URI with other credentials, which contain no \<open>@\<close>.\<close>

definition uri_variant :: "string \<Rightarrow> string \<Rightarrow> bool" where
  "uri_variant v v' \<longleftrightarrow>
     (\<exists>scheme u u' rest. trim_space v = scheme @ ''://'' @ u @ ''@'' @ rest \<and>
        trim_space v' = scheme @ ''://'' @ u' @ ''@'' @ rest \<and>
        CHR '':'' \<notin> set scheme \<and> CHR ''@'' \<notin> set u \<and> CHR ''@'' \<notin> set u')"

lemma secret_variant_redact: "secret_variant v v' \<Longrightarrow> redact_secret v' = redact_secret v"
  by (simp add: secret_variant_def redact_secret_def)

lemma key_variant_redact: "key_variant v v' \<Longrightarrow> redact_api_key v' = redact_api_key v"
  by (simp add: key_variant_def redact_api_key_def)

lemma uri_variant_redact: "uri_variant v v' \<Longrightarrow> redact_userinfo v' = redact_userinfo v"
  by (auto simp: uri_variant_def redact_userinfo_form)

definition with_secrets ::
  "string list \<Rightarrow> string \<Rightarrow> string \<Rightarrow> string \<Rightarrow> string \<Rightarrow> string \<Rightarrow> string \<Rightarrow> config \<Rightarrow> config" where
  "with_secrets keys uri password url access secret jwt cfg =
     cfg\<lparr>cf_api_keys := map2 (\<lambda>k v. k\<lparr>ak_key := v\<rparr>) (cf_api_keys cfg) keys,
         cf_mongodb := (cf_mongodb cfg)\<lparr>mg_uri := uri\<rparr>,
         cf_redis := (cf_redis cfg)\<lparr>rc_password := password\<rparr>,
         cf_nats := (cf_nats cfg)\<lparr>nc_url := url\<rparr>,
         cf_minio := (cf_minio cfg)\<lparr>mc_access_key := access, mc_secret_key := secret\<rparr>,
         cf_jwt := (cf_jwt cfg)\<lparr>jc_secret := jwt\<rparr>\<rparr>"

lemma redact_keys:
  "list_all2 key_variant (map ak_key ks) vs \<Longrightarrow>
   map (\<lambda>k. k\<lparr>ak_key := redact_api_key (ak_key k)\<rparr>) (map2 (\<lambda>k v. k\<lparr>ak_key := v\<rparr>) ks vs) =
   map (\<lambda>k. k\<lparr>ak_key := redact_api_key (ak_key k)\<rparr>) ks"
proof (induction ks arbitrary: vs)
  case (Cons k ks)
  then obtain v vs' where "vs = v # vs'" "key_variant (ak_key k) v" "list_all2 key_variant (map ak_key ks) vs'"
    by (auto simp: list_all2_Cons1)
  then show ?case using Cons.IH key_variant_redact by simp
qed simp



text \<open>The restriction is needed: only the part before the first \<open>@\<close> is replaced.\<close>

lemma redact_userinfo_keeps_rest_of_password:
  "redact_userinfo ''nats://u:p@ss@h'' = ''nats://<redacted>@ss@h''"
  by (simp add: redact_userinfo_def trim_space_trimmed trimmed_def is_space_code redacted_def has_prefix_def)

end
