(* ===== verification/Validate.thy ===== *)
theory Validate
  imports Config
begin

text \<open>
  \<open>internal/config/validate.go\<close>, the debug server that relies on it (\<open>internal/debugserver/server.go\<close>)
  and the overrides of its configuration from the environment and the command line
  (\<open>cmd/api/main.go\<close>, repeated in \<open>cmd/smtp/main.go\<close> and \<open>cmd/worker/main.go\<close>). \<open>url.Parse\<close> (scheme and
  host of a URL), \<open>os.Stat\<close> and \<open>os.Getenv\<close> are parameters.
\<close>

section \<open>Validation\<close>

datatype config_error =
    ConfigNil
  | PortRange string int
  | HostNotLoopback string string
  | Required string
  | MustBePositive string
  | InvalidURL string
  | UpstreamScheme string
  | RequireTLSNeedsEnabled
  | RequiredForTLS string
  | InvalidMinVersion string
  | NotAccessible string
  | BaseHostInvalid string
  | UnknownDialectInvalid string
  | EnabledDialectInvalid string

text \<open>A sequence of checks \<open>if err := ...; err != nil { return err }\<close>: the first error, if any.\<close>

fun first_error :: "config_error option list \<Rightarrow> config_error option" where
  "first_error [] = None"
| "first_error (None # es) = first_error es"
| "first_error (Some e # es) = Some e"

lemma first_error_None [simp]: "first_error es = None \<longleftrightarrow> list_all (\<lambda>e. e = None) es"
  by (induction es rule: first_error.induct) simp_all

definition check :: "bool \<Rightarrow> config_error \<Rightarrow> config_error option" where
  "check bad err = (if bad then Some err else None)"

lemma check_None [simp]: "check bad err = None \<longleftrightarrow> \<not> bad"
  by (simp add: check_def)

definition required :: "string \<Rightarrow> string \<Rightarrow> config_error option" where
  "required v name = check (trim_space v = []) (Required name)"

lemma required_None [simp]: "required v name = None \<longleftrightarrow> trim_space v \<noteq> []"
  by (simp add: required_def)

definition validate_port :: "int \<Rightarrow> string \<Rightarrow> config_error option" where
  "validate_port port name = check (port \<le> 0 \<or> 65535 < port) (PortRange name port)"

definition is_loopback_host :: "string \<Rightarrow> bool" where
  "is_loopback_host host0 =
     (let host = trim_space host0 in
      if host = [] then False
      else
        (let h = trim_suffix (trim_prefix host ''['') '']'' in
         if equal_fold h ''localhost'' then True
         else (case parse_ip h of None \<Rightarrow> False | Some ip \<Rightarrow> ip_is_loopback ip)))"

definition validate_debug :: "debug_server_config \<Rightarrow> string \<Rightarrow> config_error option" where
  "validate_debug d name =
     (let host = (if trim_space (ds_host d) = [] then ''127.0.0.1'' else trim_space (ds_host d)) in
      first_error [check (\<not> is_loopback_host host) (HostNotLoopback name (ds_host d)),
                   validate_port (ds_port d) (name @ ''.port'')])"

definition parse_tls_min_version :: "string \<Rightarrow> int option" where
  "parse_tls_min_version s0 =
     (let s = trim_space (to_lower s0) in
      if s \<in> {''1.2'', ''tls1.2'', ''tls12''} then Some 0x0303
      else if s \<in> {''1.3'', ''tls1.3'', ''tls13''} then Some 0x0304
      else None)"

text \<open>The host that \<open>baseHost\<close> stands for; \<^const>\<open>None\<close> when a port cannot be split off.\<close>

definition base_host_name :: "string \<Rightarrow> string option" where
  "base_host_name base_host =
     (let h = to_lower (trim_space base_host);
          h = (case index_str h ''://'' of None \<Rightarrow> h | Some i \<Rightarrow> drop (i + 3) h);
          h = (case index_byte h (CHR ''/'') of None \<Rightarrow> h | Some j \<Rightarrow> take j h);
          h = trim_suffix h ''.''
      in if has_prefix h ''[''
         then (case index_byte h (CHR '']'') of
                 Some e \<Rightarrow> Some (take (e - 1) (drop 1 h))
               | None \<Rightarrow> Some (trim_suffix (trim_prefix h ''['') '']''))
         else (case last_index_byte h (CHR '':'') of
                 Some i \<Rightarrow> if index_byte h (CHR '':'') = Some i then map_option fst (split_host_port h) else Some h
               | None \<Rightarrow> Some h))"

definition validate_dialects :: "config option \<Rightarrow> config_error option" where
  "validate_dialects cfg_ptr =
     (case cfg_ptr of None \<Rightarrow> Some ConfigNil
      | Some cfg \<Rightarrow>
        (let api = sv_api (cf_server cfg); base_host = trim_space (as_base_host api) in
         if base_host = [] then None
         else
           first_error
             [(case base_host_name base_host of
                 None \<Rightarrow> Some (BaseHostInvalid (as_base_host api))
               | Some h \<Rightarrow> check (trim_space h = []) (BaseHostInvalid (as_base_host api))),
              (let s = trim_space (as_unknown_dialect api) in
               check (s \<noteq> [] \<and> to_lower s \<notin> {''reject'', ''fallback''}) (UnknownDialectInvalid (as_unknown_dialect api))),
              first_error
                (map (\<lambda>d. check (contains_str (trim_space d) ''.'') (EnabledDialectInvalid d))
                   (as_enabled_dialects api))]))"

definition validate :: "config option \<Rightarrow> config_error option" where
  "validate cfg_ptr =
     (case cfg_ptr of None \<Rightarrow> Some ConfigNil
      | Some cfg \<Rightarrow>
        (let sv = cf_server cfg in
         first_error
           [validate_port (as_port (sv_api sv)) ''server.api.port'',
            validate_port (ss_port (sv_smtp sv)) ''server.smtp.port'',
            validate_dialects (Some cfg),
            if ds_enabled (as_debug (sv_api sv)) then validate_debug (as_debug (sv_api sv)) ''server.api.debug'' else None,
            if ds_enabled (ss_debug (sv_smtp sv)) then validate_debug (ss_debug (sv_smtp sv)) ''server.smtp.debug'' else None,
            if ds_enabled (ws_debug (sv_worker sv)) then validate_debug (ws_debug (sv_worker sv)) ''server.worker.debug''
            else None]))"

definition validate_api_config ::
  "(string \<Rightarrow> (string \<times> string) option) \<Rightarrow> config option \<Rightarrow> config_error option" where
  "validate_api_config url_parse cfg_ptr =
     (case validate cfg_ptr of Some err \<Rightarrow> Some err
      | None \<Rightarrow>
        (let cfg = the cfg_ptr; up = cw_upstream (di_cfworker (cf_dialects cfg)); s = trim_space up in
         first_error
           [required (mg_uri (cf_mongodb cfg)) ''mongodb.uri'',
            required (mg_database (cf_mongodb cfg)) ''mongodb.database'',
            required (rc_addr (cf_redis cfg)) ''redis.addr'',
            required (mc_endpoint (cf_minio cfg)) ''minio.endpoint'',
            required (mc_bucket (cf_minio cfg)) ''minio.bucket'',
            required (mc_access_key (cf_minio cfg)) ''minio.accessKey'',
            required (mc_secret_key (cf_minio cfg)) ''minio.secretKey'',
            required (jc_secret (cf_jwt cfg)) ''jwt.secret'',
            check (jc_expiry (cf_jwt cfg) \<le> 0) (MustBePositive ''jwt.expiry''),
            if s = [] then None
            else (case url_parse s of
                    None \<Rightarrow> Some (InvalidURL up)
                  | Some (scheme, host) \<Rightarrow>
                      if scheme = [] \<or> host = [] then Some (InvalidURL up)
                      else check (scheme \<noteq> ''http'' \<and> scheme \<noteq> ''https'') (UpstreamScheme scheme))]))"

definition validate_smtp_config :: "(string \<Rightarrow> bool) \<Rightarrow> config option \<Rightarrow> config_error option" where
  "validate_smtp_config stat_ok cfg_ptr =
     (case validate cfg_ptr of Some err \<Rightarrow> Some err
      | None \<Rightarrow>
        (let cfg = the cfg_ptr; smtp = sv_smtp (cf_server cfg); tls = ss_tls smtp in
         first_error
           ([required (rc_addr (cf_redis cfg)) ''redis.addr'',
             required (nc_url (cf_nats cfg)) ''nats.url'',
             required (nc_stream (cf_nats cfg)) ''nats.stream'',
             required (nc_subject (cf_nats cfg)) ''nats.subject'',
             check (ss_max_message_bytes smtp \<le> 0) (MustBePositive ''server.smtp.maxMessageBytes''),
             check (ss_max_recipients smtp \<le> 0) (MustBePositive ''server.smtp.maxRecipients''),
             check (st_require_tls tls \<and> \<not> st_enabled tls) RequireTLSNeedsEnabled] @
            (if st_enabled tls
             then [check (trim_space (st_cert_file tls) = []) (RequiredForTLS ''server.smtp.tls.certFile''),
                   check (trim_space (st_key_file tls) = []) (RequiredForTLS ''server.smtp.tls.keyFile''),
                   check (trim_space (st_min_version tls) \<noteq> [] \<and>
                          parse_tls_min_version (trim_space (st_min_version tls)) = None)
                     (InvalidMinVersion (st_min_version tls)),
                   check (\<not> stat_ok (st_cert_file tls)) (NotAccessible ''server.smtp.tls.certFile''),
                   check (\<not> stat_ok (st_key_file tls)) (NotAccessible ''server.smtp.tls.keyFile'')]
             else []))))"

definition validate_worker_config :: "config option \<Rightarrow> config_error option" where
  "validate_worker_config cfg_ptr =
     (case validate cfg_ptr of Some err \<Rightarrow> Some err
      | None \<Rightarrow>
        (let cfg = the cfg_ptr in
         first_error
           [required (mg_uri (cf_mongodb cfg)) ''mongodb.uri'',
            required (mg_database (cf_mongodb cfg)) ''mongodb.database'',
            required (rc_addr (cf_redis cfg)) ''redis.addr'',
            required (nc_url (cf_nats cfg)) ''nats.url'',
            required (nc_stream (cf_nats cfg)) ''nats.stream'',
            required (nc_subject (cf_nats cfg)) ''nats.subject'',
            check (nc_consumer_ack_wait (cf_nats cfg) \<le> 0) (MustBePositive ''nats.consumerAckWait''),
            check (nc_consumer_max_deliver (cf_nats cfg) \<le> 0) (MustBePositive ''nats.consumerMaxDeliver''),
            required (mc_endpoint (cf_minio cfg)) ''minio.endpoint'',
            required (mc_bucket (cf_minio cfg)) ''minio.bucket'',
            required (mc_access_key (cf_minio cfg)) ''minio.accessKey'',
            required (mc_secret_key (cf_minio cfg)) ''minio.secretKey'']))"

section \<open>The debug server\<close>

text \<open>\<open>NewWithReadyHandler\<close>: the address it binds and the paths it serves.\<close>

definition debug_server :: "debug_server_config \<Rightarrow> config_error + string \<times> string list" where
  "debug_server cfg =
     (let host = (if trim_space (ds_host cfg) = [] then ''127.0.0.1'' else trim_space (ds_host cfg)) in
      if \<not> is_loopback_host host then Inl (HostNotLoopback ''debug'' (ds_host cfg))
      else if ds_port cfg \<le> 0 \<or> 65535 < ds_port cfg then Inl (PortRange ''debug'' (ds_port cfg))
      else Inr (join_host_port host (format_int (ds_port cfg)),
             [''/healthz'', ''/readyz''] @ (if ds_metrics cfg then [''/metrics''] else []) @
             (if ds_pprof cfg
              then [''/debug/pprof/'', ''/debug/pprof/cmdline'', ''/debug/pprof/profile'', ''/debug/pprof/symbol'',
                    ''/debug/pprof/trace''] else [])))"

section \<open>Overrides of the debug server's configuration\<close>

definition env_bool :: "(string \<Rightarrow> string) \<Rightarrow> string \<Rightarrow> bool option" where
  "env_bool getenv key =
     (let s = to_lower (trim_space (getenv key)) in
      if s \<in> {''1'', ''true'', ''yes'', ''y'', ''on''} then Some True
      else if s \<in> {''0'', ''false'', ''no'', ''n'', ''off''} then Some False
      else None)"

definition apply_debug_addr_override :: "string \<Rightarrow> debug_server_config option \<Rightarrow> debug_server_config option" where
  "apply_debug_addr_override addr0 dbg =
     (let addr = trim_space addr0 in
      case dbg of None \<Rightarrow> None
      | Some d \<Rightarrow>
        if addr = [] then Some d
        else (case split_host_port addr of
                None \<Rightarrow> Some d
              | Some (host, port_str) \<Rightarrow>
                  (case atoi port_str of
                     None \<Rightarrow> Some d
                   | Some p \<Rightarrow> Some (d\<lparr>ds_enabled := True,
                                      ds_host := (if trim_space host \<noteq> [] then host else ds_host d),
                                      ds_port := p\<rparr>))))"

definition apply_debug_env_overrides ::
  "(string \<Rightarrow> string) \<Rightarrow> string \<Rightarrow> debug_server_config option \<Rightarrow> debug_server_config option" where
  "apply_debug_env_overrides getenv pfx dbg =
     (case dbg of None \<Rightarrow> None
      | Some d0 \<Rightarrow>
        (let addr = trim_space (getenv (pfx @ ''_DEBUG_ADDR''));
             d1 = (if addr = [] then d0
                   else (case split_host_port addr of
                           None \<Rightarrow> d0
                         | Some (host, port_str) \<Rightarrow>
                             (case atoi port_str of
                                None \<Rightarrow> d0
                              | Some p \<Rightarrow> d0\<lparr>ds_enabled := True,
                                            ds_host := (if trim_space host \<noteq> [] then host else ds_host d0),
                                            ds_port := p\<rparr>)));
             d2 = (case env_bool getenv (pfx @ ''_DEBUG_ENABLED'') of None \<Rightarrow> d1 | Some v \<Rightarrow> d1\<lparr>ds_enabled := v\<rparr>);
             host = trim_space (getenv (pfx @ ''_DEBUG_HOST''));
             d3 = (if host \<noteq> [] then d2\<lparr>ds_host := host\<rparr> else d2);
             port_str = trim_space (getenv (pfx @ ''_DEBUG_PORT''));
             d4 = (if port_str = [] then d3 else (case atoi port_str of None \<Rightarrow> d3 | Some p \<Rightarrow> d3\<lparr>ds_port := p\<rparr>));
             d5 = (case env_bool getenv (pfx @ ''_DEBUG_METRICS'') of None \<Rightarrow> d4 | Some v \<Rightarrow> d4\<lparr>ds_metrics := v\<rparr>);
             d6 = (case env_bool getenv (pfx @ ''_DEBUG_PPROF'') of None \<Rightarrow> d5 | Some v \<Rightarrow> d5\<lparr>ds_pprof := v\<rparr>)
         in Some d6))"

section \<open>What a validated configuration guarantees\<close>

lemma validate_debug_None:
  "validate_debug d name = None \<longleftrightarrow>
     is_loopback_host (if trim_space (ds_host d) = [] then ''127.0.0.1'' else trim_space (ds_host d)) \<and>
     0 < ds_port d \<and> ds_port d \<le> 65535"
  by (auto simp: validate_debug_def validate_port_def)

lemma validate_None:
  "validate (Some cfg) = None \<Longrightarrow>
     ds_enabled d \<Longrightarrow> d \<in> {as_debug (sv_api (cf_server cfg)), ss_debug (sv_smtp (cf_server cfg)),
       ws_debug (sv_worker (cf_server cfg))} \<Longrightarrow> \<exists>name. validate_debug d name = None"
  by (auto simp: validate_def Let_def)

lemma validate_service:
  "validate_api_config url_parse c = None \<Longrightarrow> validate c = None"
  "validate_smtp_config stat_ok c = None \<Longrightarrow> validate c = None"
  "validate_worker_config c = None \<Longrightarrow> validate c = None"
  by (simp_all add: validate_api_config_def validate_smtp_config_def validate_worker_config_def split: option.splits)

lemma debug_server_accepts:
  "validate_debug d name = None \<Longrightarrow> \<exists>addr paths. debug_server d = Inr (addr, paths)"
  by (auto simp: validate_debug_None debug_server_def Let_def)

lemma debug_server_Inr:
  assumes "debug_server d = Inr (addr, paths)"
  shows "\<exists>host. is_loopback_host host \<and> addr = join_host_port host (format_int (ds_port d)) \<and>
    0 < ds_port d \<and> ds_port d \<le> 65535"
    and "(''/metrics'' \<in> set paths) = ds_metrics d" and "list_ex (\<lambda>p. has_prefix p ''/debug/pprof/'') paths = ds_pprof d"
  using assms by (auto simp: debug_server_def Let_def not_le has_prefix_def split: if_splits)

text \<open>
  A debug endpoint is never public: an enabled debug server of any service in a configuration that
  passes validation is started, and then its address is that of a loopback host with a valid port;
  metrics and profiling are served only when configured.
\<close>

theorem validated_debug_server_is_loopback:
  assumes "validate (Some cfg) = None" and "ds_enabled d"
    and "d \<in> {as_debug (sv_api (cf_server cfg)), ss_debug (sv_smtp (cf_server cfg)),
      ws_debug (sv_worker (cf_server cfg))}"
  shows "\<exists>host paths. debug_server d = Inr (join_host_port host (format_int (ds_port d)), paths) \<and>
    is_loopback_host host \<and> 0 < ds_port d \<and> ds_port d \<le> 65535 \<and>
    (''/metrics'' \<in> set paths) = ds_metrics d \<and>
    list_ex (\<lambda>p. has_prefix p ''/debug/pprof/'') paths = ds_pprof d"
proof -
  obtain addr paths where d: "debug_server d = Inr (addr, paths)"
    using validate_None [OF assms] debug_server_accepts by blast
  from debug_server_Inr [OF d] d show ?thesis by blast
qed

theorem validated_debug_server_is_loopback_witness:
  "\<exists>host paths. debug_server (default_debug 6061\<lparr>ds_enabled := True\<rparr>) = Inr (join_host_port host ''6061'', paths) \<and>
    is_loopback_host host \<and> ''/metrics'' \<in> set paths"
proof -
  let ?d = "default_debug 6061\<lparr>ds_enabled := True\<rparr>"
  let ?s = "(cf_server default_config)\<lparr>sv_smtp := default_smtp_server\<lparr>ss_debug := ?d\<rparr>\<rparr>"
  let ?c = "default_config\<lparr>cf_server := ?s\<rparr>"
  have t: "trim_space ''127.0.0.1'' = ''127.0.0.1''"
    by (rule trim_space_trimmed) (simp add: trimmed_def is_space_code)
  have l: "is_loopback_host ''127.0.0.1''"
    by (simp add: is_loopback_host_def t trim_suffix_def trim_prefix_def has_prefix_def has_suffix_def
        equal_fold_def to_lower_def lower_char_def parse_ip_def parse_ipv4_def ipv4_field_def is_digit_def
        digits_val_def digit_val_def ipv4_prefix_def ip_is_loopback_def nth_append)
  have "validate (Some ?c) = None"
    by (simp add: validate_def default_config_defs validate_port_def validate_dialects_def validate_debug_None l t)
  then have "\<exists>host paths. debug_server ?d = Inr (join_host_port host (format_int (ds_port ?d)), paths) \<and>
      is_loopback_host host \<and> 0 < ds_port ?d \<and> ds_port ?d \<le> 65535 \<and>
      (''/metrics'' \<in> set paths) = ds_metrics ?d \<and>
      list_ex (\<lambda>p. has_prefix p ''/debug/pprof/'') paths = ds_pprof ?d"
    by (rule validated_debug_server_is_loopback) simp_all
  moreover have "format_int (ds_port ?d) = ''6061''" 
    by (simp add: default_debug_def format_int_def show_nat.simps)
  moreover have "ds_metrics ?d" by (simp add: default_debug_def)
  ultimately show ?thesis by metis
qed

text \<open>
  A configuration that passes the check of the SMTP service (\<open>-check-config\<close>) never asks for TLS it cannot offer: when TLS is
  required it is enabled, its certificate and key are named and readable, and a minimum version, if any,
  is TLS 1.2 or 1.3; sizes and recipients are bounded.
\<close>

theorem validated_smtp_tls:
  assumes "validate_smtp_config stat_ok (Some cfg) = None"
    and "st_require_tls (ss_tls (sv_smtp (cf_server cfg)))"
  shows "let tls = ss_tls (sv_smtp (cf_server cfg)) in
    st_enabled tls \<and> trim_space (st_cert_file tls) \<noteq> [] \<and> trim_space (st_key_file tls) \<noteq> [] \<and>
    stat_ok (st_cert_file tls) \<and> stat_ok (st_key_file tls) \<and>
    (trim_space (st_min_version tls) = [] \<or>
     parse_tls_min_version (trim_space (st_min_version tls)) \<in> {Some 0x0303, Some 0x0304}) \<and>
    0 < ss_max_message_bytes (sv_smtp (cf_server cfg)) \<and> 0 < ss_max_recipients (sv_smtp (cf_server cfg))"
proof -
  have "parse_tls_min_version s \<noteq> None \<Longrightarrow> parse_tls_min_version s \<in> {Some 0x0303, Some 0x0304}" for s
    by (auto simp: parse_tls_min_version_def Let_def split: if_splits)
  with assms show ?thesis
    unfolding validate_smtp_config_def by (auto simp: Let_def not_le split: option.splits if_splits)
qed

theorem validated_smtp_tls_witness:
  "let tls = \<lparr>st_enabled = True, st_cert_file = ''/c'', st_key_file = ''/k'', st_require_tls = True,
     st_min_version = ''tls1.3''\<rparr>;
     cfg = default_config\<lparr>cf_server := (cf_server default_config)\<lparr>sv_smtp := default_smtp_server\<lparr>ss_tls := tls\<rparr>\<rparr>\<rparr>
   in validate_smtp_config (\<lambda>_. True) (Some cfg) = None \<and> st_enabled tls"
proof -
  let ?tls = "\<lparr>st_enabled = True, st_cert_file = ''/c'', st_key_file = ''/k'', st_require_tls = True,
     st_min_version = ''tls1.3''\<rparr>"
  let ?cfg = "default_config\<lparr>cf_server := (cf_server default_config)\<lparr>sv_smtp := default_smtp_server\<lparr>ss_tls := ?tls\<rparr>\<rparr>\<rparr>"
  have v: "validate (Some ?cfg) = None"
    by (simp add: validate_def default_config_defs validate_port_def validate_dialects_def)
  have n: "trim_space ''/c'' \<noteq> []" "trim_space ''/k'' \<noteq> []" "parse_tls_min_version (trim_space ''tls1.3'') \<noteq> None"
    "trim_space ''localhost:6379'' \<noteq> []" "trim_space ''nats://localhost:4222'' \<noteq> []"
    "trim_space ''EMAILS'' \<noteq> []" "trim_space ''emails.incoming'' \<noteq> []"
    by (simp_all add: trim_space_trimmed trimmed_def is_space_code parse_tls_min_version_def to_lower_def lower_char_def)
  have c: "validate_smtp_config (\<lambda>_. True) (Some ?cfg) = None"
    using n by (simp add: validate_smtp_config_def v) (simp add: default_config_defs Let_def)
  from validated_smtp_tls [OF this] have "st_enabled ?tls" by simp
  with c show ?thesis by (simp add: Let_def)
qed

end
