(* ===== verification/ApiKeys.thy ===== *)
theory ApiKeys
  imports Config Middleware
begin

text \<open>
  The start of \<open>cmd/api/main.go\<close> that turns the configuration into the domains to synchronise and the
  map of API keys, and what the middlewares then decide: who is authenticated and which domains a
  request may use.
\<close>

section \<open>From the configuration\<close>

definition config_domains :: "domain_config list \<Rightarrow> mail_domain list" where
  "config_domains ds =
     map (\<lambda>d. \<lparr>dm_id = 0, dm_domain = to_lower (trim_space (dc_domain d)), dm_is_active = dc_is_active d,
              dm_is_private = dc_is_private d, dm_created_at = zero_time, dm_updated_at = zero_time\<rparr>)
       (filter (\<lambda>d. to_lower (trim_space (dc_domain d)) \<noteq> []) ds)"

definition explicit_domains :: "string list \<Rightarrow> string list" where
  "explicit_domains ds = filter (\<lambda>dd. dd \<noteq> [] \<and> dd \<noteq> ''*'') (map (\<lambda>d. to_lower (trim_space d)) ds)"

definition domain_limits :: "(string \<times> int) list \<Rightarrow> string \<rightharpoonup> int" where
  "domain_limits ls =
     foldl (\<lambda>m (k, v). let kk = to_lower (trim_space k) in if kk = [] then m else m(kk \<mapsto> v)) Map.empty ls"

definition build_api_key_info :: "api_key_config \<Rightarrow> api_key_info" where
  "build_api_key_info ak =
     (let wildcard = list_ex (\<lambda>d. to_lower (trim_space d) = ''*'') (ak_domains ak);
          explicit = explicit_domains (ak_domains ak)
      in \<lparr>ki_name = ak_name ak,
          ki_domains = (if wildcard then [''*''] else explicit),
          ki_default_domain = to_lower (trim_space (ak_default_domain ak)),
          ki_default_subdomain = to_lower (trim_space (ak_default_subdomain ak)),
          ki_domain_set = (if 0 < length explicit then Some (set explicit) else None),
          ki_wildcard = wildcard,
          ki_rpm_limit = ak_rpm_limit ak,
          ki_domain_limits = domain_limits (ak_domain_limits ak)\<rparr>)"

definition build_api_keys :: "api_key_config list \<Rightarrow> string \<rightharpoonup> api_key_info" where
  "build_api_keys aks = foldl (\<lambda>m ak. m(ak_key ak \<mapsto> build_api_key_info ak)) Map.empty aks"

lemma build_api_keys_Some:
  "build_api_keys aks token = Some info \<Longrightarrow> \<exists>ak \<in> set aks. ak_key ak = token \<and> info = build_api_key_info ak"
proof -
  have "foldl (\<lambda>m ak. m(ak_key ak \<mapsto> build_api_key_info ak)) m aks token = Some info \<Longrightarrow>
    m token = Some info \<or> (\<exists>ak \<in> set aks. ak_key ak = token \<and> info = build_api_key_info ak)" for m
  proof (induction aks arbitrary: m)
    case (Cons a aks)
    from Cons.IH [of "m(ak_key a \<mapsto> build_api_key_info a)"] Cons.prems show ?case
      by (auto split: if_splits)
  qed simp
  from this [of Map.empty]
  show "build_api_keys aks token = Some info \<Longrightarrow> \<exists>ak \<in> set aks. ak_key ak = token \<and> info = build_api_key_info ak"
    by (simp add: build_api_keys_def)
qed

section \<open>Domains of an API key\<close>

lemma set_explicit_domains:
  "set (explicit_domains ds) = {normalize p | p. p \<in> set ds \<and> normalize p \<noteq> [] \<and> normalize p \<noteq> ''*''}"
  by (auto simp: explicit_domains_def normalize_def)

lemma normalize_star [simp]: "normalize ''*'' = ''*''"
  by (simp add: normalize_def trim_space_trimmed trimmed_def is_space_code to_lower_def lower_char_def)

lemma normalize_explicit: "d \<in> set (explicit_domains ds) \<Longrightarrow> normalize d = d \<and> d \<noteq> [] \<and> d \<noteq> ''*''"
  by (auto simp: set_explicit_domains)

lemma match_slice_Some_iff:
  "match_slice d ds \<noteq> None \<longleftrightarrow>
     (\<exists>p \<in> set ds. normalize p \<noteq> [] \<and> normalize p \<noteq> ''*'' \<and> subdomain_of (normalize d) (normalize p))"
  by (auto simp: match_slice_eq match_set_None slice_set_def simp del: not_None_eq)

text \<open>What a configured list of domains grants: the wildcard, or the domain or one of its parents.\<close>

definition grants :: "string list \<Rightarrow> string \<Rightarrow> bool" where
  "grants ds d \<longleftrightarrow> normalize d \<noteq> [] \<and>
     (list_ex (\<lambda>p. normalize p = ''*'') ds \<or>
      list_ex (\<lambda>p. normalize p \<noteq> [] \<and> normalize p \<noteq> ''*'' \<and> subdomain_of (normalize d) (normalize p)) ds)"

lemma is_domain_allowed_built:
  assumes "cx_api_key_info cx = Some (build_api_key_info ak)"
  shows "is_domain_allowed cx d = grants (ak_domains ak) d"
proof -
  let ?E = "explicit_domains (ak_domains ak)"
  have w: "ki_wildcard (build_api_key_info ak) = list_ex (\<lambda>p. normalize p = ''*'') (ak_domains ak)"
    by (simp add: build_api_key_info_def Let_def normalize_def)
  have s: "ki_domain_set (build_api_key_info ak) = (if 0 < length ?E then Some (set ?E) else None)"
    by (simp add: build_api_key_info_def Let_def)
  have dd: "\<not> ki_wildcard (build_api_key_info ak) \<Longrightarrow> ki_domains (build_api_key_info ak) = ?E"
    by (simp add: build_api_key_info_def Let_def)
  have m: "match_set (normalize d) (set ?E) \<noteq> None \<longleftrightarrow>
      list_ex (\<lambda>p. normalize p \<noteq> [] \<and> normalize p \<noteq> ''*'' \<and> subdomain_of (normalize d) (normalize p)) (ak_domains ak)"
    by (auto simp: match_set_None set_explicit_domains list_ex_iff simp del: not_None_eq)
  show ?thesis
  proof (cases "?E = []")
    case True
    then have "\<not> list_ex (\<lambda>p. normalize p \<noteq> [] \<and> normalize p \<noteq> ''*'' \<and> subdomain_of (normalize d) (normalize p)) (ak_domains ak)"
      using m by (simp add: match_set_def)
    then show ?thesis
      using assms s w dd True by (auto simp: is_domain_allowed_def Let_def grants_def match_slice_def)
  next
    case False
    then show ?thesis
      using assms s w m by (auto simp: is_domain_allowed_def Let_def grants_def)
  qed
qed

lemma explicitly_allowed_built:
  assumes "cx_api_key_info cx = Some (build_api_key_info ak)" and "normalize d \<noteq> ''*''"
  shows "is_domain_explicitly_allowed cx d \<longleftrightarrow>
    normalize d \<noteq> [] \<and> list_ex (\<lambda>p. normalize p = normalize d) (ak_domains ak)"
proof -
  let ?E = "explicit_domains (ak_domains ak)"
  have e: "normalize d \<in> set ?E \<longleftrightarrow> normalize d \<noteq> [] \<and> list_ex (\<lambda>p. normalize p = normalize d) (ak_domains ak)"
    using assms(2) unfolding set_explicit_domains list_ex_iff by (auto intro: sym)
  have n: "to_lower (trim_space d) = normalize d" by (simp add: normalize_def)
  show ?thesis
  proof (cases "?E = []")
    case True
    then have "ki_domains (build_api_key_info ak) = [''*''] \<or> ki_domains (build_api_key_info ak) = []"
      by (simp add: build_api_key_info_def Let_def)
    then show ?thesis using assms True e
      by (auto simp: is_domain_explicitly_allowed_def Let_def n build_api_key_info_def)
  next
    case False
    then show ?thesis using assms(1) e
      by (auto simp: is_domain_explicitly_allowed_def Let_def n build_api_key_info_def)
  qed
qed

section \<open>Who is authenticated\<close>

definition is_api_key :: "string \<Rightarrow> bool" where
  "is_api_key token \<longleftrightarrow> has_prefix token ''sk_'' \<or> has_prefix token ''dk_''"

lemma bearer_auth_Next:
  assumes "bearer_auth keys validate header fresh_context s = (Next, cx, s')"
  shows "(\<exists>token info. bearer_token_from_authorization header = Some token \<and> is_api_key token \<and>
      keys token = Some info \<and> cx_api_key cx = Some token \<and> cx_api_key_info cx = Some info \<and>
      cx_account_id cx = None \<and> s' = s) \<or>
    (\<exists>token claims. bearer_token_from_authorization header = Some token \<and> \<not> is_api_key token \<and>
      validate token s = (Inr claims, s') \<and> cx_api_key cx = None \<and> cx_api_key_info cx = None \<and>
      cx_account_id cx = Some (cl_account_id claims) \<and> cx_address cx = Some (cl_address claims) \<and>
      (domain_from_address (cl_address claims) \<noteq> [] \<longrightarrow>
         cx_api_key_domains cx = Some [domain_from_address (cl_address claims)])) \<or>
    (cx_api_key cx = None \<and> cx_api_key_info cx = None \<and> cx_account_id cx = None \<and> s' = s)"
  using assms
  by (auto simp: bearer_auth_def Let_def fresh_context_def is_api_key_def
      split: if_splits option.splits sum.splits prod.splits)

section \<open>Properties of access control\<close>

text \<open>
  The search for a mail domain returns the most specific entry: the longest of the domain itself
  and its parent domains that is in the set, and nothing exactly when there is none; case and
  surrounding blanks do not matter.
\<close>

theorem match_set_most_specific:
  "(match_set d allowed = Some c) = most_specific (\<lambda>p. p \<in> allowed) (normalize d) c \<and>
   (match_set d allowed = None) = ({p \<in> allowed. p \<noteq> [] \<and> subdomain_of (normalize d) p} = {}) \<and>
   match_set (normalize d) allowed = match_set d allowed"
  using match_set_Some match_set_None by auto

text \<open>
  A mail domain is resolved to an active configured domain, the most specific one that is the
  domain or a parent of it; inactive domains are never chosen.
\<close>

theorem resolve_domain_most_specific:
  assumes "resolve_domain domain domains = Some (d, c)"
  shows "d \<in> set domains \<and> dm_is_active d \<and> normalize (dm_domain d) = c \<and>
    most_specific (\<lambda>p. \<exists>d \<in> set domains. dm_is_active d \<and> normalize (dm_domain d) = p) (normalize domain) c"
  using assms by (rule resolve_domain_Some)

definition sample_domain :: "string \<Rightarrow> bool \<Rightarrow> mail_domain" where
  "sample_domain name active = \<lparr>dm_id = 0, dm_domain = name, dm_is_active = active, dm_is_private = False,
     dm_created_at = 0, dm_updated_at = 0\<rparr>"

theorem resolve_domain_most_specific_witness:
  "resolve_domain ''a.b.io'' [sample_domain ''io'' True, sample_domain ''b.io'' True, sample_domain ''a.b.io'' False]
     = Some (sample_domain ''b.io'' True, ''b.io'') \<and>
   dm_is_active (sample_domain ''b.io'' True)"
proof -
  have n: "normalize ''io'' = ''io''" "normalize ''b.io'' = ''b.io''" "normalize ''a.b.io'' = ''a.b.io''"
    by (simp_all add: normalize_def trim_space_trimmed trimmed_def is_space_code to_lower_def lower_char_def
        char_of_def bit_0)
  have c: "candidates ''a.b.io'' = [''a.b.io'', ''b.io'', ''io'']"
    by (simp add: candidates_def n)
  have r: "resolve_domain ''a.b.io'' [sample_domain ''io'' True, sample_domain ''b.io'' True, sample_domain ''a.b.io'' False]
     = Some (sample_domain ''b.io'' True, ''b.io'')"
    by (simp add: resolve_domain_def c index_by_domain_def sample_domain_def n Let_def)
  from resolve_domain_most_specific [OF r] r show ?thesis by simp
qed

text \<open>
  Behind BearerAuth and RequireAPIKey, when API keys are configured, a request is served only with
  a configured API key, whose settings are then in force, or with a token that ValidateToken accepts for
  a non-empty account; there is no other way through.
\<close>

theorem served_requests_are_authenticated:
  assumes "bearer_auth (build_api_keys aks) validate header fresh_context s = (Next, cx, s')"
    and "require_api_key True cx = (Next, cx')"
  shows "\<exists>token. bearer_token_from_authorization header = Some token \<and>
    ((\<exists>ak \<in> set aks. ak_key ak = token \<and> is_api_key token \<and> cx_api_key_info cx' = Some (build_api_key_info ak)) \<or>
     (\<exists>claims. \<not> is_api_key token \<and> validate token s = (Inr claims, s') \<and> cl_account_id claims \<noteq> [] \<and>
        cx_api_key_info cx' = None \<and> cx_account_id cx' = Some (cl_account_id claims)))"
proof -
  have c: "cx' = cx" "cx_api_key cx \<noteq> None \<or> get_string (cx_account_id cx) \<noteq> []"
    using assms(2) by (auto simp: require_api_key_def split: if_splits)
  from bearer_auth_Next [OF assms(1)] show ?thesis
    unfolding c(1) using c(2) by (auto simp: get_string_def dest: build_api_keys_Some)
qed

definition sample_key :: api_key_config where
  "sample_key = \<lparr>ak_key = ''sk_1'', ak_name = ''n'', ak_domains = ['' Example.com'', ''*''], ak_default_domain = [],
     ak_default_subdomain = [], ak_rpm_limit = 0, ak_domain_limits = []\<rparr>"

lemma sample_bearer: "bearer_token_from_authorization ''bearer  sk_1'' = Some ''sk_1''"
proof -
  have "trim_space ''bearer  sk_1'' = ''bearer  sk_1''" by (simp add: trim_space_trimmed trimmed_def is_space_code)
  moreover have "trim_space ''  sk_1'' = ''sk_1''"
    by (simp add: trim_space_def trim_left_def trim_right_def is_space_code)
  ultimately show ?thesis
    by (simp add: bearer_token_from_authorization_def equal_fold_def to_lower_def lower_char_def
        char_of_def bit_0)
qed

definition sample_key_context :: req_context where
  "sample_key_context =
     fresh_context\<lparr>cx_api_key_domains := Some (ki_domains (build_api_key_info sample_key)),
       cx_api_key_name := Some ''n'', cx_api_key := Some ''sk_1'', cx_api_key_info := Some (build_api_key_info sample_key)\<rparr>"

lemma sample_bearer_auth:
  "bearer_auth (build_api_keys [sample_key]) validate ''bearer  sk_1'' fresh_context s = (Next, sample_key_context, s)"
proof -
  have "build_api_keys [sample_key] = [''sk_1'' \<mapsto> build_api_key_info sample_key]"
    by (simp add: build_api_keys_def sample_key_def)
  moreover have "ki_name (build_api_key_info sample_key) = ''n''"
    by (simp add: build_api_key_info_def sample_key_def Let_def)
  ultimately show ?thesis
    by (simp add: bearer_auth_def sample_bearer has_prefix_def fresh_context_def sample_key_context_def)
qed

theorem served_requests_are_authenticated_witness:
  "\<exists>token. bearer_token_from_authorization ''bearer  sk_1'' = Some token \<and> token = ''sk_1'' \<and>
     cx_api_key_info sample_key_context = Some (build_api_key_info sample_key)"
proof -
  have "require_api_key True sample_key_context = (Next, sample_key_context)"
    by (simp add: require_api_key_def sample_key_context_def)
  from served_requests_are_authenticated [OF sample_bearer_auth [of "\<lambda>_ s. (Inl ErrInvalidToken, s)" "()"] this]
  show ?thesis by (auto simp: sample_bearer sample_key_context_def)
qed

text \<open>
  C18: an API key may use exactly the domains its configuration lists: any domain with the wildcard,
  otherwise a listed domain and its subdomains; whatever the wildcard grants, a private domain is
  explicitly allowed only when the configuration lists that very domain.
\<close>

theorem api_key_domain_access:
  assumes "cx_api_key_info cx = Some (build_api_key_info ak)" and "normalize d \<noteq> ''*''"
  shows "is_domain_allowed cx d = grants (ak_domains ak) d \<and>
    is_domain_explicitly_allowed cx d =
      (normalize d \<noteq> [] \<and> list_ex (\<lambda>p. normalize p = normalize d) (ak_domains ak))"
  using is_domain_allowed_built [OF assms(1)] explicitly_allowed_built [OF assms] by simp

theorem api_key_domain_access_witness:
  "is_domain_allowed sample_key_context ''other.org'' \<and>
   is_domain_explicitly_allowed sample_key_context ''EXAMPLE.com'' \<and>
   \<not> is_domain_explicitly_allowed sample_key_context ''other.org''"
proof -
  have i: "cx_api_key_info sample_key_context = Some (build_api_key_info sample_key)"
    by (simp add: sample_key_context_def)
  have n: "normalize ''other.org'' = ''other.org''" "normalize ''EXAMPLE.com'' = ''example.com''"
    "normalize '' Example.com'' = ''example.com''"
    by (simp_all add: normalize_def trim_space_def trim_left_def trim_right_def is_space_code to_lower_def lower_char_def
        char_of_def bit_0)
  have "normalize ''other.org'' \<noteq> ''*''" "normalize ''EXAMPLE.com'' \<noteq> ''*''" by (simp_all add: n)
  from api_key_domain_access [OF i this(1)] api_key_domain_access [OF i this(2)]
  show ?thesis by (simp add: grants_def n sample_key_def)
qed



end
