(* ===== verification/Smtp.thy ===== *)
theory Smtp
  imports Queue Cache Domainutil Net "HOL-Library.List_Lexorder" "HOL-Library.Char_ord"
begin

text \<open>
  \<open>internal/smtp/server.go\<close>: the backend of the SMTP server, the cache of addresses known not to exist
  (\<open>ttlSet\<close>), the session with its commands and the listeners of a node.

  \<open>gosmtp\<close> is library code: it calls the methods of the session. The cache is the model of theory
  Cache, \<open>Publish\<close> that of theory Queue. \<open>GetAccountByAddress\<close>, the network interfaces and
  every reading of the clock are parameters.
\<close>

section \<open>Addresses that do not exist\<close>

record ttl_set = "int counted_map" +
  ts_max_entries :: int
  ts_sweep_every :: duration
  ts_last_sweep_ns :: time

definition new_ttl_set :: "int \<Rightarrow> duration \<Rightarrow> ttl_set" where
  "new_ttl_set max_entries sweep_every =
     \<lparr>cm_m = Map.empty, cm_size = 0,
      ts_max_entries = (if max_entries \<le> 0 then 10000 else max_entries),
      ts_sweep_every = (if sweep_every \<le> 0 then 30 * second else sweep_every),
      ts_last_sweep_ns = 0\<rparr>"

definition ts_contains :: "time \<Rightarrow> string \<Rightarrow> ttl_set \<Rightarrow> bool \<times> ttl_set" where
  "ts_contains now key s =
     (case cm_m s key of
        None \<Rightarrow> (False, s)
      | Some exp \<Rightarrow>
          if exp \<le> now then (False, s\<lparr>cm_m := (cm_m s)(key := None), cm_size := cm_size s - 1\<rparr>)
          else (True, s))"

text \<open>The two \<open>Range\<close> loops of \<open>maybeSweep\<close>: the map and how many entries the loop deleted.\<close>

definition delete_expired :: "time \<Rightarrow> string list \<Rightarrow> (string \<rightharpoonup> int) \<Rightarrow> (string \<rightharpoonup> int) \<times> int" where
  "delete_expired now order m =
     foldl (\<lambda>(m, expired) k. case m k of None \<Rightarrow> (m, expired)
              | Some exp \<Rightarrow> if exp \<le> now then (m(k := None), expired + 1) else (m, expired)) (m, 0) order"

fun delete_over :: "int \<Rightarrow> string list \<Rightarrow> (string \<rightharpoonup> int) \<Rightarrow> int \<Rightarrow> (string \<rightharpoonup> int) \<times> int" where
  "delete_over over [] m removed = (m, removed)"
| "delete_over over (k # ks) m removed =
     (if over \<le> removed then (m, removed) else delete_over over ks (m(k := None)) (removed + 1))"

definition ts_maybe_sweep :: "((string \<rightharpoonup> int) \<Rightarrow> string list) \<Rightarrow> time \<Rightarrow> ttl_set \<Rightarrow> ttl_set" where
  "ts_maybe_sweep visit now s =
     (if ts_sweep_every s \<le> 0 then s
      else
        (let last = ts_last_sweep_ns s in
         if last \<noteq> 0 \<and> now - last < ts_sweep_every s then s
         else
           (let (m1, expired) = delete_expired now (visit (cm_m s)) (cm_m s);
                s1 = s\<lparr>ts_last_sweep_ns := now, cm_m := m1,
                       cm_size := (if 0 < expired then cm_size s - expired else cm_size s)\<rparr>;
                over = cm_size s1 - ts_max_entries s1
            in if over \<le> 0 then s1
               else (let (m2, removed) = delete_over over (visit (cm_m s1)) (cm_m s1) 0
                     in s1\<lparr>cm_m := m2, cm_size := (if 0 < removed then cm_size s1 - removed else cm_size s1)\<rparr>))))"

definition ts_add :: "((string \<rightharpoonup> int) \<Rightarrow> string list) \<Rightarrow> time \<Rightarrow> string \<Rightarrow> duration \<Rightarrow> ttl_set \<Rightarrow> ttl_set" where
  "ts_add visit now key ttl0 s =
     (if key = [] then s
      else
        (let ttl = (if ttl0 \<le> 0 then second else ttl0)
         in ts_maybe_sweep visit now (load_or_store key (now + ttl) s)))"

section \<open>Backend and session\<close>

record backend =
  be_account_ttl :: duration
  be_require_tls :: bool
  be_max_lookup :: int
  be_domain :: string
  be_allowed_domains :: "string list"
  be_allowed_set :: "string set"
  be_max_message_bytes :: int

definition new_backend :: "int \<Rightarrow> duration \<Rightarrow> bool \<Rightarrow> string \<Rightarrow> string list \<Rightarrow> int \<Rightarrow> backend \<times> ttl_set" where
  "new_backend gomaxprocs account_ttl require_tls domain allowed_domains max_message_bytes =
     (let n = gomaxprocs * 32; n = (if n < 32 then 32 else n); max_lookup = (if 256 < n then 256 else n)
      in (\<lparr>be_account_ttl = account_ttl, be_require_tls = require_tls, be_max_lookup = max_lookup,
           be_domain = domain, be_allowed_domains = allowed_domains,
           be_allowed_set = (if 0 < length allowed_domains
                             then set (filter (\<lambda>n. n \<noteq> []) (map normalize allowed_domains)) else {}),
           be_max_message_bytes = max_message_bytes\<rparr>,
          new_ttl_set 200000 (30 * second)))"

datatype smtp_error = SMTPError int "int \<times> int \<times> int" string

definition tls_required_error :: smtp_error where
  "tls_required_error = SMTPError 530 (5, 7, 0) ''Must issue STARTTLS first''"

definition unavailable_error :: smtp_error where
  "unavailable_error = SMTPError 451 (4, 3, 0) ''Temporary service error, try again later''"

definition no_user_error :: "string \<Rightarrow> smtp_error" where
  "no_user_error addr = SMTPError 550 (5, 1, 1) (''User '' @ addr @ '' does not exist'')"

record session =
  se_from :: string
  se_to :: "string list"
  se_remote_addr :: string
  se_is_tls :: bool

text \<open>The state the sessions share: the cache, the negative cache, running lookups, the stream.\<close>

record ('r, 'h) smtp_world =
  sw_cache :: "'r cache"
  sw_neg :: ttl_set
  sw_in_flight :: int
  sw_stream :: "'h stream_message list"

text \<open>What is outside: Redis, the order of \<open>Range\<close>, the headers and answers of NATS, the account lookup.\<close>

datatype lookup_answer = LookupFound account | LookupNotFound | LookupError | LookupTimeout

record ('r, 'h) smtp_env =
  sv_redis :: "'r redis_api"
  sv_visit :: "(string \<rightharpoonup> int) \<Rightarrow> string list"
  sv_headers :: "'h header_api"
  sv_publish_msg :: "'h \<Rightarrow> bytes \<Rightarrow> publish_outcome"
  sv_publish_data :: "bytes \<Rightarrow> publish_outcome"
  sv_lookup :: "(string \<Rightarrow> lookup_answer) option"

definition new_session ::
  "('r, 'h) smtp_env \<Rightarrow> string \<Rightarrow> bool \<Rightarrow> time \<times> time \<Rightarrow> ('r, 'h) smtp_world
     \<Rightarrow> (smtp_error + session) \<times> ('r, 'h) smtp_world" where
  "new_session env remote_addr is_tls clk w =
     (let ip = (case split_host_port remote_addr of
                  Some (host, _) \<Rightarrow> if trim_space host \<noteq> [] then host else remote_addr
                | None \<Rightarrow> remote_addr);
          (res, c) = check_smtp_rate_limit (sv_redis env) ip 100 minute clk (sw_cache w);
          w' = w\<lparr>sw_cache := c\<rparr>;
          s = \<lparr>se_from = [], se_to = [], se_remote_addr = remote_addr, se_is_tls = is_tls\<rparr>
      in case res of
           Inl err \<Rightarrow> (Inr s, w')
         | Inr allowed \<Rightarrow>
             if \<not> allowed then (Inl (SMTPError 421 (4, 7, 0) ''Too many connections, try again later''), w')
             else (Inr s, w'))"

definition smtp_mail :: "backend \<Rightarrow> string \<Rightarrow> session \<Rightarrow> smtp_error option \<times> session" where
  "smtp_mail b from s =
     (if be_require_tls b \<and> \<not> se_is_tls s then (Some tls_required_error, s) else (None, s\<lparr>se_from := from\<rparr>))"

definition smtp_domain_from_address :: "string \<Rightarrow> string" where
  "smtp_domain_from_address addr =
     (case last_index_byte addr (CHR ''@'') of
        Some i \<Rightarrow> if i + 1 < length addr then to_lower (drop (i + 1) addr) else []
      | None \<Rightarrow> [])"

definition domain_allowed :: "string set \<Rightarrow> string \<Rightarrow> bool" where
  "domain_allowed allowed_set domain = (if allowed_set = {} then True else match_set domain allowed_set \<noteq> None)"

text \<open>
  The body of the single-flight call: whether the account exists and how long it still lives;
  \<^const>\<open>None\<close> for an error of the store. The two clock readings are \<open>time.Now()\<close> and \<open>time.Until\<close>.
\<close>

definition lookup_result :: "backend \<Rightarrow> time \<times> time \<Rightarrow> lookup_answer \<Rightarrow> (bool \<times> duration) option" where
  "lookup_result b clk ans =
     (case ans of
        LookupFound acc \<Rightarrow>
          if 0 < be_account_ttl b \<and> \<not> is_zero_time (ac_created_at acc)
          then (let exp = ac_created_at acc + be_account_ttl b in
                if exp < fst clk then Some (False, 0) else Some (True, exp - snd clk))
          else Some (True, 0)
      | LookupNotFound \<Rightarrow> Some (False, 0)
      | _ \<Rightarrow> None)"

record rcpt_clock = rk_now :: time  rk_call :: "time \<times> time"

definition lookup_and_warm_address ::
  "('r, 'h) smtp_env \<Rightarrow> backend \<Rightarrow> rcpt_clock \<Rightarrow> string \<Rightarrow> ('r, 'h) smtp_world
     \<Rightarrow> (string + bool) \<times> ('r, 'h) smtp_world" where
  "lookup_and_warm_address env b clk addr0 w =
     (case sv_lookup env of None \<Rightarrow> (Inr False, w)
      | Some lookup \<Rightarrow>
        (let addr = to_lower (trim_space addr0) in
         if addr = [] then (Inr False, w)
         else
           (let (neg, n1) = ts_contains (rk_now clk) addr (sw_neg w); w1 = w\<lparr>sw_neg := n1\<rparr> in
            if neg then (Inr False, w1)
            else if be_max_lookup b \<le> sw_in_flight w then (Inl ''recipient lookup busy'', w1)
            else
              (case lookup addr of
                 LookupTimeout \<Rightarrow> (Inl ''recipient lookup timeout'', w1)
               | ans \<Rightarrow>
                   (case lookup_result b (rk_call clk) ans of
                      None \<Rightarrow> (Inl ''lookup failed'', w1)
                    | Some (exists, rttl) \<Rightarrow>
                        if \<not> exists
                        then (Inr False, w1\<lparr>sw_neg := ts_add (sv_visit env) (rk_now clk) addr (30 * second) n1\<rparr>)
                        else
                          (let ttl = (if rttl \<le> 0 then be_account_ttl b else rttl);
                               c = (if 0 < ttl then snd (set_address (sv_redis env) addr ttl (sw_cache w1)) else sw_cache w1)
                           in (Inr True, w1\<lparr>sw_cache := c\<rparr>)))))))"

definition smtp_rcpt ::
  "('r, 'h) smtp_env \<Rightarrow> backend \<Rightarrow> rcpt_clock \<Rightarrow> string \<Rightarrow> session \<Rightarrow> ('r, 'h) smtp_world
     \<Rightarrow> smtp_error option \<times> session \<times> ('r, 'h) smtp_world" where
  "smtp_rcpt env b clk to s w =
     (let addr = to_lower to in
      if be_require_tls b \<and> \<not> se_is_tls s then (Some tls_required_error, s, w)
      else if be_allowed_set b \<noteq> {} \<and> \<not> domain_allowed (be_allowed_set b) (smtp_domain_from_address addr)
      then (Some (SMTPError 550 (5, 1, 1) ''Domain not accepted on this server''), s, w)
      else
        (case has_address (sv_redis env) addr (sw_cache w) of
           Inl err \<Rightarrow> (Some unavailable_error, s, w)
         | Inr exists \<Rightarrow>
             if exists then (None, s\<lparr>se_to := se_to s @ [addr]\<rparr>, w)
             else if sv_lookup env = None then (Some (no_user_error addr), s, w)
             else
               (case lookup_and_warm_address env b clk addr w of
                  (Inl err, w') \<Rightarrow> (Some unavailable_error, s, w')
                | (Inr ok, w') \<Rightarrow>
                    if \<not> ok then (Some (no_user_error addr), s, w')
                    else (None, s\<lparr>se_to := se_to s @ [addr]\<rparr>, w'))))"

text \<open>
  \<open>Data\<close>: the reader delivers the bytes \<open>content\<close> and then the end of the message or a failure. The limit
  of the \<open>LimitReader\<close> is a 64-bit sum.
\<close>

definition smtp_data ::
  "('r, 'h) smtp_env \<Rightarrow> backend \<Rightarrow> bytes \<times> bool \<Rightarrow> int \<Rightarrow> session \<Rightarrow> ('r, 'h) smtp_world
     \<Rightarrow> smtp_error option \<times> ('r, 'h) smtp_world" where
  "smtp_data env b reader now_ms s w =
     (if be_require_tls b \<and> \<not> se_is_tls s then (Some tls_required_error, w)
      else
        (let max_bytes = (if be_max_message_bytes b \<le> 0 then 20 * 2 ^ 20 else be_max_message_bytes b);
             limit = nat (sint (word_of_int (max_bytes + 1) :: 64 word));
             (content, fails) = reader;
             data = take limit content
         in if fails \<and> length content < limit
            then (Some (SMTPError 442 (4, 3, 0) ''Error reading message data''), w)
            else if max_bytes < int (length data)
            then (Some (SMTPError 552 (5, 3, 4) ''Message size exceeds maximum''), w)
            else
              (let email = \<lparr>ie_from = se_from s, ie_to = se_to s, ie_raw_message = data,
                            ie_remote_addr = se_remote_addr s, ie_received_at = now_ms,
                            ie_ingest_stream = [], ie_ingest_seq = 0\<rparr>;
                   (err, m) = publish (sv_headers env) (sv_publish_msg env) (sv_publish_data env) (Some email);
                   w' = w\<lparr>sw_stream := sw_stream w @ (case m of None \<Rightarrow> [] | Some x \<Rightarrow> [x])\<rparr>
               in case err of
                    Some e \<Rightarrow> (Some (SMTPError 451 (4, 3, 0) ''Temporary error, try again later''), w')
                  | None \<Rightarrow> (None, w'))))"

definition smtp_reset :: "session \<Rightarrow> session" where
  "smtp_reset s = s\<lparr>se_from := [], se_to := []\<rparr>"

section \<open>Listeners\<close>

record listener_config =
  lc_addr :: string
  lc_domains :: "string list"

definition normalize_listen_addr :: "string \<Rightarrow> int \<Rightarrow> string + string" where
  "normalize_listen_addr ip0 default_port =
     (let ip = trim_space ip0 in
      if ip = [] then Inl ''empty ip''
      else if default_port \<le> 0 \<or> 65535 < default_port then Inl ''invalid default port''
      else
        (case split_host_port ip of
           Some (host, port) \<Rightarrow>
             if port = [] then Inl ''missing port''
             else if atoi port = None then Inl ''invalid port''
             else Inr (join_host_port host port)
         | None \<Rightarrow>
             (let host = trim_suffix (trim_prefix ip ''['') '']'' in
              if host \<noteq> [] \<and> parse_ip host = None then Inl ''invalid ip''
              else Inr (join_host_port host (format_int default_port)))))"

definition is_local_ip :: "string list option \<Rightarrow> string \<Rightarrow> bool" where
  "is_local_ip interface_addrs ip =
     (if ip = ''0.0.0.0'' \<or> ip = [] \<or> ip = ''::'' then True
      else if (case parse_ip ip of None \<Rightarrow> False | Some p \<Rightarrow> ip_is_loopback p) then True
      else (case interface_addrs of None \<Rightarrow> False | Some addrs \<Rightarrow> list_ex (\<lambda>a. a = ip) addrs))"

text \<open>\<open>ipDomains[addr] = append(ipDomains[addr], domain)\<close>, the map kept in the order of insertion.\<close>

fun append_domain :: "string \<Rightarrow> string \<Rightarrow> (string \<times> string list) list \<Rightarrow> (string \<times> string list) list" where
  "append_domain addr domain [] = [(addr, [domain])]"
| "append_domain addr domain ((a, ds) # xs) =
     (if a = addr then (a, ds @ [domain]) # xs else (a, ds) # append_domain addr domain xs)"

definition listen_addrs :: "string list \<Rightarrow> int \<Rightarrow> string list" where
  "listen_addrs ips default_port =
     (if ips = [] then [join_host_port ''0.0.0.0'' (format_int default_port)]
      else concat (map (\<lambda>ip. case normalize_listen_addr ip default_port of Inl err \<Rightarrow> [] | Inr a \<Rightarrow> [a]) ips))"

definition ip_domains :: "(string \<times> string list) list \<Rightarrow> int \<Rightarrow> (string \<times> string list) list" where
  "ip_domains domain_ips default_port =
     foldl (\<lambda>m (domain, ips). foldl (\<lambda>m addr. append_domain addr domain m) m (listen_addrs ips default_port))
       [] domain_ips"

definition build_listeners ::
  "string list option \<Rightarrow> (string \<times> string list) list \<Rightarrow> int \<Rightarrow> listener_config list" where
  "build_listeners interface_addrs domain_ips default_port =
     concat (map (\<lambda>(addr, domains).
         case split_host_port addr of
           None \<Rightarrow> []
         | Some (host, _) \<Rightarrow>
             if is_local_ip interface_addrs host then [\<lparr>lc_addr = addr, lc_domains = domains\<rparr>] else [])
       (ip_domains domain_ips default_port))"

section \<open>The negative cache\<close>

datatype ttl_op = TsContains time string | TsAdd time string duration

definition ts_step :: "((string \<rightharpoonup> int) \<Rightarrow> string list) \<Rightarrow> ttl_op \<Rightarrow> ttl_set \<Rightarrow> ttl_set" where
  "ts_step visit op s = (case op of TsContains now key \<Rightarrow> snd (ts_contains now key s)
                          | TsAdd now key ttl \<Rightarrow> ts_add visit now key ttl s)"

definition ts_puts :: "ttl_op \<Rightarrow> string \<Rightarrow> time \<Rightarrow> bool" where
  "ts_puts op key exp = (case op of TsContains _ _ \<Rightarrow> False
     | TsAdd now k ttl \<Rightarrow> k = key \<and> key \<noteq> [] \<and> exp = now + (if ttl \<le> 0 then second else ttl))"

text \<open>A deletion loop: a smaller map, and the number of entries it lost.\<close>

definition deleted :: "(string \<rightharpoonup> int) \<Rightarrow> int \<Rightarrow> (string \<rightharpoonup> int) \<times> int \<Rightarrow> bool" where
  "deleted m n r \<longleftrightarrow> (\<forall>k v. fst r k = Some v \<longrightarrow> m k = Some v) \<and> finite (dom (fst r)) \<and>
     n \<le> snd r \<and> int (card (dom (fst r))) + snd r = int (card (dom m)) + n"

lemma deleted_refl: "finite (dom m) \<Longrightarrow> deleted m n (m, n)"
  by (simp add: deleted_def)

lemma deleted_step:
  assumes "finite (dom m)" "m k = Some v" "deleted (m(k := None)) (n + 1) r"
  shows "deleted m n r"
proof -
  have "m k' = Some v'" if "fst r k' = Some v'" for k' v'
    using assms(3) that unfolding deleted_def by (metis fun_upd_apply option.distinct(1))
  then show ?thesis
    using assms(3) card_dom_remove [OF assms(1,2)] unfolding deleted_def by auto
qed

lemma delete_expired_deleted:
  "finite (dom m) \<Longrightarrow> deleted m n (foldl (\<lambda>(m, expired) k. case m k of None \<Rightarrow> (m, expired)
     | Some exp \<Rightarrow> if exp \<le> now then (m(k := None), expired + 1) else (m, expired)) (m, n) order)"
proof (induction order arbitrary: m n)
  case (Cons k ks)
  have f: "finite (dom (m(k := None)))" using Cons.prems by simp
  show ?case
  proof (cases "m k")
    case None
    then show ?thesis using Cons.IH [OF Cons.prems] by simp
  next
    case (Some v)
    then show ?thesis
      using Cons.IH [OF Cons.prems] deleted_step [OF Cons.prems Some Cons.IH [OF f]]
      by (simp del: fun_upd_apply)
  qed
qed (simp add: deleted_refl)

lemma delete_over_deleted:
  "finite (dom m) \<Longrightarrow> distinct order \<Longrightarrow> set order \<subseteq> dom m \<Longrightarrow> deleted m n (delete_over over order m n)"
proof (induction order arbitrary: m n)
  case (Cons k ks)
  then obtain v where v: "m k = Some v" by auto
  have "set ks \<subseteq> dom (m(k := None))" using Cons.prems by auto
  then have "deleted (m(k := None)) (n + 1) (delete_over over ks (m(k := None)) (n + 1))"
    using Cons.prems Cons.IH [of "m(k := None)" "n + 1"] by (simp del: fun_upd_apply)
  with deleted_step [OF Cons.prems(1) v] Cons.prems(1) show ?case by (simp add: deleted_refl)
qed (simp add: deleted_refl)

lemma delete_over_enough:
  "n \<le> over \<Longrightarrow> over - n \<le> int (length order) \<Longrightarrow> snd (delete_over over order m n) = over"
  by (induction order arbitrary: m n) auto

lemma delete_expired_entries:
  "fst (foldl (\<lambda>(m, expired) k. case m k of None \<Rightarrow> (m, expired)
     | Some exp \<Rightarrow> if exp \<le> now then (m(k := None), expired + 1) else (m, expired)) (m, n :: int) order) j = Some v \<Longrightarrow>
   m j = Some v"
proof (induction order arbitrary: m n)
  case (Cons k ks)
  show ?case
  proof (cases "case m k of None \<Rightarrow> False | Some exp \<Rightarrow> exp \<le> now")
    case True
    then have "(m(k := None)) j = Some v"
      using Cons.IH [of "m(k := None)" "n + 1"] Cons.prems by (simp split: option.splits del: fun_upd_apply)
    then show ?thesis by (simp split: if_splits)
  next
    case False
    then show ?thesis using Cons.IH [of m n] Cons.prems by (auto split: option.splits)
  qed
qed simp

lemma delete_over_entries: "fst (delete_over over order m n) j = Some v \<Longrightarrow> m j = Some v"
proof (induction order arbitrary: m n)
  case (Cons k ks)
  then show ?case
    using Cons.IH [of "m(k := None)" "n + 1"] by (auto simp del: fun_upd_apply split: if_splits)
      (metis fun_upd_apply option.distinct(1))
qed simp

lemma ts_maybe_sweep_entries:
  assumes "cm_m (ts_maybe_sweep visit now s) k = Some v"
  shows "cm_m s k = Some v"
proof -
  obtain m1 e where d1: "delete_expired now (visit (cm_m s)) (cm_m s) = (m1, e)" by fastforce
  have m1: "m1 k = Some v \<Longrightarrow> cm_m s k = Some v" for k v
    using delete_expired_entries [of now "cm_m s" 0 "visit (cm_m s)" k v] d1 by (simp add: delete_expired_def)
  have m2: "fst (delete_over over (visit m1) m1 0) k = Some v \<Longrightarrow> m1 k = Some v" for over k v
    by (rule delete_over_entries)
  show ?thesis
    using assms m1 m2
    by (auto simp: ts_maybe_sweep_def Let_def d1 split: if_splits prod.splits) (metis fst_conv)+
qed

lemma ts_maybe_sweep_spec:
  assumes "range_law visit" "exact s"
  shows "exact (ts_maybe_sweep visit now s)"
    and "\<not> (ts_last_sweep_ns s \<noteq> 0 \<and> now - ts_last_sweep_ns s < ts_sweep_every s) \<Longrightarrow> 0 < ts_sweep_every s \<Longrightarrow>
      0 \<le> ts_max_entries s \<Longrightarrow> cm_size (ts_maybe_sweep visit now s) \<le> ts_max_entries s"
proof -
  let ?d1 = "delete_expired now (visit (cm_m s)) (cm_m s)"
  obtain m1 e where d1: "?d1 = (m1, e)" by fastforce
  have f: "finite (dom (cm_m s))" and c: "cm_size s = int (card (dom (cm_m s)))"
    using assms(2) by (simp_all add: exact_def)
  have D1: "deleted (cm_m s) 0 (m1, e)"
    using delete_expired_deleted [OF f, of 0 now "visit (cm_m s)"] d1 by (simp add: delete_expired_def)
  define s1 where "s1 = s\<lparr>ts_last_sweep_ns := now, cm_m := m1,
      cm_size := (if 0 < e then cm_size s - e else cm_size s)\<rparr>"
  have s1: "cm_m s1 = m1" "cm_size s1 = int (card (dom m1))" "finite (dom m1)" "ts_max_entries s1 = ts_max_entries s"
    using D1 c by (auto simp: s1_def deleted_def)
  define over where "over = cm_size s1 - ts_max_entries s1"
  obtain m2 r where d2: "delete_over over (visit m1) m1 0 = (m2, r)" by fastforce
  have vis: "set (visit m1) = dom m1" "distinct (visit m1)"
    using assms(1) s1(3) by (simp_all add: range_law_def)
  have D2: "deleted m1 0 (m2, r)"
    using delete_over_deleted [OF s1(3) vis(2), of 0 over] vis(1) d2 by simp
  have "card (dom m1) = length (visit m1)" using vis by (metis distinct_card)
  then have r: "0 < over \<Longrightarrow> 0 \<le> ts_max_entries s \<Longrightarrow> r = over"
    using delete_over_enough [of 0 over "visit m1" m1] d2 s1 by (simp add: over_def)
  define s2 where "s2 = s1\<lparr>cm_m := m2, cm_size := (if 0 < r then cm_size s1 - r else cm_size s1)\<rparr>"
  have s2: "cm_m s2 = m2" "cm_size s2 = int (card (dom m2))" "finite (dom m2)" "cm_size s2 = cm_size s1 - r"
    using D2 s1 by (auto simp: s2_def deleted_def)
  have eq: "ts_maybe_sweep visit now s =
      (if ts_sweep_every s \<le> 0 \<or> ts_last_sweep_ns s \<noteq> 0 \<and> now - ts_last_sweep_ns s < ts_sweep_every s then s
       else if over \<le> 0 then s1 else s2)"
    unfolding ts_maybe_sweep_def Let_def d1 prod.case s1_def [symmetric] s1(1) over_def [symmetric] d2
      s2_def [symmetric] by simp
  show "exact (ts_maybe_sweep visit now s)"
    unfolding eq using assms(2) s1 s2 by (simp add: exact_def)
  show "cm_size (ts_maybe_sweep visit now s) \<le> ts_max_entries s"
    if "\<not> (ts_last_sweep_ns s \<noteq> 0 \<and> now - ts_last_sweep_ns s < ts_sweep_every s)" "0 < ts_sweep_every s"
      "0 \<le> ts_max_entries s"
    using that r s1 s2 unfolding eq by (auto simp: over_def)
qed

lemma exact_ts_contains: "exact s \<Longrightarrow> exact (snd (ts_contains now key s))"
  using card_dom_remove [of "cm_m s" key] by (auto simp: ts_contains_def exact_def split: option.splits)

interpretation neg_cache: expiring_cache "\<lambda>op s. if range_law visit then ts_step visit op s else s" cm_m cm_size ts_puts
  for visit
proof unfold_locales
  fix op and s :: ttl_set
  assume "finite (dom (cm_m s))" "cm_size s = int (card (dom (cm_m s)))"
  then have e: "exact s" by (simp add: exact_def)
  have "range_law visit \<Longrightarrow> exact (ts_step visit op s)"
    using e ts_maybe_sweep_spec(1) [of visit "load_or_store k t s" for k t] exact_ts_contains [OF e]
    by (cases op) (auto simp: ts_step_def ts_add_def Let_def)
  with e show "finite (dom (cm_m (if range_law visit then ts_step visit op s else s))) \<and>
      cm_size (if range_law visit then ts_step visit op s else s)
        = int (card (dom (cm_m (if range_law visit then ts_step visit op s else s))))"
    by (simp add: exact_def)
next
  fix op and s :: ttl_set and k v
  assume "cm_m (if range_law visit then ts_step visit op s else s) k = Some v"
  then show "cm_m s k = Some v \<or> ts_puts op k v"
    by (cases op) (auto simp: ts_step_def ts_puts_def ts_contains_def ts_add_def Let_def
        split: if_splits option.splits dest!: ts_maybe_sweep_entries)
qed

section \<open>Accepting a recipient\<close>

definition recipient_allowed :: "backend \<Rightarrow> string \<Rightarrow> bool" where
  "recipient_allowed b addr \<longleftrightarrow> domain_allowed (be_allowed_set b) (smtp_domain_from_address addr)"

text \<open>The account of an address exists and has not outlived \<open>accountTTL\<close> at time \<open>now\<close>.\<close>

definition live_account :: "backend \<Rightarrow> time \<Rightarrow> lookup_answer \<Rightarrow> bool" where
  "live_account b now ans = (case ans of
     LookupFound acc \<Rightarrow> be_account_ttl b \<le> 0 \<or> is_zero_time (ac_created_at acc) \<or>
       now \<le> ac_created_at acc + be_account_ttl b
   | _ \<Rightarrow> False)"

lemma lookup_result_live: "lookup_result b clk ans = Some (True, ttl) \<Longrightarrow> live_account b (fst clk) ans"
  by (auto simp: lookup_result_def live_account_def Let_def split: lookup_answer.splits if_splits)

lemma lookup_and_warm_True:
  assumes "lookup_and_warm_address env b clk addr w = (Inr True, w')"
  shows "\<exists>lookup. sv_lookup env = Some lookup \<and>
    live_account b (fst (rk_call clk)) (lookup (to_lower (trim_space addr)))"
proof (cases "sv_lookup env")
  case None
  then show ?thesis using assms by (simp add: lookup_and_warm_address_def)
next
  case (Some lookup)
  let ?a = "to_lower (trim_space addr)"
  have "\<exists>ttl. lookup_result b (rk_call clk) (lookup ?a) = Some (True, ttl)"
    using assms Some
    by (auto simp: lookup_and_warm_address_def Let_def split: if_splits prod.splits option.splits lookup_answer.splits)
  then show ?thesis using Some lookup_result_live by blast
qed

lemma lookup_stream [simp]: "sw_stream (snd (lookup_and_warm_address env b clk addr w)) = sw_stream w"
  by (simp add: lookup_and_warm_address_def Let_def split: option.splits prod.splits lookup_answer.splits)

lemma smtp_rcpt_accepts:
  assumes "smtp_rcpt env b clk to s w = (None, s', w')"
  shows "s' = s\<lparr>se_to := se_to s @ [to_lower to]\<rparr>" "\<not> (be_require_tls b \<and> \<not> se_is_tls s)"
    "recipient_allowed b (to_lower to)"
    "has_address (sv_redis env) (to_lower to) (sw_cache w) = Inr True \<or>
      (\<exists>lookup. sv_lookup env = Some lookup \<and>
         live_account b (fst (rk_call clk)) (lookup (to_lower (trim_space (to_lower to)))))"
proof -
  from assms show "s' = s\<lparr>se_to := se_to s @ [to_lower to]\<rparr>" "\<not> (be_require_tls b \<and> \<not> se_is_tls s)"
    "recipient_allowed b (to_lower to)"
    by (auto simp: smtp_rcpt_def Let_def recipient_allowed_def domain_allowed_def
        split: if_splits sum.splits prod.splits)
  from assms consider "has_address (sv_redis env) (to_lower to) (sw_cache w) = Inr True"
    | w'' where "lookup_and_warm_address env b clk (to_lower to) w = (Inr True, w'')"
    by (auto simp: smtp_rcpt_def Let_def split: if_splits sum.splits prod.splits)
  then show "has_address (sv_redis env) (to_lower to) (sw_cache w) = Inr True \<or>
      (\<exists>lookup. sv_lookup env = Some lookup \<and>
         live_account b (fst (rk_call clk)) (lookup (to_lower (trim_space (to_lower to)))))"
    by cases (auto dest: lookup_and_warm_True)
qed

lemma smtp_rcpt_refuses:
  assumes "smtp_rcpt env b clk to s w = (Some err, s', w')"
  shows "s' = s"
  using assms by (auto simp: smtp_rcpt_def Let_def split: if_splits sum.splits prod.splits)

section \<open>Sessions\<close>

datatype command = MailCmd string | RcptCmd string rcpt_clock | DataCmd "bytes \<times> bool" int | ResetCmd

text \<open>One command: the session, the shared state and the messages this session has published.\<close>

type_synonym ('r, 'h) smtp_state = "session \<times> ('r, 'h) smtp_world \<times> 'h stream_message list"

fun command_step ::
  "('r, 'h) smtp_env \<Rightarrow> backend \<Rightarrow> command \<Rightarrow> ('r, 'h) smtp_state \<Rightarrow> smtp_error option \<times> ('r, 'h) smtp_state" where
  "command_step env b (MailCmd from) (s, w, sent) = (let (e, s') = smtp_mail b from s in (e, s', w, sent))"
| "command_step env b (RcptCmd to clk) (s, w, sent) =
     (let (e, s', w') = smtp_rcpt env b clk to s w in (e, s', w', sent))"
| "command_step env b (DataCmd reader now_ms) (s, w, sent) =
     (let (e, w') = smtp_data env b reader now_ms s w
      in (e, s, w', sent @ drop (length (sw_stream w)) (sw_stream w')))"
| "command_step env b ResetCmd (s, w, sent) = (None, smtp_reset s, w, sent)"

text \<open>
  What \<open>gosmtp\<close> and the clock guarantee: a recipient is a non-empty path without blanks around it, the
  time in milliseconds fits 64 bits.
\<close>

fun command_ok :: "command \<Rightarrow> bool" where
  "command_ok (RcptCmd to clk) = (to \<noteq> [] \<and> trimmed to)"
| "command_ok (DataCmd reader now_ms) = int64_ok now_ms"
| "command_ok _ = True"

text \<open>
  The states of a session, from its start: its own commands, interleaved with anything other sessions
  and services do to the shared state.
\<close>

inductive reachable ::
  "('r, 'h) smtp_env \<Rightarrow> backend \<Rightarrow> session \<Rightarrow> session \<Rightarrow> ('r, 'h) smtp_world \<Rightarrow> 'h stream_message list \<Rightarrow> bool"
  for env b s0 where
  start: "reachable env b s0 s0 w []"
| own: "reachable env b s0 s w sent \<Longrightarrow> command_ok cmd \<Longrightarrow>
    command_step env b cmd (s, w, sent) = (e, s', w', sent') \<Longrightarrow> reachable env b s0 s' w' sent'"
| other: "reachable env b s0 s w sent \<Longrightarrow> reachable env b s0 s w' sent"

definition new_session_state :: "session \<Rightarrow> bool" where
  "new_session_state s \<longleftrightarrow> se_from s = [] \<and> se_to s = []"

lemma new_session_new: "new_session env remote tls clk w = (Inr s, w') \<Longrightarrow>
    new_session_state s \<and> se_remote_addr s = remote \<and> se_is_tls s = tls"
  by (auto simp: new_session_def new_session_state_def Let_def split: sum.splits prod.splits if_splits)

text \<open>A message on the stream that carries an e-mail.\<close>

definition carries :: "('r, 'h) smtp_env \<Rightarrow> 'h stream_message \<Rightarrow> incoming_email \<Rightarrow> bool" where
  "carries env m e \<longleftrightarrow> publish (sv_headers env) (sv_publish_msg env) (sv_publish_data env) (Some e) = (None, Some m)"

definition recipient_ok :: "backend \<Rightarrow> string \<Rightarrow> bool" where
  "recipient_ok b addr \<longleftrightarrow> addr \<noteq> [] \<and> trimmed addr \<and> to_lower addr = addr \<and> recipient_allowed b addr"

definition email_ok :: "backend \<Rightarrow> incoming_email \<Rightarrow> bool" where
  "email_ok b e \<longleftrightarrow> list_all (recipient_ok b) (ie_to e) \<and> int64_ok (ie_received_at e) \<and>
     int (length (ie_raw_message e)) \<le> (if be_max_message_bytes b \<le> 0 then 20 * 2 ^ 20 else be_max_message_bytes b)"

lemma publish_result:
  "(\<exists>m. publish api pm pd (Some e) = (None, Some m)) \<or> (\<exists>err. publish api pm pd (Some e) = (Some err, None))"
  by (auto simp: publish_def Let_def split: option.splits publish_outcome.splits sum.splits)

definition data_limit :: "backend \<Rightarrow> int" where
  "data_limit b = (if be_max_message_bytes b \<le> 0 then 20 * 2 ^ 20 else be_max_message_bytes b)"

definition session_email :: "session \<Rightarrow> bytes \<Rightarrow> int \<Rightarrow> incoming_email" where
  "session_email s data now_ms = \<lparr>ie_from = se_from s, ie_to = se_to s, ie_raw_message = data,
     ie_remote_addr = se_remote_addr s, ie_received_at = now_ms, ie_ingest_stream = [], ie_ingest_seq = 0\<rparr>"

text \<open>Either one message is published and the command succeeds, or nothing is.\<close>

lemma smtp_data_result:
  assumes "smtp_data env b reader now_ms s w = (r, w')"
  shows "(r = None \<and> \<not> (be_require_tls b \<and> \<not> se_is_tls s) \<and>
      (\<exists>m data. w' = w\<lparr>sw_stream := sw_stream w @ [m]\<rparr> \<and> carries env m (session_email s data now_ms) \<and>
         int (length data) \<le> data_limit b \<and> data = take (nat (sint (word_of_int (data_limit b + 1) :: 64 word))) (fst reader))) \<or>
    (r \<noteq> None \<and> w' = w)"
proof -
  let ?lim = "nat (sint (word_of_int (data_limit b + 1) :: 64 word))"
  let ?data = "take ?lim (fst reader)"
  let ?e = "session_email s ?data now_ms"
  obtain content fails where rd: "reader = (content, fails)" by fastforce
  have eq: "smtp_data env b reader now_ms s w =
    (if be_require_tls b \<and> \<not> se_is_tls s then (Some tls_required_error, w)
     else if fails \<and> length content < ?lim then (Some (SMTPError 442 (4, 3, 0) ''Error reading message data''), w)
     else if data_limit b < int (length ?data) then (Some (SMTPError 552 (5, 3, 4) ''Message size exceeds maximum''), w)
     else
       (let (err, m) = publish (sv_headers env) (sv_publish_msg env) (sv_publish_data env) (Some ?e);
            w' = w\<lparr>sw_stream := sw_stream w @ (case m of None \<Rightarrow> [] | Some x \<Rightarrow> [x])\<rparr>
        in case err of Some e \<Rightarrow> (Some (SMTPError 451 (4, 3, 0) ''Temporary error, try again later''), w')
           | None \<Rightarrow> (None, w')))"
    by (simp only: smtp_data_def Let_def rd data_limit_def session_email_def prod.case fst_conv)
  show ?thesis
    using assms publish_result [of "sv_headers env" "sv_publish_msg env" "sv_publish_data env" ?e]
    unfolding eq carries_def by (auto simp: Let_def split: if_splits)
qed

lemma data_not_truncated:
  assumes "data_limit b < 2 ^ 63 - 1" "int (length (take (nat (sint (word_of_int (data_limit b + 1) :: 64 word))) xs)) \<le> data_limit b"
  shows "take (nat (sint (word_of_int (data_limit b + 1) :: 64 word))) xs = xs"
proof -
  have p: "0 < data_limit b" by (simp add: data_limit_def)
  then have "sint (word_of_int (data_limit b + 1) :: 64 word) = data_limit b + 1"
    using assms(1) by (intro int64_word_roundtrip) (simp add: int64_ok_def)
  then show ?thesis using assms(2) p by simp
qed

section \<open>Invariants of a session\<close>

text \<open>Without TLS, where it is required, a session holds nothing and publishes nothing.\<close>

definition tls_inv :: "backend \<Rightarrow> session \<Rightarrow> 'h stream_message list \<Rightarrow> bool" where
  "tls_inv b s sent \<longleftrightarrow> (be_require_tls b \<and> \<not> se_is_tls s \<longrightarrow> se_from s = [] \<and> se_to s = [] \<and> sent = [])"

definition sent_inv :: "('r, 'h) smtp_env \<Rightarrow> backend \<Rightarrow> session \<Rightarrow> 'h stream_message list \<Rightarrow> bool" where
  "sent_inv env b s sent \<longleftrightarrow> list_all (recipient_ok b) (se_to s) \<and>
     list_all (\<lambda>m. \<exists>e. carries env m e \<and> email_ok b e \<and> ie_remote_addr e = se_remote_addr s) sent"

lemma command_step_tls:
  assumes "command_step env b cmd (s, w, sent) = (e, s', w', sent')" "tls_inv b s sent"
  shows "tls_inv b s' sent' \<and> se_is_tls s' = se_is_tls s \<and> se_remote_addr s' = se_remote_addr s"
proof (cases cmd)
  case (MailCmd sender)
  then show ?thesis using assms by (auto simp: smtp_mail_def tls_inv_def split: if_splits)
next
  case (RcptCmd to clk)
  obtain r s1 w1 where r: "smtp_rcpt env b clk to s w = (r, s1, w1)" by (metis prod_cases3)
  then have s': "s' = s1" "sent' = sent" using assms(1) RcptCmd by simp_all
  show ?thesis
  proof (cases r)
    case None
    then show ?thesis using smtp_rcpt_accepts(1,2) [of env b clk to s w s1 w1] r s' assms(2)
      by (auto simp: tls_inv_def)
  next
    case (Some err)
    then show ?thesis using smtp_rcpt_refuses [of env b clk to s w err s1 w1] r s' assms(2) by simp
  qed
next
  case (DataCmd reader now_ms)
  obtain r w1 where r: "smtp_data env b reader now_ms s w = (r, w1)" by fastforce
  have "s' = s" "sent' = sent @ drop (length (sw_stream w)) (sw_stream w1)" using assms(1) DataCmd r by auto
  then show ?thesis using smtp_data_result [OF r] assms(2) by (auto simp: tls_inv_def)
next
  case ResetCmd
  then show ?thesis using assms by (auto simp: smtp_reset_def tls_inv_def)
qed

lemma command_step_sent:
  assumes "command_step env b cmd (s, w, sent) = (e, s', w', sent')" "command_ok cmd" "sent_inv env b s sent"
  shows "sent_inv env b s' sent'"
proof (cases cmd)
  case (MailCmd sender)
  then show ?thesis using assms by (auto simp: smtp_mail_def sent_inv_def split: if_splits)
next
  case (RcptCmd to clk)
  obtain r s1 w1 where r: "smtp_rcpt env b clk to s w = (r, s1, w1)" by (metis prod_cases3)
  then have s': "s' = s1" "sent' = sent" using assms(1) RcptCmd by simp_all
  show ?thesis
  proof (cases r)
    case None
    have "to_lower to \<noteq> []" using assms(2) RcptCmd by (cases to) simp_all
    moreover have "trimmed (to_lower to)" using assms(2) RcptCmd by (simp add: trimmed_to_lower)
    moreover note smtp_rcpt_accepts(1,3) [of env b clk to s w s1 w1]
    ultimately show ?thesis using None r s' assms(3) by (simp add: sent_inv_def recipient_ok_def)
  next
    case (Some err)
    then show ?thesis using smtp_rcpt_refuses [of env b clk to s w err s1 w1] r s' assms(3) by simp
  qed
next
  case (DataCmd reader now_ms)
  obtain r w1 where r: "smtp_data env b reader now_ms s w = (r, w1)" by fastforce
  have s': "s' = s" "sent' = sent @ drop (length (sw_stream w)) (sw_stream w1)" using assms(1) DataCmd r by auto
  from smtp_data_result [OF r] show ?thesis
  proof
    assume "r \<noteq> None \<and> w1 = w"
    then show ?thesis using s' assms(3) by simp
  next
    assume "r = None \<and> \<not> (be_require_tls b \<and> \<not> se_is_tls s) \<and>
      (\<exists>m data. w1 = w\<lparr>sw_stream := sw_stream w @ [m]\<rparr> \<and> carries env m (session_email s data now_ms) \<and>
         int (length data) \<le> data_limit b \<and> data = take (nat (sint (word_of_int (data_limit b + 1) :: 64 word))) (fst reader))"
    then obtain m data where m: "sent' = sent @ [m]" "carries env m (session_email s data now_ms)"
      "int (length data) \<le> data_limit b" using s' by auto
    have "email_ok b (session_email s data now_ms)" "ie_remote_addr (session_email s data now_ms) = se_remote_addr s"
      using m(3) assms(2,3) DataCmd by (simp_all add: email_ok_def session_email_def data_limit_def sent_inv_def)
    then show ?thesis using s'(1) m(1,2) assms(3) by (auto simp: sent_inv_def)
  qed
next
  case ResetCmd
  then show ?thesis using assms by (auto simp: smtp_reset_def sent_inv_def)
qed

lemma reachable_inv:
  assumes "reachable env b s0 s w sent" "new_session_state s0"
  shows "tls_inv b s sent \<and> sent_inv env b s sent \<and> se_is_tls s = se_is_tls s0 \<and> se_remote_addr s = se_remote_addr s0"
  using assms
proof (induction rule: reachable.induct)
  case (start w)
  then show ?case by (simp add: tls_inv_def sent_inv_def new_session_state_def)
next
  case (own s w sent cmd e s' w' sent')
  then show ?case using command_step_tls [OF own.hyps(3)] command_step_sent [OF own.hyps(3,2)] by simp
qed simp

section \<open>Listeners serve the configured domains\<close>

definition serves :: "(string \<times> string list) list \<Rightarrow> string \<Rightarrow> string \<Rightarrow> bool" where
  "serves m addr domain \<longleftrightarrow> list_ex (\<lambda>(a, ds). a = addr \<and> domain \<in> set ds) m"

lemma append_domain_serves:
  "serves (append_domain a d m) addr domain \<longleftrightarrow> serves m addr domain \<or> (a = addr \<and> d = domain)"
  by (induction a d m rule: append_domain.induct) (auto simp: serves_def)

lemma append_domain_addrs: "set (map fst (append_domain a d m)) = insert a (set (map fst m))"
  by (induction a d m rule: append_domain.induct) auto

lemma append_domain_distinct: "distinct (map fst m) \<Longrightarrow> distinct (map fst (append_domain a d m))"
proof (induction a d m rule: append_domain.induct)
  case (2 addr domain a ds xs)
  then show ?case using append_domain_addrs [of addr domain xs] by auto
qed simp

lemma append_domains_serves:
  "serves (foldl (\<lambda>m addr. append_domain addr d m) m addrs) addr domain \<longleftrightarrow>
     serves m addr domain \<or> (addr \<in> set addrs \<and> d = domain)"
  by (induction addrs arbitrary: m) (auto simp: append_domain_serves)

lemma append_domains_distinct:
  "distinct (map fst m) \<Longrightarrow> distinct (map fst (foldl (\<lambda>m addr. append_domain addr d m) m addrs))"
  by (induction addrs arbitrary: m) (auto intro: append_domain_distinct)

lemma ip_domains_serves:
  "serves (ip_domains domain_ips port) addr domain \<longleftrightarrow>
     (\<exists>ips. (domain, ips) \<in> set domain_ips \<and> addr \<in> set (listen_addrs ips port))"
proof -
  have "serves (foldl (\<lambda>m (d, ips). foldl (\<lambda>m a. append_domain a d m) m (listen_addrs ips port)) m domain_ips) addr domain
    \<longleftrightarrow> serves m addr domain \<or> (\<exists>ips. (domain, ips) \<in> set domain_ips \<and> addr \<in> set (listen_addrs ips port))" for m
    by (induction domain_ips arbitrary: m) (auto simp: append_domains_serves)
  from this [of "[]"] show ?thesis by (simp add: ip_domains_def serves_def)
qed

lemma ip_domains_distinct: "distinct (map fst (ip_domains domain_ips port))"
proof -
  have "distinct (map fst m) \<Longrightarrow>
    distinct (map fst (foldl (\<lambda>m (d, ips). foldl (\<lambda>m a. append_domain a d m) m (listen_addrs ips port)) m domain_ips))" for m
    by (induction domain_ips arbitrary: m) (auto intro: append_domains_distinct)
  then show ?thesis by (simp add: ip_domains_def)
qed

definition is_local_addr :: "string list option \<Rightarrow> string \<Rightarrow> bool" where
  "is_local_addr ifs addr = (case split_host_port addr of None \<Rightarrow> False | Some (host, _) \<Rightarrow> is_local_ip ifs host)"

lemma build_listeners_set:
  "l \<in> set (build_listeners ifs domain_ips port) \<longleftrightarrow>
     (lc_addr l, lc_domains l) \<in> set (ip_domains domain_ips port) \<and> is_local_addr ifs (lc_addr l)"
  by (cases l) (auto simp: build_listeners_def is_local_addr_def split: option.splits if_splits prod.splits)

lemma build_listeners_addrs:
  "map lc_addr (build_listeners ifs domain_ips port)
     = filter (is_local_addr ifs) (map fst (ip_domains domain_ips port))"
proof -
  have "map lc_addr (concat (map (\<lambda>(addr, domains).
         case split_host_port addr of
           None \<Rightarrow> []
         | Some (host, _) \<Rightarrow>
             if is_local_ip ifs host then [\<lparr>lc_addr = addr, lc_domains = domains\<rparr>] else []) xs))
    = filter (is_local_addr ifs) (map fst xs)" for xs
    by (induction xs) (auto simp: is_local_addr_def split: option.splits prod.splits)
  then show ?thesis by (simp add: build_listeners_def)
qed

section \<open>Properties of the SMTP server\<close>

lemma ts_maybe_sweep_params [simp]:
  "ts_max_entries (ts_maybe_sweep visit now s) = ts_max_entries s"
  "ts_sweep_every (ts_maybe_sweep visit now s) = ts_sweep_every s"
  by (simp_all add: ts_maybe_sweep_def Let_def split: prod.splits)

lemma load_or_store_params [simp]:
  "ts_max_entries (load_or_store k t s) = ts_max_entries s" "ts_sweep_every (load_or_store k t s) = ts_sweep_every s"
  by (simp_all add: load_or_store_def split: option.splits)

lemma ts_step_params:
  "ts_max_entries (ts_step visit op s) = ts_max_entries s" "ts_sweep_every (ts_step visit op s) = ts_sweep_every s"
  by (cases op; simp add: ts_step_def ts_contains_def ts_add_def Let_def split: option.splits)+

lemma ts_run_params:
  "ts_max_entries (foldl (\<lambda>s op. ts_step visit op s) s ops) = ts_max_entries s"
  "ts_sweep_every (foldl (\<lambda>s op. ts_step visit op s) s ops) = ts_sweep_every s"
  by (induction ops arbitrary: s) (simp_all add: ts_step_params)

text \<open>
  C24: a recipient is accepted only when TLS is in use where required, its domain belongs to the listener,
  and it is known to Redis or to a live account of the store; it is then appended in lower case, and any
  refusal leaves the session as it was.
\<close>

theorem smtp_rcpt_correct:
  "case smtp_rcpt env b clk to s w of
     (None, s', w') \<Rightarrow>
       s' = s\<lparr>se_to := se_to s @ [to_lower to]\<rparr> \<and> (se_is_tls s \<or> be_require_tls b = False) \<and>
       recipient_allowed b (to_lower to) \<and>
       (has_address (sv_redis env) (to_lower to) (sw_cache w) = Inr True \<or>
        (\<exists>lookup. sv_lookup env = Some lookup \<and>
           live_account b (fst (rk_call clk)) (lookup (to_lower (trim_space (to_lower to))))))
   | (Some err, s', w') \<Rightarrow> s' = s"
proof -
  obtain r s' w' where r: "smtp_rcpt env b clk to s w = (r, s', w')" by (metis prod_cases3)
  show ?thesis
    using smtp_rcpt_accepts [of env b clk to s w s' w'] smtp_rcpt_refuses [of env b clk to s w _ s' w']
    by (cases r) (auto simp: r)
qed

text \<open>
  C19: on a listener that requires TLS, a session without TLS never holds a sender or a recipient and
  never publishes a message, whatever commands it sends and whatever other sessions do meanwhile.
\<close>

theorem smtp_session_requires_tls:
  assumes "reachable env b s0 s w sent" and "new_session_state s0"
    and "be_require_tls b" and "\<not> se_is_tls s0"
  shows "se_from s = [] \<and> se_to s = [] \<and> sent = []"
  using reachable_inv [OF assms(1,2)] assms(3,4) by (simp add: tls_inv_def)

definition sample_smtp_env :: "((string \<Rightarrow> int), (string \<times> string) list) smtp_env" where
  "sample_smtp_env = \<lparr>sv_redis = sample_redis, sv_visit = (\<lambda>_. []), sv_headers = list_header,
     sv_publish_msg = (\<lambda>_ _. Published), sv_publish_data = (\<lambda>_. Published), sv_lookup = None\<rparr>"

definition sample_backend :: "bool \<Rightarrow> backend" where
  "sample_backend tls = \<lparr>be_account_ttl = 0, be_require_tls = tls, be_max_lookup = 32, be_domain = ''mx'',
     be_allowed_domains = [], be_allowed_set = {}, be_max_message_bytes = 10\<rparr>"

definition sample_session :: session where
  "sample_session = \<lparr>se_from = [], se_to = [], se_remote_addr = ''1'', se_is_tls = False\<rparr>"

definition sample_world :: "((string \<Rightarrow> int), (string \<times> string) list) smtp_world" where
  "sample_world = \<lparr>sw_cache = \<lparr>ca_redis = (\<lambda>_. 1), ca_blocked = None\<rparr>, sw_neg = new_ttl_set 5 0,
     sw_in_flight = 0, sw_stream = []\<rparr>"

lemma sample_session_new: "new_session_state sample_session"
  by (simp add: new_session_state_def sample_session_def)

theorem smtp_session_requires_tls_witness:
  "\<exists>s w. reachable sample_smtp_env (sample_backend True) sample_session s w [] \<and> se_from s = [] \<and>
     command_step sample_smtp_env (sample_backend True) (MailCmd ''a@b'') (sample_session, sample_world, [])
       = (Some tls_required_error, s, w, [])"
proof -
  have c: "command_step sample_smtp_env (sample_backend True) (MailCmd ''a@b'') (sample_session, sample_world, [])
      = (Some tls_required_error, sample_session, sample_world, [])"
    by (simp add: smtp_mail_def sample_backend_def sample_session_def)
  have r: "reachable sample_smtp_env (sample_backend True) sample_session sample_session sample_world []"
    by (rule reachable.own [OF reachable.start _ c]) simp
  have "se_from sample_session = []"
    using smtp_session_requires_tls [OF r sample_session_new] by (simp add: sample_backend_def sample_session_def)
  with r c show ?thesis by blast
qed

text \<open>
  From the SMTP session to the worker: every message a session has published is decoded by the
  queue's consumer to an e-mail from the session's peer, no larger than the configured limit, all of
  whose recipients are addresses the session accepted (in lower case, in a domain of the listener), in
  the same order.
\<close>

theorem smtp_messages_reach_the_worker:
  assumes "reachable env b s0 s w sent" and "new_session_state s0" and "m \<in> set sent"
    and "header_laws (sv_headers env)"
  shows "\<exists>e. decode_delivery (sv_headers env) json (delivered (sv_headers env) md m) = Inr e \<and> email_ok b e \<and>
    ie_remote_addr e = se_remote_addr s0"
proof -
  from reachable_inv [OF assms(1,2)] assms(3) obtain e where
    e: "carries env m e" "email_ok b e" "ie_remote_addr e = se_remote_addr s0"
    by (auto simp: sent_inv_def list_all_iff)
  let ?e = "with_ingest (ingest_metadata md) e"
  have "clean_to e" "int64_ok (ie_received_at e)"
    using e(2) by (auto simp: email_ok_def clean_to_def recipient_ok_def list_all_iff)
  then have "decode_delivery (sv_headers env) json (delivered (sv_headers env) md m) = Inr ?e"
    using e(1) decode_delivered_publish [OF assms(4)] by (simp add: carries_def)
  moreover have "email_ok b ?e" "ie_remote_addr ?e = se_remote_addr s0"
    using e(2,3) by (simp_all add: email_ok_def with_ingest_def)
  ultimately show ?thesis by blast
qed

lemma sample_rcpt:
  "command_step sample_smtp_env (sample_backend False) (RcptCmd ''U@x'' clk) (sample_session, sample_world, [])
     = (None, sample_session\<lparr>se_to := [''u@x'']\<rparr>, sample_world, [])"
  by (simp add: smtp_rcpt_def sample_backend_def sample_session_def sample_smtp_env_def has_address_def sample_redis_def
      sample_world_def to_lower_def lower_char_def char_of_def bit_0)

definition sample_sent :: "(string \<times> string) list stream_message" where
  "sample_sent = HeaderMessage (build_headers list_header (session_email (sample_session\<lparr>se_to := [''u@x'']\<rparr>) [72] 5)) [72]"

lemma sample_data:
  "command_step sample_smtp_env (sample_backend False) (DataCmd ([72], False) 5)
     (sample_session\<lparr>se_to := [''u@x'']\<rparr>, sample_world, [])
   = (None, sample_session\<lparr>se_to := [''u@x'']\<rparr>, sample_world\<lparr>sw_stream := [sample_sent]\<rparr>, [sample_sent])"
proof -
  have "validate_incoming_email (Some (session_email (sample_session\<lparr>se_to := [''u@x'']\<rparr>) [72] 5)) = None"
    by (simp add: validate_incoming_email_None sample_session_def session_email_def codec_limits no_crlf_def has_crlf_def)
  then show ?thesis
    by (simp add: smtp_data_def sample_backend_def sample_smtp_env_def publish_def sample_sent_def sample_world_def Let_def
        session_email_def [symmetric] sample_session_def [symmetric])
      (simp add: session_email_def sample_session_def publish_def)
qed

theorem smtp_messages_reach_the_worker_witness:
  "\<exists>e. decode_delivery list_header (\<lambda>_ _. None) (delivered list_header None sample_sent) = Inr e \<and>
     ie_remote_addr e = ''1''"
proof -
  have ok: "command_ok (RcptCmd ''U@x'' clk)" "command_ok (DataCmd ([72], False) 5)" for clk
    by (simp_all add: trimmed_def is_space_code int64_ok_def)
  have "reachable sample_smtp_env (sample_backend False) sample_session (sample_session\<lparr>se_to := [''u@x'']\<rparr>) sample_world []"
    by (rule reachable.own [OF reachable.start ok(1) sample_rcpt])
  from reachable.own [OF this ok(2) sample_data]
  have "reachable sample_smtp_env (sample_backend False) sample_session (sample_session\<lparr>se_to := [''u@x'']\<rparr>)
      (sample_world\<lparr>sw_stream := [sample_sent]\<rparr>) [sample_sent]" .
  from smtp_messages_reach_the_worker [OF this sample_session_new, of sample_sent "\<lambda>_ _. None" None] list_header_laws
  show ?thesis by (auto simp: sample_smtp_env_def sample_session_def)
qed

text \<open>
  The cache of unknown addresses counts its entries exactly; each entry was added with the expiry it
  has, and the sweep brings the cache back under its limit.
\<close>

theorem neg_cache_invariant:
  assumes "range_law visit"
  shows "let s = foldl (\<lambda>s op. ts_step visit op s) (new_ttl_set max_entries sweep_every) ops in
    finite (dom (cm_m s)) \<and> cm_size s = int (card (dom (cm_m s))) \<and>
    (\<forall>key. case cm_m s key of None \<Rightarrow> True | Some t \<Rightarrow> list_ex (\<lambda>op. ts_puts op key t) ops) \<and>
    (\<forall>now. if ts_last_sweep_ns s = 0 \<or> ts_sweep_every s \<le> now - ts_last_sweep_ns s
       then cm_size (ts_maybe_sweep visit now s) \<le> (if max_entries \<le> 0 then 10000 else max_entries) else True)"
proof -
  let ?n = "new_ttl_set max_entries sweep_every"
  let ?step = "\<lambda>s op. if range_law visit then ts_step visit op s else s"
  let ?s = "foldl (\<lambda>s op. ts_step visit op s) ?n ops"
  have fold: "foldl ?step ?n ops = ?s" using assms by simp
  have n: "cm_m ?n = Map.empty" "cm_size ?n = 0" by (simp_all add: new_ttl_set_def)
  have count: "finite (dom (cm_m ?s)) \<and> cm_size ?s = int (card (dom (cm_m ?s)))"
    using neg_cache.run_count [of ?n visit ops] n unfolding fold by simp
  then have ex: "exact ?s" by (simp add: exact_def)
  have prov: "cm_m ?s key = Some t \<Longrightarrow> list_ex (\<lambda>op. ts_puts op key t) ops" for key t
    using neg_cache.run_puts [of visit ?n ops key t] n(1) unfolding fold by (simp add: list_ex_iff)
  have p: "0 < ts_sweep_every ?s" "ts_max_entries ?s = (if max_entries \<le> 0 then 10000 else max_entries)"
    unfolding ts_run_params by (simp_all add: new_ttl_set_def second_def)
  have swp: "cm_size (ts_maybe_sweep visit now ?s) \<le> (if max_entries \<le> 0 then 10000 else max_entries)"
    if "ts_last_sweep_ns ?s = 0 \<or> ts_sweep_every ?s \<le> now - ts_last_sweep_ns ?s" for now
  proof -
    have "0 \<le> ts_max_entries ?s" unfolding p(2) by simp
    then show ?thesis
      using ts_maybe_sweep_spec(2) [OF assms ex, of now] p(1) that unfolding p(2) by linarith
  qed
  show ?thesis
    unfolding Let_def
  proof (intro conjI allI)
    show "case cm_m ?s key of None \<Rightarrow> True | Some t \<Rightarrow> list_ex (\<lambda>op. ts_puts op key t) ops" for key
      using prov [of key] by (cases "cm_m ?s key") simp_all
    show "if ts_last_sweep_ns ?s = 0 \<or> ts_sweep_every ?s \<le> now - ts_last_sweep_ns ?s
       then cm_size (ts_maybe_sweep visit now ?s) \<le> (if max_entries \<le> 0 then 10000 else max_entries) else True" for now
      using swp [of now] by argo
  qed (use count in blast)+
qed

definition sorted_visit :: "(string \<rightharpoonup> int) \<Rightarrow> string list" where
  "sorted_visit m = sorted_list_of_set (dom m)"

lemma sorted_visit_law: "range_law sorted_visit"
  by (simp add: range_law_def sorted_visit_def)

theorem neg_cache_invariant_witness:
  "cm_size (foldl (\<lambda>s op. ts_step sorted_visit op s) (new_ttl_set 1 0) [TsAdd 5 ''a'' 10, TsAdd 6 ''b'' 10])
     = int (card (dom (cm_m (foldl (\<lambda>s op. ts_step sorted_visit op s) (new_ttl_set 1 0)
         [TsAdd 5 ''a'' 10, TsAdd 6 ''b'' 10]))))"
  using neg_cache_invariant [OF sorted_visit_law, of 1 0 "[TsAdd 5 ''a'' 10, TsAdd 6 ''b'' 10]"]
  unfolding Let_def by blast

text \<open>
  The listeners of a node: their addresses are pairwise different and local, and a listener with an
  address accepts a domain exactly when the configuration binds that domain to that address.
\<close>

theorem listeners_serve_configured_domains:
  "distinct (map lc_addr (build_listeners ifs domain_ips port)) \<and>
   list_all (\<lambda>l. is_local_addr ifs (lc_addr l)) (build_listeners ifs domain_ips port) \<and>
   list_ex (\<lambda>l. lc_addr l = addr \<and> domain \<in> set (lc_domains l)) (build_listeners ifs domain_ips port) =
     (is_local_addr ifs addr \<and> list_ex (\<lambda>(d, ips). d = domain \<and> addr \<in> set (listen_addrs ips port)) domain_ips)"
proof -
  have "list_ex (\<lambda>l. lc_addr l = addr \<and> domain \<in> set (lc_domains l)) (build_listeners ifs domain_ips port) \<longleftrightarrow>
      is_local_addr ifs addr \<and> serves (ip_domains domain_ips port) addr domain"
  proof
    assume "list_ex (\<lambda>l. lc_addr l = addr \<and> domain \<in> set (lc_domains l)) (build_listeners ifs domain_ips port)"
    then show "is_local_addr ifs addr \<and> serves (ip_domains domain_ips port) addr domain"
      by (auto simp: list_ex_iff build_listeners_set serves_def)
  next
    assume a: "is_local_addr ifs addr \<and> serves (ip_domains domain_ips port) addr domain"
    then obtain ds where "(addr, ds) \<in> set (ip_domains domain_ips port)" "domain \<in> set ds"
      by (auto simp: serves_def list_ex_iff)
    with a have "\<lparr>lc_addr = addr, lc_domains = ds\<rparr> \<in> set (build_listeners ifs domain_ips port)" "domain \<in> set ds"
      by (auto simp: build_listeners_set)
    then show "list_ex (\<lambda>l. lc_addr l = addr \<and> domain \<in> set (lc_domains l)) (build_listeners ifs domain_ips port)"
      unfolding list_ex_iff by force
  qed
  moreover have "list_ex (\<lambda>(d, ips). d = domain \<and> addr \<in> set (listen_addrs ips port)) domain_ips \<longleftrightarrow>
      serves (ip_domains domain_ips port) addr domain"
    by (auto simp: ip_domains_serves list_ex_iff)
  ultimately show ?thesis
    by (simp add: build_listeners_addrs ip_domains_distinct distinct_filter list_all_iff build_listeners_set)
qed

end
