(* ===== verification/Storage.thy ===== *)
theory Storage
  imports Model Prelude
begin

text \<open>
  \<open>internal/storage/storage.go\<close>: the keys of the objects that belong to a message, the scan that lists
  message ids from the bucket, and the uploads. The MinIO client is a library over a service: what its listing
  channel delivers (also after the context was cancelled) is the argument \<open>events\<close>, what storing an
  object does the argument \<open>put\<close>.
\<close>

definition raw_attachment_id :: string where "raw_attachment_id = ''_raw''"
definition raw_filename :: string where "raw_filename = ''message.eml''"
definition raw_content_type :: string where "raw_content_type = ''message/rfc822''"

definition message_prefix :: "string \<Rightarrow> string" where
  "message_prefix message_id = ''messages/'' @ message_id @ ''/''"

definition object_key :: "string \<Rightarrow> string \<Rightarrow> string \<Rightarrow> string" where
  "object_key message_id attachment_id filename =
     ''messages/'' @ message_id @ ''/'' @ attachment_id @ ''/'' @ filename"

text \<open>\<open>hex.DecodeString\<close> succeeds on hexadecimal digits of either case, in pairs.\<close>

definition is_hex :: "char \<Rightarrow> bool" where
  "is_hex c \<longleftrightarrow> (let n = (of_char c :: nat) in
     48 \<le> n \<and> n \<le> 57 \<or> 97 \<le> n \<and> n \<le> 102 \<or> 65 \<le> n \<and> n \<le> 70)"

definition hex_decodes :: "string \<Rightarrow> bool" where
  "hex_decodes s \<longleftrightarrow> length s mod 2 = 0 \<and> list_all is_hex s"

definition message_id_from_object_key :: "string \<Rightarrow> string option" where
  "message_id_from_object_key key =
     (if \<not> has_prefix key ''messages/'' then None
      else
        (let rest = drop (length ''messages/'') key in
         case index_byte rest (CHR ''/'') of
           None \<Rightarrow> None
         | Some i \<Rightarrow>
             if i \<le> 0 then None
             else (let mid = take i rest in
                   if length mid \<noteq> 24 then None else if hex_decodes mid then Some mid else None)))"

text \<open>What the listing channel delivers: a key or an error.\<close>

datatype list_event = ListedObject string | ListError string

record list_state =
  ls_seen :: "string set"
  ls_out :: "string list"
  ls_scanned :: int
  ls_last_key :: string

fun list_loop :: "list_event list \<Rightarrow> list_state \<Rightarrow> string + list_state" where
  "list_loop [] s = Inr s"
| "list_loop (ListError err # es) s = Inl err"
| "list_loop (ListedObject key # es) s =
     (let s1 = s\<lparr>ls_scanned := ls_scanned s + 1, ls_last_key := key\<rparr> in
      list_loop es
        (case message_id_from_object_key key of
           None \<Rightarrow> s1
         | Some mid \<Rightarrow> if mid \<notin> ls_seen s1 then s1\<lparr>ls_seen := insert mid (ls_seen s1), ls_out := ls_out s1 @ [mid]\<rparr>
                      else s1))"

text \<open>
  \<open>ListMessageIDs\<close>: the ids, the next cursor and the error; the channel is that of a listing after the
  trimmed cursor, cancelled once \<open>max_objects\<close> objects were read.
\<close>

definition clamp_max_objects :: "int \<Rightarrow> int" where
  "clamp_max_objects n = (let m = (if n \<le> 0 then 20000 else n) in if 50000 < m then 50000 else m)"

definition list_message_ids ::
  "(string \<Rightarrow> int \<Rightarrow> list_event list) \<Rightarrow> string \<Rightarrow> int \<Rightarrow> string list \<times> string \<times> string option" where
  "list_message_ids events start_after0 max_objects0 =
     (let start_after = trim_space start_after0;
          max_objects = clamp_max_objects max_objects0
      in case list_loop (events start_after max_objects)
                \<lparr>ls_seen = {}, ls_out = [], ls_scanned = 0, ls_last_key = start_after\<rparr> of
           Inl err \<Rightarrow> ([], start_after, Some err)
         | Inr s \<Rightarrow>
             if ls_scanned s < max_objects then (ls_out s, [], None)
             else (ls_out s, ls_last_key s, None))"

section \<open>Uploads\<close>

text \<open>
  What a reader delivers: bytes, then the end or (\<^const>\<open>True\<close>) an error. \<open>put\<close> is \<open>PutObject\<close>: key, content
  type, reader, size (\<open>-1\<close>: unknown); it returns the number of bytes it read, or \<^const>\<open>None\<close> for an error.
\<close>

type_synonym reader = "bytes \<times> bool"
type_synonym 's put_object = "string \<Rightarrow> string \<Rightarrow> reader \<Rightarrow> int \<Rightarrow> 's \<Rightarrow> nat option \<times> 's"

definition upload_reader ::
  "'s put_object \<Rightarrow> string \<Rightarrow> string \<Rightarrow> string \<Rightarrow> string \<Rightarrow> reader \<Rightarrow> int \<Rightarrow> 's \<Rightarrow> nat option \<times> 's" where
  "upload_reader put message_id attachment_id filename content_type r len s =
     (let key = object_key message_id attachment_id filename in put key content_type r len s)"

definition upload ::
  "'s put_object \<Rightarrow> string \<Rightarrow> string \<Rightarrow> string \<Rightarrow> string \<Rightarrow> bytes \<Rightarrow> 's \<Rightarrow> nat option \<times> 's" where
  "upload put message_id attachment_id filename content_type data s =
     upload_reader put message_id attachment_id filename content_type (data, False) (int (length data)) s"

definition upload_raw_message :: "'s put_object \<Rightarrow> string \<Rightarrow> bytes \<Rightarrow> 's \<Rightarrow> nat option \<times> 's" where
  "upload_raw_message put message_id data s =
     upload put message_id raw_attachment_id raw_filename raw_content_type data s"

text \<open>\<open>get\<close> is \<open>GetObject\<close> with \<open>Stat\<close>: the object and its content type, or \<^const>\<open>None\<close> for an error.\<close>

type_synonym 's get_object = "string \<Rightarrow> 's \<Rightarrow> (bytes \<times> string) option"

definition open_object :: "'s get_object \<Rightarrow> string \<Rightarrow> string \<Rightarrow> string \<Rightarrow> 's \<Rightarrow> (bytes \<times> string) option" where
  "open_object get message_id attachment_id filename s =
     (let key = object_key message_id attachment_id filename in get key s)"

definition open_raw_message :: "'s get_object \<Rightarrow> string \<Rightarrow> 's \<Rightarrow> (bytes \<times> string) option" where
  "open_raw_message get message_id s = open_object get message_id raw_attachment_id raw_filename s"

text \<open>\<open>io.LimitReader\<close>: the error is not reached when the limit is.\<close>

definition limit_reader :: "nat \<Rightarrow> reader \<Rightarrow> reader" where
  "limit_reader n r = (if n \<le> length (fst r) then (take n (fst r), False) else r)"

section \<open>Keys and ids\<close>

lemma object_key_prefix: "has_prefix (object_key message_id attachment_id filename) (message_prefix message_id)"
  by (simp add: object_key_def message_prefix_def has_prefix_iff)

lemma message_id_of_object_key:
  assumes "length message_id = 24" "list_all is_hex message_id"
  shows "message_id_from_object_key (object_key message_id attachment_id filename) = Some message_id"
proof -
  have "\<not> is_hex (CHR ''/'')" by (simp add: is_hex_def)
  then have "CHR ''/'' \<notin> set message_id" using assms(2) by (auto simp: list_all_iff)
  then have "index_byte (message_id @ CHR ''/'' # attachment_id @ CHR ''/'' # filename) (CHR ''/'') = Some 24"
    using index_byte_append assms(1) by metis
  then show ?thesis
    using assms by (simp add: message_id_from_object_key_def object_key_def has_prefix_def hex_decodes_def)
qed

lemma message_id_from_object_key_Some:
  assumes "message_id_from_object_key key = Some mid"
  shows "has_prefix key (message_prefix mid)" "length mid = 24" "list_all is_hex mid"
proof -
  let ?rest = "drop (length ''messages/'') key"
  from assms obtain i where i: "has_prefix key ''messages/''" "index_byte ?rest (CHR ''/'') = Some i"
    "mid = take i ?rest" "length mid = 24" "hex_decodes mid"
    by (auto simp: message_id_from_object_key_def Let_def split: if_splits option.splits)
  show "length mid = 24" "list_all is_hex mid" using i(4,5) by (simp_all add: hex_decodes_def)
  have "?rest = take i ?rest @ CHR ''/'' # drop (Suc i) ?rest"
    using i(2) unfolding index_byte_Some by (metis id_take_nth_drop)
  then have "key = ''messages/'' @ mid @ CHR ''/'' # drop (Suc i) ?rest"
    using i(1,3) unfolding has_prefix_iff by (auto simp del: drop_drop)
  moreover have "''messages/'' @ mid @ CHR ''/'' # r = message_prefix mid @ r" for r
    by (simp add: message_prefix_def)
  ultimately show "has_prefix key (message_prefix mid)" unfolding has_prefix_iff by metis
qed

section \<open>The scan\<close>

fun listed_ids :: "list_event list \<Rightarrow> string list" where
  "listed_ids [] = []"
| "listed_ids (ListError err # es) = listed_ids es"
| "listed_ids (ListedObject key # es) =
     (case message_id_from_object_key key of None \<Rightarrow> listed_ids es | Some mid \<Rightarrow> mid # listed_ids es)"

lemma list_loop_keys: "list_loop es s = Inr s' \<Longrightarrow> \<exists>keys. es = map ListedObject keys"
proof (induction es s rule: list_loop.induct)
  case (3 key es s)
  then obtain keys where "es = map ListedObject keys" by (auto simp: Let_def)
  then show ?case by (intro exI [of _ "key # keys"]) simp
qed auto

lemma list_loop_scanned: "list_loop es s = Inr s' \<Longrightarrow> ls_scanned s' = ls_scanned s + int (length es)"
  by (induction es s rule: list_loop.induct) (auto simp: Let_def split: option.splits if_splits)

lemma list_loop_out:
  "list_loop es s = Inr s' \<Longrightarrow> ls_seen s = set (ls_out s) \<Longrightarrow> distinct (ls_out s) \<Longrightarrow>
     ls_seen s' = set (ls_out s') \<and> distinct (ls_out s') \<and> set (ls_out s') = set (ls_out s) \<union> set (listed_ids es)"
proof (induction es s rule: list_loop.induct)
  case (3 key es s)
  show ?case
  proof (cases "message_id_from_object_key key")
    case None
    then show ?thesis using 3 by (simp add: Let_def)
  next
    case (Some mid)
    then show ?thesis using 3 by (auto simp: Let_def split: if_splits)
  qed
qed auto

lemma list_loop_last:
  "list_loop (map ListedObject keys) s = Inr s' \<Longrightarrow> ls_last_key s' = (if keys = [] then ls_last_key s else last keys)"
proof (induction keys arbitrary: s)
  case (Cons k ks)
  then show ?case by (auto simp: Let_def split: option.splits if_splits)
qed simp

lemma list_message_ids_ok:
  assumes "list_message_ids events start max_objects = (ids, next, None)"
  shows "\<exists>keys. events (trim_space start) (clamp_max_objects max_objects) = map ListedObject keys \<and>
    distinct ids \<and> set ids = {mid. \<exists>key \<in> set keys. message_id_from_object_key key = Some mid} \<and>
    next = (if int (length keys) < clamp_max_objects max_objects then [] else last keys)"
proof -
  let ?es = "events (trim_space start) (clamp_max_objects max_objects)"
  let ?s0 = "\<lparr>ls_seen = {}, ls_out = [], ls_scanned = 0, ls_last_key = trim_space start\<rparr>"
  from assms obtain s where l: "list_loop ?es ?s0 = Inr s" and ids: "ids = ls_out s"
    and n: "next = (if ls_scanned s < clamp_max_objects max_objects then [] else ls_last_key s)"
    by (auto simp: list_message_ids_def Let_def split: sum.splits if_splits)
  obtain keys where k: "?es = map ListedObject keys" using list_loop_keys [OF l] by blast
  have sc: "ls_scanned s = int (length keys)" using list_loop_scanned [OF l] k by simp
  have out: "distinct ids" "set ids = set (listed_ids ?es)" using list_loop_out [OF l] ids by simp_all
  have li: "set (listed_ids (map ListedObject ks)) = {mid. \<exists>key \<in> set ks. message_id_from_object_key key = Some mid}" for ks
    by (induction ks) (auto split: option.splits)
  have "0 < clamp_max_objects max_objects" by (simp add: clamp_max_objects_def)
  then have "next = (if int (length keys) < clamp_max_objects max_objects then [] else last keys)"
    using n sc list_loop_last [of keys ?s0 s] l k by auto
  then show ?thesis using k out li by auto
qed

lemma list_message_ids_error:
  "list_message_ids events start max_objects = (ids, next, Some err) \<Longrightarrow> ids = [] \<and> next = trim_space start"
  by (auto simp: list_message_ids_def Let_def split: sum.splits if_splits)

end
