(* ===== verification/Utf8.thy ===== *)
theory Utf8
  imports Prelude
begin

text \<open>
  What the program uses of Go's strings as UTF-8: \<open>range\<close> over a string (\<open>utf8.DecodeRuneInString\<close>,
  which yields U+FFFD and width one for an invalid byte), \<open>utf8.RuneLen\<close>, \<open>WriteRune\<close> and
  \<open>unicode.IsSpace\<close>. A string is its list of bytes, a rune its code point.
\<close>

definition bytes_of :: "string \<Rightarrow> nat list" where "bytes_of s = map of_char s"
definition string_of :: "nat list \<Rightarrow> string" where "string_of bs = map char_of bs"

definition rune_error :: nat where "rune_error = 0xFFFD"

definition cont_byte :: "nat \<Rightarrow> bool" where "cont_byte b \<longleftrightarrow> 0x80 \<le> b \<and> b \<le> 0xBF"

text \<open>The least and greatest second byte after a lead byte.\<close>

definition second_range :: "nat \<Rightarrow> nat \<times> nat" where
  "second_range b =
     (if b = 0xE0 then (0xA0, 0xBF) else if b = 0xED then (0x80, 0x9F)
      else if b = 0xF0 then (0x90, 0xBF) else if b = 0xF4 then (0x80, 0x8F) else (0x80, 0xBF))"

definition nth_byte :: "nat list \<Rightarrow> nat \<Rightarrow> nat" where "nth_byte bs i = (if i < length bs then bs ! i else 0)"

definition decode_rune :: "nat list \<Rightarrow> nat \<times> nat" where
  "decode_rune bs =
     (let b0 = nth_byte bs 0; b1 = nth_byte bs 1; b2 = nth_byte bs 2; b3 = nth_byte bs 3;
          ok1 = (fst (second_range b0) \<le> b1 \<and> b1 \<le> snd (second_range b0)) in
      if b0 < 0x80 then (b0, 1)
      else if 0xC2 \<le> b0 \<and> b0 \<le> 0xDF \<and> ok1 then ((b0 - 0xC0) * 64 + (b1 - 0x80), 2)
      else if 0xE0 \<le> b0 \<and> b0 \<le> 0xEF \<and> ok1 \<and> cont_byte b2
      then ((b0 - 0xE0) * 4096 + (b1 - 0x80) * 64 + (b2 - 0x80), 3)
      else if 0xF0 \<le> b0 \<and> b0 \<le> 0xF4 \<and> ok1 \<and> cont_byte b2 \<and> cont_byte b3
      then ((b0 - 0xF0) * 262144 + (b1 - 0x80) * 4096 + (b2 - 0x80) * 64 + (b3 - 0x80), 4)
      else (rune_error, 1))"

lemma decode_rune_width: "0 < snd (decode_rune bs)"
  by (simp add: decode_rune_def Let_def)

function runes :: "nat list \<Rightarrow> nat list" where
  "runes bs = (if bs = [] then [] else fst (decode_rune bs) # runes (drop (snd (decode_rune bs)) bs))"
  by auto
termination by (relation "measure length") (use decode_rune_width in \<open>auto simp: diff_less\<close>)

declare runes.simps [simp del]

definition rune_len :: "nat \<Rightarrow> int" where
  "rune_len r =
     (if r < 0x80 then 1 else if r < 0x800 then 2 else if 0xD800 \<le> r \<and> r \<le> 0xDFFF then -1
      else if r < 0x10000 then 3 else if r \<le> 0x10FFFF then 4 else -1)"

definition encode_rune :: "nat \<Rightarrow> nat list" where
  "encode_rune r0 =
     (let r = (if rune_len r0 < 0 then rune_error else r0) in
      if r < 0x80 then [r]
      else if r < 0x800 then [0xC0 + r div 64, 0x80 + r mod 64]
      else if r < 0x10000 then [0xE0 + r div 4096, 0x80 + r div 64 mod 64, 0x80 + r mod 64]
      else [0xF0 + r div 262144, 0x80 + r div 4096 mod 64, 0x80 + r div 64 mod 64, 0x80 + r mod 64])"

definition unicode_is_space :: "nat \<Rightarrow> bool" where
  "unicode_is_space r \<longleftrightarrow>
     r \<in> {9, 10, 11, 12, 13, 32, 0x85, 0xA0, 0x1680, 0x2028, 0x2029, 0x202F, 0x205F, 0x3000} \<or> 0x2000 \<le> r \<and> r \<le> 0x200A"

lemma decode_rune_valid: "0 < rune_len (fst (decode_rune bs))"
proof -
  let ?b0 = "nth_byte bs 0" and ?b1 = "nth_byte bs 1" and ?b2 = "nth_byte bs 2" and ?b3 = "nth_byte bs 3"
  have e: "0 < rune_len rune_error" by (simp add: rune_len_def rune_error_def)
  have two: "0 < rune_len ((?b0 - 0xC0) * 64 + (?b1 - 0x80))"
    if "0xC2 \<le> ?b0" "?b0 \<le> 0xDF" "0x80 \<le> ?b1" "?b1 \<le> 0xBF"
    using that by (simp add: rune_len_def)
  have three: "0 < rune_len ((?b0 - 0xE0) * 4096 + (?b1 - 0x80) * 64 + (?b2 - 0x80))"
    if "0xE0 \<le> ?b0" "?b0 \<le> 0xEF" "fst (second_range ?b0) \<le> ?b1" "?b1 \<le> snd (second_range ?b0)" "cont_byte ?b2"
    using that by (auto simp: rune_len_def second_range_def cont_byte_def split: if_splits)
  have four: "0 < rune_len ((?b0 - 0xF0) * 262144 + (?b1 - 0x80) * 4096 + (?b2 - 0x80) * 64 + (?b3 - 0x80))"
    if "0xF0 \<le> ?b0" "?b0 \<le> 0xF4" "fst (second_range ?b0) \<le> ?b1" "?b1 \<le> snd (second_range ?b0)"
      "cont_byte ?b2" "cont_byte ?b3"
    using that by (auto simp: rune_len_def second_range_def cont_byte_def split: if_splits)
  have range2: "0x80 \<le> ?b1 \<and> ?b1 \<le> 0xBF"
    if "0xC2 \<le> ?b0" "?b0 \<le> 0xDF" "fst (second_range ?b0) \<le> ?b1" "?b1 \<le> snd (second_range ?b0)"
    using that by (simp add: second_range_def)
  have one: "0 < rune_len ?b0" if "?b0 < 0x80" using that by (simp add: rune_len_def)
  show ?thesis
    unfolding decode_rune_def Let_def using e two three four range2 one by simp
qed

lemma runes_valid: "r \<in> set (runes bs) \<Longrightarrow> 0 < rune_len r"
proof (induction bs rule: runes.induct)
  case (1 bs)
  then show ?case using decode_rune_valid by (subst (asm) runes.simps) (auto split: if_splits)
qed

lemma length_encode_rune: "0 < rune_len r \<Longrightarrow> int (length (encode_rune r)) = rune_len r"
  by (auto simp: encode_rune_def rune_len_def Let_def split: if_splits)

end
