(* ===== verification/Worker.thy ===== *)
theory Worker
  imports Queue Storage Utf8
begin

text \<open>
  \<open>internal/worker/worker.go\<close>: the consumer of the queue. An e-mail is processed once per distinct
  recipient and the results are folded into one error; the intro of a message is the beginning of its
  text; the object GC deletes the objects of messages that no longer exist. The processing of a single
  recipient (\<open>processForRecipient\<close>) is the argument \<open>process\<close> here.
\<close>

section \<open>One e-mail, all recipients\<close>

fun dedup_recipients :: "string set \<Rightarrow> string list \<Rightarrow> string list" where
  "dedup_recipients m [] = []"
| "dedup_recipients m (r0 # rs) =
     (let r = trim_space (to_lower r0) in
      if r = [] then dedup_recipients m rs
      else if r \<in> m then dedup_recipients m rs
      else r # dedup_recipients (insert r m) rs)"

definition unique_recipients :: "string list \<Rightarrow> string list" where
  "unique_recipients to =
     (if 1 < length to
      then (let out = dedup_recipients {} to in if 0 < length out then out else to)
      else to)"

text \<open>The loop over the recipients: the first transient error and the number of permanent failures.\<close>

fun recipient_loop ::
  "(string \<Rightarrow> 's \<Rightarrow> go_error option \<times> 's) \<Rightarrow> string list \<Rightarrow> go_error option \<Rightarrow> nat \<Rightarrow> 's
     \<Rightarrow> go_error option \<times> nat \<times> 's" where
  "recipient_loop process [] transient_err permanent_failures s = (transient_err, permanent_failures, s)"
| "recipient_loop process (r # rs) transient_err permanent_failures s =
     (let (err, s') = process r s in
      case err of
        None \<Rightarrow> recipient_loop process rs transient_err permanent_failures s'
      | Some e \<Rightarrow>
          if is_permanent (Some e) then recipient_loop process rs transient_err (permanent_failures + 1) s'
          else recipient_loop process rs (if transient_err = None then Some e else transient_err) permanent_failures s')"

definition process_message ::
  "(incoming_email \<Rightarrow> string \<Rightarrow> 's \<Rightarrow> go_error option \<times> 's) \<Rightarrow> incoming_email option \<Rightarrow> 's \<Rightarrow> go_error option \<times> 's" where
  "process_message process incoming s =
     (case incoming of
        None \<Rightarrow> (permanent (Some (PlainError ''nil incoming email'')), s)
      | Some e \<Rightarrow>
          if length (ie_to e) = 0 then (permanent (Some (PlainError ''no recipients'')), s)
          else
            (let unique_to = unique_recipients (ie_to e);
                 (transient_err, permanent_failures, s') = recipient_loop (process e) unique_to None 0 s
             in if transient_err \<noteq> None then (transient_err, s')
                else if 0 < permanent_failures \<and> permanent_failures = length unique_to
                then (permanent (Some (PlainError ''all recipients failed permanently'')), s')
                else (None, s')))"

section \<open>The intro of a message\<close>

record intro_state =
  is_b :: "nat list"
  is_wrote :: int
  is_started :: bool
  is_in_space :: bool
  is_at_limit :: bool

fun normalize_loop :: "int \<Rightarrow> nat list \<Rightarrow> intro_state \<Rightarrow> nat list \<times> bool" where
  "normalize_loop max_len [] st = (is_b st, False)"
| "normalize_loop max_len (r # rs) st =
     (if unicode_is_space r then normalize_loop max_len rs (st\<lparr>is_in_space := True\<rparr>)
      else if is_at_limit st then (is_b st, True)
      else if max_len = 0 then ([], True)
      else
        (let rl = (if rune_len r < 0 then 1 else rune_len r) in
         if is_in_space st \<and> is_started st \<and> max_len < is_wrote st + 1 + rl then (is_b st, True)
         else
           (let st1 = (if is_in_space st \<and> is_started st
                       then st\<lparr>is_b := is_b st @ [32], is_wrote := is_wrote st + 1\<rparr> else st) in
            if max_len < is_wrote st1 + rl then (is_b st1, True)
            else normalize_loop max_len rs
                   (st1\<lparr>is_in_space := False, is_b := is_b st1 @ encode_rune r, is_wrote := is_wrote st1 + rl,
                        is_started := True,
                        is_at_limit := (if is_wrote st1 + rl = max_len then True else is_at_limit st1)\<rparr>))))"


definition normalize_whitespace_limited :: "string \<Rightarrow> int \<Rightarrow> string \<times> bool" where
  "normalize_whitespace_limited s max_len =
     (let (out, truncated) = normalize_loop max_len (runes (bytes_of s))
            \<lparr>is_b = [], is_wrote = 0, is_started = False, is_in_space = True, is_at_limit = False\<rparr>
      in (string_of out, truncated))"

definition generate_intro :: "string \<Rightarrow> int \<Rightarrow> string" where
  "generate_intro body max_len0 =
     (let max_len = (if max_len0 < 0 then 0 else max_len0);
          (normalized, truncated) = normalize_whitespace_limited body max_len
      in if truncated then normalized @ ''...'' else normalized)"

section \<open>Object GC\<close>

text \<open>
  The loop of \<open>objectGCOnce\<close>: \<open>expired\<close> tells whether the run's time budget is exhausted before an id,
  \<open>delete\<close> is \<open>DeleteByMessage\<close> (\<^const>\<open>True\<close> for success).
\<close>

fun gc_loop ::
  "(string \<Rightarrow> 's \<Rightarrow> bool \<times> 's) \<Rightarrow> (string \<Rightarrow> bool) \<Rightarrow> string set \<Rightarrow> string list \<Rightarrow> nat \<Rightarrow> 's \<Rightarrow> nat \<times> 's" where
  "gc_loop delete expired exists_set [] deleted s = (deleted, s)"
| "gc_loop delete expired exists_set (mid # ids) deleted s =
     (if expired mid then (deleted, s)
      else if mid \<in> exists_set then gc_loop delete expired exists_set ids deleted s
      else
        (let (ok, s') = delete mid s; deleted' = (if ok then deleted + 1 else deleted) in
         if 200 \<le> deleted' then (deleted', s') else gc_loop delete expired exists_set ids deleted' s'))"

text \<open>
  \<open>objectGCOnce\<close> after its nil checks: the lock (\<open>SetNX\<close>), the listing, the existence check, the loop.
  The result is the new cursor and the state; the lock is released on every path once taken.
\<close>

definition object_gc_once ::
  "('s \<Rightarrow> bool \<times> 's) \<Rightarrow> ('s \<Rightarrow> 's) \<Rightarrow> (string \<Rightarrow> int \<Rightarrow> 's \<Rightarrow> string list \<times> string \<times> string option)
     \<Rightarrow> (string list \<Rightarrow> 's \<Rightarrow> string + string set) \<Rightarrow> (string \<Rightarrow> 's \<Rightarrow> bool \<times> 's) \<Rightarrow> (string \<Rightarrow> bool)
     \<Rightarrow> string \<Rightarrow> 's \<Rightarrow> string \<times> 's" where
  "object_gc_once lock unlock list_ids existing delete expired start_after s =
     (let (locked, s1) = lock s in
      if \<not> locked then (start_after, s1)
      else
        (case list_ids start_after 20000 s1 of
           (ids, next_after, Some err) \<Rightarrow> (start_after, unlock s1)
         | (ids, next_after, None) \<Rightarrow>
             (let cursor = (if next_after \<noteq> start_after then next_after else start_after) in
              if length ids = 0 then (cursor, unlock s1)
              else
                (case existing ids s1 of
                   Inl err \<Rightarrow> (cursor, unlock s1)
                 | Inr exists_set \<Rightarrow>
                     (let (deleted, s2) = gc_loop delete expired exists_set ids 0 s1 in (cursor, unlock s2))))))"

text \<open>The cap on concurrent clean-ups that \<open>New\<close> computes.\<close>

definition max_cleanup :: "int \<Rightarrow> int" where
  "max_cleanup gomaxprocs =
     (let n = gomaxprocs * 4; n = (if n < 4 then 4 else n) in if 64 < n then 64 else n)"

section \<open>Recipients are processed once each\<close>

lemma dedup_recipients_spec:
  "distinct (dedup_recipients m rs) \<and>
   set (dedup_recipients m rs) = {r. r \<in> (\<lambda>r. trim_space (to_lower r)) ` set rs \<and> r \<noteq> [] \<and> r \<notin> m}"
  by (induction m rs rule: dedup_recipients.induct) (auto simp: Let_def)

definition same_recipient :: "string \<Rightarrow> string" where "same_recipient r = trim_space (to_lower r)"

lemma unique_recipients_spec:
  assumes "list_ex (\<lambda>r. same_recipient r \<noteq> []) to"
  shows "distinct (map same_recipient (unique_recipients to)) \<and>
    same_recipient ` set (unique_recipients to) = {r \<in> same_recipient ` set to. r \<noteq> []}"
proof (cases "1 < length to")
  case True
  let ?d = "dedup_recipients {} to"
  note D = dedup_recipients_spec [of "{}" to]
  have idn: "same_recipient r = r" if "r \<in> set ?d" for r
  proof -
    from that D obtain q where "r = trim_space (to_lower q)" by auto
    then show ?thesis by (simp add: same_recipient_def trim_space_to_lower)
  qed
  have ne: "?d \<noteq> []" using D assms by (force simp: list_ex_iff same_recipient_def)
  have m: "map same_recipient ?d = ?d" using idn by (simp add: map_idI)
  have u: "unique_recipients to = ?d" using True ne by (simp add: unique_recipients_def)
  have "same_recipient ` set ?d = set ?d" using m by (metis list.set_map)
  then show ?thesis unfolding u m using D by (auto simp: same_recipient_def)
next
  case False
  then obtain r where "to = [r]" using assms by (cases to) (auto simp: length_Suc_conv)
  then show ?thesis using assms by (auto simp: unique_recipients_def)
qed

text \<open>The errors of the recipients in turn, and the final state.\<close>

fun recipient_results ::
  "(string \<Rightarrow> 's \<Rightarrow> go_error option \<times> 's) \<Rightarrow> string list \<Rightarrow> 's \<Rightarrow> go_error option list \<times> 's" where
  "recipient_results process [] s = ([], s)"
| "recipient_results process (r # rs) s =
     (let (err, s') = process r s; (errs, s'') = recipient_results process rs s' in (err # errs, s''))"

definition transient :: "go_error option \<Rightarrow> bool" where
  "transient err = (err \<noteq> None \<and> \<not> is_permanent err)"

lemma recipient_loop_results:
  "recipient_results process rs s = (errs, s') \<Longrightarrow>
   recipient_loop process rs t n s =
     (if t \<noteq> None then t else (case find transient errs of None \<Rightarrow> None | Some e \<Rightarrow> e),
      n + length (filter is_permanent errs), s')"
proof (induction rs arbitrary: t n s errs s')
  case (Cons r rs)
  obtain err s1 where p: "process r s = (err, s1)" by fastforce
  obtain es s2 where q: "recipient_results process rs s1 = (es, s2)" by fastforce
  have "errs = err # es" "s' = s2" using Cons.prems p q by simp_all
  moreover have "transient err = (err \<noteq> None \<and> \<not> is_permanent err)" by (simp add: transient_def)
  ultimately show ?case
    using Cons.IH [OF q] p by (auto simp: Let_def split: option.splits)
qed simp

lemma length_recipient_results: "recipient_results process rs s = (errs, s') \<Longrightarrow> length errs = length rs"
proof (induction rs arbitrary: s errs)
  case (Cons r rs)
  then show ?case by (auto simp: Let_def split: prod.splits)
qed simp

lemma process_message_result:
  assumes "ie_to e \<noteq> []" and "recipient_results (process e) (unique_recipients (ie_to e)) s = (errs, s')"
  shows "process_message process (Some e) s =
    (case find transient errs of
       Some err \<Rightarrow> err
     | None \<Rightarrow> if list_all is_permanent errs then permanent (Some (PlainError ''all recipients failed permanently''))
               else None, s')"
proof -
  let ?u = "unique_recipients (ie_to e)"
  have u: "?u \<noteq> []" using assms(1) by (auto simp: unique_recipients_def Let_def)
  have len: "length errs = length ?u" using length_recipient_results [OF assms(2)] .
  have all: "list_all is_permanent errs \<longleftrightarrow> 0 < length (filter is_permanent errs) \<and> length (filter is_permanent errs) = length ?u"
  proof -
    have "list_all is_permanent errs \<longleftrightarrow> length (filter is_permanent errs) = length errs"
      by (auto simp: list_all_iff) (metis length_filter_less nat_less_le)
    moreover have "0 < length ?u" using u by simp
    ultimately show ?thesis using len by auto
  qed
  have t: "find transient errs = Some x \<Longrightarrow> x \<noteq> None" for x
    by (auto simp: find_Some_iff transient_def)
  show ?thesis
    using recipient_loop_results [OF assms(2), of None 0] assms(1) all t
    by (auto simp: process_message_def Let_def split: option.splits)
qed

section \<open>The intro is a bounded prefix of the normalised text\<close>

text \<open>
  The reference: the text with its white space normalised, as pieces of one rune each with the blank
  before it if one is due; and the longest prefix of the pieces that fits.
\<close>

fun pieces :: "bool \<Rightarrow> bool \<Rightarrow> nat list \<Rightarrow> nat list list" where
  "pieces started in_space [] = []"
| "pieces started in_space (r # rs) =
     (if unicode_is_space r then pieces started True rs
      else ((if in_space \<and> started then [32] else []) @ encode_rune r) # pieces True False rs)"

fun fit :: "int \<Rightarrow> nat list list \<Rightarrow> nat list \<times> bool" where
  "fit room [] = ([], False)"
| "fit room (p # ps) =
     (if int (length p) \<le> room then (let (out, truncated) = fit (room - int (length p)) ps in (p @ out, truncated))
      else ([], True))"

lemma fit_length: "0 \<le> room \<Longrightarrow> int (length (fst (fit room ps))) \<le> room"
  by (induction room ps rule: fit.induct) (auto simp: Let_def split: prod.splits)

lemma fit_all: "\<not> snd (fit room ps) \<Longrightarrow> fst (fit room ps) = concat ps"
  by (induction room ps rule: fit.induct) (auto simp: Let_def split: prod.splits if_splits)

lemma fit_truncated: "snd (fit room ps) \<Longrightarrow> \<exists>k < length ps. fst (fit room ps) = concat (take k ps) \<and>
    room < int (length (concat (take (Suc k) ps)))"
proof (induction room ps rule: fit.induct)
  case (2 room p ps)
  show ?case
  proof (cases "int (length p) \<le> room")
    case True
    then obtain k where "k < length ps" "fst (fit (room - int (length p)) ps) = concat (take k ps)"
      "room - int (length p) < int (length (concat (take (Suc k) ps)))"
      using 2 by (auto simp: Let_def split: prod.splits)
    then show ?thesis using True by (intro exI [of _ "Suc k"]) (auto simp: Let_def split: prod.splits)
  next
    case False
    then show ?thesis by (intro exI [of _ 0]) simp
  qed
qed simp

definition intro_inv :: "int \<Rightarrow> intro_state \<Rightarrow> bool" where
  "intro_inv max_len st \<longleftrightarrow> is_wrote st = int (length (is_b st)) \<and> is_wrote st \<le> max_len \<and>
     is_at_limit st = (is_started st \<and> is_wrote st = max_len) \<and> (is_started st \<or> is_b st = [])"

lemma normalize_loop_fit:
  assumes "\<forall>r \<in> set rs. 0 < rune_len r" and "intro_inv max_len st"
  shows "normalize_loop max_len rs st =
    (is_b st @ fst (fit (max_len - is_wrote st) (pieces (is_started st) (is_in_space st) rs)),
     snd (fit (max_len - is_wrote st) (pieces (is_started st) (is_in_space st) rs)))"
  using assms
proof (induction rs arbitrary: st)
  case (Cons r rs)
  have rl: "0 < rune_len r" "int (length (encode_rune r)) = rune_len r"
    using Cons.prems(1) length_encode_rune by auto
  show ?case
  proof (cases "unicode_is_space r")
    case True
    then show ?thesis using Cons by (simp add: intro_inv_def)
  next
    case ns: False
    let ?sp = "is_in_space st \<and> is_started st"
    let ?p = "(if ?sp then [32] else []) @ encode_rune r"
    have lp: "int (length ?p) = (if ?sp then 1 else 0) + rune_len r" using rl by simp
    show ?thesis
    proof (cases "is_wrote st + int (length ?p) \<le> max_len")
      case False
      then have "normalize_loop max_len (r # rs) st = (is_b st, True)"
        using ns Cons.prems(2) rl lp by (auto simp: Let_def intro_inv_def)
      then show ?thesis using False ns by simp
    next
      case True
      then have nl: "\<not> is_at_limit st" "max_len \<noteq> 0" using Cons.prems(2) rl lp by (auto simp: intro_inv_def split: if_splits)
      let ?st' = "\<lparr>is_b = is_b st @ ?p, is_wrote = (if ?sp then is_wrote st + 1 else is_wrote st) + rune_len r, is_started = True,
         is_in_space = False, is_at_limit = ((if ?sp then is_wrote st + 1 else is_wrote st) + rune_len r = max_len)\<rparr>"
      have inv: "intro_inv max_len ?st'" using True Cons.prems(2) rl by (auto simp: intro_inv_def)
      have step: "normalize_loop max_len (r # rs) st = normalize_loop max_len rs ?st'"
        using ns nl True rl lp by (cases st) (auto simp: Let_def)
      have IH: "normalize_loop max_len rs ?st' =
         (is_b ?st' @ fst (fit (max_len - is_wrote ?st') (pieces (is_started ?st') (is_in_space ?st') rs)),
          snd (fit (max_len - is_wrote ?st') (pieces (is_started ?st') (is_in_space ?st') rs)))"
        using Cons.prems(1) inv by (intro Cons.IH) simp_all
      then show ?thesis unfolding step using ns True rl by (simp add: Let_def algebra_simps split: prod.splits)
    qed
  qed
qed simp

lemma normalize_whitespace_fit:
  assumes "0 \<le> max_len"
  shows "normalize_whitespace_limited s max_len =
    (string_of (fst (fit max_len (pieces False True (runes (bytes_of s))))),
     snd (fit max_len (pieces False True (runes (bytes_of s)))))"
proof -
  let ?st = "\<lparr>is_b = [], is_wrote = 0, is_started = False, is_in_space = True, is_at_limit = False\<rparr>"
  have v: "\<forall>r \<in> set (runes (bytes_of s)). 0 < rune_len r" using runes_valid by blast
  have i: "intro_inv max_len ?st" using assms by (simp add: intro_inv_def)
  show ?thesis
    unfolding normalize_whitespace_limited_def normalize_loop_fit [OF v i] by (simp split: prod.splits)
qed

section \<open>Object GC deletes only objects of missing messages\<close>

lemma gc_loop_bound: "deleted < 200 \<Longrightarrow> fst (gc_loop delete expired ex ids deleted s) \<le> 200"
  by (induction ids arbitrary: deleted s) (auto simp: Let_def split: prod.splits)

lemma gc_loop_invariant:
  assumes "\<And>mid s. mid \<in> set ids \<Longrightarrow> mid \<notin> ex \<Longrightarrow> P s \<Longrightarrow> P (snd (delete mid s))" and "P s"
  shows "P (snd (gc_loop delete expired ex ids deleted s))"
  using assms
proof (induction ids arbitrary: deleted s)
  case (Cons mid ids)
  obtain ok s1 where d: "delete mid s = (ok, s1)" by fastforce
  have IH: "P t \<Longrightarrow> P (snd (gc_loop delete expired ex ids n t))" for n t
    using Cons.prems(1) by (intro Cons.IH) simp_all
  have "mid \<notin> ex \<Longrightarrow> P s1" using Cons.prems(1) [of mid s] Cons.prems(2) d by simp
  then show ?case using Cons.prems(2) IH d by (simp add: Let_def)
qed simp

lemma message_prefix_unique:
  assumes "has_prefix k (message_prefix a)" "has_prefix k (message_prefix b)"
    and "length a = 24" "length b = 24"
  shows "a = b"
  using assms unfolding message_prefix_def has_prefix_iff by auto

text \<open>
  What a run relies on: the lock and its release leave the objects alone, deleting a message removes only
  objects under its prefix, and the existence check reports the messages that exist.
\<close>

definition gc_laws ::
  "('s \<Rightarrow> string set) \<Rightarrow> ('s \<Rightarrow> bool \<times> 's) \<Rightarrow> ('s \<Rightarrow> 's) \<Rightarrow> (string list \<Rightarrow> 's \<Rightarrow> string + string set)
     \<Rightarrow> (string \<Rightarrow> 's \<Rightarrow> bool \<times> 's) \<Rightarrow> string set \<Rightarrow> bool" where
  "gc_laws objects lock unlock existing delete live \<longleftrightarrow>
     (\<forall>s. objects (snd (lock s)) = objects s) \<and> (\<forall>s. objects (unlock s) = objects s) \<and>
     (\<forall>mid s k. k \<in> objects s \<longrightarrow> \<not> has_prefix k (message_prefix mid) \<longrightarrow> k \<in> objects (snd (delete mid s))) \<and>
     (\<forall>ids s ex. existing ids s = Inr ex \<longrightarrow> live \<inter> set ids \<subseteq> ex)"

lemma object_gc_keeps_live:
  assumes laws: "gc_laws objects lock unlock existing delete live"
    and k: "k \<in> objects s" "has_prefix k (message_prefix mid)" "mid \<in> live" "length mid = 24"
  shows "k \<in> objects (snd (object_gc_once lock unlock (\<lambda>start n s. list_message_ids (events s) start n) existing
      delete expired start_after s))"
proof -
  obtain locked s1 where l: "lock s = (locked, s1)" by fastforce
  have o1: "k \<in> objects s1" using laws k(1) l unfolding gc_laws_def by (metis snd_conv)
  have un: "k \<in> objects (unlock s') \<longleftrightarrow> k \<in> objects s'" for s' using laws by (simp add: gc_laws_def)
  have loop: "k \<in> objects (snd (gc_loop delete expired ex ids 0 s1))"
    if r: "list_message_ids (events s1) start_after 20000 = (ids, nxt, None)" and ex: "existing ids s1 = Inr ex" for ids nxt ex
  proof (rule gc_loop_invariant [where P = "\<lambda>s. k \<in> objects s"])
    show "k \<in> objects s1" by (rule o1)
    fix m s assume m: "m \<in> set ids" "m \<notin> ex" "k \<in> objects s"
    have "mid \<noteq> m" using laws ex m(1,2) k(3) unfolding gc_laws_def by blast
    moreover have "length m = 24"
      using list_message_ids_ok [OF r] m(1) message_id_from_object_key_Some(2) by auto
    ultimately have "\<not> has_prefix k (message_prefix m)" using message_prefix_unique k(2,4) by metis
    then show "k \<in> objects (snd (delete m s))" using laws m(3) unfolding gc_laws_def by blast
  qed
  show ?thesis
    unfolding object_gc_once_def l using o1 un loop
    by (auto simp: Let_def split: prod.splits option.splits sum.splits) (metis snd_conv)+
qed

section \<open>What the consumer answers\<close>

lemma consume_results:
  assumes "decode_delivery api json msg = Inr e"
    and "recipient_results (process e) (unique_recipients (ie_to e)) s = (errs, s')"
  shows "consume_callback api json
      (\<lambda>e s. let (err, s') = process_message process (Some e) s in (HandlerReturns err, s')) msg s =
    (if ie_to e = [] then (Term, s)
     else if list_ex transient errs then (NakWithDelay (retry_delay (sd_meta msg)), s')
     else if list_all is_permanent errs then (Term, s')
     else (Ack, s'))"
proof (cases "ie_to e = []")
  case True
  then have "process_message process (Some e) s = (permanent (Some (PlainError ''no recipients'')), s)"
    by (simp add: process_message_def)
  then show ?thesis using True
    by (simp add: consume_callback_handled [where res = "HandlerReturns (permanent (Some (PlainError ''no recipients'')))" and s' = s, OF assms(1)]
        permanent_def)
next
  case False
  let ?r = "case find transient errs of Some err \<Rightarrow> err
     | None \<Rightarrow> if list_all is_permanent errs then permanent (Some (PlainError ''all recipients failed permanently'')) else None"
  have p: "process_message process (Some e) s = (?r, s')"
    using process_message_result [where process = process, OF False assms(2)] .
  have f: "list_ex transient errs \<longleftrightarrow> find transient errs \<noteq> None"
    by (auto simp: list_ex_iff find_None_iff)
  have t: "find transient errs = Some x \<Longrightarrow> \<exists>err. x = Some err \<and> \<not> chain_has_permanent err" for x
    by (auto simp: find_Some_iff transient_def is_permanent_def)
  show ?thesis
    using False p f t
    by (auto simp: consume_callback_handled [where res = "HandlerReturns ?r" and s' = s', OF assms(1)] permanent_def
        split: option.splits)
qed

section \<open>Properties of the worker\<close>

text \<open>
  Every distinct recipient (up to case and blanks) of an e-mail is processed exactly once, and no
  recipient is lost.
\<close>

theorem recipients_processed_once:
  assumes "list_ex (\<lambda>r. same_recipient r \<noteq> []) to"
  shows "distinct (map same_recipient (unique_recipients to)) \<and>
    same_recipient ` set (unique_recipients to) = {r \<in> same_recipient ` set to. r \<noteq> []}"
  using assms by (rule unique_recipients_spec)

theorem recipients_processed_once_witness:
  "distinct (map same_recipient (unique_recipients [''A@b'', ''a@b '', ''c@d'']))"
proof -
  have "same_recipient ''c@d'' = ''c@d''"
    by (simp add: same_recipient_def trim_space_trimmed trimmed_def is_space_code to_lower_def lower_char_def)
  then have "list_ex (\<lambda>r. same_recipient r \<noteq> []) [''A@b'', ''a@b '', ''c@d'']" by simp
  from recipients_processed_once [OF this] show ?thesis by blast
qed

text \<open>
  C16: what happens to a message of the queue: it is redelivered, with the delay of its delivery count, when
  a recipient failed for a transient reason; it is given up when every recipient failed permanently; and it
  is acknowledged otherwise. An e-mail without recipients is given up.
\<close>

theorem worker_acknowledges:
  assumes "decode_delivery api json msg = Inr e"
    and "recipient_results (process e) (unique_recipients (ie_to e)) s = (errs, s')"
  shows "consume_callback api json
      (\<lambda>e s. let (err, s') = process_message process (Some e) s in (HandlerReturns err, s')) msg s =
    (if ie_to e = [] then (Term, s)
     else if list_ex transient errs then (NakWithDelay (retry_delay (sd_meta msg)), s')
     else if list_all is_permanent errs then (Term, s')
     else (Ack, s'))"
  using assms by (rule consume_results)

definition sample_delivery :: "(string \<times> string) list stream_delivery" where
  "sample_delivery = \<lparr>sd_headers = [], sd_data = sample_envelope, sd_meta = None\<rparr>"

theorem worker_acknowledges_witness:
  "consume_callback list_header (\<lambda>_ _. None)
     (\<lambda>e s. let (err, s') = process_message (\<lambda>e r s. (Some (PlainError ''mongo''), s + 1)) (Some e) s in (HandlerReturns err, s'))
     sample_delivery (0 :: nat) = (NakWithDelay second, 1)"
proof -
  have "decode_delivery list_header (\<lambda>_ _. None) sample_delivery = Inr (with_ingest empty_email sample_email)"
    using decode_encode_incoming_email [OF encode_sample, of "\<lambda>_ _. None" empty_email]
    by (simp add: decode_delivery_def sample_delivery_def decode_from_headers_def list_header_def ingest_metadata_def)
  then have d: "decode_delivery list_header (\<lambda>_ _. None) sample_delivery = Inr sample_email" by simp
  have r: "recipient_results ((\<lambda>e r s. (Some (PlainError ''mongo''), s + 1)) sample_email)
      (unique_recipients (ie_to sample_email)) (0 :: nat) = ([Some (PlainError ''mongo'')], 1)"
    by (simp add: sample_email_def unique_recipients_def)
  have "ie_to sample_email \<noteq> []" by (simp add: sample_email_def)
  with worker_acknowledges [OF d r] show ?thesis
    by (simp add: transient_def sample_delivery_def retry_delay_def second_def)
qed

text \<open>
  C28: the intro of a message is the longest prefix, in whole characters, of its white-space-normalised
  text that fits the limit, with an ellipsis exactly when something was left out; it is never longer than
  the limit plus the ellipsis.
\<close>

theorem generate_intro_reference:
  "(let ps = pieces False True (runes (bytes_of body)); limit = max 0 max_len; out = fit limit ps in
     generate_intro body max_len = string_of (fst out) @ (if snd out then ''...'' else []) \<and>
     (if snd out
      then \<exists>k < length ps. fst out = concat (take k ps) \<and> limit < int (length (concat (take (Suc k) ps)))
      else fst out = concat ps) \<and>
     int (length (generate_intro body max_len)) \<le> limit + 3)"
proof -
  let ?ps = "pieces False True (runes (bytes_of body))" and ?l = "max 0 max_len"
  have m: "(if max_len < 0 then 0 else max_len) = ?l" by simp
  have g: "generate_intro body max_len = string_of (fst (fit ?l ?ps)) @ (if snd (fit ?l ?ps) then ''...'' else [])"
    unfolding generate_intro_def Let_def m normalize_whitespace_fit [of ?l body, simplified] by simp
  have "int (length (fst (fit ?l ?ps))) \<le> ?l" by (rule fit_length) simp
  then have "int (length (generate_intro body max_len)) \<le> ?l + 3"
    unfolding g by (simp add: string_of_def)
  then show ?thesis
    unfolding Let_def using g fit_truncated [of ?l ?ps] fit_all [of ?l ?ps] by auto
qed


definition sample_id :: string where "sample_id = replicate 24 (CHR ''a'')"

definition sample_delete :: "string \<Rightarrow> string set \<Rightarrow> bool \<times> string set" where
  "sample_delete mid s = (True, {k \<in> s. \<not> has_prefix k (message_prefix mid)})"


end
