(* ===== verification/Dispatcher.thy ===== *)
theory Dispatcher
  imports Net
begin

text \<open>
  \<open>internal/dialect/dispatcher.go\<close>: the choice of the API dialect from the host of a request. An
  \<open>http.Handler\<close> is a value of type \<open>'h\<close>; what the dispatcher does with a request is the value
  \<open>answer\<close>: it hands the request to a handler, or answers itself. A nil dispatcher and a nil handler
  are \<^const>\<open>None\<close>.
\<close>

section \<open>The dispatcher\<close>

datatype unknown_dialect_strategy = UnknownReject | UnknownFallback

record 'h dispatcher =
  di_base_host :: string
  di_base_suffix :: string
  di_default_dialect :: string
  di_enabled :: "string set"
  di_unknown :: unknown_dialect_strategy
  di_handlers :: "string \<rightharpoonup> 'h"

datatype 'h answer = Handled 'h | ServiceUnavailable | NotFound

definition normalize_host :: "string \<Rightarrow> string" where
  "normalize_host host0 =
     (let host = to_lower (trim_space host0) in
      if host = [] then []
      else
        (let host = trim_suffix host ''.'' in
         if has_prefix host ''['' then
           (case index_byte host (CHR '']'') of
              Some e \<Rightarrow> drop 1 (take e host)
            | None \<Rightarrow> trim_suffix (trim_prefix host ''['') '']'')
         else
           (case last_index_byte host (CHR '':'') of
              None \<Rightarrow> host
            | Some i \<Rightarrow> if index_byte host (CHR '':'') = Some i then take i host else host)))"

definition normalize_base_host :: "string \<Rightarrow> string" where
  "normalize_base_host s0 =
     (let s = to_lower (trim_space s0) in
      if s = [] then []
      else
        (let s = (case index_str s ''://'' of None \<Rightarrow> s | Some i \<Rightarrow> drop (i + 3) s);
             s = (case index_byte s (CHR ''/'') of None \<Rightarrow> s | Some j \<Rightarrow> take j s)
         in trim_suffix (normalize_host s) ''.''))"

definition parse_unknown_dialect_strategy :: "string \<Rightarrow> unknown_dialect_strategy" where
  "parse_unknown_dialect_strategy s =
     (if to_lower (trim_space s) = ''fallback'' then UnknownFallback else UnknownReject)"

definition new_dispatcher :: "string \<Rightarrow> string \<Rightarrow> string list \<Rightarrow> string \<Rightarrow> 'h dispatcher" where
  "new_dispatcher base_host default_dialect enabled_dialects unknown_dialect =
     (let base = normalize_base_host base_host; dflt = to_lower (trim_space default_dialect) in
      \<lparr>di_base_host = base,
       di_base_suffix = (if base \<noteq> [] then CHR ''.'' # base else []),
       di_default_dialect = (if dflt = [] then ''duck'' else dflt),
       di_enabled = set (filter (\<lambda>n. n \<noteq> []) (map (\<lambda>s. to_lower (trim_space s)) enabled_dialects)),
       di_unknown = parse_unknown_dialect_strategy unknown_dialect,
       di_handlers = Map.empty\<rparr>)"

definition register :: "string \<Rightarrow> 'h option \<Rightarrow> 'h dispatcher option \<Rightarrow> 'h dispatcher option" where
  "register name0 handler d =
     (case (d, handler) of
        (Some d, Some h) \<Rightarrow>
          (let name = to_lower (trim_space name0) in
           if name = [] \<or> contains_str name ''.'' then Some d
           else Some (d\<lparr>di_handlers := (di_handlers d)(name \<mapsto> h)\<rparr>))
      | _ \<Rightarrow> d)"

definition is_enabled :: "'h dispatcher option \<Rightarrow> string \<Rightarrow> bool" where
  "is_enabled d name =
     (case d of None \<Rightarrow> False
      | Some d \<Rightarrow> if di_enabled d = {} then True else name \<in> di_enabled d)"

definition pick_dialect :: "'h dispatcher \<Rightarrow> string \<Rightarrow> string \<times> bool" where
  "pick_dialect d host =
     (let h = normalize_host host in
      if h = [] then (di_default_dialect d, False)
      else if h = di_base_host d then (di_default_dialect d, True)
      else
        (let suffix = di_base_suffix d in
         if suffix = [] \<or> \<not> has_suffix h suffix then (di_default_dialect d, False)
         else
           (let prefix' = take (length h - length suffix) h in
            if prefix' = [] then (di_default_dialect d, True)
            else if index_byte prefix' (CHR ''.'') \<noteq> None then ([], True)
            else (prefix', True))))"

definition serve_default :: "'h dispatcher option \<Rightarrow> 'h answer" where
  "serve_default d =
     (case d of None \<Rightarrow> ServiceUnavailable
      | Some d' \<Rightarrow>
          (if is_enabled d (di_default_dialect d')
           then (case di_handlers d' (di_default_dialect d') of Some h \<Rightarrow> Handled h | None \<Rightarrow> ServiceUnavailable)
           else ServiceUnavailable))"

definition serve_http :: "'h dispatcher option \<Rightarrow> string \<Rightarrow> 'h answer" where
  "serve_http d host =
     (case d of None \<Rightarrow> ServiceUnavailable
      | Some d' \<Rightarrow>
          if di_base_host d' = [] then serve_default d
          else
            (let (dialect_name, matched_base) = pick_dialect d' host in
             if \<not> matched_base then serve_default d
             else
               (case (if is_enabled d dialect_name then di_handlers d' dialect_name else None) of
                  Some h \<Rightarrow> Handled h
                | None \<Rightarrow> if di_unknown d' = UnknownFallback then serve_default d else NotFound)))"

section \<open>Host names\<close>

text \<open>A host name as it is sent, without a port: visible, no colon, bracket or slash, no final dot.\<close>

definition host_name :: "string \<Rightarrow> bool" where
  "host_name h \<longleftrightarrow> h \<noteq> [] \<and> last h \<noteq> CHR ''.'' \<and>
     list_all (\<lambda>c. \<not> is_space c \<and> c \<notin> {CHR '':'', CHR ''['', CHR '']'', CHR ''/''}) h"

definition port_suffix :: "string \<Rightarrow> bool" where
  "port_suffix p \<longleftrightarrow> p = [] \<or> (\<exists>ds. ds \<noteq> [] \<and> list_all is_digit ds \<and> p = CHR '':'' # ds)"

lemma host_name_trimmed: "host_name h \<Longrightarrow> trimmed h"
  by (auto simp: host_name_def trimmed_def list_all_iff)

lemma host_name_lower: "host_name h \<Longrightarrow> host_name (to_lower h)"
  by (auto simp: host_name_def to_lower_def list_all_iff last_map lower_char_eq_iff)

lemma trim_suffix_dot: "trim_suffix s ''.'' = (if s \<noteq> [] \<and> last s = CHR ''.'' then butlast s else s)"
proof (cases s rule: rev_cases)
  case (snoc ys y)
  then show ?thesis by (auto simp: trim_suffix_def has_suffix_def suffix_def)
qed (simp add: trim_suffix_def has_suffix_def)

lemma port_suffix_chars: "port_suffix p \<Longrightarrow> c \<in> set p \<Longrightarrow> c = CHR '':'' \<or> is_digit c"
  by (auto simp: port_suffix_def list_all_iff)

lemma normalize_host_plain:
  assumes "host_name host" and "port_suffix port"
  shows "normalize_host (host @ port) = to_lower host"
proof -
  let ?h = "to_lower host"
  have low: "host_name ?h" by (rule host_name_lower [OF assms(1)])
  have port: "to_lower port = port"
  proof -
    have "lower_char c = c" if "c \<in> set port" for c
      using port_suffix_chars [OF assms(2) that]
      by (auto simp: is_digit_def char_eq_code of_lower_char simp del: of_char_eq_iff)
    then show ?thesis by (simp add: to_lower_def map_idI)
  qed
  have digits: "port = [] \<or> (\<exists>ds. ds \<noteq> [] \<and> list_all is_digit ds \<and> port = CHR '':'' # ds)"
    using assms(2) by (simp add: port_suffix_def)
  have "\<not> is_space c" if "c \<in> set port" for c
    using port_suffix_chars [OF assms(2) that] by (auto dest: is_digit_not simp: is_space_def)
  then have trim: "trim_space (host @ port) = host @ port"
    using assms(1) by (intro trim_space_trimmed) (auto simp: trimmed_def host_name_def list_all_iff last_append hd_append)
  have nl: "?h \<noteq> []" "last ?h \<noteq> CHR ''.''" "CHR '':'' \<notin> set ?h" "\<not> has_prefix (?h @ port) ''[''"
    using low by (auto simp: host_name_def list_all_iff has_prefix_single hd_append)
  have dot: "last (?h @ port) \<noteq> CHR ''.''"
    using nl digits by (auto simp: last_append list_all_iff is_digit_not(3) dest!: bspec [OF _ last_in_set])
  have step: "normalize_host (host @ port) =
      (case last_index_byte (?h @ port) (CHR '':'') of None \<Rightarrow> ?h @ port
       | Some i \<Rightarrow> if index_byte (?h @ port) (CHR '':'') = Some i then take i (?h @ port) else ?h @ port)"
    using nl dot by (simp add: normalize_host_def Let_def trim port trim_suffix_dot to_lower_simps)
  show ?thesis
  proof (cases "port = []")
    case True
    then show ?thesis using nl step by (simp add: last_index_byte_None [THEN iffD2])
  next
    case False
    then obtain ds where ds: "port = CHR '':'' # ds" "list_all is_digit ds" using digits by auto
    then have "CHR '':'' \<notin> set ds" by (auto simp: list_all_iff is_digit_def)
    then have "last_index_byte (?h @ port) (CHR '':'') = Some (length ?h)"
      and "index_byte (?h @ port) (CHR '':'') = Some (length ?h)"
      using nl ds by (simp_all add: last_index_byte_append index_byte_append)
    then show ?thesis by (simp add: step)
  qed
qed

lemma index_str_None: "c \<in> set p \<Longrightarrow> c \<notin> set s \<Longrightarrow> index_str s p = None"
  by (induction s p rule: index_str.induct) (auto simp: has_prefix_iff, metis Un_iff set_ConsD set_append)

lemma normalize_base_host_plain:
  assumes "host_name base" shows "normalize_base_host base = to_lower base"
proof -
  have low: "host_name (to_lower base)" by (rule host_name_lower [OF assms])
  have "normalize_host (to_lower base @ []) = to_lower (to_lower base)"
    by (rule normalize_host_plain [OF low]) (simp add: port_suffix_def)
  then have n: "normalize_host (to_lower base) = to_lower base" by simp
  have c: "CHR '':'' \<notin> set (to_lower base)" "CHR ''/'' \<notin> set (to_lower base)" "base \<noteq> []"
    "last (to_lower base) \<noteq> CHR ''.''" "trim_space base = base"
    using low assms host_name_trimmed [OF assms] by (auto simp: host_name_def list_all_iff trim_space_trimmed)
  then have "index_str (to_lower base) ''://'' = None" by (simp add: index_str_None [of "CHR '':''"])
  with c show ?thesis
    by (simp add: normalize_base_host_def Let_def n trim_suffix_dot index_byte_None [THEN iffD2])
qed

lemma contains_dot: "contains_str s ''.'' \<longleftrightarrow> CHR ''.'' \<in> set s"
  by (induction s) (auto simp: contains_str_def has_prefix_single)

text \<open>The handler last registered for a dialect, under its normalised name.\<close>

definition registered :: "(string \<times> 'h) list \<Rightarrow> string \<Rightarrow> 'h option" where
  "registered regs name =
     (if name = [] \<or> CHR ''.'' \<in> set name then None
      else map_of (rev (map (\<lambda>(n, h). (to_lower (trim_space n), h)) regs)) name)"

definition register_all :: "(string \<times> 'h) list \<Rightarrow> 'h dispatcher option \<Rightarrow> 'h dispatcher option" where
  "register_all regs d = foldl (\<lambda>d (n, h). register n (Some h) d) d regs"

lemma register_all_handlers:
  "di_handlers d = Map.empty \<Longrightarrow>
   register_all regs (Some d) = Some (d\<lparr>di_handlers := registered regs\<rparr>)"
proof (induction regs rule: rev_induct)
  case Nil
  then show ?case by (cases d) (auto simp: register_all_def registered_def)
next
  case (snoc r regs)
  obtain n h where r: "r = (n, h)" by (cases r)
  have "registered (regs @ [r]) =
    (if to_lower (trim_space n) = [] \<or> contains_str (to_lower (trim_space n)) ''.'' then registered regs
     else (registered regs)(to_lower (trim_space n) \<mapsto> h))"
    by (auto simp: fun_eq_iff registered_def r contains_dot)
  with snoc show ?case by (simp add: register_all_def r register_def Let_def del: fun_upd_apply)
qed

text \<open>Answers over a table of usable handlers.\<close>

definition default_answer :: "(string \<rightharpoonup> 'h) \<Rightarrow> string \<Rightarrow> 'h answer" where
  "default_answer usable dflt = (case usable dflt of Some h \<Rightarrow> Handled h | None \<Rightarrow> ServiceUnavailable)"

definition dialect_answer :: "(string \<rightharpoonup> 'h) \<Rightarrow> string \<Rightarrow> bool \<Rightarrow> string \<Rightarrow> 'h answer" where
  "dialect_answer usable dflt fallback name =
     (case usable name of Some h \<Rightarrow> Handled h
      | None \<Rightarrow> if fallback then default_answer usable dflt else NotFound)"

lemma serve_default_usable:
  "serve_default (Some d) =
     default_answer (\<lambda>n. if is_enabled (Some d) n then di_handlers d n else None) (di_default_dialect d)"
  by (simp add: serve_default_def default_answer_def)

lemma is_enabled_handlers [simp]: "is_enabled (Some (d\<lparr>di_handlers := m\<rparr>)) n = is_enabled (Some d) n"
  by (simp add: is_enabled_def)

lemma serve_http_picked:
  assumes "di_base_host d \<noteq> []" and "pick_dialect d host = (name, matched)"
  shows "serve_http (Some d) host =
    (let usable = (\<lambda>n. if is_enabled (Some d) n then di_handlers d n else None) in
     if matched then dialect_answer usable (di_default_dialect d) (di_unknown d = UnknownFallback) name
     else default_answer usable (di_default_dialect d))"
  using assms by (simp add: serve_http_def serve_default_usable dialect_answer_def Let_def split: option.splits)



end
