(* ===== verification/Proxy.thy ===== *)
theory Proxy
  imports Net
begin

text \<open>
  \<open>internal/dialect/cfworker/proxy.go\<close>: the reverse proxy of the cfworker dialect. An \<open>http.Header\<close> is
  a map from keys to lists of values, with the canonical spelling of keys of \<open>net/textproto\<close>.
  \<open>url.Parse\<close> and the HTTP client (\<open>client.Do\<close>) are parameters, bodies are byte strings. The client
  reports with its error whether a deadline was exceeded.
\<close>

section \<open>Headers and URLs of net/http and net/url\<close>

type_synonym header = "string \<rightharpoonup> string list"

text \<open>\<open>CanonicalMIMEHeaderKey\<close>: a key with other bytes than those of a token is left as it is.\<close>

definition token_char :: "char \<Rightarrow> bool" where
  "token_char c \<longleftrightarrow> (let n = of_char c :: nat in
     48 \<le> n \<and> n \<le> 57 \<or> 65 \<le> n \<and> n \<le> 90 \<or> 97 \<le> n \<and> n \<le> 122 \<or>
     n \<in> {33, 35, 36, 37, 38, 39, 42, 43, 45, 46, 94, 95, 96, 124, 126})"

definition upper_char :: "char \<Rightarrow> char" where
  "upper_char c = (let n = of_char c :: nat in if 97 \<le> n \<and> n \<le> 122 then char_of (n - 32) else c)"

fun capitals :: "bool \<Rightarrow> string \<Rightarrow> string" where
  "capitals upper [] = []"
| "capitals upper (c # cs) = (if upper then upper_char c else lower_char c) # capitals (c = CHR ''-'') cs"

definition canonical_key :: "string \<Rightarrow> string" where
  "canonical_key k = (if list_all token_char k then capitals True k else k)"

definition header_get :: "header \<Rightarrow> string \<Rightarrow> string" where
  "header_get h k = (case h (canonical_key k) of Some (v # vs) \<Rightarrow> v | _ \<Rightarrow> [])"

definition header_set :: "header \<Rightarrow> string \<Rightarrow> string \<Rightarrow> header" where
  "header_set h k v = h(canonical_key k \<mapsto> [v])"

definition header_add :: "header \<Rightarrow> string \<Rightarrow> string \<Rightarrow> header" where
  "header_add h k v = h(canonical_key k \<mapsto> (case h (canonical_key k) of Some vs \<Rightarrow> vs | None \<Rightarrow> []) @ [v])"

definition header_del :: "header \<Rightarrow> string \<Rightarrow> header" where
  "header_del h k = h(canonical_key k := None)"

record url =
  u_scheme :: string
  u_user :: "string option"
  u_host :: string
  u_path :: string
  u_raw_path :: string
  u_raw_query :: string
  u_fragment :: string

record http_request =
  rq_method :: string
  rq_url :: url
  rq_host :: string
  rq_request_uri :: string
  rq_header :: header
  rq_tls :: bool
  rq_remote_addr :: string
  rq_body :: string

record http_response =
  rs_status :: int
  rs_header :: header
  rs_body :: string

section \<open>The proxy\<close>

record proxy_config =
  pc_upstream :: string
  pc_timeout :: duration

definition parse_upstream :: "(string \<Rightarrow> url option) \<Rightarrow> string \<Rightarrow> url option" where
  "parse_upstream parse s0 =
     (let s = trim_space s0 in
      if s = [] then None
      else
        (case parse s of
           None \<Rightarrow> None
         | Some u \<Rightarrow>
             if u_scheme u \<noteq> ''http'' \<and> u_scheme u \<noteq> ''https'' then None
             else if u_host u = [] then None
             else Some u))"

definition single_joining_slash :: "string \<Rightarrow> string \<Rightarrow> string" where
  "single_joining_slash a b =
     (let aslash = has_suffix a ''/''; bslash = has_prefix b ''/'' in
      if aslash \<and> bslash then a @ drop 1 b
      else if \<not> aslash \<and> \<not> bslash then (if a = [] \<or> b = [] then a @ b else a @ ''/'' @ b)
      else a @ b)"

definition build_target_url :: "url \<Rightarrow> url \<Rightarrow> url" where
  "build_target_url upstream inp =
     upstream\<lparr>u_path := single_joining_slash (u_path upstream) (u_path inp),
              u_raw_query :=
                (if u_raw_query upstream = [] then u_raw_query inp
                 else if u_raw_query inp = [] then u_raw_query upstream
                 else u_raw_query upstream @ ''&'' @ u_raw_query inp)\<rparr>"

definition hop_by_hop_headers :: "string list" where
  "hop_by_hop_headers = [''Connection'', ''Proxy-Connection'', ''Keep-Alive'', ''Proxy-Authenticate'',
     ''Proxy-Authorization'', ''Te'', ''Trailer'', ''Transfer-Encoding'', ''Upgrade'']"

definition remove_hop_by_hop_headers :: "header \<Rightarrow> header" where
  "remove_hop_by_hop_headers h =
     (let c = header_get h ''Connection'';
          h1 = (if c \<noteq> []
                then foldl (\<lambda>h f. let f = trim_space f in if f \<noteq> [] then header_del h f else h) h (split_on c (CHR '',''))
                else h)
      in foldl header_del h1 hop_by_hop_headers)"

definition remote_ip :: "string \<Rightarrow> string" where
  "remote_ip remote_addr =
     (if remote_addr = [] then []
      else (case split_host_port remote_addr of Some (host, _) \<Rightarrow> host | None \<Rightarrow> remote_addr))"

definition set_forwarded_headers :: "http_request \<Rightarrow> string \<Rightarrow> http_request" where
  "set_forwarded_headers req orig_host =
     (let h0 = rq_header req;
          h1 = (if orig_host \<noteq> [] then header_set h0 ''X-Forwarded-Host'' orig_host else h0);
          h2 = (if header_get h1 ''X-Forwarded-Proto'' = []
                then header_set h1 ''X-Forwarded-Proto'' (if rq_tls req then ''https'' else ''http'') else h1);
          ip = remote_ip (rq_remote_addr req);
          prior = header_get h2 ''X-Forwarded-For'';
          h3 = (if ip \<noteq> []
                then (if prior \<noteq> [] then header_set h2 ''X-Forwarded-For'' (prior @ '', '' @ ip)
                      else header_set h2 ''X-Forwarded-For'' ip)
                else h2)
      in req\<lparr>rq_header := h3\<rparr>)"

text \<open>\<open>range\<close> visits the entries of the source in some order: a list of its keys.\<close>

definition copy_header :: "string list \<Rightarrow> header \<Rightarrow> header \<Rightarrow> header" where
  "copy_header visit dst src =
     foldl (\<lambda>dst k. foldl (\<lambda>dst v. header_add dst k v) dst (case src k of Some vs \<Rightarrow> vs | None \<Rightarrow> [])) dst visit"

definition outgoing_request :: "url \<Rightarrow> http_request \<Rightarrow> http_request" where
  "outgoing_request upstream r =
     (let out_req = r\<lparr>rq_url := build_target_url upstream (rq_url r), rq_host := u_host upstream,
                      rq_request_uri := []\<rparr>;
          out_req = out_req\<lparr>rq_header := remove_hop_by_hop_headers (rq_header out_req)\<rparr>
      in set_forwarded_headers out_req (rq_host r))"

definition plain_text :: "int \<Rightarrow> string \<Rightarrow> http_response" where
  "plain_text status body =
     \<lparr>rs_status = status, rs_header = header_set Map.empty ''Content-Type'' ''text/plain; charset=utf-8'',
      rs_body = body\<rparr>"

definition proxy_handler ::
  "(header \<Rightarrow> string list) \<Rightarrow> (duration option \<Rightarrow> http_request \<Rightarrow> bool + http_response)
     \<Rightarrow> proxy_config \<Rightarrow> url \<Rightarrow> http_request \<Rightarrow> http_response" where
  "proxy_handler visit client_do cfg upstream r =
     (let timeout = (if 0 < pc_timeout cfg then Some (pc_timeout cfg) else None) in
      case client_do timeout (outgoing_request upstream r) of
        Inl deadline_exceeded \<Rightarrow>
          plain_text (if deadline_exceeded then 504 else 502) (''cfworker upstream error'' @ [CHR 0x0A])
      | Inr resp \<Rightarrow>
          (let h = remove_hop_by_hop_headers (rs_header resp) in
           resp\<lparr>rs_header := copy_header (visit h) Map.empty h\<rparr>))"

definition new_proxy ::
  "(string \<Rightarrow> url option) \<Rightarrow> (header \<Rightarrow> string list) \<Rightarrow> (duration option \<Rightarrow> http_request \<Rightarrow> bool + http_response)
     \<Rightarrow> proxy_config \<Rightarrow> http_request \<Rightarrow> http_response" where
  "new_proxy parse visit client_do cfg r =
     (case parse_upstream parse (pc_upstream cfg) of
        None \<Rightarrow> plain_text 503 (''cfworker upstream not configured'' @ [CHR 0x0A])
      | Some upstream \<Rightarrow> proxy_handler visit client_do cfg upstream r)"

lemma canonical_names [simp]:
  "canonical_key ''Connection'' = ''Connection''"
  "canonical_key ''X-Forwarded-Host'' = ''X-Forwarded-Host''"
  "canonical_key ''X-Forwarded-Proto'' = ''X-Forwarded-Proto''"
  "canonical_key ''X-Forwarded-For'' = ''X-Forwarded-For''"
  "canonical_key ''Content-Type'' = ''Content-Type''"
  by (simp_all add: canonical_key_def token_char_def upper_char_def lower_char_def char_of_def bit_0)

lemma canonical_hop_names [simp]: "map canonical_key hop_by_hop_headers = hop_by_hop_headers"
  by (simp add: hop_by_hop_headers_def canonical_key_def token_char_def upper_char_def lower_char_def
      char_of_def bit_0)

text \<open>The headers of one hop: the fixed ones and those the (first) Connection header names.\<close>

definition hop_header :: "header \<Rightarrow> string \<Rightarrow> bool" where
  "hop_header h k \<longleftrightarrow> k \<in> set hop_by_hop_headers \<or>
     list_ex (\<lambda>f. trim_space f \<noteq> [] \<and> canonical_key (trim_space f) = k) (split_on (header_get h ''Connection'') (CHR '',''))"

lemma foldl_header_del:
  "foldl header_del h ks k = (if k \<in> set (map canonical_key ks) then None else h k)"
  by (induction ks arbitrary: h) (auto simp: header_del_def)

lemma foldl_del_named:
  "foldl (\<lambda>h f. let f = trim_space f in if f \<noteq> [] then header_del h f else h) h fs k =
    (if list_ex (\<lambda>f. trim_space f \<noteq> [] \<and> canonical_key (trim_space f) = k) fs then None else h k)"
  by (induction fs arbitrary: h) (auto simp: header_del_def Let_def)

lemma remove_hop_by_hop_headers_apply:
  "remove_hop_by_hop_headers h k = (if hop_header h k then None else h k)"
  unfolding remove_hop_by_hop_headers_def Let_def foldl_header_del canonical_hop_names hop_header_def
  by (simp add: foldl_del_named [unfolded Let_def])

lemma single_joining_slash_joins:
  "single_joining_slash a b =
    (if a = [] \<or> b = [] then a @ b else trim_suffix a ''/'' @ ''/'' @ trim_prefix b ''/'')"
proof -
  have "a = trim_suffix a ''/'' @ ''/''" if "has_suffix a ''/''"
    using that by (auto simp: has_suffix_iff)
  moreover have "b = ''/'' @ trim_prefix b ''/''" "drop 1 b = trim_prefix b ''/''" if "has_prefix b ''/''"
    using that by (auto simp: has_prefix_iff trim_prefix_def)
  ultimately show ?thesis
    unfolding single_joining_slash_def Let_def
    by (smt (verit) append_Cons append_Nil append_assoc has_prefix_iff has_suffix_iff append_is_Nil_conv
        drop_Nil trim_prefix_def trim_suffix_def append_Nil2 not_Cons_self2)
qed

text \<open>A header as \<open>net/http\<close> parses it: canonical keys, and no key without a value.\<close>

definition parsed_header :: "header \<Rightarrow> bool" where
  "parsed_header h \<longleftrightarrow> finite (dom h) \<and> (\<forall>k \<in> dom h. canonical_key k = k \<and> h k \<noteq> Some [])"

lemma foldl_header_add:
  "foldl (\<lambda>dst v. header_add dst k v) dst vs =
    (if vs = [] then dst
     else dst(canonical_key k \<mapsto> (case dst (canonical_key k) of Some ws \<Rightarrow> ws | None \<Rightarrow> []) @ vs))"
  by (induction vs arbitrary: dst) (auto simp: header_add_def fun_eq_iff)

lemma copy_header_Empty:
  assumes "parsed_header src" and "distinct visit" and "set visit = dom src"
  shows "copy_header visit Map.empty src = src"
proof -
  have "copy_header ks Map.empty src = src |` set ks" if "distinct ks" "set ks \<subseteq> dom src" for ks
    using that
  proof (induction ks rule: rev_induct)
    case (snoc k ks)
    then obtain vs where "src k = Some vs" "vs \<noteq> []" "canonical_key k = k"
      using assms(1) by (auto simp: parsed_header_def)
    with snoc show ?case
      by (simp add: copy_header_def foldl_header_add fun_eq_iff restrict_map_def)
  qed (simp add: copy_header_def)
  then show ?thesis using assms by (simp add: restrict_map_def fun_eq_iff domIff)
qed

lemma parsed_remove: "parsed_header h \<Longrightarrow> parsed_header (remove_hop_by_hop_headers h)"
  by (auto simp: parsed_header_def remove_hop_by_hop_headers_apply dom_def elim!: finite_subset [rotated])

lemma header_set_apply: "header_set h k v k' = (if k' = canonical_key k then Some [v] else h k')"
  by (simp add: header_set_def)

lemma header_get_set:
  "header_get (header_set h k v) k' = (if canonical_key k' = canonical_key k then v else header_get h k')"
  by (simp add: header_get_def header_set_def)

lemma set_forwarded_headers_apply:
  "rq_header (set_forwarded_headers req orig) k =
    (let h = rq_header req; ip = remote_ip (rq_remote_addr req) in
     if k = ''X-Forwarded-Host'' \<and> orig \<noteq> [] then Some [orig]
     else if k = ''X-Forwarded-Proto'' \<and> header_get h k = [] then Some [if rq_tls req then ''https'' else ''http'']
     else if k = ''X-Forwarded-For'' \<and> ip \<noteq> [] then
       Some [if header_get h k \<noteq> [] then header_get h k @ '', '' @ ip else ip]
     else h k)"
proof -
  consider "k = ''X-Forwarded-Host''" | "k = ''X-Forwarded-Proto''" | "k = ''X-Forwarded-For''"
    | "k \<notin> {''X-Forwarded-Host'', ''X-Forwarded-Proto'', ''X-Forwarded-For''}" by blast
  then show ?thesis
    by cases (simp_all add: set_forwarded_headers_def Let_def header_set_apply header_get_set)
qed

definition example_upstream :: url where
  "example_upstream = \<lparr>u_scheme = ''http'', u_user = None, u_host = ''w'', u_path = ''/b/'', u_raw_path = [],
     u_raw_query = [], u_fragment = []\<rparr>"

definition example_request :: http_request where
  "example_request = \<lparr>rq_method = ''GET'', rq_url = \<lparr>u_scheme = [], u_user = None, u_host = [], u_path = ''/a'',
     u_raw_path = [], u_raw_query = [], u_fragment = []\<rparr>, rq_host = ''h'', rq_request_uri = ''/a'',
     rq_header = [''Connection'' \<mapsto> [''x''], ''X'' \<mapsto> [''1''], ''A'' \<mapsto> [''b'']], rq_tls = False,
     rq_remote_addr = [], rq_body = []\<rparr>"

text \<open>
  C39: what the proxy forwards: the same method and body, to the upstream host, at the path joined by one
  slash, with every header of the request except those of the hop (which include the ones the
  Connection header names) and the forwarded headers set; and what it answers: the response of the
  upstream without the headers of the hop.
\<close>

theorem proxy_forwards_end_to_end:
  assumes "parse_upstream parse (pc_upstream cfg) = Some up"
    and "client_do (if 0 < pc_timeout cfg then Some (pc_timeout cfg) else None) (outgoing_request up r) = Inr resp"
    and "parsed_header (rs_header resp)" and "\<forall>h. finite (dom h) \<longrightarrow> distinct (visit h) \<and> set (visit h) = dom h"
  shows "let out = outgoing_request up r;
      kept = (\<lambda>k. if hop_header (rq_header r) k then None else rq_header r k);
      ip = remote_ip (rq_remote_addr r)
    in new_proxy parse visit client_do cfg r =
        resp\<lparr>rs_header := \<lambda>k. if hop_header (rs_header resp) k then None else rs_header resp k\<rparr> \<and>
      rq_method out = rq_method r \<and> rq_body out = rq_body r \<and>
      rq_host out = u_host up \<and> u_host (rq_url out) = u_host up \<and> u_scheme (rq_url out) = u_scheme up \<and>
      u_path (rq_url out) =
        (if u_path up = [] \<or> u_path (rq_url r) = [] then u_path up @ u_path (rq_url r)
         else trim_suffix (u_path up) ''/'' @ ''/'' @ trim_prefix (u_path (rq_url r)) ''/'') \<and>
      (\<forall>k. rq_header out k =
        (if k = ''X-Forwarded-Host'' \<and> rq_host r \<noteq> [] then Some [rq_host r]
         else if k = ''X-Forwarded-Proto'' \<and> header_get kept k = [] then
           Some [if rq_tls r then ''https'' else ''http'']
         else if k = ''X-Forwarded-For'' \<and> ip \<noteq> [] then
           Some [if header_get kept k \<noteq> [] then header_get kept k @ '', '' @ ip else ip]
         else kept k))"
proof -
  let ?kept = "\<lambda>k. if hop_header (rq_header r) k then None else rq_header r k"
  have kept: "remove_hop_by_hop_headers h = (\<lambda>k. if hop_header h k then None else h k)" for h
    by (simp add: fun_eq_iff remove_hop_by_hop_headers_apply)
  have "new_proxy parse visit client_do cfg r =
      resp\<lparr>rs_header := copy_header (visit (remove_hop_by_hop_headers (rs_header resp))) Map.empty
        (remove_hop_by_hop_headers (rs_header resp))\<rparr>"
    using assms(1,2) by (simp add: new_proxy_def proxy_handler_def Let_def)
  also have "\<dots> = resp\<lparr>rs_header := \<lambda>k. if hop_header (rs_header resp) k then None else rs_header resp k\<rparr>"
    using assms(4) parsed_remove [OF assms(3)]
    by (simp add: copy_header_Empty parsed_header_def kept [symmetric])
  finally have "new_proxy parse visit client_do cfg r = \<dots>" .
  moreover define K where "K = remove_hop_by_hop_headers (rq_header r)"
  have K: "(if hop_header (rq_header r) k then None else rq_header r k) = K k" for k
    by (simp add: K_def kept)
  have "rq_header (outgoing_request up r) k =
      (let ip = remote_ip (rq_remote_addr r) in
       if k = ''X-Forwarded-Host'' \<and> rq_host r \<noteq> [] then Some [rq_host r]
       else if k = ''X-Forwarded-Proto'' \<and> header_get ?kept k = [] then Some [if rq_tls r then ''https'' else ''http'']
       else if k = ''X-Forwarded-For'' \<and> ip \<noteq> [] then
         Some [if header_get ?kept k \<noteq> [] then header_get ?kept k @ '', '' @ ip else ip]
       else ?kept k)" for k
  proof -
    define req where "req = r\<lparr>rq_url := build_target_url up (rq_url r), rq_host := u_host up,
      rq_request_uri := [], rq_header := K\<rparr>"
    have "outgoing_request up r = set_forwarded_headers req (rq_host r)"
      by (simp add: outgoing_request_def req_def K_def Let_def)
    moreover have "rq_header req = K" "rq_tls req = rq_tls r" "rq_remote_addr req = rq_remote_addr r"
      by (simp_all add: req_def)
    ultimately show ?thesis unfolding K by (simp only: set_forwarded_headers_apply Let_def)
  qed
  moreover have "rq_method out = rq_method r \<and> rq_body out = rq_body r \<and>
      rq_host out = u_host up \<and> u_host (rq_url out) = u_host up \<and> u_scheme (rq_url out) = u_scheme up \<and>
      u_path (rq_url out) = single_joining_slash (u_path up) (u_path (rq_url r))"
    if "out = outgoing_request up r" for out
    by (simp add: that outgoing_request_def set_forwarded_headers_def build_target_url_def Let_def)
  ultimately show ?thesis unfolding Let_def single_joining_slash_joins by blast
qed

theorem proxy_forwards_end_to_end_witness:
  "rq_header (outgoing_request example_upstream example_request) ''X'' = None \<and>
   rq_header (outgoing_request example_upstream example_request) ''A'' = Some [''b''] \<and>
   u_path (rq_url (outgoing_request example_upstream example_request)) = ''/b/a''"
proof -
  let ?up = example_upstream and ?r = example_request
  define resp where "resp = plain_text 200 []"
  have keys: "header_get (rq_header ?r) ''Connection'' = ''x''" by (simp add: example_request_def header_get_def)
  have canon: "canonical_key ''x'' = ''X''"
    by (simp add: canonical_key_def token_char_def upper_char_def char_of_def bit_0)
  let ?cfg = "\<lparr>pc_upstream = ''w'', pc_timeout = 0\<rparr>" and ?out = "outgoing_request ?up ?r"
  have up: "parse_upstream (\<lambda>_. Some ?up) (pc_upstream ?cfg) = Some ?up"
    by (simp add: parse_upstream_def example_upstream_def Let_def trim_space_trimmed trimmed_def is_space_def)
  have "\<forall>h :: header. \<exists>ks. finite (dom h) \<longrightarrow> distinct ks \<and> set ks = dom h"
    by (blast dest: finite_distinct_list)
  then obtain visit :: "header \<Rightarrow> string list" where visit: "\<forall>h. finite (dom h) \<longrightarrow> distinct (visit h) \<and> set (visit h) = dom h"
    unfolding choice_iff by blast
  have resp: "parsed_header (rs_header resp)"
    by (simp add: resp_def plain_text_def header_set_def parsed_header_def)
  note T = proxy_forwards_end_to_end [of "\<lambda>_. Some ?up" ?cfg ?up "\<lambda>_ _. Inr resp" ?r resp visit, OF up refl resp visit, unfolded Let_def]
  have facts: "u_path (rq_url ?out) =
        (if u_path ?up = [] \<or> u_path (rq_url ?r) = [] then u_path ?up @ u_path (rq_url ?r)
         else trim_suffix (u_path ?up) ''/'' @ ''/'' @ trim_prefix (u_path (rq_url ?r)) ''/'')"
    using T by (elim conjE)
  have hdr: "rq_header ?out k = (if hop_header (rq_header ?r) k then None else rq_header ?r k)"
    if "k \<noteq> ''X-Forwarded-Host''" "k \<noteq> ''X-Forwarded-Proto''" "k \<noteq> ''X-Forwarded-For''" for k
    using T by (elim conjE) (drule spec [of _ k], simp only: that if_False simp_thms)
  have "hop_header (rq_header ?r) ''X''" "\<not> hop_header (rq_header ?r) ''A''"
    by (simp_all add: hop_header_def keys canon hop_by_hop_headers_def trim_space_trimmed trimmed_def is_space_def)
  then have "rq_header (outgoing_request ?up ?r) ''X'' = None" "rq_header (outgoing_request ?up ?r) ''A'' = rq_header ?r ''A''"
    using hdr [of "''X''"] hdr [of "''A''"] by simp_all
  moreover have "rq_header ?r ''A'' = Some [''b'']" "u_path ?up = ''/b/''" "u_path (rq_url ?r) = ''/a''"
    by (simp_all add: example_request_def example_upstream_def)
  ultimately show ?thesis
    using facts by (simp add: trim_suffix_def has_suffix_def trim_prefix_def has_prefix_def)
qed

end
