(* ===== verification/PrefixData.thy ===== *)
theory PrefixData
  imports Main
begin

text \<open>
  The word lists of \<open>internal/prefix/data.go\<close>, in the order of the source.
\<close>

definition first_names :: "string list" where
  "first_names = [
    ''aaron'', ''adam'', ''adrian'', ''alan'', ''alex'', ''andrew'', ''anthony'', ''austin'',
    ''benjamin'', ''blake'', ''bradley'', ''brandon'', ''brian'', ''bruce'', ''caleb'', ''cameron'',
    ''carl'', ''carter'', ''charles'', ''chase'', ''christian'', ''christopher'', ''colin'', ''connor'',
    ''daniel'', ''david'', ''dean'', ''derek'', ''dominic'', ''douglas'', ''dylan'', ''edward'',
    ''eli'', ''eric'', ''ethan'', ''evan'', ''frank'', ''gabriel'', ''gary'', ''george'',
    ''grant'', ''greg'', ''harry'', ''henry'', ''howard'', ''hunter'', ''ian'', ''isaac'',
    ''jack'', ''jackson'', ''jacob'', ''james'', ''jason'', ''jeffrey'', ''jeremy'', ''jesse'',
    ''joel'', ''john'', ''jonathan'', ''jordan'', ''joseph'', ''joshua'', ''julian'', ''justin'',
    ''keith'', ''kenneth'', ''kevin'', ''kyle'', ''larry'', ''leon'', ''liam'', ''logan'',
    ''lucas'', ''luke'', ''marcus'', ''mark'', ''martin'', ''mason'', ''matthew'', ''max'',
    ''michael'', ''nathan'', ''nicholas'', ''noah'', ''oliver'', ''oscar'', ''owen'', ''patrick'',
    ''paul'', ''peter'', ''raymond'', ''richard'', ''robert'', ''ryan'', ''samuel'', ''scott'',
    ''sean'', ''stephen'', ''steven'', ''thomas'', ''timothy'', ''tyler'', ''vincent'', ''william'',
    ''abigail'', ''alice'', ''amanda'', ''amber'', ''amy'', ''andrea'', ''angela'', ''anna'',
    ''ashley'', ''bella'', ''beth'', ''bianca'', ''brenda'', ''brittany'', ''brooke'', ''caitlin'',
    ''caroline'', ''cassandra'', ''catherine'', ''charlotte'', ''chloe'', ''claire'', ''crystal'', ''daisy'',
    ''danielle'', ''diana'', ''donna'', ''elena'', ''elizabeth'', ''ella'', ''emily'', ''emma'',
    ''erica'', ''eva'', ''faith'', ''fiona'', ''florence'', ''grace'', ''hailey'', ''hannah'',
    ''harper'', ''hazel'', ''heather'', ''holly'', ''isla'', ''jade'', ''jane'', ''janet'',
    ''jasmine'', ''jennifer'', ''jessica'', ''jocelyn'', ''julia'', ''karen'', ''kate'', ''katherine'',
    ''kelly'', ''kimberly'', ''laura'', ''lauren'', ''lily'', ''linda'', ''lisa'', ''lucy'',
    ''luna'', ''madison'', ''maria'', ''martha'', ''maya'', ''megan'', ''melissa'', ''michelle'',
    ''monica'', ''morgan'', ''natalie'', ''nicole'', ''olivia'', ''paige'', ''patricia'', ''rachel'',
    ''rebecca'', ''rose'', ''ruby'', ''samantha'', ''sarah'', ''sophia'', ''stella'', ''susan'',
    ''tara'', ''taylor'', ''vanessa'', ''victoria'', ''violet'', ''vivian'', ''wendy'', ''zoe'',
    ''bai'', ''bin'', ''chang'', ''chao'', ''cheng'', ''cong'', ''dian'', ''dong'',
    ''fang'', ''fei'', ''feng'', ''gang'', ''guang'', ''hai'', ''han'', ''hang'',
    ''hao'', ''hong'', ''hua'', ''jian'', ''jie'', ''jin'', ''jun'', ''kai'',
    ''kang'', ''lei'', ''liang'', ''lin'', ''ling'', ''long'', ''lun'', ''mei'',
    ''ming'', ''nan'', ''nian'', ''peng'', ''ping'', ''qian'', ''qiang'', ''qing'',
    ''quan'', ''ran'', ''rui'', ''shan'', ''sheng'', ''shuang'', ''song'', ''tao'',
    ''tian'', ''ting'', ''wan'', ''wei'', ''wen'', ''xiang'', ''xiao'', ''xin'',
    ''xun'', ''yan'', ''yang'', ''yao'', ''yong'', ''yun'', ''zhen'', ''zheng'',
    ''anders'', ''andre'', ''axel'', ''bjorn'', ''carlo'', ''carmen'', ''dieter'', ''erik'',
    ''felix'', ''finn'', ''franz'', ''fritz'', ''greta'', ''hans'', ''heidi'', ''hugo'',
    ''ingrid'', ''jan'', ''jurgen'', ''karl'', ''klaus'', ''kurt'', ''lars'', ''lena'',
    ''leon'', ''luca'', ''luis'', ''maja'', ''marco'', ''marie'', ''mario'', ''mateo'',
    ''mila'', ''nils'', ''nora'', ''olaf'', ''ole'', ''otto'', ''paolo'', ''pierre'',
    ''rafael'', ''rene'', ''rolf'', ''rosa'', ''sven'', ''theo'', ''tomas'', ''yves'',
    ''alba'', ''alejandro'', ''antonio'', ''carlos'', ''diego'', ''jorge'', ''lucia'', ''miguel'',
    ''pablo'', ''pedro'', ''sergio'', ''sofia'', ''andreas'', ''astrid'', ''gustav'', ''hanna'',
    ''henrik'', ''katrin'', ''magnus'', ''marit'', ''sigrid'', ''torsten'', ''werner'', ''willem'',
    ''akira'', ''amit'', ''anita'', ''arjun'', ''deepa'', ''eunji'', ''fatima'', ''hana'',
    ''haruto'', ''hassan'', ''hyun'', ''joon'', ''karim'', ''kenji'', ''kira'', ''leila'',
    ''mika'', ''minji'', ''nadia'', ''neha'', ''omar'', ''petra'', ''pooja'', ''priya'',
    ''rahul'', ''ravi'', ''riku'', ''sakura'', ''sora'', ''sung'', ''vera'', ''vikram'',
    ''yeon'', ''yuki'', ''yuto'', ''zahra'', ''bogdan'', ''costin'', ''daria'', ''ioana'',
    ''lucian'', ''mircea'', ''simona'', ''stefan'', ''anja'', ''emre'', ''farhan'', ''hamza'',
    ''indira'', ''kofi'', ''lina'', ''mahdi'', ''nabil'', ''olena'', ''pavlo'', ''rashid'',
    ''sadia'', ''tariq'', ''uma'', ''vimal'', ''youssef'', ''zainab'', ''adel'', ''cyrus'',
    ''aspen'', ''autumn'', ''briar'', ''cedar'', ''ember'', ''fern'', ''haven'', ''iris'',
    ''juniper'', ''lark'', ''meadow'', ''orion'', ''phoenix'', ''reed'', ''river'', ''rowan'',
    ''sage'', ''sky'', ''storm'', ''atlas'', ''blaze'', ''colt'', ''dash'', ''echo'',
    ''fox'', ''hawk'', ''indie'', ''jett'', ''kai'', ''kit'', ''lane'', ''lex'',
    ''neo'', ''onyx'', ''pax'', ''quinn'', ''raven'', ''slate'', ''wren'', ''winter'']"

definition last_names :: "string list" where
  "last_names = [
    ''adams'', ''allen'', ''anderson'', ''bailey'', ''baker'', ''barnes'', ''bell'', ''bennett'',
    ''brooks'', ''brown'', ''butler'', ''campbell'', ''carter'', ''clark'', ''cole'', ''coleman'',
    ''collins'', ''cook'', ''cooper'', ''cox'', ''cruz'', ''davis'', ''diaz'', ''edwards'',
    ''ellis'', ''evans'', ''fisher'', ''flores'', ''ford'', ''foster'', ''garcia'', ''gomez'',
    ''gonzalez'', ''gray'', ''green'', ''griffin'', ''hall'', ''hamilton'', ''harris'', ''harrison'',
    ''hayes'', ''henderson'', ''hernandez'', ''hill'', ''howard'', ''hughes'', ''hunt'', ''jackson'',
    ''james'', ''jenkins'', ''johnson'', ''jones'', ''jordan'', ''kelly'', ''kennedy'', ''king'',
    ''knight'', ''lee'', ''lewis'', ''long'', ''lopez'', ''martin'', ''martinez'', ''mason'',
    ''miller'', ''mitchell'', ''moore'', ''morgan'', ''morris'', ''murphy'', ''murray'', ''nelson'',
    ''nguyen'', ''oliver'', ''ortiz'', ''parker'', ''perez'', ''perry'', ''peterson'', ''phillips'',
    ''powell'', ''price'', ''ramirez'', ''reed'', ''reyes'', ''reynolds'', ''richardson'', ''rivera'',
    ''roberts'', ''robinson'', ''rodriguez'', ''rogers'', ''ross'', ''russell'', ''sanchez'', ''sanders'',
    ''scott'', ''simmons'', ''smith'', ''stewart'', ''sullivan'', ''taylor'', ''thomas'', ''thompson'',
    ''torres'', ''turner'', ''walker'', ''ward'', ''washington'', ''watson'', ''webb'', ''white'',
    ''williams'', ''wilson'', ''wood'', ''wright'', ''young'', ''bai'', ''cai'', ''cao'',
    ''chen'', ''cheng'', ''cui'', ''dai'', ''deng'', ''ding'', ''dong'', ''duan'',
    ''fan'', ''fang'', ''feng'', ''gao'', ''gu'', ''guo'', ''han'', ''hao'',
    ''hong'', ''hou'', ''hu'', ''huang'', ''jia'', ''jiang'', ''jin'', ''kang'',
    ''kong'', ''lai'', ''lei'', ''liang'', ''lin'', ''liu'', ''long'', ''luo'',
    ''mao'', ''meng'', ''pan'', ''peng'', ''qian'', ''qin'', ''ren'', ''shao'',
    ''shen'', ''shi'', ''song'', ''sun'', ''tan'', ''tang'', ''tian'', ''wan'',
    ''wang'', ''wei'', ''wen'', ''xia'', ''xiao'', ''xie'', ''xue'', ''yan'',
    ''yang'', ''yao'', ''yuan'', ''zeng'', ''zhang'', ''zhao'', ''zheng'', ''zhong'',
    ''zhou'', ''zhu'', ''andersen'', ''andersson'', ''bakke'', ''bauer'', ''becker'', ''berg'',
    ''braun'', ''christensen'', ''dahl'', ''devries'', ''dubois'', ''dupont'', ''eriksson'', ''fernandez'',
    ''ferrari'', ''fischer'', ''gustafsson'', ''hansen'', ''hoffmann'', ''janssen'', ''jensen'', ''johansson'',
    ''karlsson'', ''klein'', ''koch'', ''kowalski'', ''larsen'', ''larsson'', ''laurent'', ''lefebvre'',
    ''leroy'', ''lund'', ''meyer'', ''moen'', ''moreau'', ''mueller'', ''neumann'', ''nielsen'',
    ''nilsson'', ''olsson'', ''pedersen'', ''persson'', ''petersen'', ''rasmussen'', ''richter'', ''romano'',
    ''rossi'', ''russo'', ''schmidt'', ''schneider'', ''schroeder'', ''schwarz'', ''simon'', ''sorensen'',
    ''strand'', ''svensson'', ''wagner'', ''weber'', ''wolf'', ''zimmermann'', ''bianchi'', ''colombo'',
    ''conti'', ''esposito'', ''greco'', ''ricci'', ''romero'', ''novak'', ''horvat'', ''szabo'',
    ''popescu'', ''ionescu'', ''silva'', ''santos'', ''oliveira'', ''souza'', ''pereira'', ''costa'',
    ''ferreira'', ''ribeiro'', ''almeida'', ''carvalho'', ''bakker'', ''dekker'', ''koster'', ''mulder'',
    ''visser'', ''gupta'', ''kumar'', ''mehta'', ''patel'', ''sharma'', ''singh'', ''verma'',
    ''ahmed'', ''hassan'', ''hussain'', ''khan'', ''malik'', ''mustafa'', ''tanaka'', ''yamamoto'',
    ''watanabe'', ''suzuki'', ''sato'', ''takahashi'', ''nakamura'', ''kobayashi'', ''yoshida'', ''choi'',
    ''jung'', ''cho'', ''yoon'', ''jang'', ''lim'', ''park'', ''ivanov'', ''kozlov'',
    ''petrov'', ''popov'', ''sokolov'', ''volkov'', ''kuznetsov'', ''archer'', ''ash'', ''banks'',
    ''beck'', ''birch'', ''bishop'', ''bridge'', ''brook'', ''castle'', ''church'', ''cliff'',
    ''cross'', ''dale'', ''drake'', ''field'', ''frost'', ''grove'', ''hart'', ''heath'',
    ''lake'', ''lane'', ''marsh'', ''meadow'', ''moss'', ''north'', ''oak'', ''pine'',
    ''ridge'', ''rivers'', ''rock'', ''rose'', ''shore'', ''snow'', ''south'', ''spring'',
    ''stone'', ''swift'', ''thorn'', ''vale'', ''waters'', ''wells'', ''west'', ''winter'']"

definition nicknames :: "string list" where
  "nicknames = [
    ''shadow'', ''phantom'', ''ghost'', ''spirit'', ''mystic'', ''cosmic'', ''stellar'', ''lunar'',
    ''solar'', ''phoenix'', ''dragon'', ''tiger'', ''eagle'', ''falcon'', ''wolf'', ''hawk'',
    ''viper'', ''cobra'', ''panther'', ''lion'', ''thunder'', ''storm'', ''blaze'', ''frost'',
    ''flame'', ''crystal'', ''spark'', ''bolt'', ''flash'', ''nova'', ''nebula'', ''aurora'',
    ''zenith'', ''apex'', ''prime'', ''omega'', ''alpha'', ''sigma'', ''delta'', ''echo'',
    ''ninja'', ''samurai'', ''warrior'', ''knight'', ''ranger'', ''scout'', ''pilot'', ''captain'',
    ''titan'', ''legend'', ''cyber'', ''pixel'', ''byte'', ''neo'', ''matrix'', ''vector'',
    ''quantum'', ''cipher'', ''proxy'', ''daemon'', ''golden'', ''silver'', ''crimson'', ''azure'',
    ''scarlet'', ''emerald'', ''violet'', ''onyx'', ''ivory'', ''obsidian'', ''silent'', ''swift'',
    ''brave'', ''wild'', ''fierce'', ''bold'', ''rogue'', ''rebel'', ''drifter'', ''nomad'',
    ''cloud'', ''ocean'', ''forest'', ''mountain'', ''desert'', ''island'', ''valley'', ''glacier'',
    ''comet'', ''orbit'', ''lucky'', ''happy'', ''sunny'', ''jolly'', ''clever'', ''witty'',
    ''chill'', ''mellow'', ''groovy'', ''funky'', ''ace'', ''pro'', ''zen'', ''rex'',
    ''dex'', ''jax'', ''zed'', ''dash'', ''flux'', ''rocket'', ''meteor'', ''astro'',
    ''galaxy'', ''cosmos'', ''pulsar'', ''quasar'', ''photon'', ''neutron'', ''magic'', ''wizard'',
    ''sage'', ''oracle'', ''druid'', ''mage'', ''rune'', ''alchemist'', ''sorcerer'', ''velvet'',
    ''chrome'', ''neon'', ''carbon'', ''cobalt'', ''mercury'', ''copper'', ''bronze'', ''platinum'',
    ''midnight'', ''twilight'', ''dawn'', ''ember'', ''cinder'', ''smoke'', ''haze'', ''mist'',
    ''vapor'', ''aether'', ''turbo'', ''nitro'', ''hyper'', ''ultra'', ''mega'', ''rapid'',
    ''sonic'', ''tempo'', ''rhythm'', ''pulse'', ''atlas'', ''maverick'', ''specter'', ''vertex'',
    ''prism'', ''nexus'', ''helix'', ''vortex'', ''maple'', ''cedar'', ''willow'', ''aspen'',
    ''laurel'', ''basil'', ''coral'', ''jade'', ''ruby'', ''opal'']"

definition adjectives :: "string list" where
  "adjectives = [
    ''happy'', ''lucky'', ''bright'', ''swift'', ''brave'', ''calm'', ''clever'', ''cool'',
    ''crisp'', ''dark'', ''deep'', ''eager'', ''fair'', ''fast'', ''fierce'', ''fine'',
    ''firm'', ''free'', ''fresh'', ''glad'', ''good'', ''grand'', ''great'', ''keen'',
    ''kind'', ''light'', ''live'', ''loud'', ''mild'', ''neat'', ''nice'', ''noble'',
    ''odd'', ''pale'', ''plain'', ''proud'', ''pure'', ''quick'', ''rare'', ''raw'',
    ''real'', ''rich'', ''rough'', ''round'', ''safe'', ''sharp'', ''shy'', ''silent'',
    ''slim'', ''slow'', ''small'', ''smart'', ''smooth'', ''soft'', ''solid'', ''steady'',
    ''steep'', ''still'', ''strong'', ''super'', ''sweet'', ''tall'', ''thick'', ''thin'',
    ''tight'', ''tiny'', ''tough'', ''true'', ''vast'', ''warm'', ''wide'', ''wild'',
    ''wise'', ''young'', ''lazy'', ''crazy'', ''dizzy'', ''fuzzy'', ''witty'', ''fancy'',
    ''funky'', ''jolly'', ''misty'', ''dusty'', ''rusty'', ''stormy'', ''cloudy'', ''frosty'',
    ''snowy'', ''sunny'', ''rainy'', ''windy'', ''breezy'', ''cosmic'', ''magic'', ''royal'',
    ''golden'', ''silver'', ''velvet'', ''atomic'', ''digital'', ''neural'', ''sonic'', ''stellar'',
    ''polar'', ''arctic'', ''tropic'', ''electric'', ''iron'', ''copper'', ''marble'', ''frozen'',
    ''gentle'', ''humble'', ''vivid'', ''modern'', ''urban'', ''classic'', ''vintage'', ''retro'']"

definition nouns :: "string list" where
  "nouns = [
    ''star'', ''moon'', ''sun'', ''wolf'', ''bear'', ''fox'', ''hawk'', ''eagle'',
    ''lion'', ''tiger'', ''rose'', ''lily'', ''daisy'', ''iris'', ''fern'', ''oak'',
    ''pine'', ''elm'', ''ash'', ''ivy'', ''fire'', ''ice'', ''wind'', ''rain'',
    ''snow'', ''storm'', ''wave'', ''river'', ''lake'', ''cloud'', ''rock'', ''stone'',
    ''sand'', ''iron'', ''steel'', ''gold'', ''jade'', ''pearl'', ''ruby'', ''opal'',
    ''dawn'', ''dusk'', ''night'', ''dream'', ''song'', ''bell'', ''drum'', ''horn'',
    ''flute'', ''harp'', ''king'', ''knight'', ''prince'', ''duke'', ''ace'', ''sage'',
    ''monk'', ''chief'', ''scout'', ''guard'', ''spark'', ''flame'', ''bolt'', ''flash'',
    ''glow'', ''beam'', ''ray'', ''pulse'', ''arc'', ''blade'', ''shield'', ''arrow'',
    ''lance'', ''crown'', ''helm'', ''forge'', ''anvil'', ''gate'', ''tower'', ''cat'',
    ''owl'', ''dove'', ''swan'', ''crane'', ''raven'', ''robin'', ''wren'', ''lark'',
    ''finch'', ''ship'', ''sail'', ''mast'', ''port'', ''reef'', ''tide'', ''cove'',
    ''byte'', ''code'', ''chip'', ''node'', ''link'', ''grid'', ''mesh'', ''core'',
    ''loop'', ''stack'', ''glass'', ''silk'', ''wool'', ''lace'', ''cord'', ''wire'',
    ''ring'', ''chain'', ''gem'', ''prism'']"

definition business_prefixes :: "string list" where
  "business_prefixes = [
    ''info'', ''contact'', ''support'', ''admin'', ''help'', ''service'', ''sales'', ''office'',
    ''team'', ''hello'', ''mail'', ''post'', ''inbox'', ''notify'', ''alert'', ''news'',
    ''update'', ''reply'', ''welcome'', ''connect'', ''dev'', ''tech'', ''ops'', ''eng'',
    ''web'', ''cloud'', ''host'', ''sys'', ''api'', ''data'', ''biz'', ''corp'',
    ''pro'', ''vip'', ''exec'', ''lead'', ''studio'', ''lab'', ''hub'', ''works'',
    ''forge'', ''craft'', ''build'', ''design'', ''digital'', ''media'', ''press'', ''brand'',
    ''shop'', ''hiring'']"

definition departments :: "string list" where
  "departments = [
    ''tech'', ''sales'', ''legal'', ''finance'', ''ops'', ''dev'', ''design'', ''marketing'',
    ''support'', ''admin'', ''eng'', ''research'', ''security'', ''data'', ''platform'', ''product'',
    ''growth'', ''global'', ''local'', ''us'', ''eu'', ''asia'', ''uk'', ''hq'',
    ''central'', ''east'', ''west'', ''north'', ''south'', ''main'', ''team'', ''group'',
    ''dept'', ''unit'', ''core'']"

definition nick_prefix_words :: "string list" where
  "nick_prefix_words = [
    ''the'', ''its'', ''im'', ''real'', ''just'', ''only'', ''hey'', ''not'']"

definition nick_suffix_tags :: "string list" where
  "nick_suffix_tags = [
    ''official'', ''real'', ''hq'', ''main'', ''pro'', ''vip'']"

text \<open>Words of lower-case letters.\<close>

definition lower_letter :: "char \<Rightarrow> bool" where
  "lower_letter c \<longleftrightarrow> c \<in> set ''abcdefghijklmnopqrstuvwxyz''"

definition word_of :: "nat \<Rightarrow> string \<Rightarrow> bool" where
  "word_of n w \<longleftrightarrow> n \<le> length w \<and> list_all lower_letter w"

lemma first_names_words: "list_all (word_of 3) first_names" "first_names \<noteq> []"
  by code_simp+

lemma last_names_words: "list_all (word_of 2) last_names" "last_names \<noteq> []"
  by code_simp+

lemma nicknames_words: "list_all (word_of 3) nicknames" "nicknames \<noteq> []"
  by code_simp+

lemma adjectives_words: "list_all (word_of 3) adjectives" "adjectives \<noteq> []"
  by code_simp+

lemma nouns_words: "list_all (word_of 3) nouns" "nouns \<noteq> []"
  by code_simp+

lemma business_prefixes_words: "list_all (word_of 3) business_prefixes" "business_prefixes \<noteq> []"
  by code_simp+

lemma departments_words: "list_all (word_of 2) departments" "departments \<noteq> []"
  by code_simp+

lemma nick_prefix_words_words: "list_all (word_of 2) nick_prefix_words" "nick_prefix_words \<noteq> []"
  by code_simp+

lemma nick_suffix_tags_words: "list_all (word_of 2) nick_suffix_tags" "nick_suffix_tags \<noteq> []"
  by code_simp+

end
