(* ===== verification/Prefix.thy ===== *)
theory Prefix
  imports Prelude PrefixData "HOL-Library.State_Monad"
begin

text \<open>
  \<open>internal/prefix/generator.go\<close>: random local parts of addresses. \<open>rand.IntN(n)\<close> is the parameter
  \<open>draw n\<close>, a computation over the state of the random source; what the code relies on is \<open>draw_law\<close>: it
  returns a number below \<open>n\<close>. The functions are written in the state monad, with the draws in the
  order of the code, and their properties hold for every sequence of draws (\<^const>\<open>pred_state\<close>).
\<close>

section \<open>The generator\<close>

definition pick :: "(nat \<Rightarrow> ('g, nat) state) \<Rightarrow> string list \<Rightarrow> ('g, string) state" where
  "pick draw xs = do { i \<leftarrow> draw (length xs); State_Monad.return (xs ! i) }"

definition number :: "(nat \<Rightarrow> ('g, nat) state) \<Rightarrow> nat \<Rightarrow> nat \<Rightarrow> ('g, string) state" where
  "number draw base n = do { i \<leftarrow> draw n; State_Monad.return (show_nat (base + i)) }"

definition two_digits :: "nat \<Rightarrow> string" where
  "two_digits n0 = (let n = n0 mod 100 in if n < 10 then ''0'' @ show_nat n else show_nat n)"

definition personal_suffix :: "(nat \<Rightarrow> ('g, nat) state) \<Rightarrow> ('g, string) state" where
  "personal_suffix draw = do {
     r \<leftarrow> draw 100;
     if r < 30 then State_Monad.return []
     else if r < 50 then number draw 0 100
     else if r < 65 then do { i \<leftarrow> draw 60; State_Monad.return (two_digits ((50 + i) mod 100)) }
     else if r < 75 then number draw 1960 67
     else if r < 88 then number draw 100 900
     else number draw 1000 9000
   }"

definition personal :: "(nat \<Rightarrow> ('g, nat) state) \<Rightarrow> ('g, string) state" where
  "personal draw = do {
     first \<leftarrow> pick draw first_names;
     last' \<leftarrow> pick draw last_names;
     suffix \<leftarrow> personal_suffix draw;
     k \<leftarrow> draw 15;
     if k < 4 then State_Monad.return (first @ ''.'' @ last' @ suffix)
     else if k < 6 then State_Monad.return (first @ last' @ suffix)
     else if k = 6 then State_Monad.return (first @ ''_'' @ last' @ suffix)
     else if k = 7 then State_Monad.return (first @ ''-'' @ last' @ suffix)
     else if k < 10 then State_Monad.return ([first ! 0] @ last' @ suffix)
     else if k = 10 then State_Monad.return ([first ! 0] @ ''.'' @ last' @ suffix)
     else if k = 11 then State_Monad.return (first @ ''.'' @ [last' ! 0] @ suffix)
     else if k = 12 then State_Monad.return (last' @ ''.'' @ first @ suffix)
     else if k = 13 then State_Monad.return (last' @ first @ suffix)
     else if suffix = [] then do { suffix \<leftarrow> number draw 0 1000; State_Monad.return (first @ suffix) }
     else State_Monad.return (first @ suffix)
   }"

definition nick_suffix :: "(nat \<Rightarrow> ('g, nat) state) \<Rightarrow> ('g, string) state" where
  "nick_suffix draw = do {
     r \<leftarrow> draw 100;
     if r < 20 then State_Monad.return []
     else if r < 45 then number draw 0 100
     else if r < 65 then number draw 100 900
     else if r < 80 then number draw 1000 9000
     else number draw 1960 67
   }"

definition separator :: "(nat \<Rightarrow> ('g, nat) state) \<Rightarrow> ('g, string) state" where
  "separator draw = do { i \<leftarrow> draw 2; State_Monad.return ([''.'', ''_''] ! i) }"

definition adjective_noun :: "(nat \<Rightarrow> ('g, nat) state) \<Rightarrow> string \<Rightarrow> ('g, string) state" where
  "adjective_noun draw sep = do {
     adj \<leftarrow> pick draw adjectives;
     noun \<leftarrow> pick draw nouns;
     suffix \<leftarrow> nick_suffix draw;
     State_Monad.return (adj @ sep @ noun @ suffix)
   }"

definition nickname :: "(nat \<Rightarrow> ('g, nat) state) \<Rightarrow> ('g, string) state" where
  "nickname draw = do {
     r \<leftarrow> draw 100;
     if r < 35 then do { nick \<leftarrow> pick draw nicknames; suffix \<leftarrow> nick_suffix draw; State_Monad.return (nick @ suffix) }
     else if r < 55 then adjective_noun draw []
     else if r < 70 then adjective_noun draw ''_''
     else if r < 82 then adjective_noun draw ''.''
     else if r < 92 then do { pre \<leftarrow> pick draw nick_prefix_words; nick \<leftarrow> pick draw nicknames; State_Monad.return (pre @ nick) }
     else do {
       nick \<leftarrow> pick draw nicknames;
       tag \<leftarrow> pick draw nick_suffix_tags;
       sep \<leftarrow> separator draw;
       State_Monad.return (nick @ sep @ tag)
     }
   }"

definition business :: "(nat \<Rightarrow> ('g, nat) state) \<Rightarrow> ('g, string) state" where
  "business draw = do {
     biz \<leftarrow> pick draw business_prefixes;
     if length biz < 3 then do {
       dept \<leftarrow> pick draw departments; sep \<leftarrow> separator draw; State_Monad.return (biz @ sep @ dept)
     } else do {
       r \<leftarrow> draw 100;
       if r < 35 then State_Monad.return biz
       else if r < 60 then do { dept \<leftarrow> pick draw departments; State_Monad.return (biz @ ''.'' @ dept) }
       else if r < 80 then do { dept \<leftarrow> pick draw departments; State_Monad.return (biz @ ''_'' @ dept) }
       else do { n \<leftarrow> number draw 0 100; State_Monad.return (biz @ n) }
     }
   }"

definition generate1 :: "(nat \<Rightarrow> ('g, nat) state) \<Rightarrow> ('g, string) state" where
  "generate1 draw = do {
     r \<leftarrow> draw 100;
     if r < 55 then personal draw else if r < 85 then nickname draw else business draw
   }"

text \<open>\<open>Generate\<close>: ten attempts, then a full name.\<close>

fun generate_loop :: "(nat \<Rightarrow> ('g, nat) state) \<Rightarrow> nat \<Rightarrow> ('g, string) state" where
  "generate_loop draw 0 = do {
     first \<leftarrow> pick draw first_names;
     last' \<leftarrow> pick draw last_names;
     State_Monad.return (first @ ''.'' @ last')
   }"
| "generate_loop draw (Suc n) = do {
     p \<leftarrow> generate1 draw;
     if 3 \<le> length p then State_Monad.return p else generate_loop draw n
   }"

definition generate :: "(nat \<Rightarrow> ('g, nat) state) \<Rightarrow> ('g, string) state" where
  "generate draw = generate_loop draw 10"

definition generate_for_domain :: "(nat \<Rightarrow> ('g, nat) state) \<Rightarrow> string \<Rightarrow> ('g, string) state" where
  "generate_for_domain draw domain = do { p \<leftarrow> generate draw; State_Monad.return (p @ ''@'' @ domain) }"

text \<open>The loop of \<open>GenerateN\<close>; the set \<open>seen\<close> is the set of the results.\<close>

fun generate_n_loop ::
  "(nat \<Rightarrow> ('g, nat) state) \<Rightarrow> nat \<Rightarrow> nat \<Rightarrow> string set \<Rightarrow> string list \<Rightarrow> ('g, string list) state" where
  "generate_n_loop draw n 0 seen result = State_Monad.return result"
| "generate_n_loop draw n (Suc attempts) seen result =
     (if n \<le> length result then State_Monad.return result
      else do {
        p \<leftarrow> generate draw;
        if p \<notin> seen then generate_n_loop draw n attempts (insert p seen) (result @ [p])
        else generate_n_loop draw n attempts seen result
      })"

definition generate_n :: "(nat \<Rightarrow> ('g, nat) state) \<Rightarrow> nat \<Rightarrow> ('g, string list) state" where
  "generate_n draw n = generate_n_loop draw n (n * 3) {} []"

section \<open>What is generated\<close>

definition draw_law :: "(nat \<Rightarrow> ('g, nat) state) \<Rightarrow> bool" where
  "draw_law draw \<longleftrightarrow> (\<forall>n > 0. pred_state (\<lambda>i. i < n) (draw n))"

text \<open>A local part: at least three characters, letters, digits and separators, a letter first.\<close>

definition local_char :: "char \<Rightarrow> bool" where
  "local_char c \<longleftrightarrow> lower_letter c \<or> is_digit c \<or> c \<in> set ''._-''"

definition local_part :: "string \<Rightarrow> bool" where
  "local_part p \<longleftrightarrow> 3 \<le> length p \<and> list_all local_char p \<and> lower_letter (hd p) \<and> last p \<notin> set ''._-''"

lemma pred_state_return [simp]: "pred_state P (State_Monad.return x) = P x"
  by (auto simp: pred_stateI dest: pred_stateD [where s = undefined])

lemma pred_state_bind:
  "pred_state Q m \<Longrightarrow> (\<And>x. Q x \<Longrightarrow> pred_state P (f x)) \<Longrightarrow> pred_state P (State_Monad.bind m f)"
  by (intro pred_stateI) (auto dest!: pred_stateD split: prod.splits)

lemma pred_state_if: "(b \<Longrightarrow> pred_state P m) \<Longrightarrow> (\<not> b \<Longrightarrow> pred_state P n) \<Longrightarrow> pred_state P (if b then m else n)"
  by simp

lemma pred_state_draw: "draw_law draw \<Longrightarrow> 0 < n \<Longrightarrow> pred_state (\<lambda>i. i < n) (draw n)"
  by (simp add: draw_law_def)

lemma pred_state_pick:
  assumes "draw_law draw" "xs \<noteq> []" "list_all P xs"
  shows "pred_state P (pick draw xs)"
  unfolding pick_def using assms
  by (intro pred_state_bind [OF pred_state_draw]) (auto simp: list_all_length)

text \<open>What may follow the word at the start of a local part.\<close>

definition rest_of :: "string \<Rightarrow> bool" where
  "rest_of r \<longleftrightarrow> list_all local_char r \<and> (r = [] \<or> last r \<notin> set ''._-'')"

lemma pred_state_number:
  assumes "draw_law draw" "0 < n"
  shows "pred_state (\<lambda>s. rest_of s \<and> s \<noteq> []) (number draw base n)"
proof -
  have "rest_of (show_nat k)" for k
  proof -
    have "list_all is_digit (show_nat k)" "show_nat k \<noteq> []" by (rule show_nat_digits) simp
    then have "list_all local_char (show_nat k)" "is_digit (last (show_nat k))"
      by (auto simp: local_char_def list_all_iff)
    then show ?thesis by (auto simp: rest_of_def is_digit_def)
  qed
  then show ?thesis unfolding number_def using assms
    by (intro pred_state_bind [OF pred_state_draw]) auto
qed

lemma rest_of_digits: "list_all is_digit s \<Longrightarrow> rest_of s"
  by (cases s rule: rev_cases) (auto simp: rest_of_def local_char_def list_all_iff is_digit_def)

lemma pred_state_suffixes:
  assumes "draw_law draw"
  shows "pred_state rest_of (personal_suffix draw)" "pred_state rest_of (nick_suffix draw)"
proof -
  have num: "pred_state rest_of (number draw base n)" if "0 < n" for base n
    using pred_state_number [OF assms that] by (rule state.pred_mono_strong) simp
  have two: "rest_of (two_digits n)" for n
  proof -
    have "list_all is_digit (two_digits n)"
      using show_nat_digits by (simp add: two_digits_def Let_def is_digit_def)
    then show ?thesis by (rule rest_of_digits)
  qed
  have nil: "rest_of []" by (simp add: rest_of_def)
  show "pred_state rest_of (personal_suffix draw)" "pred_state rest_of (nick_suffix draw)"
    unfolding personal_suffix_def nick_suffix_def
    by (intro pred_state_bind [OF pred_state_draw [OF assms]] pred_state_if num;
        simp add: num nil two)+
qed

lemma lower_letter_local: "lower_letter c \<Longrightarrow> local_char c \<and> c \<notin> set ''._-''"
  by (auto simp: local_char_def lower_letter_def)

lemma local_char_sep [simp]: "local_char (CHR ''.'')" "local_char (CHR ''_'')" "local_char (CHR ''-'')"
  by (simp_all add: local_char_def)

lemma word_append:
  assumes "word_of 1 w" "list_all local_char r" "r = [] \<or> last r \<notin> set ''._-''" "3 \<le> length w + length r"
  shows "local_part (w @ r)"
proof -
  have "w \<noteq> []" and l: "\<And>c. c \<in> set w \<Longrightarrow> lower_letter c"
    using assms(1) by (auto simp: word_of_def list_all_iff)
  then have "lower_letter (hd w)" "last w \<notin> set ''._-''" using lower_letter_local last_in_set by auto
  with l assms \<open>w \<noteq> []\<close> show ?thesis
    by (cases "r = []") (auto simp: local_part_def list_all_iff last_append dest: lower_letter_local)
qed

lemma word_of_rest:
  assumes "word_of n w" "0 < n"
  shows "w \<noteq> []" "list_all local_char w" "last w \<notin> set ''._-''" "n \<le> length w" "word_of 1 [w ! 0]"
    "local_char (w ! 0)" "word_of 1 w" "w ! 0 \<notin> set ''._-''"
proof -
  show ne: "w \<noteq> []" and "n \<le> length w" and "word_of 1 w" using assms by (auto simp: word_of_def)
  have l: "\<And>c. c \<in> set w \<Longrightarrow> lower_letter c" using assms by (auto simp: word_of_def list_all_iff)
  then show "list_all local_char w" by (auto simp: list_all_iff dest: lower_letter_local)
  have "lower_letter (last w)" "lower_letter (w ! 0)" using l ne by simp_all
  then show "last w \<notin> set ''._-''" "word_of 1 [w ! 0]" "local_char (w ! 0)" "w ! 0 \<notin> set ''._-''"
    by (auto simp: word_of_def dest: lower_letter_local)
qed

lemma local_part_word_rest:
  assumes "word_of n w" "0 < n" "rest_of r" "3 \<le> length w + length r"
  shows "local_part (w @ r)"
  using assms by (intro word_append) (auto simp: rest_of_def word_of_def)

lemma rest_of_word:
  assumes "list_all local_char a" "word_of n w" "0 < n" "rest_of r"
  shows "rest_of (a @ w @ r)"
  using assms word_of_rest [OF assms(2,3)] by (auto simp: rest_of_def last_append)

lemmas pick_rules =
  pred_state_pick [OF _ first_names_words(2) first_names_words(1)]
  pred_state_pick [OF _ last_names_words(2) last_names_words(1)]
  pred_state_pick [OF _ nicknames_words(2) nicknames_words(1)]
  pred_state_pick [OF _ adjectives_words(2) adjectives_words(1)]
  pred_state_pick [OF _ nouns_words(2) nouns_words(1)]
  pred_state_pick [OF _ business_prefixes_words(2) business_prefixes_words(1)]
  pred_state_pick [OF _ departments_words(2) departments_words(1)]
  pred_state_pick [OF _ nick_prefix_words_words(2) nick_prefix_words_words(1)]
  pred_state_pick [OF _ nick_suffix_tags_words(2) nick_suffix_tags_words(1)]

lemma personal_name_forms:
  assumes f: "word_of 3 first" and l: "word_of 2 last'" and s: "rest_of s"
  shows "local_part (first @ ''.'' @ last' @ s)" "local_part (first @ last' @ s)"
    "local_part (first @ ''_'' @ last' @ s)" "local_part (first @ ''-'' @ last' @ s)"
    "local_part ([first ! 0] @ last' @ s)" "local_part ([first ! 0] @ ''.'' @ last' @ s)"
    "local_part (first @ ''.'' @ [last' ! 0] @ s)" "local_part (last' @ ''.'' @ first @ s)"
    "local_part (last' @ first @ s)" "local_part (first @ s)"
proof -
  note F = word_of_rest [OF f] and L = word_of_rest [OF l]
  have len: "3 \<le> length first" "2 \<le> length last'" using F(4) L(4) by simp_all
  have ls: "rest_of (a @ last' @ s)" "rest_of (a @ [last' ! 0] @ s)" "rest_of (a @ first @ s)"
    if "list_all local_char a" for a
    using rest_of_word [OF that l _ s] rest_of_word [OF that L(5) _ s] rest_of_word [OF that f _ s] by simp_all
  note first = local_part_word_rest [OF f] and last = local_part_word_rest [OF l]
    and initial = local_part_word_rest [OF F(5)]
  show "local_part (first @ ''.'' @ last' @ s)" using len by (intro first ls) simp_all
  show "local_part (first @ ''_'' @ last' @ s)" using len by (intro first ls) simp_all
  show "local_part (first @ ''-'' @ last' @ s)" using len by (intro first ls) simp_all
  show "local_part (first @ last' @ s)" using len ls(1) [of "[]"] by (intro first) simp_all
  show "local_part ([first ! 0] @ last' @ s)" using len ls(1) [of "[]"] by (intro initial) simp_all
  show "local_part ([first ! 0] @ ''.'' @ last' @ s)" using len by (intro initial ls) simp_all
  show "local_part (first @ ''.'' @ [last' ! 0] @ s)" using len by (intro first ls) simp_all
  show "local_part (last' @ ''.'' @ first @ s)" using len by (intro last ls) simp_all
  show "local_part (last' @ first @ s)" using len ls(3) [of "[]"] by (intro last) simp_all
  show "local_part (first @ s)" using len s by (intro first) simp_all
qed

lemma pred_state_number_rest: "draw_law draw \<Longrightarrow> 0 < n \<Longrightarrow> pred_state rest_of (number draw base n)"
  by (rule state.pred_mono_strong [OF pred_state_number]) simp_all

lemma pred_state_returnI: "P x \<Longrightarrow> pred_state P (State_Monad.return x)"
  by simp

lemmas draw_rules =
  pick_rules [THEN pred_state_bind] pred_state_suffixes [THEN pred_state_bind]
  pred_state_draw [THEN pred_state_bind] pred_state_number_rest [THEN pred_state_bind]

lemma pred_state_personal: "draw_law draw \<Longrightarrow> pred_state local_part (personal draw)"
  unfolding personal_def
  by (intro draw_rules pred_state_if;
      (assumption | (rule pred_state_returnI, rule personal_name_forms, assumption, assumption, assumption) | simp)+)

lemma nickname_forms:
  assumes "word_of n w" "2 \<le> n" "word_of k v" "0 < k" "rest_of s" "list_all local_char a"
    and "3 \<le> n + k + length a"
  shows "local_part (w @ a @ v @ s)"
  using assms by (intro local_part_word_rest [OF assms(1)] rest_of_word [OF assms(6,3,4,5)])
    (auto simp: word_of_def)

lemma pred_state_separator: "draw_law draw \<Longrightarrow> pred_state (\<lambda>s. s \<in> {''.'', ''_''}) (separator draw)"
  unfolding separator_def
  by (intro pred_state_bind [OF pred_state_draw] pred_state_returnI) (auto simp: less_2_cases_iff)

lemma rest_of_Nil: "rest_of []"
  by (simp add: rest_of_def)

lemma pred_state_adjective_noun:
  "draw_law draw \<Longrightarrow> list_all local_char sep \<Longrightarrow> pred_state local_part (adjective_noun draw sep)"
  unfolding adjective_noun_def by (intro draw_rules pred_state_returnI; (assumption | rule nickname_forms | simp)+)

lemma local_part_words:
  assumes "word_of 3 w"
  shows "rest_of r \<Longrightarrow> local_part (w @ r)" "local_part w"
    "word_of 2 v \<Longrightarrow> local_part (w @ CHR ''.'' # v)" "word_of 2 v \<Longrightarrow> local_part (w @ CHR ''_'' # v)"
  using local_part_word_rest [OF assms] local_part_word_rest [OF assms, of "[]"] word_of_rest(4) [OF assms]
    nickname_forms [OF assms _ _ _ rest_of_Nil, of 2 v "''.''"] nickname_forms [OF assms _ _ _ rest_of_Nil, of 2 v "''_''"]
  by (simp_all add: rest_of_Nil)

lemma pred_state_nickname: "draw_law draw \<Longrightarrow> pred_state local_part (nickname draw)"
  unfolding nickname_def
  by (intro draw_rules pred_state_if pred_state_adjective_noun pred_state_separator [THEN pred_state_bind];
      (assumption | simp)+)
    (auto intro: local_part_words
      nickname_forms [where a = "[]" and s = "[]", simplified] nickname_forms [where s = "[]", simplified] simp: rest_of_Nil)

lemma pred_state_business: "draw_law draw \<Longrightarrow> pred_state local_part (business draw)"
  unfolding business_def
  by (intro draw_rules pred_state_if pred_state_separator [THEN pred_state_bind];
      (assumption | simp)+)
    (auto intro: local_part_words
      nickname_forms [where a = "[]" and s = "[]", simplified] nickname_forms [where s = "[]", simplified] simp: rest_of_Nil)

lemma pred_state_generate: "draw_law draw \<Longrightarrow> pred_state local_part (generate draw)"
proof -
  assume draw: "draw_law draw"
  have one: "pred_state local_part (generate1 draw)"
    unfolding generate1_def
    by (intro pred_state_bind [OF pred_state_draw [OF draw]] pred_state_if pred_state_personal pred_state_nickname
        pred_state_business draw) simp
  have fallback: "pred_state local_part (generate_loop draw 0)"
    unfolding generate_loop.simps
    by (intro draw_rules(1,2) pred_state_returnI draw) (rule personal_name_forms(1) [OF _ _ rest_of_Nil, unfolded append_Nil2])
  have "pred_state local_part (generate_loop draw n)" for n
  proof (induction n)
    case (Suc n)
    then show ?case unfolding generate_loop.simps
      by (intro pred_state_bind [OF one] pred_state_if pred_state_returnI) simp_all
  qed (rule fallback)
  then show ?thesis by (simp add: generate_def)
qed

lemma pred_state_generate_n_loop:
  assumes "draw_law draw" "distinct result" "list_all local_part result" "seen = set result" "length result \<le> n"
  shows "pred_state (\<lambda>ps. distinct ps \<and> list_all local_part ps \<and> length ps \<le> n)
    (generate_n_loop draw n attempts seen result)"
  using assms
proof (induction attempts arbitrary: seen result)
  case (Suc attempts)
  show ?case
  proof (cases "n \<le> length result")
    case False
    then show ?thesis using Suc.prems
      by (auto intro!: pred_state_bind [OF pred_state_generate] Suc.IH)
  qed (use Suc.prems in simp)
qed simp

lemma local_part_chars:
  assumes "local_part p"
  shows "to_lower p = p" "CHR ''@'' \<notin> set p" "trim_space p = p"
proof -
  have c: "lower_char c = c \<and> c \<noteq> CHR ''@'' \<and> \<not> is_space c" if "c \<in> set p" for c
  proof -
    have "local_char c" using assms that by (auto simp: local_part_def list_all_iff)
    then show ?thesis
      by (auto simp: local_char_def lower_letter_def lower_char_def is_digit_def is_space_def)
  qed
  then show "to_lower p = p" "CHR ''@'' \<notin> set p" by (auto simp: to_lower_def map_idI)
  have "p \<noteq> []" using assms by (auto simp: local_part_def)
  with c show "trim_space p = p" by (intro trim_space_trimmed) (auto simp: trimmed_def)
qed

lemma pred_state_generate_for_domain:
  assumes "draw_law draw"
  shows "pred_state (\<lambda>a. \<exists>p. a = p @ ''@'' @ domain \<and> local_part p \<and> to_lower p = p \<and>
      index_byte a (CHR ''@'') = Some (length p)) (generate_for_domain draw domain)"
  unfolding generate_for_domain_def
  by (intro pred_state_bind [OF pred_state_generate [OF assms]] pred_state_returnI)
    (auto simp: local_part_chars index_byte_append)

text \<open>
  C40: whatever the random numbers are, an address generated for a domain is a local part of at least
  three lower-case characters (a letter first, no separator last) and, behind the first at sign,
  that domain, so it passes the checks of an account's address; a batch has no duplicates and no more
  entries than asked for.
\<close>

theorem generated_addresses_valid:
  assumes "draw_law draw"
  shows "pred_state (\<lambda>a. \<exists>p. a = p @ ''@'' @ domain \<and> local_part p \<and> to_lower p = p \<and>
      index_byte a (CHR ''@'') = Some (length p)) (generate_for_domain draw domain) \<and>
    pred_state (\<lambda>ps. distinct ps \<and> list_all local_part ps \<and> length ps \<le> n) (generate_n draw n)"
proof (rule conjI [OF pred_state_generate_for_domain [OF assms]])
  show "pred_state (\<lambda>ps. distinct ps \<and> list_all local_part ps \<and> length ps \<le> n) (generate_n draw n)"
    unfolding generate_n_def by (rule pred_state_generate_n_loop [OF assms]) simp_all
qed

theorem generated_addresses_valid_witness:
  "pred_state (\<lambda>ps. distinct ps \<and> list_all local_part ps \<and> length ps \<le> 2)
     (generate_n (\<lambda>n. State (\<lambda>g. (g mod n, Suc g))) 2)"
proof -
  have "draw_law (\<lambda>n. State (\<lambda>g. (g mod n, Suc g)))" by (auto simp: draw_law_def)
  from generated_addresses_valid [OF this] show ?thesis by blast
qed

end
