(* ===== verification/Mongo.thy ===== *)
theory Mongo
  imports Model "HOL-Library.Multiset" "HOL-Library.Product_Lexorder"
begin

text \<open>
  The MongoDB driver as the store uses it (\<open>internal/store/store.go\<close>). The driver and the server are not
  part of the repository: a collection is a record of operations (\<open>collection\<close>) over an abstract state,
  a parameter of the store's functions. What the store relies on is the predicate \<open>collection_laws\<close>:
  the documented meaning of filters, updates, sort orders, unique indexes and of the results, where any
  operation may also fail, and a failed write may have been carried out.

  The filters and updates are the documents the code builds, as data types with the operators it uses;
  a document of a collection is the record of theory Model, seen through its schema: the fields its BSON
  encoding has, and what \<open>$set\<close> and a projection do to it. Dates have a precision of milliseconds.
  The last section has a collection in memory that satisfies the laws; it only serves the witnesses.
\<close>

section \<open>Filters, updates, options\<close>

datatype bson_value = BId object_id | BStr string | BInt int | BBool bool | BDate int

definition millis :: "time \<Rightarrow> int" where "millis t = t div millisecond"

datatype expr = EField string | ELit int | EAdd expr expr | EMax expr expr | EIfNull expr expr

datatype cond =
    CEq string bson_value
  | CNe string bson_value
  | CLt string bson_value
  | CLte string bson_value
  | CIn string "bson_value list"
  | CExists string bool
  | COr "cond list list"
  | CExprLte expr expr

type_synonym filter_doc = "cond list"

datatype update_op =
    USet string bson_value
  | USetExpr string expr
  | UInc string int
  | USetOnInsert string bson_value

datatype projection = ProjAll | ProjExclude "string list" | ProjInclude "string list"

text \<open>The only sort order of the code is \<open>{createdAt: -1, _id: -1}\<close>.\<close>

datatype sort_order = NaturalOrder | NewestFirst

record find_options =
  fo_sort :: sort_order
  fo_skip :: int
  fo_limit :: int
  fo_projection :: projection

definition find_all :: find_options where
  "find_all = \<lparr>fo_sort = NaturalOrder, fo_skip = 0, fo_limit = 0, fo_projection = ProjAll\<rparr>"

section \<open>What filters and updates mean\<close>

type_synonym fields = "string \<Rightarrow> bson_value option"

fun bson_less :: "bson_value \<Rightarrow> bson_value \<Rightarrow> bool" where
  "bson_less (BInt a) (BInt b) = (a < b)"
| "bson_less (BDate a) (BDate b) = (a < b)"
| "bson_less (BId a) (BId b) = (a < b)"
| "bson_less _ _ = False"

fun eval_expr :: "fields \<Rightarrow> expr \<Rightarrow> int option" where
  "eval_expr d (EField k) = (case d k of Some (BInt i) \<Rightarrow> Some i | _ \<Rightarrow> None)"
| "eval_expr d (ELit i) = Some i"
| "eval_expr d (EAdd a b) =
     (case (eval_expr d a, eval_expr d b) of (Some x, Some y) \<Rightarrow> Some (x + y) | _ \<Rightarrow> None)"
| "eval_expr d (EMax a b) =
     (case (eval_expr d a, eval_expr d b) of
        (Some x, Some y) \<Rightarrow> Some (max x y) | (Some x, None) \<Rightarrow> Some x | (None, r) \<Rightarrow> r)"
| "eval_expr d (EIfNull a b) = (case eval_expr d a of Some x \<Rightarrow> Some x | None \<Rightarrow> eval_expr d b)"

fun holds :: "fields \<Rightarrow> cond \<Rightarrow> bool" where
  "holds d (CEq k v) = (d k = Some v)"
| "holds d (CNe k v) = (d k \<noteq> Some v)"
| "holds d (CLt k v) = (case d k of Some w \<Rightarrow> bson_less w v | None \<Rightarrow> False)"
| "holds d (CLte k v) = (case d k of Some w \<Rightarrow> bson_less w v \<or> w = v | None \<Rightarrow> False)"
| "holds d (CIn k vs) = (case d k of Some w \<Rightarrow> w \<in> set vs | None \<Rightarrow> False)"
| "holds d (CExists k b) = ((d k \<noteq> None) = b)"
| "holds d (COr css) = list_ex (\<lambda>cs. list_all (\<lambda>c. holds d c) cs) css"
| "holds d (CExprLte a b) =
     (case (eval_expr d a, eval_expr d b) of
        (Some x, Some y) \<Rightarrow> x \<le> y | (Some x, None) \<Rightarrow> False | (None, _) \<Rightarrow> True)"

definition matches :: "filter_doc \<Rightarrow> fields \<Rightarrow> bool" where
  "matches f d = list_all (holds d) f"

text \<open>
  A schema: the fields of a document, \<open>$set\<close> of a field, a projection, the id, the order of
  \<^const>\<open>NewestFirst\<close>, which documents exclude each other by a unique index, and what encoding keeps.
\<close>

record 'd schema =
  sc_fields :: "'d \<Rightarrow> fields"
  sc_set :: "string \<Rightarrow> bson_value \<Rightarrow> 'd \<Rightarrow> 'd"
  sc_project :: "projection \<Rightarrow> 'd \<Rightarrow> 'd"
  sc_id :: "'d \<Rightarrow> object_id"
  sc_with_id :: "object_id \<Rightarrow> 'd \<Rightarrow> 'd"
  sc_key :: "'d \<Rightarrow> int \<times> nat"
  sc_clash :: "'d \<Rightarrow> 'd \<Rightarrow> bool"
  sc_stored :: "'d \<Rightarrow> 'd"
  sc_empty :: 'd

definition apply_op :: "'d schema \<Rightarrow> update_op \<Rightarrow> 'd \<Rightarrow> 'd" where
  "apply_op sc op d =
     (case op of
        USet k v \<Rightarrow> sc_set sc k v d
      | USetExpr k e \<Rightarrow> (case eval_expr (sc_fields sc d) e of Some i \<Rightarrow> sc_set sc k (BInt i) d | None \<Rightarrow> d)
      | UInc k i \<Rightarrow> sc_set sc k (BInt ((case sc_fields sc d k of Some (BInt j) \<Rightarrow> j | _ \<Rightarrow> 0) + i)) d
      | USetOnInsert k v \<Rightarrow> d)"

definition apply_update :: "'d schema \<Rightarrow> update_op list \<Rightarrow> 'd \<Rightarrow> 'd" where
  "apply_update sc us d = foldl (\<lambda>d u. apply_op sc u d) d us"

text \<open>The document an upsert inserts when no document matches.\<close>

definition upserted :: "'d schema \<Rightarrow> update_op list \<Rightarrow> object_id \<Rightarrow> 'd" where
  "upserted sc us i =
     apply_update sc (map (\<lambda>u. case u of USetOnInsert k v \<Rightarrow> USet k v | _ \<Rightarrow> u) us) (sc_with_id sc i (sc_empty sc))"

section \<open>A collection\<close>

datatype mongo_error = NoDocuments | DuplicateKeyError | MongoFailure string

record update_result =
  ur_matched :: int
  ur_modified :: int

record ('d, 's) collection =
  co_find_one :: "filter_doc \<Rightarrow> projection \<Rightarrow> 's \<Rightarrow> mongo_error + 'd"
  co_find :: "filter_doc \<Rightarrow> find_options \<Rightarrow> 's \<Rightarrow> mongo_error + 'd list"
  co_count :: "filter_doc \<Rightarrow> 's \<Rightarrow> mongo_error + int"
  co_sum :: "filter_doc \<Rightarrow> expr \<Rightarrow> 's \<Rightarrow> mongo_error + int option"
  co_insert_one :: "'d \<Rightarrow> 's \<Rightarrow> (mongo_error + object_id) \<times> 's"
  co_update_one :: "filter_doc \<Rightarrow> update_op list \<Rightarrow> 's \<Rightarrow> (mongo_error + update_result) \<times> 's"
  co_upsert_one :: "filter_doc \<Rightarrow> update_op list \<Rightarrow> 's \<Rightarrow> (mongo_error + update_result) \<times> 's"
  co_update_many :: "filter_doc \<Rightarrow> update_op list \<Rightarrow> 's \<Rightarrow> (mongo_error + update_result) \<times> 's"
  co_delete_one :: "filter_doc \<Rightarrow> 's \<Rightarrow> (mongo_error + int) \<times> 's"
  co_delete_many :: "filter_doc \<Rightarrow> 's \<Rightarrow> (mongo_error + int) \<times> 's"

definition matching :: "'d schema \<Rightarrow> filter_doc \<Rightarrow> 'd list \<Rightarrow> 'd list" where
  "matching sc f xs = filter (\<lambda>x. matches f (sc_fields sc x)) xs"

text \<open>Which lists a query may return: a page of the matching documents in the order asked for.\<close>

definition selects :: "'d schema \<Rightarrow> filter_doc \<Rightarrow> find_options \<Rightarrow> 'd list \<Rightarrow> 'd list \<Rightarrow> bool" where
  "selects sc f opts xs ds \<longleftrightarrow>
     0 \<le> fo_skip opts \<and>
     (\<exists>ys. mset ys = mset (matching sc f xs) \<and>
        (fo_sort opts = NewestFirst \<longrightarrow> sorted (rev (map (sc_key sc) ys))) \<and>
        ds = map (sc_project sc (fo_projection opts))
               (let rest = drop (nat (fo_skip opts)) ys in
                if fo_limit opts = 0 then rest else take (nat \<bar>fo_limit opts\<bar>) rest))"

text \<open>One document updated, or none, when none matches.\<close>

definition updates_one :: "'d schema \<Rightarrow> filter_doc \<Rightarrow> update_op list \<Rightarrow> 'd list \<Rightarrow> 'd list \<Rightarrow> bool" where
  "updates_one sc f us xs ys \<longleftrightarrow>
     (\<exists>l x r. xs = l @ x # r \<and> matches f (sc_fields sc x) \<and> ys = l @ apply_update sc us x # r)"

definition updates_many :: "'d schema \<Rightarrow> filter_doc \<Rightarrow> update_op list \<Rightarrow> 'd list \<Rightarrow> 'd list" where
  "updates_many sc f us xs = map (\<lambda>x. if matches f (sc_fields sc x) then apply_update sc us x else x) xs"

definition inserts :: "'d schema \<Rightarrow> 'd \<Rightarrow> object_id \<Rightarrow> 'd list \<Rightarrow> 'd list \<Rightarrow> bool" where
  "inserts sc d i xs ys \<longleftrightarrow>
     (sc_id sc d \<noteq> 0 \<longrightarrow> i = sc_id sc d) \<and> i \<noteq> 0 \<and>
     (let d' = sc_stored sc (sc_with_id sc i d) in
      ys = xs @ [d'] \<and> (\<forall>x \<in> set xs. sc_id sc x \<noteq> i \<and> \<not> sc_clash sc x d'))"

definition upserts :: "'d schema \<Rightarrow> update_op list \<Rightarrow> 'd list \<Rightarrow> 'd list \<Rightarrow> bool" where
  "upserts sc us xs ys \<longleftrightarrow>
     (\<exists>i. i \<noteq> 0 \<and> ys = xs @ [upserted sc us i] \<and> (\<forall>x \<in> set xs. sc_id sc x \<noteq> i \<and> \<not> sc_clash sc x (upserted sc us i)))"

text \<open>A unique index refuses a document: its id or its key is taken.\<close>

definition taken :: "'d schema \<Rightarrow> 'd \<Rightarrow> 'd list \<Rightarrow> bool" where
  "taken sc d xs \<longleftrightarrow>
     (\<exists>i x. i \<noteq> 0 \<and> (sc_id sc d \<noteq> 0 \<longrightarrow> i = sc_id sc d) \<and> x \<in> set xs \<and>
        (sc_id sc x = i \<or> sc_clash sc x (sc_stored sc (sc_with_id sc i d))))"

definition find_laws :: "'d schema \<Rightarrow> ('s \<Rightarrow> 'd list) \<Rightarrow> ('d, 's) collection \<Rightarrow> bool" where
  "find_laws sc docs co \<longleftrightarrow>
     (\<forall>f p s. case co_find_one co f p s of
        Inr d \<Rightarrow> \<exists>x \<in> set (matching sc f (docs s)). d = sc_project sc p x
      | Inl NoDocuments \<Rightarrow> matching sc f (docs s) = []
      | Inl e \<Rightarrow> e \<noteq> DuplicateKeyError) \<and>
     (\<forall>f opts s ds. co_find co f opts s = Inr ds \<longrightarrow> selects sc f opts (docs s) ds) \<and>
     (\<forall>f s n. co_count co f s = Inr n \<longrightarrow> n = int (length (matching sc f (docs s)))) \<and>
     (\<forall>f e s r. co_sum co f e s = Inr r \<longrightarrow>
        r = (if matching sc f (docs s) = [] then None
             else Some (sum_list (map (\<lambda>x. case eval_expr (sc_fields sc x) e of Some i \<Rightarrow> i | None \<Rightarrow> 0)
                    (matching sc f (docs s))))))"

definition insert_laws :: "'d schema \<Rightarrow> ('s \<Rightarrow> 'd list) \<Rightarrow> ('s \<Rightarrow> 'r) \<Rightarrow> ('d, 's) collection \<Rightarrow> bool" where
  "insert_laws sc docs frame co \<longleftrightarrow>
     (\<forall>d s. case co_insert_one co d s of
        (Inr i, s') \<Rightarrow> inserts sc d i (docs s) (docs s') \<and> frame s' = frame s
      | (Inl DuplicateKeyError, s') \<Rightarrow> docs s' = docs s \<and> frame s' = frame s \<and> taken sc d (docs s)
      | (Inl e, s') \<Rightarrow> (docs s' = docs s \<or> (\<exists>i. inserts sc d i (docs s) (docs s'))) \<and> frame s' = frame s)"

definition update_laws :: "'d schema \<Rightarrow> ('s \<Rightarrow> 'd list) \<Rightarrow> ('s \<Rightarrow> 'r) \<Rightarrow> ('d, 's) collection \<Rightarrow> bool" where
  "update_laws sc docs frame co \<longleftrightarrow>
     (\<forall>f us s. case co_update_one co f us s of
        (Inr r, s') \<Rightarrow> frame s' = frame s \<and>
          (if ur_matched r = 0 then matching sc f (docs s) = [] \<and> docs s' = docs s
           else ur_matched r = 1 \<and> updates_one sc f us (docs s) (docs s'))
      | (Inl e, s') \<Rightarrow> frame s' = frame s \<and> (docs s' = docs s \<or> updates_one sc f us (docs s) (docs s'))) \<and>
     (\<forall>f us s. case co_upsert_one co f us s of
        (Inr r, s') \<Rightarrow> frame s' = frame s \<and>
          (if ur_matched r = 0
           then matching sc f (docs s) = [] \<and> upserts sc us (docs s) (docs s')
           else updates_one sc f us (docs s) (docs s'))
      | (Inl e, s') \<Rightarrow> frame s' = frame s \<and>
          (docs s' = docs s \<or> updates_one sc f us (docs s) (docs s') \<or>
           matching sc f (docs s) = [] \<and> upserts sc us (docs s) (docs s'))) \<and>
     (\<forall>f us s. case co_update_many co f us s of
        (Inr r, s') \<Rightarrow> frame s' = frame s \<and> docs s' = updates_many sc f us (docs s) \<and>
          0 \<le> ur_modified r \<and> ur_modified r \<le> int (length (matching sc f (docs s)))
      | (Inl e, s') \<Rightarrow> frame s' = frame s \<and>
          list_all2 (\<lambda>x y. y = x \<or> matches f (sc_fields sc x) \<and> y = apply_update sc us x) (docs s) (docs s'))"

definition delete_laws :: "'d schema \<Rightarrow> ('s \<Rightarrow> 'd list) \<Rightarrow> ('s \<Rightarrow> 'r) \<Rightarrow> ('d, 's) collection \<Rightarrow> bool" where
  "delete_laws sc docs frame co \<longleftrightarrow>
     (\<forall>f s. case co_delete_one co f s of
        (Inr n, s') \<Rightarrow> frame s' = frame s \<and>
          (if n = 0 then matching sc f (docs s) = [] \<and> docs s' = docs s
           else n = 1 \<and> (\<exists>l x r. docs s = l @ x # r \<and> matches f (sc_fields sc x) \<and> docs s' = l @ r))
      | (Inl e, s') \<Rightarrow> frame s' = frame s \<and>
          (docs s' = docs s \<or> (\<exists>l x r. docs s = l @ x # r \<and> matches f (sc_fields sc x) \<and> docs s' = l @ r))) \<and>
     (\<forall>f s. case co_delete_many co f s of
        (Inr n, s') \<Rightarrow> frame s' = frame s \<and> docs s' = filter (\<lambda>x. \<not> matches f (sc_fields sc x)) (docs s)
      | (Inl e, s') \<Rightarrow> frame s' = frame s \<and>
          (\<exists>keep. docs s' = filter (\<lambda>x. keep x \<or> \<not> matches f (sc_fields sc x)) (docs s)))"

definition collection_laws :: "'d schema \<Rightarrow> ('s \<Rightarrow> 'd list) \<Rightarrow> ('s \<Rightarrow> 'r) \<Rightarrow> ('d, 's) collection \<Rightarrow> bool" where
  "collection_laws sc docs frame co \<longleftrightarrow>
     find_laws sc docs co \<and> insert_laws sc docs frame co \<and> update_laws sc docs frame co \<and>
     delete_laws sc docs frame co"

section \<open>A collection in memory\<close>

fun update_first :: "('d \<Rightarrow> bool) \<Rightarrow> ('d \<Rightarrow> 'd list) \<Rightarrow> 'd list \<Rightarrow> 'd list" where
  "update_first p g [] = []"
| "update_first p g (x # xs) = (if p x then g x @ xs else x # update_first p g xs)"

definition fresh_id :: "'d schema \<Rightarrow> 'd list \<Rightarrow> object_id" where
  "fresh_id sc xs = (let taken = sc_id sc ` set xs in
     the (find (\<lambda>i. i \<noteq> 0 \<and> i \<notin> taken) (map of_nat [1..<length xs + 2])))"

definition mem_insert ::
  "'d schema \<Rightarrow> ('s \<Rightarrow> 'd list) \<Rightarrow> ('d list \<Rightarrow> 's \<Rightarrow> 's) \<Rightarrow> 'd \<Rightarrow> 's \<Rightarrow> (mongo_error + object_id) \<times> 's" where
  "mem_insert sc get put d s =
     (let i = (if sc_id sc d = 0 then fresh_id sc (get s) else sc_id sc d);
          d' = sc_stored sc (sc_with_id sc i d)
      in if i = 0 then (Inl (MongoFailure ''no id''), s)
         else if list_ex (\<lambda>x. sc_id sc x = i \<or> sc_clash sc x d') (get s) then (Inl DuplicateKeyError, s)
         else (Inr i, put (get s @ [d']) s))"

definition mem_upsert ::
  "'d schema \<Rightarrow> ('s \<Rightarrow> 'd list) \<Rightarrow> ('d list \<Rightarrow> 's \<Rightarrow> 's) \<Rightarrow> filter_doc \<Rightarrow> update_op list \<Rightarrow> 's
     \<Rightarrow> (mongo_error + update_result) \<times> 's" where
  "mem_upsert sc get put f us s =
     (if matching sc f (get s) = []
      then (let i = fresh_id sc (get s) in
            if i = 0 then (Inl (MongoFailure ''no id''), s)
            else if list_ex (\<lambda>x. sc_id sc x = i \<or> sc_clash sc x (upserted sc us i)) (get s) then (Inl DuplicateKeyError, s)
            else (Inr \<lparr>ur_matched = 0, ur_modified = 0\<rparr>, put (get s @ [upserted sc us i]) s))
      else (Inr \<lparr>ur_matched = 1, ur_modified = 1\<rparr>,
            put (update_first (\<lambda>x. matches f (sc_fields sc x)) (\<lambda>x. [apply_update sc us x]) (get s)) s))"

definition mem_collection ::
  "'d schema \<Rightarrow> ('s \<Rightarrow> 'd list) \<Rightarrow> ('d list \<Rightarrow> 's \<Rightarrow> 's) \<Rightarrow> ('d, 's) collection" where
  "mem_collection sc get put =
     \<lparr>co_find_one = (\<lambda>f p s. case matching sc f (get s) of [] \<Rightarrow> Inl NoDocuments | x # xs \<Rightarrow> Inr (sc_project sc p x)),
      co_find = (\<lambda>f opts s.
        if fo_skip opts < 0 then Inl (MongoFailure ''skip'')
        else
          (let ys = (case fo_sort opts of NaturalOrder \<Rightarrow> matching sc f (get s)
                     | NewestFirst \<Rightarrow> rev (sort_key (sc_key sc) (matching sc f (get s))));
               rest = drop (nat (fo_skip opts)) ys
           in Inr (map (sc_project sc (fo_projection opts))
                (if fo_limit opts = 0 then rest else take (nat \<bar>fo_limit opts\<bar>) rest)))),
      co_count = (\<lambda>f s. Inr (int (length (matching sc f (get s))))),
      co_sum = (\<lambda>f e s. Inr (if matching sc f (get s) = [] then None
        else Some (sum_list (map (\<lambda>x. case eval_expr (sc_fields sc x) e of Some i \<Rightarrow> i | None \<Rightarrow> 0)
               (matching sc f (get s)))))),
      co_insert_one = mem_insert sc get put,
      co_update_one = (\<lambda>f us s.
        if matching sc f (get s) = [] then (Inr \<lparr>ur_matched = 0, ur_modified = 0\<rparr>, s)
        else (Inr \<lparr>ur_matched = 1, ur_modified = 1\<rparr>,
              put (update_first (\<lambda>x. matches f (sc_fields sc x)) (\<lambda>x. [apply_update sc us x]) (get s)) s)),
      co_upsert_one = mem_upsert sc get put,
      co_update_many = (\<lambda>f us s. (Inr \<lparr>ur_matched = int (length (matching sc f (get s))),
        ur_modified = int (length (matching sc f (get s)))\<rparr>, put (updates_many sc f us (get s)) s)),
      co_delete_one = (\<lambda>f s.
        if matching sc f (get s) = [] then (Inr 0, s)
        else (Inr 1, put (update_first (\<lambda>x. matches f (sc_fields sc x)) (\<lambda>x. []) (get s)) s)),
      co_delete_many = (\<lambda>f s. (Inr (int (length (matching sc f (get s)))),
        put (filter (\<lambda>x. \<not> matches f (sc_fields sc x)) (get s)) s))\<rparr>"

lemma update_first_splits:
  "filter p xs \<noteq> [] \<Longrightarrow> \<exists>l x r. xs = l @ x # r \<and> p x \<and> update_first p g xs = l @ g x @ r"
proof (induction xs)
  case (Cons y ys)
  show ?case
  proof (cases "p y")
    case True
    then show ?thesis by (intro exI [of _ "[]"] exI [of _ y] exI [of _ ys]) simp
  next
    case False
    with Cons obtain l x r where "ys = l @ x # r" "p x" "update_first p g ys = l @ g x @ r" by auto
    with False show ?thesis by (intro exI [of _ "y # l"] exI [of _ x] exI [of _ r]) simp
  qed
qed simp

text \<open>A piece of the state: what is put is got, and the frame is left alone.\<close>

definition piece :: "('s \<Rightarrow> 'd list) \<Rightarrow> ('d list \<Rightarrow> 's \<Rightarrow> 's) \<Rightarrow> ('s \<Rightarrow> 'r) \<Rightarrow> bool" where
  "piece get put frame \<longleftrightarrow> (\<forall>xs s. get (put xs s) = xs \<and> frame (put xs s) = frame s)"

lemma mem_find_laws: "find_laws sc get (mem_collection sc get put)"
  unfolding find_laws_def
proof (intro conjI allI impI)
  show "case co_find_one (mem_collection sc get put) f p s of
        Inr d \<Rightarrow> \<exists>x \<in> set (matching sc f (get s)). d = sc_project sc p x
      | Inl NoDocuments \<Rightarrow> matching sc f (get s) = []
      | Inl e \<Rightarrow> e \<noteq> DuplicateKeyError" for f p s
    by (cases "matching sc f (get s)") (auto simp: mem_collection_def)
  fix f opts s ds
  assume "co_find (mem_collection sc get put) f opts s = Inr ds"
  then show "selects sc f opts (get s) ds"
    unfolding selects_def
    by (intro conjI exI [of _ "case fo_sort opts of NaturalOrder \<Rightarrow> matching sc f (get s)
        | NewestFirst \<Rightarrow> rev (sort_key (sc_key sc) (matching sc f (get s)))"])
      (auto simp: mem_collection_def Let_def rev_map split: sort_order.splits if_splits)
qed (auto simp: mem_collection_def)

lemma mem_insert_laws: "piece get put frame \<Longrightarrow> insert_laws sc get frame (mem_collection sc get put)"
  unfolding insert_laws_def mem_collection_def
  by (auto simp: mem_insert_def inserts_def taken_def piece_def Let_def list_ex_iff split: if_splits)

lemma mem_update_laws:
  assumes "piece get put frame" shows "update_laws sc get frame (mem_collection sc get put)"
proof -
  have one: "updates_one sc f us (get s) (update_first (\<lambda>x. matches f (sc_fields sc x)) (\<lambda>x. [apply_update sc us x]) (get s))"
    if "matching sc f (get s) \<noteq> []" for f us s
    using update_first_splits [of "\<lambda>x. matches f (sc_fields sc x)" "get s" "\<lambda>x. [apply_update sc us x]"] that
    by (auto simp: updates_one_def matching_def)
  show ?thesis
    using assms one unfolding update_laws_def mem_collection_def
    by (auto simp: mem_upsert_def upserts_def piece_def Let_def list_ex_iff split: if_splits)
qed

lemma mem_delete_laws:
  assumes "piece get put frame" shows "delete_laws sc get frame (mem_collection sc get put)"
proof -
  have one: "\<exists>l x r. get s = l @ x # r \<and> matches f (sc_fields sc x) \<and>
      update_first (\<lambda>x. matches f (sc_fields sc x)) (\<lambda>x. []) (get s) = l @ r"
    if "matching sc f (get s) \<noteq> []" for f s
    using update_first_splits [of "\<lambda>x. matches f (sc_fields sc x)" "get s" "\<lambda>x. []"] that
    by (auto simp: matching_def)
  show ?thesis
    using assms one unfolding delete_laws_def mem_collection_def
    by (auto simp: piece_def split: if_splits)
qed

lemma mem_collection_laws:
  "piece get put frame \<Longrightarrow> collection_laws sc get frame (mem_collection sc get put)"
  by (simp add: collection_laws_def mem_find_laws mem_insert_laws mem_update_laws mem_delete_laws)

section \<open>The laws, one operation at a time\<close>

lemma find_one_Inr:
  assumes "collection_laws sc docs frame co" "co_find_one co f p s = Inr d"
  obtains x where "x \<in> set (docs s)" "matches f (sc_fields sc x)" "d = sc_project sc p x"
proof -
  from assms(1) have "case co_find_one co f p s of
        Inr d \<Rightarrow> \<exists>x \<in> set (matching sc f (docs s)). d = sc_project sc p x
      | Inl NoDocuments \<Rightarrow> matching sc f (docs s) = []
      | Inl e \<Rightarrow> e \<noteq> DuplicateKeyError"
    unfolding collection_laws_def find_laws_def by (elim conjE) (drule spec [of _ f], drule spec [of _ p], drule spec [of _ s])
  then show thesis using assms(2) that by (auto simp: matching_def)
qed

lemma find_one_NoDocuments:
  assumes "collection_laws sc docs frame co" "co_find_one co f p s = Inl NoDocuments"
    and "x \<in> set (docs s)"
  shows "\<not> matches f (sc_fields sc x)"
proof -
  from assms(1) have "case co_find_one co f p s of
        Inr d \<Rightarrow> \<exists>x \<in> set (matching sc f (docs s)). d = sc_project sc p x
      | Inl NoDocuments \<Rightarrow> matching sc f (docs s) = []
      | Inl e \<Rightarrow> e \<noteq> DuplicateKeyError"
    unfolding collection_laws_def find_laws_def by (elim conjE) (drule spec [of _ f], drule spec [of _ p], drule spec [of _ s])
  then show ?thesis using assms(2,3) by (simp add: matching_def filter_empty_conv)
qed

lemma find_law:
  assumes "collection_laws sc docs frame co" "co_find co f opts s = Inr ds"
  shows "selects sc f opts (docs s) ds"
  using assms(1) unfolding collection_laws_def find_laws_def
  by (elim conjE) (drule spec [of _ f], drule spec [of _ opts], drule spec [of _ s], drule spec [of _ ds], erule mp, rule assms(2))

lemma sum_law:
  assumes "collection_laws sc docs frame co" "co_sum co f e s = Inr r"
  shows "r = (if matching sc f (docs s) = [] then None
     else Some (sum_list (map (\<lambda>x. case eval_expr (sc_fields sc x) e of Some i \<Rightarrow> i | None \<Rightarrow> 0) (matching sc f (docs s)))))"
  using assms(1) unfolding collection_laws_def find_laws_def
  by (elim conjE) (drule spec [of _ f], drule spec [of _ e], drule spec [of _ s], drule spec [of _ r], erule mp, rule assms(2))

lemma count_law:
  assumes "collection_laws sc docs frame co" "co_count co f s = Inr n"
  shows "n = int (length (matching sc f (docs s)))"
  using assms(1) unfolding collection_laws_def find_laws_def
  by (elim conjE) (drule spec [of _ f], drule spec [of _ s], drule spec [of _ n], erule mp, rule assms(2))

lemma insert_law:
  assumes "collection_laws sc docs frame co" "co_insert_one co d s = (r, s')"
  shows "frame s' = frame s"
    "case r of Inr i \<Rightarrow> inserts sc d i (docs s) (docs s')
     | Inl e \<Rightarrow> docs s' = docs s \<or> e \<noteq> DuplicateKeyError \<and> (\<exists>i. inserts sc d i (docs s) (docs s'))"
    "r = Inl DuplicateKeyError \<Longrightarrow> taken sc d (docs s)"
proof -
  from assms(1) have "case co_insert_one co d s of
        (Inr i, s') \<Rightarrow> inserts sc d i (docs s) (docs s') \<and> frame s' = frame s
      | (Inl DuplicateKeyError, s') \<Rightarrow> docs s' = docs s \<and> frame s' = frame s \<and> taken sc d (docs s)
      | (Inl e, s') \<Rightarrow> (docs s' = docs s \<or> (\<exists>i. inserts sc d i (docs s) (docs s'))) \<and> frame s' = frame s"
    unfolding collection_laws_def insert_laws_def by (elim conjE) (drule spec [of _ d], drule spec [of _ s])
  then show "frame s' = frame s"
    "case r of Inr i \<Rightarrow> inserts sc d i (docs s) (docs s')
     | Inl e \<Rightarrow> docs s' = docs s \<or> e \<noteq> DuplicateKeyError \<and> (\<exists>i. inserts sc d i (docs s) (docs s'))"
    "r = Inl DuplicateKeyError \<Longrightarrow> taken sc d (docs s)"
    using assms(2) by (auto split: sum.splits mongo_error.splits)
qed

lemma update_one_law:
  assumes "collection_laws sc docs frame co" "co_update_one co f us s = (r, s')"
  shows "frame s' = frame s"
    "case r of Inr u \<Rightarrow>
       (if ur_matched u = 0 then matching sc f (docs s) = [] \<and> docs s' = docs s
        else ur_matched u = 1 \<and> updates_one sc f us (docs s) (docs s'))
     | Inl e \<Rightarrow> docs s' = docs s \<or> updates_one sc f us (docs s) (docs s')"
proof -
  from assms(1) have "case co_update_one co f us s of
        (Inr r, s') \<Rightarrow> frame s' = frame s \<and>
          (if ur_matched r = 0 then matching sc f (docs s) = [] \<and> docs s' = docs s
           else ur_matched r = 1 \<and> updates_one sc f us (docs s) (docs s'))
      | (Inl e, s') \<Rightarrow> frame s' = frame s \<and> (docs s' = docs s \<or> updates_one sc f us (docs s) (docs s'))"
    unfolding collection_laws_def update_laws_def by (elim conjE) (drule spec [of _ f], drule spec [of _ us], drule spec [of _ s])
  then show "frame s' = frame s"
    "case r of Inr u \<Rightarrow>
       (if ur_matched u = 0 then matching sc f (docs s) = [] \<and> docs s' = docs s
        else ur_matched u = 1 \<and> updates_one sc f us (docs s) (docs s'))
     | Inl e \<Rightarrow> docs s' = docs s \<or> updates_one sc f us (docs s) (docs s')"
    using assms(2) by (auto split: sum.splits)
qed

lemma update_many_law:
  assumes "collection_laws sc docs frame co" "co_update_many co f us s = (r, s')"
  shows "frame s' = frame s"
    "case r of Inr u \<Rightarrow> docs s' = updates_many sc f us (docs s) \<and>
         0 \<le> ur_modified u \<and> ur_modified u \<le> int (length (matching sc f (docs s)))
     | Inl e \<Rightarrow> list_all2 (\<lambda>x y. y = x \<or> matches f (sc_fields sc x) \<and> y = apply_update sc us x) (docs s) (docs s')"
proof -
  from assms(1) have "case co_update_many co f us s of
        (Inr r, s') \<Rightarrow> frame s' = frame s \<and> docs s' = updates_many sc f us (docs s) \<and>
          0 \<le> ur_modified r \<and> ur_modified r \<le> int (length (matching sc f (docs s)))
      | (Inl e, s') \<Rightarrow> frame s' = frame s \<and>
          list_all2 (\<lambda>x y. y = x \<or> matches f (sc_fields sc x) \<and> y = apply_update sc us x) (docs s) (docs s')"
    unfolding collection_laws_def update_laws_def by (elim conjE) (drule spec [of _ f], drule spec [of _ us], drule spec [of _ s])
  then show "frame s' = frame s"
    "case r of Inr u \<Rightarrow> docs s' = updates_many sc f us (docs s) \<and>
         0 \<le> ur_modified u \<and> ur_modified u \<le> int (length (matching sc f (docs s)))
     | Inl e \<Rightarrow> list_all2 (\<lambda>x y. y = x \<or> matches f (sc_fields sc x) \<and> y = apply_update sc us x) (docs s) (docs s')"
    using assms(2) by (auto split: sum.splits)
qed

lemma delete_one_law:
  assumes "collection_laws sc docs frame co" "co_delete_one co f s = (r, s')"
  shows "frame s' = frame s"
    "docs s' = docs s \<or> (\<exists>l x r. docs s = l @ x # r \<and> matches f (sc_fields sc x) \<and> docs s' = l @ r)"
proof -
  from assms(1) have "case co_delete_one co f s of
        (Inr n, s') \<Rightarrow> frame s' = frame s \<and>
          (if n = 0 then matching sc f (docs s) = [] \<and> docs s' = docs s
           else n = 1 \<and> (\<exists>l x r. docs s = l @ x # r \<and> matches f (sc_fields sc x) \<and> docs s' = l @ r))
      | (Inl e, s') \<Rightarrow> frame s' = frame s \<and>
          (docs s' = docs s \<or> (\<exists>l x r. docs s = l @ x # r \<and> matches f (sc_fields sc x) \<and> docs s' = l @ r))"
    unfolding collection_laws_def delete_laws_def by (elim conjE) (drule spec [of _ f], drule spec [of _ s])
  then show "frame s' = frame s"
    "docs s' = docs s \<or> (\<exists>l x r. docs s = l @ x # r \<and> matches f (sc_fields sc x) \<and> docs s' = l @ r)"
    using assms(2) by (auto split: sum.splits if_splits)
qed

lemma delete_many_law:
  assumes "collection_laws sc docs frame co" "co_delete_many co f s = (r, s')"
  shows "frame s' = frame s"
    "\<exists>keep. docs s' = filter (\<lambda>x. keep x \<or> \<not> matches f (sc_fields sc x)) (docs s)"
proof -
  from assms(1) have "case co_delete_many co f s of
        (Inr n, s') \<Rightarrow> frame s' = frame s \<and> docs s' = filter (\<lambda>x. \<not> matches f (sc_fields sc x)) (docs s)
      | (Inl e, s') \<Rightarrow> frame s' = frame s \<and>
          (\<exists>keep. docs s' = filter (\<lambda>x. keep x \<or> \<not> matches f (sc_fields sc x)) (docs s))"
    unfolding collection_laws_def delete_laws_def by (elim conjE) (drule spec [of _ f], drule spec [of _ s])
  then show "frame s' = frame s"
    "\<exists>keep. docs s' = filter (\<lambda>x. keep x \<or> \<not> matches f (sc_fields sc x)) (docs s)"
    using assms(2) by (auto split: sum.splits intro: exI [of _ "\<lambda>_. False"])
qed

lemma upsert_one_law:
  assumes "collection_laws sc docs frame co" "co_upsert_one co f us s = (r, s')"
  shows "frame s' = frame s" "docs s' = docs s \<or> updates_one sc f us (docs s) (docs s') \<or> upserts sc us (docs s) (docs s')"
proof -
  from assms(1) have "case co_upsert_one co f us s of
        (Inr r, s') \<Rightarrow> frame s' = frame s \<and>
          (if ur_matched r = 0 then matching sc f (docs s) = [] \<and> upserts sc us (docs s) (docs s')
           else updates_one sc f us (docs s) (docs s'))
      | (Inl e, s') \<Rightarrow> frame s' = frame s \<and>
          (docs s' = docs s \<or> updates_one sc f us (docs s) (docs s') \<or>
           matching sc f (docs s) = [] \<and> upserts sc us (docs s) (docs s'))"
    unfolding collection_laws_def update_laws_def by (elim conjE) (drule spec [of _ f], drule spec [of _ us], drule spec [of _ s])
  then show "frame s' = frame s" "docs s' = docs s \<or> updates_one sc f us (docs s) (docs s') \<or> upserts sc us (docs s) (docs s')"
    using assms(2) by (auto split: sum.splits if_splits)
qed

end
