(* ===== verification/Indexes.thy ===== *)
theory Indexes
  imports Mongo Complex_Main
begin

text \<open>
  The indexes of the three collections and the connection settings: the first part of \<open>internal/store/store.go\<close>. What
  the store relies on later (unique addresses, unique ingest keys, expiry of accounts and messages) is enforced
  by indexes that \<open>New\<close> creates, repairs or removes at every start, on collections that may carry indexes of
  earlier versions or of the operator.

  The driver is a record of operations on an abstract state (its laws are in theory IndexGoals). A value of type \<open>any\<close> is \<open>go_any\<close>; a \<open>bson.M\<close> is the list of its
  entries in the order of the keys, so that \<open>reflect.DeepEqual\<close> is equality.
\<close>

section \<open>Dynamic values\<close>

datatype go_any =
    GoInt int | GoInt32 int | GoInt64 int | GoFloat64 rat | GoBool bool | GoString string
  | GoD "(string \<times> go_any) list"
  | GoM "(string \<times> go_any) list"

type_synonym bson_d = "(string \<times> go_any) list"
type_synonym bson_m = "(string \<times> go_any) list option"

fun as_int64 :: "go_any \<Rightarrow> int option" where
  "as_int64 (GoInt n) = Some n"
| "as_int64 (GoInt32 n) = Some n"
| "as_int64 (GoInt64 n) = Some n"
| "as_int64 (GoFloat64 x) = Some (if 0 \<le> x then \<lfloor>x\<rfloor> else \<lceil>x\<rceil>)"
| "as_int64 _ = None"

definition value_equal :: "go_any \<Rightarrow> go_any \<Rightarrow> bool" where
  "value_equal a b = (case (as_int64 a, as_int64 b) of (Some m, Some n) \<Rightarrow> m = n | _ \<Rightarrow> a = b)"

fun keys_equal :: "bson_d \<Rightarrow> bson_d \<Rightarrow> bool" where
  "keys_equal [] [] = True"
| "keys_equal ((k, a) # as) ((l, b) # bs) = (k = l \<and> value_equal a b \<and> keys_equal as bs)"
| "keys_equal _ _ = False"

definition partial_filter_equal :: "bson_m \<Rightarrow> bson_m \<Rightarrow> bool" where
  "partial_filter_equal a b =
     ((if a = Some [] then None else a) = (if b = Some [] then None else b))"

section \<open>Indexes and the driver\<close>

record index_info =
  ii_name :: string
  ii_key :: bson_d
  ii_unique :: bool
  ii_expire :: "go_any option"
  ii_partial :: bson_m

record index_model =
  im_keys :: bson_d
  im_unique :: bool
  im_expire :: "int option"
  im_partial :: bson_m

text \<open>The code of a \<open>mongo.CommandError\<close> in the chain of an error, and its text.\<close>

record index_error =
  ie_code :: "int option"
  ie_text :: string

datatype index_failure = DriverFailure index_error | TtlTooLarge string int | TtlConflict string string bson_d

text \<open>
  A collection is named by its name. A cursor gives what decoding each document yields, and an error at its end.
\<close>

record 's index_driver =
  ix_cursor :: "string \<Rightarrow> 's \<Rightarrow> index_error + (index_error + index_info) list \<times> index_error option"
  ix_create :: "string \<Rightarrow> index_model \<Rightarrow> 's \<Rightarrow> index_error option \<times> 's"
  ix_drop :: "string \<Rightarrow> string \<Rightarrow> 's \<Rightarrow> index_error option \<times> 's"
  ix_coll_mod :: "string \<Rightarrow> string \<Rightarrow> int \<Rightarrow> 's \<Rightarrow> index_error option \<times> 's"
  ix_update_many :: "string \<Rightarrow> filter_doc \<Rightarrow> update_op list \<Rightarrow> 's \<Rightarrow> index_error option \<times> 's"

fun decode_all :: "(index_error + index_info) list \<Rightarrow> index_error option \<Rightarrow> index_error + index_info list" where
  "decode_all [] None = Inr []"
| "decode_all [] (Some e) = Inl e"
| "decode_all (Inl e # xs) f = Inl e"
| "decode_all (Inr i # xs) f = (case decode_all xs f of Inl e \<Rightarrow> Inl e | Inr out \<Rightarrow> Inr (i # out))"

definition list_indexes :: "'s index_driver \<Rightarrow> string \<Rightarrow> 's \<Rightarrow> index_error + index_info list" where
  "list_indexes drv coll s = (case ix_cursor drv coll s of Inl e \<Rightarrow> Inl e | Inr (xs, e) \<Rightarrow> decode_all xs e)"

definition find_index_by_keys :: "index_info list \<Rightarrow> bson_d \<Rightarrow> index_info option" where
  "find_index_by_keys idxs keys = find (\<lambda>i. keys_equal (ii_key i) keys) idxs"

definition is_index_not_found_error :: "index_error \<Rightarrow> bool" where
  "is_index_not_found_error err \<longleftrightarrow> ie_code err = Some 27 \<or>
     contains_str (to_lower (ie_text err)) ''index not found'' \<or> contains_str (to_lower (ie_text err)) ''no such index''"

definition drop_index_ignore_not_found ::
  "'s index_driver \<Rightarrow> string \<Rightarrow> string \<Rightarrow> 's \<Rightarrow> index_failure option \<times> 's" where
  "drop_index_ignore_not_found drv coll name s =
     (if name = [] then (None, s)
      else
        (case ix_drop drv coll name s of
           (Some err, s') \<Rightarrow> (if is_index_not_found_error err then None else Some (DriverFailure err), s')
         | (None, s') \<Rightarrow> (None, s')))"

section \<open>Ensuring one index\<close>

text \<open>Creation, and the second look after an error: another process may have created the index.\<close>

definition create_or_recheck ::
  "'s index_driver \<Rightarrow> string \<Rightarrow> index_model \<Rightarrow> (index_info \<Rightarrow> bool) \<Rightarrow> 's \<Rightarrow> index_failure option \<times> 's" where
  "create_or_recheck drv coll model good s =
     (case ix_create drv coll model s of
        (None, s') \<Rightarrow> (None, s')
      | (Some err, s') \<Rightarrow>
          (case list_indexes drv coll s' of
             Inl _ \<Rightarrow> (Some (DriverFailure err), s')
           | Inr idxs2 \<Rightarrow>
               (case find_index_by_keys idxs2 (im_keys model) of
                  Some idx2 \<Rightarrow> if good idx2 then (None, s') else (Some (DriverFailure err), s')
                | None \<Rightarrow> (Some (DriverFailure err), s'))))"

definition ensure_unique_index ::
  "'s index_driver \<Rightarrow> string \<Rightarrow> bson_d \<Rightarrow> 's \<Rightarrow> index_failure option \<times> 's" where
  "ensure_unique_index drv coll keys s =
     (let create = create_or_recheck drv coll \<lparr>im_keys = keys, im_unique = True, im_expire = None, im_partial = None\<rparr> ii_unique
      in case list_indexes drv coll s of
           Inl err \<Rightarrow> (Some (DriverFailure err), s)
         | Inr idxs \<Rightarrow>
             (case find_index_by_keys idxs keys of
                None \<Rightarrow> create s
              | Some idx \<Rightarrow>
                  if ii_unique idx then (None, s)
                  else (case drop_index_ignore_not_found drv coll (ii_name idx) s of
                          (Some err, s') \<Rightarrow> (Some err, s') | (None, s') \<Rightarrow> create s')))"

definition ensure_unique_partial_index ::
  "'s index_driver \<Rightarrow> string \<Rightarrow> bson_d \<Rightarrow> bson_m \<Rightarrow> 's \<Rightarrow> index_failure option \<times> 's" where
  "ensure_unique_partial_index drv coll keys partial s =
     (let good = (\<lambda>i. ii_unique i \<and> partial_filter_equal (ii_partial i) partial);
          create = create_or_recheck drv coll \<lparr>im_keys = keys, im_unique = True, im_expire = None, im_partial = partial\<rparr> good
      in case list_indexes drv coll s of
           Inl err \<Rightarrow> (Some (DriverFailure err), s)
         | Inr idxs \<Rightarrow>
             (case find_index_by_keys idxs keys of
                None \<Rightarrow> create s
              | Some idx \<Rightarrow>
                  if good idx then (None, s)
                  else (case drop_index_ignore_not_found drv coll (ii_name idx) s of
                          (Some err, s') \<Rightarrow> (Some err, s') | (None, s') \<Rightarrow> create s')))"

definition ensure_index :: "'s index_driver \<Rightarrow> string \<Rightarrow> bson_d \<Rightarrow> 's \<Rightarrow> index_failure option \<times> 's" where
  "ensure_index drv coll keys s =
     (case list_indexes drv coll s of
        Inl err \<Rightarrow> (Some (DriverFailure err), s)
      | Inr idxs \<Rightarrow>
          if find_index_by_keys idxs keys \<noteq> None then (None, s)
          else create_or_recheck drv coll \<lparr>im_keys = keys, im_unique = False, im_expire = None, im_partial = None\<rparr>
                 (\<lambda>_. True) s)"

text \<open>Seconds, rounded up; \<^const>\<open>None\<close> disables the expiry. Division truncates.\<close>

definition ttl_seconds :: "duration \<Rightarrow> int option" where
  "ttl_seconds ttl =
     (if ttl \<le> 0 then None
      else (let secs = ttl div second + (if ttl mod second \<noteq> 0 then 1 else 0) in Some (if secs < 1 then 1 else secs)))"

definition message_keep_ttl_partial_filter :: bson_m where
  "message_keep_ttl_partial_filter = Some [(''keep'', GoBool False)]"

definition normalize_missing_message_keep :: "'s index_driver \<Rightarrow> string \<Rightarrow> 's \<Rightarrow> index_failure option \<times> 's" where
  "normalize_missing_message_keep drv coll s =
     (case ix_update_many drv coll [CExists ''keep'' False] [USet ''keep'' (BBool False)] s of
        (e, s') \<Rightarrow> (map_option DriverFailure e, s'))"

definition ttl_is :: "int \<Rightarrow> index_info \<Rightarrow> bool" where
  "ttl_is secs i \<longleftrightarrow> (case ii_expire i of None \<Rightarrow> False | Some x \<Rightarrow> as_int64 x = Some secs)"

definition create_ttl_index ::
  "'s index_driver \<Rightarrow> string \<Rightarrow> bson_d \<Rightarrow> int \<Rightarrow> bson_m \<Rightarrow> 's \<Rightarrow> index_failure option \<times> 's" where
  "create_ttl_index drv coll keys secs partial s =
     (case ix_create drv coll
             \<lparr>im_keys = keys, im_unique = False, im_expire = Some secs,
              im_partial = (case partial of Some (x # xs) \<Rightarrow> partial | _ \<Rightarrow> None)\<rparr> s of
        (None, s') \<Rightarrow> (None, s')
      | (Some err, s') \<Rightarrow>
          (case list_indexes drv coll s' of
             Inl _ \<Rightarrow> (Some (DriverFailure err), s')
           | Inr idxs2 \<Rightarrow>
               (case find_index_by_keys idxs2 keys of
                  None \<Rightarrow> (Some (DriverFailure err), s')
                | Some idx2 \<Rightarrow>
                    if \<not> ttl_is secs idx2 then (Some (DriverFailure err), s')
                    else if partial_filter_equal (ii_partial idx2) partial then (None, s')
                    else (Some (DriverFailure err), snd (drop_index_ignore_not_found drv coll (ii_name idx2) s')))))"

text \<open>\<open>coll\<close> is also the name that \<open>collMod\<close> and the errors use.\<close>

definition ensure_ttl_index ::
  "'s index_driver \<Rightarrow> string \<Rightarrow> bson_d \<Rightarrow> duration \<Rightarrow> bson_m \<Rightarrow> 's \<Rightarrow> index_failure option \<times> 's" where
  "ensure_ttl_index drv coll keys ttl partial s =
     (case list_indexes drv coll s of
        Inl err \<Rightarrow> (Some (DriverFailure err), s)
      | Inr idxs \<Rightarrow>
          (let idx = find_index_by_keys idxs keys in
           case ttl_seconds ttl of
             None \<Rightarrow>
               (case idx of
                  None \<Rightarrow> (None, s)
                | Some i \<Rightarrow> if ii_expire i = None then (None, s) else drop_index_ignore_not_found drv coll (ii_name i) s)
           | Some secs \<Rightarrow>
               if 2147483647 < secs then (Some (TtlTooLarge coll secs), s)
               else
                 (case idx of
                    None \<Rightarrow> create_ttl_index drv coll keys secs partial s
                  | Some i \<Rightarrow>
                      if ii_expire i = None then (Some (TtlConflict coll (ii_name i) keys), s)
                      else if \<not> partial_filter_equal (ii_partial i) partial
                      then (case drop_index_ignore_not_found drv coll (ii_name i) s of
                              (Some e, s') \<Rightarrow> (Some e, s') | (None, s') \<Rightarrow> create_ttl_index drv coll keys secs partial s')
                      else if ttl_is secs i then (None, s)
                      else
                        (case ix_coll_mod drv coll (ii_name i) secs s of
                           (None, s') \<Rightarrow> (None, s')
                         | (Some _, s') \<Rightarrow>
                             (case drop_index_ignore_not_found drv coll (ii_name i) s' of
                                (Some e, s2) \<Rightarrow> (Some e, s2)
                              | (None, s2) \<Rightarrow> create_ttl_index drv coll keys secs partial s2)))))"

definition drop_index_by_keys_if_exists ::
  "'s index_driver \<Rightarrow> string \<Rightarrow> bson_d \<Rightarrow> 's \<Rightarrow> index_failure option \<times> 's" where
  "drop_index_by_keys_if_exists drv coll keys s =
     (case list_indexes drv coll s of
        Inl err \<Rightarrow> (Some (DriverFailure err), s)
      | Inr idxs \<Rightarrow>
          (case find_index_by_keys idxs keys of
             None \<Rightarrow> (None, s)
           | Some idx \<Rightarrow> if ii_name idx = ''_id_'' then (None, s) else drop_index_ignore_not_found drv coll (ii_name idx) s))"

section \<open>All indexes\<close>

text \<open>Steps that stop at the first error.\<close>

fun run_steps :: "('s \<Rightarrow> 'e option \<times> 's) list \<Rightarrow> 's \<Rightarrow> 'e option \<times> 's" where
  "run_steps [] s = (None, s)"
| "run_steps (f # fs) s = (case f s of (Some e, s') \<Rightarrow> (Some e, s') | (None, s') \<Rightarrow> run_steps fs s')"

abbreviation ascending :: "string \<Rightarrow> string \<times> go_any" where "ascending k \<equiv> (k, GoInt 1)"
abbreviation descending :: "string \<Rightarrow> string \<times> go_any" where "descending k \<equiv> (k, GoInt (-1))"

definition list_keys :: bson_d where
  "list_keys = [ascending ''accountId'', ascending ''isDeleted'', descending ''createdAt'', descending ''_id'']"

definition seen_keys :: bson_d where
  "seen_keys =
     [ascending ''accountId'', ascending ''isDeleted'', ascending ''seen'', descending ''createdAt'', descending ''_id'']"

definition legacy_keys :: bson_d where
  "legacy_keys = [ascending ''accountId'', ascending ''isDeleted'', descending ''createdAt'']"

definition ingest_keys :: bson_d where
  "ingest_keys = [ascending ''accountId'', ascending ''ingestStream'', ascending ''ingestSeq'']"

definition ingest_partial_filter :: bson_m where
  "ingest_partial_filter =
     Some [(''ingestSeq'', GoM [(''$exists'', GoBool True)]), (''ingestStream'', GoM [(''$exists'', GoBool True)])]"

definition ensure_indexes ::
  "'s index_driver \<Rightarrow> duration \<Rightarrow> duration \<Rightarrow> 's \<Rightarrow> index_failure option \<times> 's" where
  "ensure_indexes drv account_ttl message_ttl =
     run_steps
       [ensure_unique_index drv ''domains'' [ascending ''domain''],
        ensure_index drv ''domains'' [ascending ''isActive''],
        ensure_unique_index drv ''accounts'' [ascending ''address''],
        ensure_ttl_index drv ''accounts'' [ascending ''createdAt''] account_ttl None,
        ensure_index drv ''messages'' list_keys,
        ensure_index drv ''messages'' seen_keys,
        drop_index_by_keys_if_exists drv ''messages'' legacy_keys,
        drop_index_by_keys_if_exists drv ''messages'' [ascending ''accountId''],
        normalize_missing_message_keep drv ''messages'',
        ensure_ttl_index drv ''messages'' [ascending ''createdAt''] message_ttl message_keep_ttl_partial_filter,
        ensure_unique_partial_index drv ''messages'' ingest_keys ingest_partial_filter]"

section \<open>Connecting\<close>

record mongo_settings =
  mo_uri :: string
  mo_database :: string
  mo_max_pool_size :: int
  mo_min_pool_size :: int
  mo_max_connecting :: int
  mo_connect_timeout :: duration
  mo_server_selection_timeout :: duration
  mo_max_conn_idle_time :: duration
  mo_app_name :: string

text \<open>\<open>gomax\<close> is \<open>runtime.GOMAXPROCS(0)\<close>; \<^const>\<open>None\<close> leaves the default of the driver.\<close>

definition effective_max_pool_size :: "int \<Rightarrow> int \<Rightarrow> int option" where
  "effective_max_pool_size gomax n =
     (if n < 0 then None
      else if 0 < n then Some n
      else (let auto0 = gomax * 32; auto1 = (if auto0 < 100 then 100 else auto0) in Some (if 300 < auto1 then 300 else auto1)))"

definition effective_min_pool_size :: "int \<Rightarrow> int option" where
  "effective_min_pool_size n = (if n < 0 then None else if n = 0 then None else Some n)"

definition effective_max_connecting :: "int \<Rightarrow> int \<Rightarrow> int option \<Rightarrow> int option" where
  "effective_max_connecting gomax n max_pool =
     (if n < 0 then None
      else
        (let out0 = (if 0 < n then n
                     else (let g = (if gomax < 4 then 4 else gomax) in if 16 < g then 16 else g));
             out = (case max_pool of Some m \<Rightarrow> if 0 < m \<and> m < out0 then m else out0 | None \<Rightarrow> out0)
         in if out \<le> 0 then None else Some out))"

record client_options =
  op_uri :: string
  op_app_name :: "string option"
  op_max_pool_size :: "int option"
  op_min_pool_size :: "int option"
  op_max_connecting :: "int option"
  op_connect_timeout :: "duration option"
  op_server_selection_timeout :: "duration option"
  op_max_conn_idle_time :: "duration option"

definition client_options_of :: "int \<Rightarrow> mongo_settings \<Rightarrow> client_options" where
  "client_options_of gomax cfg =
     (let max_pool = effective_max_pool_size gomax (mo_max_pool_size cfg);
          positive = (\<lambda>d :: duration. if 0 < d then Some d else None) in
      \<lparr>op_uri = mo_uri cfg,
       op_app_name = (if mo_app_name cfg \<noteq> [] then Some (mo_app_name cfg) else None),
       op_max_pool_size = max_pool, op_min_pool_size = effective_min_pool_size (mo_min_pool_size cfg),
       op_max_connecting = effective_max_connecting gomax (mo_max_connecting cfg) max_pool,
       op_connect_timeout = positive (mo_connect_timeout cfg),
       op_server_selection_timeout = positive (mo_server_selection_timeout cfg),
       op_max_conn_idle_time = positive (mo_max_conn_idle_time cfg)\<rparr>)"

lemma pool_sizes:
  "effective_max_pool_size gomax n = Some m \<Longrightarrow> 0 < m \<and> (n = 0 \<longrightarrow> 100 \<le> m \<and> m \<le> 300)"
  "effective_max_connecting gomax n p = Some k \<Longrightarrow> 0 < k \<and> (\<forall>m. p = Some m \<longrightarrow> 0 < m \<longrightarrow> k \<le> m)"
  by (auto simp: effective_max_pool_size_def effective_max_connecting_def Let_def split: if_splits option.splits)

text \<open>\<open>connect\<close>, \<open>ping\<close> and \<open>disconnect\<close> are those of the driver.\<close>

datatype start_error = ConnectionError string | IndexError index_failure

definition new_store ::
  "int \<Rightarrow> (client_options \<Rightarrow> 's \<Rightarrow> string option \<times> 's) \<Rightarrow> ('s \<Rightarrow> string option \<times> 's) \<Rightarrow> ('s \<Rightarrow> 's) \<Rightarrow> 's index_driver
     \<Rightarrow> mongo_settings \<Rightarrow> duration \<Rightarrow> duration \<Rightarrow> 's \<Rightarrow> start_error option \<times> 's" where
  "new_store gomax connect ping disconnect drv cfg account_ttl message_ttl s =
     (case connect (client_options_of gomax cfg) s of
        (Some err, s1) \<Rightarrow> (Some (ConnectionError err), s1)
      | (None, s1) \<Rightarrow>
          (case ping s1 of
             (Some err, s2) \<Rightarrow> (Some (ConnectionError err), disconnect s2)
           | (None, s2) \<Rightarrow>
               (case ensure_indexes drv account_ttl message_ttl s2 of
                  (Some err, s3) \<Rightarrow> (Some (IndexError err), disconnect s3)
                | (None, s3) \<Rightarrow> (None, s3))))"

text \<open>A client that is connected and not returned is disconnected; a store that is returned has its indexes.\<close>

lemma new_store_outcome:
  assumes "new_store gomax connect ping disconnect drv cfg account_ttl message_ttl s = (r, s')"
    and "connect (client_options_of gomax cfg) s = (None, s1)"
  shows "(\<exists>e t. r = Some e \<and> s' = disconnect t) \<or>
    r = None \<and> (\<exists>s2. ping s1 = (None, s2) \<and> ensure_indexes drv account_ttl message_ttl s2 = (None, s'))"
  using assms by (auto simp: new_store_def split: prod.splits option.splits)

end
