(* ===== verification/IndexGoals.thy ===== *)
theory IndexGoals
  imports Indexes
begin

text \<open>
  What the start of the store (theory Indexes) makes of the indexes. \<open>index_laws\<close> states what the driver does: an
  operation that reports an error did nothing or was carried out. Each step concerns one key pattern and has an aim
  for it (\<open>settles\<close>); \<open>run_plan\<close> puts any list of such steps together.
\<close>

section \<open>What the driver does\<close>

definition realises :: "index_model \<Rightarrow> index_info \<Rightarrow> bool" where
  "realises m i \<longleftrightarrow> keys_equal (ii_key i) (im_keys m) \<and> ii_unique i = im_unique m \<and>
     (case im_expire m of None \<Rightarrow> ii_expire i = None | Some secs \<Rightarrow> ttl_is secs i) \<and>
     partial_filter_equal (ii_partial i) (im_partial m)"

definition same_elsewhere :: "(string \<Rightarrow> 's \<Rightarrow> 'a) \<Rightarrow> string \<Rightarrow> 's \<Rightarrow> 's \<Rightarrow> bool" where
  "same_elsewhere v c s s' \<longleftrightarrow> (\<forall>c'. c' \<noteq> c \<longrightarrow> v c' s' = v c' s)"

definition adds :: "index_model \<Rightarrow> index_info list \<Rightarrow> index_info list \<Rightarrow> bool" where
  "adds m l l' \<longleftrightarrow> (\<exists>i. realises m i \<and> (l' = l @ [i] \<or> l' = l \<and> i \<in> set l))"

definition without :: "string \<Rightarrow> index_info list \<Rightarrow> index_info list" where
  "without name l = filter (\<lambda>i. ii_name i \<noteq> name) l"

definition retimed :: "string \<Rightarrow> int \<Rightarrow> index_info list \<Rightarrow> index_info list \<Rightarrow> bool" where
  "retimed name secs l l' \<longleftrightarrow>
     list_all2 (\<lambda>i j. if ii_name i = name then \<exists>x. as_int64 x = Some secs \<and> j = i\<lparr>ii_expire := Some x\<rparr> else j = i) l l'"

text \<open>\<open>v c s\<close>: the indexes of the collection \<open>c\<close>, the oldest first, each under a name of its own.\<close>

definition index_laws :: "'s index_driver \<Rightarrow> (string \<Rightarrow> 's \<Rightarrow> index_info list) \<Rightarrow> bool" where
  "index_laws drv v \<longleftrightarrow>
     (\<forall>c s. distinct (map ii_name (v c s)) \<and> [] \<notin> ii_name ` set (v c s)) \<and>
     (\<forall>c s l. list_indexes drv c s = Inr l \<longrightarrow> l = v c s) \<and>
     (\<forall>c m s. case ix_create drv c m s of (r, s') \<Rightarrow>
        same_elsewhere v c s s' \<and> (adds m (v c s) (v c s') \<or> r \<noteq> None \<and> v c s' = v c s)) \<and>
     (\<forall>c n s. case ix_drop drv c n s of (r, s') \<Rightarrow>
        same_elsewhere v c s s' \<and> (v c s' = without n (v c s) \<or> r \<noteq> None \<and> v c s' = v c s) \<and>
        (\<forall>e. r = Some e \<longrightarrow> is_index_not_found_error e \<longrightarrow> v c s' = without n (v c s))) \<and>
     (\<forall>c n secs s. case ix_coll_mod drv c n secs s of (r, s') \<Rightarrow>
        same_elsewhere v c s s' \<and> (retimed n secs (v c s) (v c s') \<or> r \<noteq> None \<and> v c s' = v c s)) \<and>
     (\<forall>c f us s. case ix_update_many drv c f us s of (r, s') \<Rightarrow> \<forall>c'. v c' s' = v c' s)"

lemma index_laws_ops:
  assumes "index_laws drv v"
  shows "distinct (map ii_name (v c s))" "i \<in> set (v c s) \<Longrightarrow> ii_name i \<noteq> []"
    "list_indexes drv c s = Inr l \<Longrightarrow> l = v c s"
    "ix_create drv c m s = (r, s') \<Longrightarrow>
       same_elsewhere v c s s' \<and> (adds m (v c s) (v c s') \<or> r \<noteq> None \<and> v c s' = v c s)"
    "ix_drop drv c n s = (r, s') \<Longrightarrow>
       same_elsewhere v c s s' \<and> (v c s' = without n (v c s) \<or> r \<noteq> None \<and> v c s' = v c s) \<and>
       (\<forall>e. r = Some e \<longrightarrow> is_index_not_found_error e \<longrightarrow> v c s' = without n (v c s))"
    "ix_coll_mod drv c n secs s = (r, s') \<Longrightarrow>
       same_elsewhere v c s s' \<and> (retimed n secs (v c s) (v c s') \<or> r \<noteq> None \<and> v c s' = v c s)"
    "ix_update_many drv c f us s = (r, s') \<Longrightarrow> v c' s' = v c' s"
proof -
  note L = assms [unfolded index_laws_def]
  show "distinct (map ii_name (v c s))" "i \<in> set (v c s) \<Longrightarrow> ii_name i \<noteq> []" 
    using L [THEN conjunct1, THEN spec [of _ c], THEN spec [of _ s]] by (simp, force)
  show "list_indexes drv c s = Inr l \<Longrightarrow> l = v c s" using L by blast
  show "ix_create drv c m s = (r, s') \<Longrightarrow>
       same_elsewhere v c s s' \<and> (adds m (v c s) (v c s') \<or> r \<noteq> None \<and> v c s' = v c s)"
    using L [THEN conjunct2, THEN conjunct2, THEN conjunct1, THEN spec [of _ c], THEN spec [of _ m], THEN spec [of _ s]] by simp
  show "ix_drop drv c n s = (r, s') \<Longrightarrow>
       same_elsewhere v c s s' \<and> (v c s' = without n (v c s) \<or> r \<noteq> None \<and> v c s' = v c s) \<and>
       (\<forall>e. r = Some e \<longrightarrow> is_index_not_found_error e \<longrightarrow> v c s' = without n (v c s))"
    using L [THEN conjunct2, THEN conjunct2, THEN conjunct2, THEN conjunct1, THEN spec [of _ c], THEN spec [of _ n], THEN spec [of _ s]]
    by simp
  show "ix_coll_mod drv c n secs s = (r, s') \<Longrightarrow>
       same_elsewhere v c s s' \<and> (retimed n secs (v c s) (v c s') \<or> r \<noteq> None \<and> v c s' = v c s)"
    using L [THEN conjunct2, THEN conjunct2, THEN conjunct2, THEN conjunct2, THEN conjunct1, THEN spec [of _ c], THEN spec [of _ n],
        THEN spec [of _ secs], THEN spec [of _ s]] by simp
  show "ix_update_many drv c f us s = (r, s') \<Longrightarrow> v c' s' = v c' s"
    using L [THEN conjunct2, THEN conjunct2, THEN conjunct2, THEN conjunct2, THEN conjunct2, THEN spec [of _ c], THEN spec [of _ f],
        THEN spec [of _ us], THEN spec [of _ s]] by simp
qed

section \<open>Indexes of a key pattern\<close>

text \<open>The key patterns of the code have integers only; such patterns exclude each other.\<close>

definition plain_keys :: "bson_d \<Rightarrow> bool" where
  "plain_keys K \<longleftrightarrow> list_all (\<lambda>(k, x). \<exists>n. x = GoInt n) K"

definition on_keys :: "bson_d \<Rightarrow> index_info list \<Rightarrow> index_info list" where
  "on_keys K l = filter (\<lambda>i. keys_equal (ii_key i) K) l"

definition off_keys :: "bson_d \<Rightarrow> index_info list \<Rightarrow> index_info list" where
  "off_keys K l = filter (\<lambda>i. \<not> keys_equal (ii_key i) K) l"

lemma value_equal_plain: "value_equal a (GoInt m) \<longleftrightarrow> as_int64 a = Some m"
  by (auto simp: value_equal_def split: option.splits)

lemma keys_equal_plain:
  "keys_equal a K \<Longrightarrow> keys_equal a L \<Longrightarrow> plain_keys K \<Longrightarrow> plain_keys L \<Longrightarrow> K = L"
proof (induction a K arbitrary: L rule: keys_equal.induct)
  case (2 k x as l b bs)
  then obtain m n L' where "b = GoInt m" "L = (l, GoInt n) # L'" "keys_equal as L'" "value_equal x (GoInt n)" "plain_keys bs" "plain_keys L'"
    by (cases L) (auto simp: plain_keys_def)
  with 2 show ?case by (auto simp: value_equal_plain)
qed (auto simp: plain_keys_def elim: keys_equal.elims)

lemma on_keys_off:
  assumes "plain_keys K" "plain_keys L" "K \<noteq> L" "off_keys K l' = off_keys K l"
  shows "on_keys L l' = on_keys L l"
proof -
  have "keys_equal (ii_key i) L \<longleftrightarrow> \<not> keys_equal (ii_key i) K \<and> keys_equal (ii_key i) L" for i
    using keys_equal_plain [of "ii_key i" K L] assms(1-3) by auto
  then have "on_keys L l = on_keys L (off_keys K l)" for l
    unfolding on_keys_def off_keys_def filter_filter by metis
  then show ?thesis using assms(4) by metis
qed

lemma find_index_on_keys: "find_index_by_keys l K = (case on_keys K l of [] \<Rightarrow> None | i # is \<Rightarrow> Some i)"
  by (induction l) (auto simp: find_index_by_keys_def on_keys_def)

text \<open>An operation that concerns the indexes of one pattern only.\<close>

definition concerns :: "(string \<Rightarrow> 's \<Rightarrow> index_info list) \<Rightarrow> string \<Rightarrow> bson_d \<Rightarrow> 's \<Rightarrow> 's \<Rightarrow> bool" where
  "concerns v c K s s' \<longleftrightarrow> same_elsewhere v c s s' \<and> off_keys K (v c s') = off_keys K (v c s)"

lemma concerns_refl [simp]: "concerns v c K s s"
  by (simp add: concerns_def same_elsewhere_def)

lemma concerns_trans: "concerns v c K s t \<Longrightarrow> concerns v c K t u \<Longrightarrow> concerns v c K s u"
  by (simp add: concerns_def same_elsewhere_def)

lemma concerns_on_keys:
  assumes "concerns v c K s s'" "plain_keys K" "plain_keys L" "c' \<noteq> c \<or> L \<noteq> K"
  shows "on_keys L (v c' s') = on_keys L (v c' s)"
  using assms on_keys_off [of K L "v c s'" "v c s"] by (cases "c' = c") (auto simp: concerns_def same_elsewhere_def)

section \<open>The steps\<close>

lemma created_index:
  assumes "index_laws drv v" "ix_create drv c m s = (r, s')" "im_keys m = K"
  shows "concerns v c K s s'"
    "on_keys K (v c s) = [] \<Longrightarrow> r = None \<Longrightarrow> \<exists>i. on_keys K (v c s') = [i] \<and> realises m i"
    "on_keys K (v c s) = [] \<Longrightarrow> on_keys K (v c s') = [] \<or> (\<exists>i. on_keys K (v c s') = [i] \<and> realises m i)"
proof -
  have R: "same_elsewhere v c s s'" "adds m (v c s) (v c s') \<or> r \<noteq> None \<and> v c s' = v c s"
    using index_laws_ops(4) [OF assms(1,2)] by auto
  have A: "\<exists>i. on_keys K (v c s') = [i] \<and> realises m i" if "adds m (v c s) (v c s')" "on_keys K (v c s) = []"
    using that assms(3) by (auto simp: adds_def realises_def on_keys_def filter_empty_conv)
  have "off_keys K (v c s') = off_keys K (v c s)" using R(2) assms(3) by (auto simp: adds_def realises_def off_keys_def)
  then show "concerns v c K s s'" using R(1) by (simp add: concerns_def)
  show "\<exists>i. on_keys K (v c s') = [i] \<and> realises m i" if "on_keys K (v c s) = []" "r = None"
    using R(2) A that by auto
  show "on_keys K (v c s') = [] \<or> (\<exists>i. on_keys K (v c s') = [i] \<and> realises m i)" if "on_keys K (v c s) = []"
    using R(2) A that by auto
qed

lemma without_keys:
  assumes "distinct (map ii_name l)" "on_keys K l = [i]"
  shows "on_keys K (without (ii_name i) l) = []" "off_keys K (without (ii_name i) l) = off_keys K l"
proof -
  have i: "i \<in> set l" "keys_equal (ii_key i) K"
    using arg_cong [OF assms(2), of set] by (auto simp: on_keys_def)
  have one: "j = i" if "j \<in> set l" "ii_name j = ii_name i" for j
    using assms(1) that i(1) by (simp add: distinct_map inj_on_def)
  have only: "j = i" if "j \<in> set l" "keys_equal (ii_key j) K" for j
    using arg_cong [OF assms(2), of set] that by (auto simp: on_keys_def)
  show "on_keys K (without (ii_name i) l) = []"
    using only by (auto simp: on_keys_def without_def filter_empty_conv)
  show "off_keys K (without (ii_name i) l) = off_keys K l"
    using one i(2) by (auto simp: off_keys_def without_def filter_filter intro!: filter_cong)
qed

lemma dropped_index:
  assumes laws: "index_laws drv v" and one: "on_keys K (v c s) = [i]"
    and run: "drop_index_ignore_not_found drv c (ii_name i) s = (r, s')"
  shows "concerns v c K s s'" "r = None \<Longrightarrow> on_keys K (v c s') = []"
    "on_keys K (v c s') = [] \<or> on_keys K (v c s') = [i]"
proof -
  have "i \<in> set (v c s)" using arg_cong [OF one, of set] by (auto simp: on_keys_def)
  then have ne: "ii_name i \<noteq> []" using index_laws_ops(2) [OF laws] by blast
  obtain e where e: "ix_drop drv c (ii_name i) s = (e, s')"
    "r = (case e of None \<Rightarrow> None | Some err \<Rightarrow> if is_index_not_found_error err then None else Some (DriverFailure err))"
    using run ne by (auto simp: drop_index_ignore_not_found_def split: prod.splits option.splits)
  note D = index_laws_ops(5) [OF laws e(1)]
  note W = without_keys [OF index_laws_ops(1) [OF laws] one]
  show "concerns v c K s s'" using D W by (auto simp: concerns_def)
  show "on_keys K (v c s') = []" if "r = None" using D W e(2) that by (auto split: option.splits if_splits)
  show "on_keys K (v c s') = [] \<or> on_keys K (v c s') = [i]" using D W one by auto
qed


lemma retimed_keys:
  assumes "distinct (map ii_name l)" "on_keys K l = [i]" "retimed (ii_name i) secs l l'"
  shows "\<exists>x. as_int64 x = Some secs \<and> on_keys K l' = [i\<lparr>ii_expire := Some x\<rparr>]" "off_keys K l' = off_keys K l"
proof -
  have i: "i \<in> set l" "keys_equal (ii_key i) K" "\<And>j. j \<in> set l \<Longrightarrow> keys_equal (ii_key j) K \<Longrightarrow> j = i"
    using arg_cong [OF assms(2), of set] by (auto simp: on_keys_def)
  obtain a b where l: "l = a @ i # b" using i(1) by (auto simp: in_set_conv_decomp)
  have names: "ii_name i \<notin> ii_name ` set a" "ii_name i \<notin> ii_name ` set b" using assms(1) l by auto
  have same: "ys = xs" if "ii_name i \<notin> ii_name ` set xs" "retimed (ii_name i) secs xs ys" for xs ys
    using that(2,1) unfolding retimed_def by (induction rule: list_all2_induct) auto
  obtain x where l': "as_int64 x = Some secs" "l' = a @ i\<lparr>ii_expire := Some x\<rparr> # b"
    using assms(3) names same unfolding l retimed_def by (auto simp: list_all2_append1 list_all2_Cons1)
  have "on_keys K a = [] \<and> on_keys K b = []"
    using assms(2) i(2) unfolding l by (auto simp: on_keys_def append_eq_Cons_conv)
  then show "\<exists>x. as_int64 x = Some secs \<and> on_keys K l' = [i\<lparr>ii_expire := Some x\<rparr>]" "off_keys K l' = off_keys K l"
    using l' i(2) by (auto simp: l on_keys_def off_keys_def)
qed

text \<open>What a step for the pattern \<open>K\<close> is to achieve, and what it leaves alone.\<close>

definition at_most_one :: "'a list \<Rightarrow> bool" where "at_most_one l \<longleftrightarrow> length l \<le> 1"

lemma at_most_one_cases: "at_most_one l \<longleftrightarrow> l = [] \<or> (\<exists>i. l = [i])"
  by (cases l) (auto simp: at_most_one_def)

definition step_for ::
  "(string \<Rightarrow> 's \<Rightarrow> index_info list) \<Rightarrow> string \<Rightarrow> bson_d \<Rightarrow> (index_info list \<Rightarrow> bool) \<Rightarrow> 's \<Rightarrow> 'e option \<times> 's \<Rightarrow> bool" where
  "step_for v c K Q s res \<longleftrightarrow>
     concerns v c K s (snd res) \<and> at_most_one (on_keys K (v c (snd res))) \<and>
     (fst res = None \<longrightarrow> Q (on_keys K (v c (snd res)))) \<and>
     (Q (on_keys K (v c s)) \<longrightarrow> (\<forall>c'. v c' (snd res) = v c' s))"

definition settles ::
  "(string \<Rightarrow> 's \<Rightarrow> index_info list) \<Rightarrow> string \<Rightarrow> bson_d \<Rightarrow> (index_info list \<Rightarrow> bool) \<Rightarrow> ('s \<Rightarrow> 'e option \<times> 's) \<Rightarrow> bool" where
  "settles v c K Q f \<longleftrightarrow> (\<forall>s. at_most_one (on_keys K (v c s)) \<longrightarrow> step_for v c K Q s (f s))"

lemma step_keeps [simp]: "at_most_one (on_keys K (v c s)) \<Longrightarrow> Q (on_keys K (v c s)) \<Longrightarrow> step_for v c K Q s (None, s)"
  by (simp add: step_for_def)

lemma step_fails [simp]: "at_most_one (on_keys K (v c s)) \<Longrightarrow> step_for v c K Q s (Some e, s)"
  by (simp add: step_for_def)

lemma step_drops:
  assumes "index_laws drv v" "on_keys K (v c s) = [i]" "Q []" "\<not> Q [i]"
  shows "step_for v c K Q s (drop_index_ignore_not_found drv c (ii_name i) s)"
proof -
  obtain r s' where d: "drop_index_ignore_not_found drv c (ii_name i) s = (r, s')" by fastforce
  from dropped_index [OF assms(1,2) d] show ?thesis
    using assms(2-4) unfolding d step_for_def by (auto simp: at_most_one_cases)
qed

text \<open>First the only index on the pattern goes, then a new one is made.\<close>

lemma step_replaces:
  assumes laws: "index_laws drv v" and i: "on_keys K (v c s) = [i]" and no: "\<not> Q [i]"
    and h: "\<And>s. on_keys K (v c s) = [] \<Longrightarrow> step_for v c K Q s (h s)"
  shows "step_for v c K Q s (case drop_index_ignore_not_found drv c (ii_name i) s of (Some e, s1) \<Rightarrow> (Some e, s1) | (None, s1) \<Rightarrow> h s1)"
proof -
  obtain r s1 where d: "drop_index_ignore_not_found drv c (ii_name i) s = (r, s1)" by fastforce
  note D = dropped_index [OF laws i d]
  show ?thesis
  proof (cases r)
    case None
    then have "step_for v c K Q s1 (h s1)" using h D(2) by blast
    then show ?thesis using concerns_trans [OF D(1)] i no by (auto simp: d None step_for_def)
  next
    case (Some e)
    then show ?thesis using D(1,3) i no by (auto simp: d step_for_def at_most_one_cases)
  qed
qed

text \<open>Every step starts with a listing, and goes on with the index on its pattern, if any.\<close>

lemma settlesI:
  assumes laws: "index_laws drv v"
    and f: "\<And>s. f s = (case list_indexes drv c s of
           Inl err \<Rightarrow> (Some (DriverFailure err), s) | Inr idxs \<Rightarrow> g (find_index_by_keys idxs K) s)"
    and none: "\<And>s. on_keys K (v c s) = [] \<Longrightarrow> step_for v c K Q s (g None s)"
    and some: "\<And>s i. on_keys K (v c s) = [i] \<Longrightarrow> step_for v c K Q s (g (Some i) s)"
  shows "settles v c K Q f"
  unfolding settles_def
proof (intro allI impI)
  fix s assume one: "at_most_one (on_keys K (v c s))"
  show "step_for v c K Q s (f s)"
  proof (cases "list_indexes drv c s")
    case (Inl e)
    then show ?thesis using one by (simp add: f)
  next
    case (Inr l)
    then show ?thesis
      using one none some index_laws_ops(3) [OF laws Inr] by (auto simp: f find_index_on_keys at_most_one_cases)
  qed
qed

definition exactly_one :: "(index_info \<Rightarrow> bool) \<Rightarrow> index_info list \<Rightarrow> bool" where
  "exactly_one P l \<longleftrightarrow> (\<exists>i. l = [i] \<and> P i)"

lemma exactly_one_simps [simp]: "exactly_one P [i] = P i" "\<not> exactly_one P []"
  by (auto simp: exactly_one_def)

lemma step_creates:
  assumes laws: "index_laws drv v" and none: "on_keys (im_keys m) (v c s) = []" and good: "\<And>i. realises m i \<Longrightarrow> good i"
  shows "step_for v c (im_keys m) (exactly_one good) s (create_or_recheck drv c m good s)"
proof -
  obtain e s' where e: "ix_create drv c m s = (e, s')" by fastforce
  note C = created_index [OF laws e refl]
  show ?thesis
  proof (cases e)
    case None
    then show ?thesis
      using C(1) C(2) [OF none] good none
      by (auto simp: create_or_recheck_def e step_for_def at_most_one_cases exactly_one_def)
  next
    case (Some err)
    have "list_indexes drv c s' = Inr l \<Longrightarrow> l = v c s'" for l by (rule index_laws_ops(3) [OF laws])
    then show ?thesis
      using C(1) C(3) [OF none] good none
      by (auto simp: create_or_recheck_def e Some step_for_def at_most_one_cases find_index_on_keys split: sum.split)
  qed
qed

text \<open>The three ways to ensure an index without expiry: keep a good one, replace or create.\<close>

lemma settles_replacing:
  assumes laws: "index_laws drv v" and K: "im_keys m = K" and good: "\<And>i. realises m i \<Longrightarrow> good i"
    and f: "\<And>s. f s = (case list_indexes drv c s of
           Inl err \<Rightarrow> (Some (DriverFailure err), s)
         | Inr idxs \<Rightarrow>
             (case find_index_by_keys idxs K of
                None \<Rightarrow> create_or_recheck drv c m good s
              | Some idx \<Rightarrow>
                  if good idx then (None, s)
                  else (case drop_index_ignore_not_found drv c (ii_name idx) s of
                          (Some err, s') \<Rightarrow> (Some err, s') | (None, s') \<Rightarrow> create_or_recheck drv c m good s')))"
  shows "settles v c K (exactly_one good) f"
proof (rule settlesI [OF laws f])
  have create: "step_for v c K (exactly_one good) s (create_or_recheck drv c m good s)" if "on_keys K (v c s) = []" for s
    using step_creates [where m = m and good = good, OF laws _ good] that K by blast
  then show "step_for v c K (exactly_one good) s (case None of None \<Rightarrow> create_or_recheck drv c m good s | Some idx \<Rightarrow>
      if good idx then (None, s) else (case drop_index_ignore_not_found drv c (ii_name idx) s of
        (Some err, s') \<Rightarrow> (Some err, s') | (None, s') \<Rightarrow> create_or_recheck drv c m good s'))" if "on_keys K (v c s) = []" for s
    using that by simp
  show "step_for v c K (exactly_one good) s (case Some i of None \<Rightarrow> create_or_recheck drv c m good s | Some idx \<Rightarrow>
      if good idx then (None, s) else (case drop_index_ignore_not_found drv c (ii_name idx) s of
        (Some err, s') \<Rightarrow> (Some err, s') | (None, s') \<Rightarrow> create_or_recheck drv c m good s'))" if "on_keys K (v c s) = [i]" for s i
    using that step_replaces [OF laws that _ create] by (simp add:  at_most_one_def)
qed

lemma settles_unique: "index_laws drv v \<Longrightarrow> settles v c K (exactly_one ii_unique) (ensure_unique_index drv c K)"
  by (rule settles_replacing [where m = "\<lparr>im_keys = K, im_unique = True, im_expire = None, im_partial = None\<rparr>"])
    (simp_all add: realises_def ensure_unique_index_def Let_def)

lemma settles_unique_partial:
  "index_laws drv v \<Longrightarrow> settles v c K (exactly_one (\<lambda>i. ii_unique i \<and> partial_filter_equal (ii_partial i) p))
     (ensure_unique_partial_index drv c K p)"
  by (rule settles_replacing [where m = "\<lparr>im_keys = K, im_unique = True, im_expire = None, im_partial = p\<rparr>"])
    (simp_all add: realises_def ensure_unique_partial_index_def Let_def)

lemma settles_index: "index_laws drv v \<Longrightarrow> settles v c K (exactly_one (\<lambda>_. True)) (ensure_index drv c K)"
  by (rule settles_replacing [where m = "\<lparr>im_keys = K, im_unique = False, im_expire = None, im_partial = None\<rparr>"])
    (auto simp: ensure_index_def split: option.split sum.split)

lemma settles_drop:
  assumes laws: "index_laws drv v"
  shows "settles v c K (list_all (\<lambda>i. ii_name i = ''_id_'')) (drop_index_by_keys_if_exists drv c K)"
  by (rule settlesI [OF laws drop_index_by_keys_if_exists_def])
    (auto simp:  at_most_one_def step_drops [OF laws])

section \<open>Expiry\<close>

definition expires :: "duration \<Rightarrow> bson_m \<Rightarrow> index_info list \<Rightarrow> bool" where
  "expires ttl partial l \<longleftrightarrow>
     (case ttl_seconds ttl of
        None \<Rightarrow> list_all (\<lambda>i. ii_expire i = None) l
      | Some secs \<Rightarrow> secs \<le> 2147483647 \<and>
          exactly_one (\<lambda>i. ttl_is secs i \<and> partial_filter_equal (ii_partial i) partial) l)"

lemma ttl_seconds_rounds_up:
  "ttl_seconds ttl = Some secs \<Longrightarrow> 1 \<le> secs \<and> ttl \<le> secs * second \<and> secs * second < ttl + second"
  "ttl_seconds ttl = None \<longleftrightarrow> ttl \<le> 0"
proof -
  define q m where "q = ttl div second" "m = ttl mod second"
  then have D: "ttl = 1000000000 * q + m" "0 \<le> m" "m < 1000000000" by (simp_all add: second_def)
  then show "ttl_seconds ttl = Some secs \<Longrightarrow> 1 \<le> secs \<and> ttl \<le> secs * second \<and> secs * second < ttl + second"
    unfolding ttl_seconds_def Let_def q_m_def [symmetric] by (auto simp: second_def split: if_splits)
  show "ttl_seconds ttl = None \<longleftrightarrow> ttl \<le> 0" by (simp add: ttl_seconds_def Let_def)
qed

lemma partial_filter_equal_simps [simp]:
  "partial_filter_equal a a" "partial_filter_equal i (case p of Some (x # xs) \<Rightarrow> p | _ \<Rightarrow> None) = partial_filter_equal i p"
  by (auto simp: partial_filter_equal_def split: option.split list.split)

lemma step_creates_ttl:
  assumes laws: "index_laws drv v" and none: "on_keys K (v c s) = []"
  shows "step_for v c K (exactly_one (\<lambda>i. ttl_is secs i \<and> partial_filter_equal (ii_partial i) p)) s
    (create_ttl_index drv c K secs p s)"
proof -
  let ?m = "\<lparr>im_keys = K, im_unique = False, im_expire = Some secs, im_partial = (case p of Some (x # xs) \<Rightarrow> p | _ \<Rightarrow> None)\<rparr>"
  have good: "ttl_is secs i \<and> partial_filter_equal (ii_partial i) p" if "realises ?m i" for i using that by (simp add: realises_def)
  obtain e s' where e: "ix_create drv c ?m s = (e, s')" by fastforce
  note C = created_index [OF laws e, of K]
  show ?thesis
  proof (cases e)
    case None
    then show ?thesis
      using C(1,2) good none by (auto simp: create_ttl_index_def e step_for_def at_most_one_cases exactly_one_def)
  next
    case (Some err)
    have "list_indexes drv c s' = Inr l \<Longrightarrow> l = v c s'" for l by (rule index_laws_ops(3) [OF laws])
    then show ?thesis
      using C(1,3) good none
      by (auto simp: create_ttl_index_def e Some step_for_def at_most_one_cases find_index_on_keys split: sum.split)
  qed
qed

text \<open>\<open>collMod\<close> changes the expiry in place; when it reports an error, the index is replaced.\<close>

lemma step_retimes:
  assumes laws: "index_laws drv v" and i: "on_keys K (v c s) = [i]" "partial_filter_equal (ii_partial i) p" "\<not> ttl_is secs i"
    and Q: "Q = exactly_one (\<lambda>i. ttl_is secs i \<and> partial_filter_equal (ii_partial i) p)"
  shows "step_for v c K Q s
    (case ix_coll_mod drv c (ii_name i) secs s of
       (None, s') \<Rightarrow> (None, s')
     | (Some _, s') \<Rightarrow>
         (case drop_index_ignore_not_found drv c (ii_name i) s' of
            (Some e, s2) \<Rightarrow> (Some e, s2) | (None, s2) \<Rightarrow> create_ttl_index drv c K secs p s2))"
proof -
  obtain e s1 where m: "ix_coll_mod drv c (ii_name i) secs s = (e, s1)" by fastforce
  note M = index_laws_ops(6) [OF laws m]
  note R = retimed_keys [OF index_laws_ops(1) [OF laws] i(1), of secs "v c s1"]
  have C: "concerns v c K s s1" using M R(2) by (auto simp: concerns_def)
  have j: "\<exists>j. on_keys K (v c s1) = [j] \<and> ii_name j = ii_name i" using M R(1) i(1) by auto
  show ?thesis
  proof (cases e)
    case None
    then show ?thesis using M R(1) C i by (auto simp: m step_for_def Q at_most_one_def ttl_is_def)
  next
    case (Some err)
    obtain j where j: "on_keys K (v c s1) = [j]" "ii_name j = ii_name i" using j by blast
    obtain r s2 where d: "drop_index_ignore_not_found drv c (ii_name j) s1 = (r, s2)" by fastforce
    note D = dropped_index [OF laws j(1) d]
    have "step_for v c K Q s2 (create_ttl_index drv c K secs p s2)" if "r = None"
      using step_creates_ttl [OF laws D(2) [OF that]] by (simp add: Q)
    then show ?thesis
      using C D(1,3) i j d concerns_trans
      by (cases r) (auto simp: m Some step_for_def Q at_most_one_cases exactly_one_def intro: concerns_trans)
  qed
qed

lemma settles_ttl:
  assumes laws: "index_laws drv v"
  shows "settles v c K (expires ttl p) (ensure_ttl_index drv c K ttl p)"
proof (cases "ttl_seconds ttl")
  case None
  then have "ensure_ttl_index drv c K ttl p s = (case list_indexes drv c s of
      Inl err \<Rightarrow> (Some (DriverFailure err), s)
    | Inr idxs \<Rightarrow> (\<lambda>idx s. case idx of None \<Rightarrow> (None, s) | Some i \<Rightarrow> if ii_expire i = None then (None, s)
        else drop_index_ignore_not_found drv c (ii_name i) s) (find_index_by_keys idxs K) s)" for s
    by (cases "list_indexes drv c s") (simp_all add: ensure_ttl_index_def)
  then show ?thesis
    by (rule settlesI [OF laws]) (auto simp: None expires_def  at_most_one_def step_drops [OF laws])
next
  case (Some secs)
  show ?thesis
  proof (cases "2147483647 < secs")
    case True
    then have "ensure_ttl_index drv c K ttl p s = (case list_indexes drv c s of
        Inl err \<Rightarrow> (Some (DriverFailure err), s) | Inr idxs \<Rightarrow> (\<lambda>_ s. (Some (TtlTooLarge c secs), s)) (find_index_by_keys idxs K) s)" for s
      by (cases "list_indexes drv c s") (simp_all add: ensure_ttl_index_def Some)
    then show ?thesis by (rule settlesI [OF laws]) (simp_all add: at_most_one_def)
  next
    case False
    then have Q: "expires ttl p = exactly_one (\<lambda>i. ttl_is secs i \<and> partial_filter_equal (ii_partial i) p)"
      by (auto simp: expires_def fun_eq_iff Some)
    have create: "step_for v c K (expires ttl p) s (create_ttl_index drv c K secs p s)" if "on_keys K (v c s) = []" for s
      using step_creates_ttl [OF laws that] by (simp add: Q)
    show ?thesis
    proof (rule settlesI [OF laws])
      show "ensure_ttl_index drv c K ttl p s = (case list_indexes drv c s of
          Inl err \<Rightarrow> (Some (DriverFailure err), s)
        | Inr idxs \<Rightarrow> (\<lambda>idx s. case idx of
            None \<Rightarrow> create_ttl_index drv c K secs p s
          | Some i \<Rightarrow> if ii_expire i = None then (Some (TtlConflict c (ii_name i) K), s)
              else if \<not> partial_filter_equal (ii_partial i) p
              then (case drop_index_ignore_not_found drv c (ii_name i) s of
                      (Some e, s') \<Rightarrow> (Some e, s') | (None, s') \<Rightarrow> create_ttl_index drv c K secs p s')
              else if ttl_is secs i then (None, s)
              else (case ix_coll_mod drv c (ii_name i) secs s of
                      (None, s') \<Rightarrow> (None, s')
                    | (Some _, s') \<Rightarrow> (case drop_index_ignore_not_found drv c (ii_name i) s' of
                        (Some e, s2) \<Rightarrow> (Some e, s2) | (None, s2) \<Rightarrow> create_ttl_index drv c K secs p s2)))
            (find_index_by_keys idxs K) s)" for s
        using False by (cases "list_indexes drv c s") (simp_all add: ensure_ttl_index_def Some)
    next
      fix s i
      assume i: "on_keys K (v c s) = [i]"
      have stays: "at_most_one (on_keys K (v c s))" using i by (simp add: at_most_one_def)
      show "step_for v c K (expires ttl p) s
        (case Some i of None \<Rightarrow> create_ttl_index drv c K secs p s
          | Some i \<Rightarrow> if ii_expire i = None then (Some (TtlConflict c (ii_name i) K), s)
              else if \<not> partial_filter_equal (ii_partial i) p
              then (case drop_index_ignore_not_found drv c (ii_name i) s of
                      (Some e, s') \<Rightarrow> (Some e, s') | (None, s') \<Rightarrow> create_ttl_index drv c K secs p s')
              else if ttl_is secs i then (None, s)
              else (case ix_coll_mod drv c (ii_name i) secs s of
                      (None, s') \<Rightarrow> (None, s')
                    | (Some _, s') \<Rightarrow> (case drop_index_ignore_not_found drv c (ii_name i) s' of
                        (Some e, s2) \<Rightarrow> (Some e, s2) | (None, s2) \<Rightarrow> create_ttl_index drv c K secs p s2)))"
        using stays step_replaces [OF laws i _ create] step_retimes [OF laws i _ _ Q] i
        by (simp add: Q)
    qed (simp add: create)
  qed
qed

section \<open>All steps together\<close>

text \<open>A step with the collection, the pattern and the aim it has, if it concerns indexes.\<close>

type_synonym index_goal = "string \<times> bson_d \<times> (index_info list \<Rightarrow> bool)"

definition good_step :: "(string \<Rightarrow> 's \<Rightarrow> index_info list) \<Rightarrow> index_goal option \<times> ('s \<Rightarrow> 'e option \<times> 's) \<Rightarrow> bool" where
  "good_step v p = (case p of
     (None, f) \<Rightarrow> \<forall>s c. v c (snd (f s)) = v c s
   | (Some (c, K, Q), f) \<Rightarrow> plain_keys K \<and> settles v c K Q f)"

definition goals_of :: "(index_goal option \<times> 'f) list \<Rightarrow> index_goal list" where
  "goals_of plan = concat (map (\<lambda>(g, f). case g of None \<Rightarrow> [] | Some x \<Rightarrow> [x]) plan)"

definition places :: "index_goal list \<Rightarrow> (string \<times> bson_d) list" where
  "places gs = map (\<lambda>(c, K, Q). (c, K)) gs"

definition single :: "(string \<Rightarrow> 's \<Rightarrow> index_info list) \<Rightarrow> index_goal list \<Rightarrow> 's \<Rightarrow> bool" where
  "single v gs s \<longleftrightarrow> (\<forall>(c, K, Q) \<in> set gs. at_most_one (on_keys K (v c s)))"

definition reached :: "(string \<Rightarrow> 's \<Rightarrow> index_info list) \<Rightarrow> index_goal list \<Rightarrow> 's \<Rightarrow> bool" where
  "reached v gs s \<longleftrightarrow> (\<forall>(c, K, Q) \<in> set gs. Q (on_keys K (v c s)))"

text \<open>The indexes of a collection on none of the patterns.\<close>

definition foreign :: "index_goal list \<Rightarrow> string \<Rightarrow> index_info list \<Rightarrow> index_info list" where
  "foreign gs c l = filter (\<lambda>i. \<forall>(c', K, Q) \<in> set gs. c' = c \<longrightarrow> \<not> keys_equal (ii_key i) K) l"

definition kept_elsewhere :: "(string \<Rightarrow> 's \<Rightarrow> index_info list) \<Rightarrow> index_goal list \<Rightarrow> 's \<Rightarrow> 's \<Rightarrow> bool" where
  "kept_elsewhere v gs s s' \<longleftrightarrow> (\<forall>c. foreign gs c (v c s') = foreign gs c (v c s)) \<and>
     (\<forall>c L. plain_keys L \<longrightarrow> (c, L) \<notin> set (places gs) \<longrightarrow> on_keys L (v c s') = on_keys L (v c s))"

lemma kept_elsewhere_refl: "(\<And>c. v c s' = v c s) \<Longrightarrow> kept_elsewhere v gs s s'"
  by (simp add: kept_elsewhere_def)

lemma kept_elsewhere_mono:
  assumes "kept_elsewhere v gs s s'" "set gs \<subseteq> set hs"
  shows "kept_elsewhere v hs s s'"
proof -
  have "foreign hs c l = foreign hs c (foreign gs c l)" for c l
    using assms(2) by (auto simp: foreign_def filter_filter intro!: filter_cong)
  then have "foreign hs c (v c s') = foreign hs c (v c s)" for c
    using assms(1) unfolding kept_elsewhere_def by metis
  moreover have "set (places gs) \<subseteq> set (places hs)" unfolding places_def set_map by (rule image_mono [OF assms(2)])
  ultimately show ?thesis using assms(1) unfolding kept_elsewhere_def by blast
qed

lemma kept_elsewhere_trans:
  "kept_elsewhere v gs s t \<Longrightarrow> kept_elsewhere v gs t u \<Longrightarrow> kept_elsewhere v gs s u"
  by (simp add: kept_elsewhere_def)

lemma concerns_kept:
  assumes "concerns v c K s s'" "plain_keys K"
  shows "kept_elsewhere v [(c, K, Q)] s s'"
proof -
  have "foreign [(c, K, Q)] c' l = (if c' = c then off_keys K l else l)" for c' l
    by (auto simp: foreign_def off_keys_def)
  then show ?thesis
    using assms concerns_on_keys [OF assms] by (auto simp: kept_elsewhere_def places_def concerns_def same_elsewhere_def)
qed

lemma goals_of_simps [simp]:
  "goals_of [] = []" "goals_of ((None, f) # plan) = goals_of plan" "goals_of ((Some g, f) # plan) = g # goals_of plan"
  by (simp_all add: goals_of_def)

lemma single_reached_kept:
  assumes "kept_elsewhere v gs s s'" "set (places hs) \<inter> set (places gs) = {}" "\<forall>(c, K, Q) \<in> set hs. plain_keys K"
  shows "single v hs s' = single v hs s" "reached v hs s' = reached v hs s"
proof -
  have "on_keys K (v c s') = on_keys K (v c s)" if "(c, K, Q) \<in> set hs" for c K Q
  proof -
    have "(c, K) \<in> set (places hs)" using that by (force simp: places_def)
    then show ?thesis using assms that unfolding kept_elsewhere_def by blast
  qed
  then show "single v hs s' = single v hs s" "reached v hs s' = reached v hs s" by (fastforce simp: single_def reached_def)+
qed

lemma goals_plain: "list_all (good_step v) plan \<Longrightarrow> \<forall>(c, K, Q) \<in> set (goals_of plan). plain_keys K"
  by (induction plan) (auto simp: goals_of_def good_step_def split: option.splits)

lemma run_plan:
  "list_all (good_step v) plan \<Longrightarrow> distinct (places (goals_of plan)) \<Longrightarrow> single v (goals_of plan) s \<Longrightarrow>
   run_steps (map snd plan) s = (r, s') \<Longrightarrow>
   kept_elsewhere v (goals_of plan) s s' \<and> single v (goals_of plan) s' \<and> (r = None \<longrightarrow> reached v (goals_of plan) s') \<and>
   (reached v (goals_of plan) s \<longrightarrow> (\<forall>c. v c s' = v c s))"
proof (induction plan arbitrary: s)
  case Nil
  then show ?case by (auto simp: kept_elsewhere_refl reached_def)
next
  case (Cons p plan)
  obtain g f where p: "p = (g, f)" by fastforce
  obtain r1 s1 where f: "f s = (r1, s1)" by fastforce
  have rest: "list_all (good_step v) plan" "good_step v (g, f)" using Cons.prems(1) p by simp_all
  have go: "r1 = None \<Longrightarrow> run_steps (map snd plan) s1 = (r, s')" "r1 \<noteq> None \<Longrightarrow> r = r1 \<and> s' = s1"
    using Cons.prems(4) p f by (auto split: option.splits)
  show ?case
  proof (cases g)
    case None
    then have same: "v c s1 = v c s" for c using rest(2) f by (auto simp: good_step_def dest: spec [of _ s])
    have gs: "goals_of (p # plan) = goals_of plan" using p None by simp
    have moved: "single v gs s1 = single v gs s" "reached v gs s1 = reached v gs s" "kept_elsewhere v gs s s1" for gs
      by (simp_all add: single_def reached_def same kept_elsewhere_refl)
    show ?thesis
    proof (cases "r1 = None")
      case True
      from Cons.IH [OF rest(1) _ _ go(1) [OF True]] show ?thesis
        using Cons.prems(2,3) moved same kept_elsewhere_trans unfolding gs by metis
    next
      case False
      then show ?thesis using Cons.prems(3) moved same go(2) unfolding gs by auto
    qed
  next
    case (Some goal)
    obtain c K Q where goal: "goal = (c, K, Q)" by (cases goal) auto
    have gs: "goals_of (p # plan) = (c, K, Q) # goals_of plan" using p Some goal by simp
    have K: "plain_keys K" "settles v c K Q f" using rest(2) Some goal by (simp_all add: good_step_def)
    have one: "at_most_one (on_keys K (v c s))" "single v (goals_of plan) s"
      using Cons.prems(3) gs by (auto simp: single_def)
    have S: "concerns v c K s s1" "at_most_one (on_keys K (v c s1))" "r1 = None \<longrightarrow> Q (on_keys K (v c s1))"
      "Q (on_keys K (v c s)) \<longrightarrow> (\<forall>c'. v c' s1 = v c' s)"
      using K(2) one(1) f unfolding settles_def step_for_def by (metis fst_conv snd_conv)+
    have D: "set (places (goals_of plan)) \<inter> set (places [(c, K, Q)]) = {}" "distinct (places (goals_of plan))"
      using Cons.prems(2) gs by (auto simp: places_def)
    note keep = concerns_kept [OF S(1) K(1), of Q]
    note moved = single_reached_kept [OF keep D(1) goals_plain [OF rest(1)]]
    have keep': "kept_elsewhere v (goals_of (p # plan)) s s1" using kept_elsewhere_mono [OF keep] gs by simp
    show ?thesis
    proof (cases "r1 = None")
      case True
      have IH: "kept_elsewhere v (goals_of plan) s1 s'" "single v (goals_of plan) s'" "r = None \<longrightarrow> reached v (goals_of plan) s'"
        "reached v (goals_of plan) s1 \<longrightarrow> (\<forall>c. v c s' = v c s1)"
        using Cons.IH [OF rest(1) D(2) _ go(1) [OF True]] moved(1) one(2) by auto
      have "(c, K) \<notin> set (places (goals_of plan))" using D(1) by (simp add: places_def)
      then have head: "on_keys K (v c s') = on_keys K (v c s1)" using IH(1) K(1) unfolding kept_elsewhere_def by blast
      have "kept_elsewhere v (goals_of (p # plan)) s1 s'" unfolding gs by (rule kept_elsewhere_mono [OF IH(1)]) auto
      from kept_elsewhere_trans [OF keep' this] show ?thesis
        using IH(2-4) S(2-4) True head moved(2) unfolding gs by (auto simp: single_def reached_def)
    next
      case False
      then show ?thesis using go(2) keep' S(2,4) moved one(2) unfolding gs by (auto simp: single_def reached_def)
    qed
  qed
qed


section \<open>The indexes after a start\<close>

definition index_goals :: "duration \<Rightarrow> duration \<Rightarrow> index_goal list" where
  "index_goals account_ttl message_ttl =
     [(''domains'', [ascending ''domain''], exactly_one ii_unique),
      (''domains'', [ascending ''isActive''], exactly_one (\<lambda>_. True)),
      (''accounts'', [ascending ''address''], exactly_one ii_unique),
      (''accounts'', [ascending ''createdAt''], expires account_ttl None),
      (''messages'', list_keys, exactly_one (\<lambda>_. True)),
      (''messages'', seen_keys, exactly_one (\<lambda>_. True)),
      (''messages'', legacy_keys, list_all (\<lambda>i. ii_name i = ''_id_'')),
      (''messages'', [ascending ''accountId''], list_all (\<lambda>i. ii_name i = ''_id_'')),
      (''messages'', [ascending ''createdAt''], expires message_ttl message_keep_ttl_partial_filter),
      (''messages'', ingest_keys,
        exactly_one (\<lambda>i. ii_unique i \<and> partial_filter_equal (ii_partial i) ingest_partial_filter))]"

lemma ensure_indexes_plan:
  assumes laws: "index_laws drv v"
  shows "\<exists>plan. ensure_indexes drv account_ttl message_ttl = run_steps (map snd plan) \<and> list_all (good_step v) plan \<and>
     goals_of plan = index_goals account_ttl message_ttl \<and> distinct (places (goals_of plan))"
proof -
  let ?fs = "[ensure_unique_index drv ''domains'' [ascending ''domain''],
        ensure_index drv ''domains'' [ascending ''isActive''],
        ensure_unique_index drv ''accounts'' [ascending ''address''],
        ensure_ttl_index drv ''accounts'' [ascending ''createdAt''] account_ttl None,
        ensure_index drv ''messages'' list_keys,
        ensure_index drv ''messages'' seen_keys,
        drop_index_by_keys_if_exists drv ''messages'' legacy_keys,
        drop_index_by_keys_if_exists drv ''messages'' [ascending ''accountId''],
        ensure_ttl_index drv ''messages'' [ascending ''createdAt''] message_ttl message_keep_ttl_partial_filter,
        ensure_unique_partial_index drv ''messages'' ingest_keys ingest_partial_filter]"
  let ?steps = "zip (map Some (index_goals account_ttl message_ttl)) ?fs"
  let ?plan = "take 8 ?steps @ (None, normalize_missing_message_keep drv ''messages'') # drop 8 ?steps"
  have fill: "v c (snd (normalize_missing_message_keep drv ''messages'' s)) = v c s" for c s
    using index_laws_ops(7) [OF laws] by (auto simp: normalize_missing_message_keep_def split: prod.split)
  have plain: "plain_keys [ascending k]" "plain_keys list_keys" "plain_keys seen_keys" "plain_keys legacy_keys" "plain_keys ingest_keys" for k
    by (simp_all add: plain_keys_def list_keys_def seen_keys_def legacy_keys_def ingest_keys_def)
  have "list_all (good_step v) ?plan"
    by (simp add: index_goals_def good_step_def plain fill settles_unique [OF laws] settles_index [OF laws] settles_ttl [OF laws]
        settles_drop [OF laws] settles_unique_partial [OF laws])
  moreover have "goals_of ?plan = index_goals account_ttl message_ttl" by (simp add: index_goals_def)
  moreover have "distinct (places (index_goals account_ttl message_ttl))"
    by (simp add: index_goals_def places_def list_keys_def seen_keys_def legacy_keys_def ingest_keys_def)
  moreover have "ensure_indexes drv account_ttl message_ttl = run_steps (map snd ?plan)"
    by (simp add: ensure_indexes_def index_goals_def)
  ultimately show ?thesis by metis
qed

text \<open>
  C12: what the indexes are after a start, whatever indexes earlier versions have left (at most one on each of the ten
  patterns), and whichever operations fail. Indexes on other patterns are never touched. If the start succeeds, the
  domain, the address and the key of a message in the stream are unique, the latter where it exists; accounts and
  messages not to be kept expire after their lifetime rounded up to seconds, or not at all if it is not positive; the
  legacy indexes are gone; and a further start changes no index.
\<close>

theorem ensured_indexes:
  assumes "index_laws drv v" and "single v (index_goals account_ttl message_ttl) s"
    and "ensure_indexes drv account_ttl message_ttl s = (r, s')"
  shows "(\<forall>c. foreign (index_goals account_ttl message_ttl) c (v c s') = foreign (index_goals account_ttl message_ttl) c (v c s)) \<and>
    (r = None \<longrightarrow> reached v (index_goals account_ttl message_ttl) s' \<and>
       (\<forall>c. v c (snd (ensure_indexes drv account_ttl message_ttl s')) = v c s'))"
proof -
  obtain plan where plan: "ensure_indexes drv account_ttl message_ttl = run_steps (map snd plan)" "list_all (good_step v) plan"
    "goals_of plan = index_goals account_ttl message_ttl" "distinct (places (goals_of plan))"
    using ensure_indexes_plan [OF assms(1)] by blast
  note R = run_plan [OF plan(2,4), unfolded plan(3) plan(1) [symmetric]]
  have "kept_elsewhere v (index_goals account_ttl message_ttl) s s'" "single v (index_goals account_ttl message_ttl) s'"
    "r = None \<longrightarrow> reached v (index_goals account_ttl message_ttl) s'"
    using R [OF assms(2,3)] by simp_all
  moreover from R [OF this(2) prod.collapse [symmetric]]
  have "reached v (index_goals account_ttl message_ttl) s' \<longrightarrow> (\<forall>c. v c (snd (ensure_indexes drv account_ttl message_ttl s')) = v c s')"
    by simp
  ultimately show ?thesis by (simp add: kept_elsewhere_def)
qed

text \<open>A driver in memory, which refuses \<open>collMod\<close>.\<close>

definition named :: "index_info list \<Rightarrow> index_info list" where
  "named l = (if distinct (map ii_name l) \<and> [] \<notin> set (map ii_name l) then l else [])"

type_synonym catalog = "(string \<times> index_info list) list"

definition mem_view :: "string \<Rightarrow> catalog \<Rightarrow> index_info list" where
  "mem_view c s = (case map_of s c of None \<Rightarrow> [] | Some l \<Rightarrow> named l)"

definition mem_put :: "string \<Rightarrow> index_info list \<Rightarrow> catalog \<Rightarrow> catalog" where
  "mem_put c l s = (c, l) # filter (\<lambda>p. fst p \<noteq> c) s"

lemma mem_view_put [simp]: "mem_view c' (mem_put c l s) = (if c' = c then named l else mem_view c' s)"
proof -
  have "map_of (filter (\<lambda>p. fst p \<noteq> c) s) c' = map_of s c'" if "c' \<noteq> c" using that by (induction s) auto
  then show ?thesis by (simp add: mem_view_def mem_put_def)
qed

definition mem_indexes :: "catalog index_driver" where
  "mem_indexes =
     \<lparr>ix_cursor = (\<lambda>c s. Inr (map Inr (mem_view c s), None)),
      ix_create = (\<lambda>c m s. (None, let l = mem_view c s in mem_put c (l @
        [\<lparr>ii_name = concat (map ii_name l) @ ''x'', ii_key = im_keys m, ii_unique = im_unique m,
          ii_expire = map_option GoInt32 (im_expire m), ii_partial = im_partial m\<rparr>]) s)),
      ix_drop = (\<lambda>c n s. (None, mem_put c (without n (mem_view c s)) s)),
      ix_coll_mod = (\<lambda>c n secs s. (Some \<lparr>ie_code = None, ie_text = ''not authorized''\<rparr>, s)),
      ix_update_many = (\<lambda>c f us s. (None, s))\<rparr>"

lemma keys_equal_refl [simp]: "keys_equal K K"
proof (induction K)
  case (Cons p K)
  then show ?case by (cases p) (simp add: value_equal_def split: option.split)
qed simp

lemma named_simps:
  "distinct (map ii_name (named l))" "[] \<notin> ii_name ` set (named l)" "named (without n (named l)) = without n (named l)"
  "ii_name i = concat (map ii_name (named l)) @ ''x'' \<Longrightarrow> named (named l @ [i]) = named l @ [i]"
proof -
  have sub: "distinct (map ii_name l) \<Longrightarrow> distinct (map ii_name (without n l))" for l
    by (induction l) (auto simp: without_def)
  show "distinct (map ii_name (named l))" "[] \<notin> ii_name ` set (named l)" by (auto simp: named_def)
  then show "named (without n (named l)) = without n (named l)"
    using sub [of "named l"] by (auto simp: named_def [of "without n (named l)"]) (auto simp: without_def image_iff)
  have "length (ii_name j) < length (concat (map ii_name xs) @ ''x'')" if "j \<in> set xs" for j :: index_info and xs
    using that by (induction xs) auto
  then have "concat (map ii_name (named l)) @ ''x'' \<notin> ii_name ` set (named l)" by (metis imageE less_irrefl)
  moreover have "distinct (map ii_name (named l))" "[] \<notin> ii_name ` set (named l)" by (auto simp: named_def)
  ultimately show "named (named l @ [i]) = named l @ [i]" if "ii_name i = concat (map ii_name (named l)) @ ''x''"
    using that by (simp add: named_def [of "named l @ [i]"])
qed

lemma mem_index_laws: "index_laws mem_indexes mem_view"
proof -
  have all: "decode_all (map Inr l) None = Inr l" for l by (induction l) simp_all
  have view: "\<exists>l. mem_view c s = named l" for c s
    by (cases "map_of s c") (auto simp: mem_view_def intro: exI [of _ "[]"] simp: named_def)
  have ok: "distinct (map ii_name (mem_view c s))" "[] \<notin> ii_name ` set (mem_view c s)"
    "named (without n (mem_view c s)) = without n (mem_view c s)"
    "ii_name i = concat (map ii_name (mem_view c s)) @ ''x'' \<Longrightarrow> named (mem_view c s @ [i]) = mem_view c s @ [i]" for c s n i
    using view [of c s] named_simps by (metis, metis, metis, metis)
  show ?thesis
    unfolding index_laws_def
    by (auto simp: mem_indexes_def list_indexes_def all ok same_elsewhere_def adds_def realises_def ttl_is_def Let_def
        split: option.splits)
qed

definition old_indexes :: catalog where
  "old_indexes =
     [(''accounts'', [\<lparr>ii_name = ''_id_'', ii_key = [ascending ''_id''], ii_unique = False, ii_expire = None, ii_partial = None\<rparr>,
        \<lparr>ii_name = ''address_1'', ii_key = [(''address'', GoInt32 1)], ii_unique = False, ii_expire = None, ii_partial = None\<rparr>,
        \<lparr>ii_name = ''createdAt_1'', ii_key = [(''createdAt'', GoFloat64 1)], ii_unique = False, ii_expire = Some (GoInt32 60),
         ii_partial = None\<rparr>]),
      (''messages'', [\<lparr>ii_name = ''accountId_1'', ii_key = [(''accountId'', GoInt64 1)], ii_unique = False, ii_expire = None,
         ii_partial = None\<rparr>])]"

lemma old_indexes_start: "fst (ensure_indexes mem_indexes hour 0 old_indexes) = None"
  by code_simp

theorem ensured_indexes_witness:
  "\<exists>s'. ensure_indexes mem_indexes hour 0 old_indexes = (None, s') \<and> reached mem_view (index_goals hour 0) s' \<and>
     (\<forall>c. mem_view c (snd (ensure_indexes mem_indexes hour 0 s')) = mem_view c s')"
proof -
  let ?r = "ensure_indexes mem_indexes hour 0 old_indexes"
  have run: "?r = (None, snd ?r)" using old_indexes_start by (simp add: prod_eq_iff)
  have "single mem_view (index_goals hour 0) old_indexes"
    by (simp add: single_def index_goals_def mem_view_def named_def old_indexes_def on_keys_def at_most_one_def
        list_keys_def seen_keys_def legacy_keys_def ingest_keys_def value_equal_def)
  from ensured_indexes [OF mem_index_laws this run] show ?thesis using run by blast
qed

text \<open>
  A non-unique index is dropped before the unique one is created: when the creation is refused (the collection has
  duplicates), the start fails and the collection has no index on the pattern at all.
\<close>

lemma refused_index_is_lost:
  "let drv = mem_indexes\<lparr>ix_create := \<lambda>c m s. (Some \<lparr>ie_code = Some 11000, ie_text = ''E11000 duplicate key''\<rparr>, s)\<rparr>;
       (r, s') = ensure_unique_index drv ''accounts'' [ascending ''address''] old_indexes
   in r \<noteq> None \<and> on_keys [ascending ''address''] (mem_view ''accounts'' old_indexes) \<noteq> [] \<and>
      on_keys [ascending ''address''] (mem_view ''accounts'' s') = []"
  by code_simp

end
