(* ===== verification/Store.thy ===== *)
theory Store
  imports Mongo Prelude
begin

text \<open>
  \<open>internal/store/store.go\<close>: the operations on domains, accounts and messages, over the driver of theory
  Mongo. A \<open>database\<close> has the three collections, the hexadecimal form of object ids and whether the
  context of a call is cancelled; the laws are \<open>database_laws\<close>, with the contents of the collections.
  Every reading of the clock is an argument. Concurrent calls that \<open>singleflight\<close> merges into one query
  are one call here. The unique indexes are those \<open>ensureIndexes\<close> creates (\<open>sc_clash\<close>).
\<close>

section \<open>The documents\<close>

definition trunc_ms :: "time \<Rightarrow> time" where "trunc_ms t = millis t * millisecond"

definition domain_fields :: "mail_domain \<Rightarrow> fields" where
  "domain_fields d k =
     (if k = ''_id'' then Some (BId (dm_id d))
      else if k = ''domain'' then Some (BStr (dm_domain d))
      else if k = ''isActive'' then Some (BBool (dm_is_active d))
      else if k = ''isPrivate'' then Some (BBool (dm_is_private d))
      else if k = ''createdAt'' then Some (BDate (millis (dm_created_at d)))
      else if k = ''updatedAt'' then Some (BDate (millis (dm_updated_at d)))
      else None)"

definition set_domain_field :: "string \<Rightarrow> bson_value \<Rightarrow> mail_domain \<Rightarrow> mail_domain" where
  "set_domain_field k v d =
     (case v of
        BStr s \<Rightarrow> if k = ''domain'' then d\<lparr>dm_domain := s\<rparr> else d
      | BBool b \<Rightarrow> if k = ''isActive'' then d\<lparr>dm_is_active := b\<rparr>
                  else if k = ''isPrivate'' then d\<lparr>dm_is_private := b\<rparr> else d
      | BDate t \<Rightarrow> if k = ''createdAt'' then d\<lparr>dm_created_at := t * millisecond\<rparr>
                  else if k = ''updatedAt'' then d\<lparr>dm_updated_at := t * millisecond\<rparr> else d
      | _ \<Rightarrow> d)"

definition domain_schema :: "mail_domain schema" where
  "domain_schema =
     \<lparr>sc_fields = domain_fields, sc_set = set_domain_field, sc_project = (\<lambda>p d. d),
      sc_id = dm_id, sc_with_id = (\<lambda>i d. d\<lparr>dm_id := i\<rparr>),
      sc_key = (\<lambda>d. (millis (dm_created_at d), unat (dm_id d))),
      sc_clash = (\<lambda>a b. dm_domain a = dm_domain b),
      sc_stored = (\<lambda>d. d\<lparr>dm_created_at := trunc_ms (dm_created_at d), dm_updated_at := trunc_ms (dm_updated_at d)\<rparr>),
      sc_empty = \<lparr>dm_id = 0, dm_domain = [], dm_is_active = False, dm_is_private = False,
                  dm_created_at = zero_time, dm_updated_at = zero_time\<rparr>\<rparr>"

definition account_fields :: "account \<Rightarrow> fields" where
  "account_fields a k =
     (if k = ''_id'' then Some (BId (ac_id a))
      else if k = ''address'' then Some (BStr (ac_address a))
      else if k = ''password'' then Some (BStr (ac_password a))
      else if k = ''quota'' then Some (BInt (ac_quota a))
      else if k = ''used'' then Some (BInt (ac_used a))
      else if k = ''isDeleted'' then Some (BBool (ac_is_deleted a))
      else if k = ''createdAt'' then Some (BDate (millis (ac_created_at a)))
      else if k = ''updatedAt'' then Some (BDate (millis (ac_updated_at a)))
      else None)"

definition set_account_field :: "string \<Rightarrow> bson_value \<Rightarrow> account \<Rightarrow> account" where
  "set_account_field k v a =
     (case v of
        BInt i \<Rightarrow> if k = ''used'' then a\<lparr>ac_used := i\<rparr> else if k = ''quota'' then a\<lparr>ac_quota := i\<rparr> else a
      | BDate t \<Rightarrow> if k = ''updatedAt'' then a\<lparr>ac_updated_at := t * millisecond\<rparr> else a
      | _ \<Rightarrow> a)"

text \<open>The code projects accounts only to their id (in \<open>GetAccountIDByAddress\<close>), which it then reads.\<close>

definition empty_account :: account where
  "empty_account = \<lparr>ac_id = 0, ac_address = [], ac_password = [], ac_quota = 0, ac_used = 0,
     ac_is_deleted = False, ac_created_at = zero_time, ac_updated_at = zero_time\<rparr>"

definition account_schema :: "account schema" where
  "account_schema =
     \<lparr>sc_fields = account_fields, sc_set = set_account_field,
      sc_project = (\<lambda>p a. case p of ProjInclude ks \<Rightarrow> empty_account\<lparr>ac_id := ac_id a\<rparr> | _ \<Rightarrow> a),
      sc_id = ac_id, sc_with_id = (\<lambda>i a. a\<lparr>ac_id := i\<rparr>),
      sc_key = (\<lambda>a. (millis (ac_created_at a), unat (ac_id a))),
      sc_clash = (\<lambda>a b. ac_address a = ac_address b),
      sc_stored = (\<lambda>a. a\<lparr>ac_created_at := trunc_ms (ac_created_at a), ac_updated_at := trunc_ms (ac_updated_at a)\<rparr>),
      sc_empty = empty_account\<rparr>"

text \<open>The scalar fields of a message; \<open>ingestStream\<close> and \<open>ingestSeq\<close> are omitted when empty.\<close>

definition message_fields :: "message \<Rightarrow> fields" where
  "message_fields m k =
     (if k = ''_id'' then Some (BId (ms_id m))
      else if k = ''accountId'' then Some (BId (ms_account_id m))
      else if k = ''msgid'' then Some (BStr (ms_msgid m))
      else if k = ''subject'' then Some (BStr (ms_subject m))
      else if k = ''intro'' then Some (BStr (ms_intro m))
      else if k = ''text'' then Some (BStr (ms_text m))
      else if k = ''hasAttachments'' then Some (BBool (ms_has_attachments m))
      else if k = ''size'' then Some (BInt (ms_size m))
      else if k = ''seen'' then Some (BBool (ms_seen m))
      else if k = ''isDeleted'' then Some (BBool (ms_is_deleted m))
      else if k = ''keep'' then Some (BBool (ms_keep m))
      else if k = ''ingestStream'' then (if ms_ingest_stream m = [] then None else Some (BStr (ms_ingest_stream m)))
      else if k = ''ingestSeq'' then (if ms_ingest_seq m = 0 then None else Some (BInt (ms_ingest_seq m)))
      else if k = ''flagged'' then Some (BBool (ms_flagged m))
      else if k = ''retention'' then Some (BBool (ms_retention m))
      else if k = ''retentionDate'' then Some (BDate (millis (ms_retention_date m)))
      else if k = ''createdAt'' then Some (BDate (millis (ms_created_at m)))
      else if k = ''updatedAt'' then Some (BDate (millis (ms_updated_at m)))
      else None)"

definition set_message_field :: "string \<Rightarrow> bson_value \<Rightarrow> message \<Rightarrow> message" where
  "set_message_field k v m =
     (case v of
        BBool b \<Rightarrow> if k = ''seen'' then m\<lparr>ms_seen := b\<rparr>
                  else if k = ''keep'' then m\<lparr>ms_keep := b\<rparr>
                  else if k = ''isDeleted'' then m\<lparr>ms_is_deleted := b\<rparr> else m
      | BDate t \<Rightarrow> if k = ''updatedAt'' then m\<lparr>ms_updated_at := t * millisecond\<rparr> else m
      | _ \<Rightarrow> m)"

definition empty_message :: message where
  "empty_message = \<lparr>ms_id = 0, ms_account_id = 0, ms_msgid = [], ms_from = \<lparr>ma_name = [], ma_address = []\<rparr>,
     ms_to = [], ms_cc = [], ms_bcc = [], ms_subject = [], ms_intro = [], ms_text = [], ms_html = [],
     ms_has_attachments = False, ms_attachments = [], ms_size = 0, ms_seen = False, ms_is_deleted = False,
     ms_keep = False, ms_ingest_stream = [], ms_ingest_seq = 0, ms_flagged = False, ms_retention = False,
     ms_retention_date = zero_time, ms_download_url = [], ms_raw_message = [], ms_created_at = zero_time,
     ms_updated_at = zero_time\<rparr>"

text \<open>A field that is projected away is the zero value after decoding.\<close>

definition is_shown :: "projection \<Rightarrow> string \<Rightarrow> bool" where
  "is_shown p k = (case p of ProjAll \<Rightarrow> True | ProjExclude ks \<Rightarrow> k \<notin> set ks | ProjInclude ks \<Rightarrow> k \<in> set ks)"

definition project_message :: "projection \<Rightarrow> message \<Rightarrow> message" where
  "project_message p m =
     (let z = empty_message; on = is_shown p in
      \<lparr>ms_id = ms_id m,
       ms_account_id = (if on ''accountId'' then ms_account_id m else ms_account_id z),
       ms_msgid = (if on ''msgid'' then ms_msgid m else ms_msgid z),
       ms_from = (if on ''from'' then ms_from m else ms_from z),
       ms_to = (if on ''to'' then ms_to m else ms_to z),
       ms_cc = (if on ''cc'' then ms_cc m else ms_cc z),
       ms_bcc = (if on ''bcc'' then ms_bcc m else ms_bcc z),
       ms_subject = (if on ''subject'' then ms_subject m else ms_subject z),
       ms_intro = (if on ''intro'' then ms_intro m else ms_intro z),
       ms_text = (if on ''text'' then ms_text m else ms_text z),
       ms_html = (if on ''html'' then ms_html m else ms_html z),
       ms_has_attachments = (if on ''hasAttachments'' then ms_has_attachments m else ms_has_attachments z),
       ms_attachments = (if on ''attachments'' then ms_attachments m else ms_attachments z),
       ms_size = (if on ''size'' then ms_size m else ms_size z),
       ms_seen = (if on ''seen'' then ms_seen m else ms_seen z),
       ms_is_deleted = (if on ''isDeleted'' then ms_is_deleted m else ms_is_deleted z),
       ms_keep = (if on ''keep'' then ms_keep m else ms_keep z),
       ms_ingest_stream = (if on ''ingestStream'' then ms_ingest_stream m else ms_ingest_stream z),
       ms_ingest_seq = (if on ''ingestSeq'' then ms_ingest_seq m else ms_ingest_seq z),
       ms_flagged = (if on ''flagged'' then ms_flagged m else ms_flagged z),
       ms_retention = (if on ''retention'' then ms_retention m else ms_retention z),
       ms_retention_date = (if on ''retentionDate'' then ms_retention_date m else ms_retention_date z),
       ms_download_url = [],
       ms_raw_message = (if on ''rawMessage'' then ms_raw_message m else ms_raw_message z),
       ms_created_at = (if on ''createdAt'' then ms_created_at m else ms_created_at z),
       ms_updated_at = (if on ''updatedAt'' then ms_updated_at m else ms_updated_at z)\<rparr>)"

definition same_ingest :: "message \<Rightarrow> message \<Rightarrow> bool" where
  "same_ingest a b \<longleftrightarrow> ms_account_id a = ms_account_id b \<and> ms_ingest_stream a = ms_ingest_stream b \<and>
     ms_ingest_seq a = ms_ingest_seq b \<and> ms_ingest_stream a \<noteq> [] \<and> ms_ingest_seq a \<noteq> 0"

definition newest_key :: "message \<Rightarrow> int \<times> nat" where
  "newest_key m = (millis (ms_created_at m), unat (ms_id m))"

definition message_schema :: "message schema" where
  "message_schema =
     \<lparr>sc_fields = message_fields, sc_set = set_message_field, sc_project = project_message,
      sc_id = ms_id, sc_with_id = (\<lambda>i m. m\<lparr>ms_id := i\<rparr>), sc_key = newest_key, sc_clash = same_ingest,
      sc_stored = (\<lambda>m. m\<lparr>ms_created_at := trunc_ms (ms_created_at m), ms_updated_at := trunc_ms (ms_updated_at m),
        ms_retention_date := trunc_ms (ms_retention_date m), ms_download_url := []\<rparr>),
      sc_empty = empty_message\<rparr>"

section \<open>The database\<close>

record 's database =
  db_domains :: "(mail_domain, 's) collection"
  db_accounts :: "(account, 's) collection"
  db_messages :: "(message, 's) collection"
  db_hex :: "object_id \<Rightarrow> string"
  db_from_hex :: "string \<Rightarrow> object_id option"
  db_cancelled :: "'s \<Rightarrow> bool"

text \<open>What the three collections hold in a state.\<close>

record 's contents =
  in_domains :: "'s \<Rightarrow> mail_domain list"
  in_accounts :: "'s \<Rightarrow> account list"
  in_messages :: "'s \<Rightarrow> message list"

definition hex_laws :: "'s database \<Rightarrow> bool" where
  "hex_laws db \<longleftrightarrow> (\<forall>i. db_from_hex db (db_hex db i) = Some i) \<and> (\<forall>i. db_hex db i \<noteq> []) \<and>
     (\<forall>i c. c \<in> set (db_hex db i) \<longrightarrow> is_digit c \<or> c \<in> set ''abcdef'')"

definition database_laws :: "'s database \<Rightarrow> 's contents \<Rightarrow> bool" where
  "database_laws db v \<longleftrightarrow>
     collection_laws domain_schema (in_domains v) (\<lambda>s. (in_accounts v s, in_messages v s)) (db_domains db) \<and>
     collection_laws account_schema (in_accounts v) (\<lambda>s. (in_domains v s, in_messages v s)) (db_accounts db) \<and>
     collection_laws message_schema (in_messages v) (\<lambda>s. (in_domains v s, in_accounts v s)) (db_messages db) \<and>
     hex_laws db"

datatype store_error =
    ErrNotFound | ErrDuplicateKey | ErrInvalidID | ErrAccountDeleted
  | DriverError mongo_error | ContextDone | SyncDomain string mongo_error

text \<open>\<open>errors.Is(err, mongo.ErrNoDocuments)\<close> and \<open>isDuplicateKeyError(err)\<close>.\<close>

definition not_found_error :: "mongo_error \<Rightarrow> store_error" where
  "not_found_error e = (if e = NoDocuments then ErrNotFound else DriverError e)"

definition duplicate_error :: "mongo_error \<Rightarrow> store_error" where
  "duplicate_error e = (if e = DuplicateKeyError then ErrDuplicateKey else DriverError e)"

definition find_one_error :: "mongo_error + 'd \<Rightarrow> store_error + 'd" where
  "find_one_error r = (case r of Inl e \<Rightarrow> Inl (not_found_error e) | Inr d \<Rightarrow> Inr d)"

section \<open>Domains\<close>

definition list_domains :: "'s database \<Rightarrow> 's \<Rightarrow> store_error + mail_domain list" where
  "list_domains db s =
     (case co_find (db_domains db) [CEq ''isActive'' (BBool True)] find_all s of
        Inl e \<Rightarrow> Inl (DriverError e) | Inr ds \<Rightarrow> Inr ds)"

definition get_domain_by_name :: "'s database \<Rightarrow> string \<Rightarrow> 's \<Rightarrow> store_error + mail_domain" where
  "get_domain_by_name db domain s =
     find_one_error (co_find_one (db_domains db)
       [CEq ''domain'' (BStr domain), CEq ''isActive'' (BBool True)] ProjAll s)"

definition create_domain :: "'s database \<Rightarrow> time \<Rightarrow> mail_domain \<Rightarrow> 's \<Rightarrow> store_error option \<times> 's" where
  "create_domain db now domain s =
     (let d = domain\<lparr>dm_created_at := now, dm_updated_at := now\<rparr> in
      case co_insert_one (db_domains db) d s of
        (Inl e, s') \<Rightarrow> (Some (duplicate_error e), s')
      | (Inr i, s') \<Rightarrow> (None, s'))"

text \<open>Each domain comes with the two clock readings for its \<open>updatedAt\<close> and \<open>createdAt\<close>.\<close>

fun sync_domains :: "'s database \<Rightarrow> (mail_domain \<times> time \<times> time) list \<Rightarrow> 's \<Rightarrow> store_error option \<times> 's" where
  "sync_domains db [] s = (None, s)"
| "sync_domains db ((d, now, now2) # ds) s =
     (let filter' = [CEq ''domain'' (BStr (dm_domain d))];
          update = [USet ''domain'' (BStr (dm_domain d)), USet ''isActive'' (BBool (dm_is_active d)),
                    USet ''isPrivate'' (BBool (dm_is_private d)), USet ''updatedAt'' (BDate (millis now)),
                    USetOnInsert ''createdAt'' (BDate (millis now2))]
      in case co_upsert_one (db_domains db) filter' update s of
           (Inl e, s') \<Rightarrow> (Some (SyncDomain (dm_domain d) e), s')
         | (Inr r, s') \<Rightarrow> sync_domains db ds s')"

section \<open>Accounts\<close>

text \<open>The account is changed in place; it is returned with the id it was inserted under.\<close>

definition create_account ::
  "'s database \<Rightarrow> time \<Rightarrow> account \<Rightarrow> 's \<Rightarrow> store_error option \<times> account \<times> 's" where
  "create_account db now account s =
     (let a = account\<lparr>ac_created_at := now, ac_updated_at := now,
                      ac_quota := (if ac_quota account = 0 then 40000000 else ac_quota account)\<rparr>
      in case co_insert_one (db_accounts db) a s of
           (Inl e, s') \<Rightarrow> (Some (duplicate_error e), a, s')
         | (Inr i, s') \<Rightarrow> (None, a\<lparr>ac_id := i\<rparr>, s'))"

definition get_account :: "'s database \<Rightarrow> string \<Rightarrow> 's \<Rightarrow> store_error + account" where
  "get_account db i s =
     (case db_from_hex db i of
        None \<Rightarrow> Inl ErrInvalidID
      | Some oid \<Rightarrow> find_one_error (co_find_one (db_accounts db) [CEq ''_id'' (BId oid)] ProjAll s))"

definition get_account_id_by_address :: "'s database \<Rightarrow> string \<Rightarrow> 's \<Rightarrow> store_error + object_id" where
  "get_account_id_by_address db address0 s =
     (let address = to_lower (trim_space address0) in
      if address = [] then Inl ErrNotFound
      else
        (let res = (case co_find_one (db_accounts db) [CEq ''address'' (BStr address)] (ProjInclude [''_id'']) s of
                      Inl e \<Rightarrow> Inl (not_found_error e) | Inr a \<Rightarrow> Inr (ac_id a))
         in if db_cancelled db s then Inl ContextDone else res))"

definition get_account_by_address :: "'s database \<Rightarrow> string \<Rightarrow> 's \<Rightarrow> store_error + account" where
  "get_account_by_address db address s =
     find_one_error (co_find_one (db_accounts db) [CEq ''address'' (BStr address)] ProjAll s)"

definition delete_account :: "'s database \<Rightarrow> string \<Rightarrow> 's \<Rightarrow> store_error option \<times> 's" where
  "delete_account db i s =
     (case db_from_hex db i of
        None \<Rightarrow> (Some ErrInvalidID, s)
      | Some oid \<Rightarrow>
          (case co_delete_one (db_accounts db) [CEq ''_id'' (BId oid)] s of
             (Inl e, s') \<Rightarrow> (Some (DriverError e), s')
           | (Inr n, s') \<Rightarrow> if n = 0 then (Some ErrNotFound, s') else (None, s')))"

definition update_result_error :: "(mongo_error + update_result) \<times> 's \<Rightarrow> store_error option \<times> 's" where
  "update_result_error r = (case r of (Inl e, s') \<Rightarrow> (Some (DriverError e), s') | (Inr u, s') \<Rightarrow> (None, s'))"

definition update_account_used ::
  "'s database \<Rightarrow> time \<Rightarrow> object_id \<Rightarrow> int \<Rightarrow> 's \<Rightarrow> store_error option \<times> 's" where
  "update_account_used db now i delta s =
     (if delta = 0
      then update_result_error
             (co_update_one (db_accounts db) [CEq ''_id'' (BId i)] [USet ''updatedAt'' (BDate (millis now))] s)
      else update_result_error
             (co_update_one (db_accounts db) [CEq ''_id'' (BId i)]
                [USetExpr ''used'' (EMax (ELit 0) (EAdd (EIfNull (EField ''used'') (ELit 0)) (ELit delta))),
                 USet ''updatedAt'' (BDate (millis now))] s))"

definition try_reserve_account_used ::
  "'s database \<Rightarrow> time \<Rightarrow> object_id \<Rightarrow> int \<Rightarrow> 's \<Rightarrow> (store_error + bool) \<times> 's" where
  "try_reserve_account_used db now i delta s =
     (if delta \<le> 0 then (Inr True, s)
      else
        (let filter' = [CEq ''_id'' (BId i),
               COr [[CLte ''quota'' (BInt 0)],
                    [CExprLte (EAdd (EIfNull (EField ''used'') (ELit 0)) (ELit delta)) (EField ''quota'')]]];
             update = [UInc ''used'' delta, USet ''updatedAt'' (BDate (millis now))]
         in case co_update_one (db_accounts db) filter' update s of
              (Inl e, s') \<Rightarrow> (Inl (DriverError e), s')
            | (Inr r, s') \<Rightarrow> (Inr (0 < ur_matched r), s')))"

definition recalculate_account_used ::
  "'s database \<Rightarrow> time \<Rightarrow> object_id \<Rightarrow> 's \<Rightarrow> (store_error + int) \<times> 's" where
  "recalculate_account_used db now i s =
     (case co_sum (db_messages db) [CEq ''accountId'' (BId i), CEq ''isDeleted'' (BBool False)]
             (EIfNull (EField ''size'') (ELit 0)) s of
        Inl e \<Rightarrow> (Inl (DriverError e), s)
      | Inr out \<Rightarrow>
          (let used0 = (case out of None \<Rightarrow> 0 | Some u \<Rightarrow> u); used = (if used0 < 0 then 0 else used0) in
           case co_update_one (db_accounts db) [CEq ''_id'' (BId i)]
                  [USet ''used'' (BInt used), USet ''updatedAt'' (BDate (millis now))] s of
             (Inl e, s') \<Rightarrow> (Inl (DriverError e), s')
           | (Inr r, s') \<Rightarrow> (Inr used, s')))"

section \<open>Messages\<close>

definition create_message ::
  "'s database \<Rightarrow> time \<Rightarrow> message \<Rightarrow> 's \<Rightarrow> store_error option \<times> message \<times> 's" where
  "create_message db now msg0 s =
     (let msg1 = (if is_zero_time (ms_created_at msg0) then msg0\<lparr>ms_created_at := now\<rparr> else msg0);
          msg = (if is_zero_time (ms_updated_at msg1) \<or> ms_updated_at msg1 < ms_created_at msg1
                 then msg1\<lparr>ms_updated_at := ms_created_at msg1\<rparr> else msg1)
      in case co_insert_one (db_messages db) msg s of
           (Inl e, s') \<Rightarrow> (Some (duplicate_error e), msg, s')
         | (Inr i, s') \<Rightarrow> (None, msg, s'))"

definition find_message :: "'s database \<Rightarrow> projection \<Rightarrow> string \<Rightarrow> 's \<Rightarrow> store_error + message" where
  "find_message db p i s =
     (case db_from_hex db i of
        None \<Rightarrow> Inl ErrInvalidID
      | Some oid \<Rightarrow> find_one_error (co_find_one (db_messages db)
          [CEq ''_id'' (BId oid), CEq ''isDeleted'' (BBool False)] p s))"

definition get_message :: "'s database \<Rightarrow> string \<Rightarrow> 's \<Rightarrow> store_error + message" where
  "get_message db = find_message db (ProjExclude [''rawMessage''])"

definition get_message_meta :: "'s database \<Rightarrow> string \<Rightarrow> 's \<Rightarrow> store_error + message" where
  "get_message_meta db = find_message db (ProjExclude [''rawMessage'', ''text'', ''html''])"

definition get_message_raw :: "'s database \<Rightarrow> string \<Rightarrow> 's \<Rightarrow> store_error + message" where
  "get_message_raw db = find_message db (ProjInclude [''accountId'', ''rawMessage''])"

definition found :: "mongo_error + 'd \<Rightarrow> store_error + bool" where
  "found r = (case r of Inr d \<Rightarrow> Inr True
     | Inl e \<Rightarrow> if e = NoDocuments then Inr False else Inl (DriverError e))"

definition has_message :: "'s database \<Rightarrow> string \<Rightarrow> 's \<Rightarrow> store_error + bool" where
  "has_message db i s =
     (case db_from_hex db i of
        None \<Rightarrow> Inl ErrInvalidID
      | Some oid \<Rightarrow> found (co_find_one (db_messages db)
          [CEq ''_id'' (BId oid), CEq ''isDeleted'' (BBool False)] (ProjInclude [''_id'']) s))"

definition has_message_by_ingest ::
  "'s database \<Rightarrow> object_id \<Rightarrow> string \<Rightarrow> int \<Rightarrow> 's \<Rightarrow> store_error + bool" where
  "has_message_by_ingest db account_id ingest_stream0 ingest_seq s =
     (let ingest_stream = trim_space ingest_stream0 in
      if ingest_stream = [] \<or> ingest_seq \<le> 0 then Inr False
      else found (co_find_one (db_messages db)
             [CEq ''accountId'' (BId account_id), CEq ''ingestStream'' (BStr ingest_stream),
              CEq ''ingestSeq'' (BInt ingest_seq)] (ProjInclude [''_id'']) s))"

definition existing_message_ids :: "'s database \<Rightarrow> string list \<Rightarrow> 's \<Rightarrow> store_error + string set" where
  "existing_message_ids db ids s =
     (if length ids = 0 then Inr {}
      else
        (let oids = List.map_filter (\<lambda>i. db_from_hex db (trim_space i)) ids in
         if length oids = 0 then Inr {}
         else
           (case co_find (db_messages db) [CIn ''_id'' (map BId oids), CEq ''isDeleted'' (BBool False)]
                   (find_all\<lparr>fo_projection := ProjInclude [''_id'']\<rparr>) s of
              Inl e \<Rightarrow> Inl (DriverError e)
            | Inr ms \<Rightarrow> Inr ((\<lambda>m. db_hex db (ms_id m)) ` set ms))))"

text \<open>The filters of an account's live messages, restricted to \<open>seen\<close> when it is given.\<close>

definition seen_cond :: "bool option \<Rightarrow> filter_doc" where
  "seen_cond seen = (case seen of None \<Rightarrow> [] | Some b \<Rightarrow> [CEq ''seen'' (BBool b)])"

definition live_filter :: "object_id \<Rightarrow> bool option \<Rightarrow> filter_doc" where
  "live_filter account_id seen =
     [CEq ''accountId'' (BId account_id), CEq ''isDeleted'' (BBool False)] @ seen_cond seen"

section \<open>Counting, with a short-lived cache\<close>

record count_entry =
  ce_count :: int
  ce_expires_at :: int

record 's store =
  so_db :: 's
  so_counts :: "string \<rightharpoonup> count_entry"
  so_last_sweep :: int

definition count_key :: "'s database \<Rightarrow> object_id \<Rightarrow> bool option \<Rightarrow> string" where
  "count_key db account_id seen =
     db_hex db account_id @
     (case seen of None \<Rightarrow> [] | Some b \<Rightarrow> '':seen:'' @ (if b then ''true'' else ''false''))"

definition maybe_sweep_counts :: "int \<Rightarrow> 's store \<Rightarrow> 's store" where
  "maybe_sweep_counts now st =
     (let last = so_last_sweep st in
      if last \<noteq> 0 \<and> now - last < minute then st
      else st\<lparr>so_last_sweep := now,
              so_counts := (\<lambda>k. case so_counts st k of
                 Some e \<Rightarrow> if ce_expires_at e \<le> now then None else Some e | None \<Rightarrow> None)\<rparr>)"

text \<open>The clock is read before the lookup, again inside the merged query, and after the count.\<close>

definition count_messages_cached ::
  "'s database \<Rightarrow> time \<times> time \<times> time \<Rightarrow> object_id \<Rightarrow> bool option \<Rightarrow> 's store \<Rightarrow> (store_error + int) \<times> 's store" where
  "count_messages_cached db clk account_id seen st =
     (let key = count_key db account_id seen; (now, now2, now3) = clk;
          st1 = (case so_counts st key of
                   Some e \<Rightarrow> if now < ce_expires_at e then st else st\<lparr>so_counts := (so_counts st)(key := None)\<rparr>
                 | None \<Rightarrow> st)
      in case so_counts st1 key of
           Some e \<Rightarrow> (Inr (ce_count e), maybe_sweep_counts now st1)
         | None \<Rightarrow>
             (let (res, st2) =
                (case co_count (db_messages db) (live_filter account_id seen) (so_db st1) of
                   Inl e \<Rightarrow> (Inl (DriverError e), st1)
                 | Inr n \<Rightarrow>
                     (Inr n, maybe_sweep_counts now2
                        (st1\<lparr>so_counts := (so_counts st1)(key \<mapsto>
                           \<lparr>ce_count = n, ce_expires_at = now3 + 500 * millisecond\<rparr>)\<rparr>)))
              in if db_cancelled db (so_db st) then (Inl ContextDone, st2) else (res, st2)))"

definition count_messages_by_account ::
  "'s database \<Rightarrow> time \<times> time \<times> time \<Rightarrow> object_id \<Rightarrow> 's store \<Rightarrow> (store_error + int) \<times> 's store" where
  "count_messages_by_account db clk account_id st = count_messages_cached db clk account_id None st"

section \<open>Listing\<close>

definition list_projection :: projection where
  "list_projection = ProjExclude [''rawMessage'', ''text'', ''html'']"

definition find_page ::
  "'s database \<Rightarrow> filter_doc \<Rightarrow> int \<Rightarrow> int \<Rightarrow> 's \<Rightarrow> store_error + message list" where
  "find_page db f skip limit s =
     (case co_find (db_messages db) f
             \<lparr>fo_sort = NewestFirst, fo_skip = skip, fo_limit = limit, fo_projection = list_projection\<rparr> s of
        Inl e \<Rightarrow> Inl (DriverError e) | Inr ms \<Rightarrow> Inr ms)"

text \<open>The merged query of a listing, and the caller's context.\<close>

definition list_query ::
  "'s database \<Rightarrow> time \<times> time \<times> time \<Rightarrow> object_id \<Rightarrow> bool option \<Rightarrow> ('s \<Rightarrow> store_error + message list)
     \<Rightarrow> 's store \<Rightarrow> (store_error + message list \<times> int) \<times> 's store" where
  "list_query db clk account_id seen query st =
     (case count_messages_cached db clk account_id seen st of
        (Inl e, st') \<Rightarrow> (if db_cancelled db (so_db st) then Inl ContextDone else Inl e, st')
      | (Inr n, st') \<Rightarrow>
          (if db_cancelled db (so_db st) then Inl ContextDone
           else (case query (so_db st') of Inl e \<Rightarrow> Inl e | Inr ms \<Rightarrow> Inr (ms, n)), st'))"

definition list_messages_filtered ::
  "'s database \<Rightarrow> time \<times> time \<times> time \<Rightarrow> object_id \<Rightarrow> int \<Rightarrow> int \<Rightarrow> bool option \<Rightarrow> 's store
     \<Rightarrow> (store_error + message list \<times> int) \<times> 's store" where
  "list_messages_filtered db clk account_id page per_page seen st =
     list_query db clk account_id seen
       (\<lambda>s. find_page db (live_filter account_id seen)
          (sint (word_of_int ((page - 1) * per_page) :: 64 word)) per_page s) st"

definition list_messages ::
  "'s database \<Rightarrow> time \<times> time \<times> time \<Rightarrow> object_id \<Rightarrow> int \<Rightarrow> int \<Rightarrow> 's store
     \<Rightarrow> (store_error + message list \<times> int) \<times> 's store" where
  "list_messages db clk account_id page per_page st =
     list_messages_filtered db clk account_id page per_page None st"

definition parse_cursor_token :: "'s database \<Rightarrow> string \<Rightarrow> (int \<times> object_id) option" where
  "parse_cursor_token db t =
     (case index_byte t (CHR ''.'') of
        None \<Rightarrow> None
      | Some i \<Rightarrow>
          if i = 0 \<or> length t - 1 \<le> i then None
          else
            (case parse_int (take i t) of
               None \<Rightarrow> None
             | Some ms \<Rightarrow>
                 (case db_from_hex db (drop (i + 1) t) of None \<Rightarrow> None | Some oid \<Rightarrow> Some (ms, oid))))"

text \<open>Everything strictly behind a position in the order of the listing.\<close>

definition after_cond :: "int \<Rightarrow> object_id \<Rightarrow> cond" where
  "after_cond ms oid =
     COr [[CLt ''createdAt'' (BDate ms)], [CEq ''createdAt'' (BDate ms), CLt ''_id'' (BId oid)]]"

definition after_query ::
  "'s database \<Rightarrow> object_id \<Rightarrow> bool option \<Rightarrow> string \<Rightarrow> int \<Rightarrow> 's \<Rightarrow> store_error + message list" where
  "after_query db account_id seen cursor_id limit s =
     (if cursor_id = [] then find_page db (live_filter account_id seen) 0 limit s
      else
        (case parse_cursor_token db cursor_id of
           Some (ms, oid) \<Rightarrow> find_page db (live_filter account_id seen @ [after_cond ms oid]) 0 limit s
         | None \<Rightarrow>
             (case db_from_hex db cursor_id of
                None \<Rightarrow> Inl ErrInvalidID
              | Some oid \<Rightarrow>
                  (case co_find_one (db_messages db)
                          ([CEq ''_id'' (BId oid), CEq ''accountId'' (BId account_id), CEq ''isDeleted'' (BBool False)]
                           @ seen_cond seen) (ProjInclude [''createdAt'']) s of
                     Inl e \<Rightarrow> Inl (not_found_error e)
                   | Inr cur \<Rightarrow>
                       find_page db (live_filter account_id seen @ [after_cond (millis (ms_created_at cur)) oid])
                         0 limit s))))"

definition clamp_limit :: "int \<Rightarrow> int" where
  "clamp_limit limit = (let l = (if limit \<le> 0 then 30 else limit) in if 100 < l then 100 else l)"

definition list_messages_after_filtered ::
  "'s database \<Rightarrow> time \<times> time \<times> time \<Rightarrow> object_id \<Rightarrow> string \<Rightarrow> int \<Rightarrow> bool option \<Rightarrow> 's store
     \<Rightarrow> (store_error + message list \<times> int) \<times> 's store" where
  "list_messages_after_filtered db clk account_id cursor_id limit seen st =
     list_query db clk account_id seen
       (\<lambda>s. after_query db account_id seen (trim_space cursor_id) (clamp_limit limit) s) st"

definition list_messages_after ::
  "'s database \<Rightarrow> time \<times> time \<times> time \<Rightarrow> object_id \<Rightarrow> string \<Rightarrow> int \<Rightarrow> 's store
     \<Rightarrow> (store_error + message list \<times> int) \<times> 's store" where
  "list_messages_after db clk account_id cursor_id limit st =
     list_messages_after_filtered db clk account_id cursor_id limit None st"

section \<open>Flags and deletion\<close>

definition flag_updates :: "bool option \<Rightarrow> bool option \<Rightarrow> update_op list" where
  "flag_updates seen keep =
     (case seen of None \<Rightarrow> [] | Some b \<Rightarrow> [USet ''seen'' (BBool b)]) @
     (case keep of None \<Rightarrow> [] | Some b \<Rightarrow> [USet ''keep'' (BBool b)])"

definition update_message_flags ::
  "'s database \<Rightarrow> time \<Rightarrow> string \<Rightarrow> bool option \<Rightarrow> bool option \<Rightarrow> 's \<Rightarrow> store_error option \<times> 's" where
  "update_message_flags db now i seen keep s =
     (if seen = None \<and> keep = None then (None, s)
      else
        (case db_from_hex db i of
           None \<Rightarrow> (Some ErrInvalidID, s)
         | Some oid \<Rightarrow>
             (case co_update_one (db_messages db) [CEq ''_id'' (BId oid), CEq ''isDeleted'' (BBool False)]
                     (USet ''updatedAt'' (BDate (millis now)) # flag_updates seen keep) s of
                (Inl e, s') \<Rightarrow> (Some (DriverError e), s')
              | (Inr r, s') \<Rightarrow> if ur_matched r = 0 then (Some ErrNotFound, s') else (None, s'))))"

definition update_message_seen ::
  "'s database \<Rightarrow> time \<Rightarrow> string \<Rightarrow> bool \<Rightarrow> 's \<Rightarrow> store_error option \<times> 's" where
  "update_message_seen db now i seen s = update_message_flags db now i (Some seen) None s"

definition update_message_keep ::
  "'s database \<Rightarrow> time \<Rightarrow> string \<Rightarrow> bool \<Rightarrow> 's \<Rightarrow> store_error option \<times> 's" where
  "update_message_keep db now i keep s = update_message_flags db now i None (Some keep) s"

text \<open>The ids of a request; \<^const>\<open>None\<close> when one of them is invalid.\<close>

fun parse_ids :: "'s database \<Rightarrow> string list \<Rightarrow> object_id list option" where
  "parse_ids db [] = Some []"
| "parse_ids db (i # is) =
     (case db_from_hex db (trim_space i) of
        None \<Rightarrow> None
      | Some oid \<Rightarrow> map_option (\<lambda>os. oid # os) (parse_ids db is))"

definition modified_count :: "(mongo_error + update_result) \<times> 's \<Rightarrow> (store_error + int) \<times> 's" where
  "modified_count r =
     (case r of (Inl e, s') \<Rightarrow> (Inl (DriverError e), s') | (Inr u, s') \<Rightarrow> (Inr (ur_modified u), s'))"

definition bulk_update_message_flags_by_ids ::
  "'s database \<Rightarrow> time \<Rightarrow> object_id \<Rightarrow> string list \<Rightarrow> bool option \<Rightarrow> bool option \<Rightarrow> 's
     \<Rightarrow> (store_error + int) \<times> 's" where
  "bulk_update_message_flags_by_ids db now account_id ids seen keep s =
     (if seen = None \<and> keep = None then (Inr 0, s)
      else if length ids = 0 then (Inr 0, s)
      else
        (case parse_ids db ids of
           None \<Rightarrow> (Inl ErrInvalidID, s)
         | Some oids \<Rightarrow>
             modified_count
               (co_update_many (db_messages db)
                  [CIn ''_id'' (map BId oids), CEq ''accountId'' (BId account_id), CEq ''isDeleted'' (BBool False)]
                  (USet ''updatedAt'' (BDate (millis now)) # flag_updates seen keep) s)))"

definition bulk_update_message_flags_by_account ::
  "'s database \<Rightarrow> time \<Rightarrow> object_id \<Rightarrow> bool option \<Rightarrow> bool option \<Rightarrow> 's \<Rightarrow> (store_error + int) \<times> 's" where
  "bulk_update_message_flags_by_account db now account_id seen keep s =
     (if seen = None \<and> keep = None then (Inr 0, s)
      else
        modified_count
          (co_update_many (db_messages db)
             ([CEq ''accountId'' (BId account_id), CEq ''isDeleted'' (BBool False)] @
              (case seen of None \<Rightarrow> [] | Some b \<Rightarrow> [CNe ''seen'' (BBool b)]) @
              (case keep of None \<Rightarrow> [] | Some b \<Rightarrow> [CNe ''keep'' (BBool b)]))
             (USet ''updatedAt'' (BDate (millis now)) # flag_updates seen keep) s))"

definition mark_deleted :: "time \<Rightarrow> update_op list" where
  "mark_deleted now = [USet ''isDeleted'' (BBool True), USet ''updatedAt'' (BDate (millis now))]"

definition delete_message :: "'s database \<Rightarrow> time \<Rightarrow> string \<Rightarrow> 's \<Rightarrow> store_error option \<times> 's" where
  "delete_message db now i s =
     (case db_from_hex db i of
        None \<Rightarrow> (Some ErrInvalidID, s)
      | Some oid \<Rightarrow>
          (case co_update_one (db_messages db) [CEq ''_id'' (BId oid)] (mark_deleted now) s of
             (Inl e, s') \<Rightarrow> (Some (DriverError e), s')
           | (Inr r, s') \<Rightarrow> if ur_matched r = 0 then (Some ErrNotFound, s') else (None, s')))"

definition in_ids :: "object_id \<Rightarrow> message list \<Rightarrow> filter_doc" where
  "in_ids account_id docs =
     [CIn ''_id'' (map (\<lambda>d. BId (ms_id d)) docs), CEq ''accountId'' (BId account_id), CEq ''isDeleted'' (BBool False)]"

text \<open>
  The loop of \<open>SoftDeleteMessagesByAccount\<close>: what is left of the limit, the ids and sizes so far. A
  batch is never empty, so what is left decreases, whatever the update does.
\<close>

function soft_delete_loop ::
  "'s database \<Rightarrow> (nat \<Rightarrow> time) \<Rightarrow> object_id \<Rightarrow> bool option \<Rightarrow> int \<Rightarrow> string list \<Rightarrow> int \<Rightarrow> nat \<Rightarrow> 's
     \<Rightarrow> (store_error + string list \<times> int) \<times> 's" where
  "soft_delete_loop db now account_id seen remaining deleted total_size n s =
     (if remaining \<le> 0 then (Inr (deleted, total_size), s)
      else
        (case co_find (db_messages db) (live_filter account_id seen)
                \<lparr>fo_sort = NewestFirst, fo_skip = 0, fo_limit = (if remaining < 1000 then remaining else 1000),
                 fo_projection = ProjInclude [''_id'', ''size'']\<rparr> s of
           Inl e \<Rightarrow> (Inl (DriverError e), s)
         | Inr docs \<Rightarrow>
             if length docs = 0 then (Inr (deleted, total_size), s)
             else
               (case co_update_many (db_messages db) (in_ids account_id docs) (mark_deleted (now n)) s of
                  (Inl e, s') \<Rightarrow> (Inl (DriverError e), s')
                | (Inr r, s') \<Rightarrow>
                    soft_delete_loop db now account_id seen (remaining - int (length docs))
                      (deleted @ map (\<lambda>d. db_hex db (ms_id d)) docs)
                      (total_size + sum_list (map ms_size docs)) (Suc n) s')))"
  by pat_completeness auto

termination by (relation "measure (\<lambda>(_, _, _, _, remaining, _, _, _, _). nat remaining)") auto

declare soft_delete_loop.simps [simp del]

definition soft_delete_messages_by_account ::
  "'s database \<Rightarrow> (nat \<Rightarrow> time) \<Rightarrow> object_id \<Rightarrow> bool option \<Rightarrow> int \<Rightarrow> 's
     \<Rightarrow> (store_error + string list \<times> int) \<times> 's" where
  "soft_delete_messages_by_account db now account_id seen limit s =
     (let l = (if limit \<le> 0 then 5000 else limit); l = (if 20000 < l then 20000 else l)
      in soft_delete_loop db now account_id seen l [] 0 0 s)"

definition soft_delete_messages_by_ids ::
  "'s database \<Rightarrow> time \<Rightarrow> object_id \<Rightarrow> string list \<Rightarrow> 's \<Rightarrow> (store_error + string list \<times> int) \<times> 's" where
  "soft_delete_messages_by_ids db now account_id ids s =
     (if length ids = 0 then (Inr ([], 0), s)
      else
        (case parse_ids db ids of
           None \<Rightarrow> (Inl ErrInvalidID, s)
         | Some oids \<Rightarrow>
             (case co_find (db_messages db)
                     [CIn ''_id'' (map BId oids), CEq ''accountId'' (BId account_id), CEq ''isDeleted'' (BBool False)]
                     (find_all\<lparr>fo_projection := ProjInclude [''_id'', ''size'']\<rparr>) s of
                Inl e \<Rightarrow> (Inl (DriverError e), s)
              | Inr docs \<Rightarrow>
                  if length docs = 0 then (Inr ([], 0), s)
                  else
                    (case co_update_many (db_messages db) (in_ids account_id docs) (mark_deleted now) s of
                       (Inl e, s') \<Rightarrow> (Inl (DriverError e), s')
                     | (Inr r, s') \<Rightarrow>
                         (Inr (map (\<lambda>d. db_hex db (ms_id d)) docs, sum_list (map ms_size docs)), s')))))"

definition hard_delete_messages_by_account ::
  "'s database \<Rightarrow> object_id \<Rightarrow> 's \<Rightarrow> (store_error + message list) \<times> 's" where
  "hard_delete_messages_by_account db account_id s =
     (case co_find (db_messages db) [CEq ''accountId'' (BId account_id)]
             (find_all\<lparr>fo_projection := ProjInclude [''hasAttachments'']\<rparr>) s of
        Inl e \<Rightarrow> (Inl (DriverError e), s)
      | Inr messages \<Rightarrow>
          (case co_delete_many (db_messages db) [CEq ''accountId'' (BId account_id)] s of
             (Inl e, s') \<Rightarrow> (Inl (DriverError e), s')
           | (Inr n, s') \<Rightarrow> (Inr messages, s')))"

section \<open>The filters and updates of the code\<close>

lemma schema_simps [simp]:
  "sc_fields account_schema = account_fields" "sc_set account_schema = set_account_field"
  "sc_id account_schema = ac_id" "sc_clash account_schema a b = (ac_address a = ac_address b)"
  "sc_fields message_schema = message_fields" "sc_set message_schema = set_message_field"
  "sc_project message_schema = project_message" "sc_id message_schema = ms_id"
  "sc_key message_schema = newest_key" "sc_clash message_schema = same_ingest"
  "sc_fields domain_schema = domain_fields" "sc_set domain_schema = set_domain_field"
  "sc_id domain_schema = dm_id" "sc_project domain_schema p d = d"
  by (simp_all add: account_schema_def message_schema_def domain_schema_def)

lemma matches_simps [simp]:
  "matches [] d" "matches (c # cs) d = (holds d c \<and> matches cs d)"
  "matches (f @ g) d = (matches f d \<and> matches g d)"
  by (simp_all add: matches_def)

lemma apply_update_simps [simp]:
  "apply_update sc [] d = d"
  "apply_update sc (u # us) d = apply_update sc us (apply_op sc u d)"
  by (simp_all add: apply_update_def)

definition live :: "object_id \<Rightarrow> bool option \<Rightarrow> message \<Rightarrow> bool" where
  "live account_id seen m \<longleftrightarrow>
     ms_account_id m = account_id \<and> \<not> ms_is_deleted m \<and> (case seen of None \<Rightarrow> True | Some b \<Rightarrow> ms_seen m = b)"

lemma matches_live [simp]: "matches (live_filter acc seen) (message_fields m) = live acc seen m"
  by (auto simp: live_filter_def seen_cond_def live_def message_fields_def split: option.splits)

lemma holds_after [simp]:
  "holds (message_fields m) (after_cond ms oid) = (newest_key m < (ms, unat oid))"
  by (auto simp: after_cond_def message_fields_def newest_key_def less_prod_def word_less_nat_alt)

definition within_quota :: "account \<Rightarrow> bool" where
  "within_quota a \<longleftrightarrow> 0 \<le> ac_used a \<and> (ac_quota a \<le> 0 \<or> ac_used a \<le> ac_quota a)"

definition has_room :: "int \<Rightarrow> account \<Rightarrow> bool" where
  "has_room delta a \<longleftrightarrow> ac_quota a \<le> 0 \<or> ac_used a + delta \<le> ac_quota a"

lemma matches_reserve [simp]:
  "matches [CEq ''_id'' (BId i), COr [[CLte ''quota'' (BInt 0)],
      [CExprLte (EAdd (EIfNull (EField ''used'') (ELit 0)) (ELit delta)) (EField ''quota'')]]] (account_fields a) =
   (ac_id a = i \<and> has_room delta a)"
  by (auto simp: account_fields_def has_room_def)

lemma matches_account_id [simp]: "matches [CEq ''_id'' (BId i)] (account_fields a) = (ac_id a = i)"
  by (simp add: account_fields_def)

lemma apply_reserve [simp]:
  "apply_update account_schema [UInc ''used'' delta, USet ''updatedAt'' (BDate (millis now))] a =
   a\<lparr>ac_used := ac_used a + delta, ac_updated_at := trunc_ms now\<rparr>"
  by (simp add: apply_op_def account_fields_def set_account_field_def trunc_ms_def)

lemma apply_used [simp]:
  "apply_update account_schema
     [USetExpr ''used'' (EMax (ELit 0) (EAdd (EIfNull (EField ''used'') (ELit 0)) (ELit delta))),
      USet ''updatedAt'' (BDate (millis now))] a =
   a\<lparr>ac_used := max 0 (ac_used a + delta), ac_updated_at := trunc_ms now\<rparr>"
  by (simp add: apply_op_def account_fields_def set_account_field_def trunc_ms_def)

lemma apply_set_used [simp]:
  "apply_update account_schema [USet ''used'' (BInt u), USet ''updatedAt'' (BDate (millis now))] a =
   a\<lparr>ac_used := u, ac_updated_at := trunc_ms now\<rparr>"
  "apply_update account_schema [USet ''updatedAt'' (BDate (millis now))] a = a\<lparr>ac_updated_at := trunc_ms now\<rparr>"
  by (simp_all add: apply_op_def set_account_field_def trunc_ms_def)

lemma apply_mark_deleted [simp]:
  "apply_update message_schema (mark_deleted now) m = m\<lparr>ms_is_deleted := True, ms_updated_at := trunc_ms now\<rparr>"
  by (simp add: mark_deleted_def apply_op_def set_message_field_def trunc_ms_def)

lemma matches_in_ids [simp]:
  "matches (in_ids acc docs) (message_fields m) =
   (ms_id m \<in> ms_id ` set docs \<and> ms_account_id m = acc \<and> \<not> ms_is_deleted m)"
  by (auto simp: in_ids_def message_fields_def)

section \<open>The laws of the three collections\<close>

lemma accounts_laws:
  "database_laws db v \<Longrightarrow>
   collection_laws account_schema (in_accounts v) (\<lambda>s. (in_domains v s, in_messages v s)) (db_accounts db)"
  "database_laws db v \<Longrightarrow>
   collection_laws message_schema (in_messages v) (\<lambda>s. (in_domains v s, in_accounts v s)) (db_messages db)"
  "database_laws db v \<Longrightarrow>
   collection_laws domain_schema (in_domains v) (\<lambda>s. (in_accounts v s, in_messages v s)) (db_domains db)"
  "database_laws db v \<Longrightarrow> hex_laws db"
  by (simp_all add: database_laws_def)

type_synonym tables = "mail_domain list \<times> account list \<times> message list"

definition tables_of :: "'s contents \<Rightarrow> 's \<Rightarrow> tables" where
  "tables_of v s = (in_domains v s, in_accounts v s, in_messages v s)"

lemma same_tables:
  "tables_of v t = tables_of v s \<Longrightarrow> in_messages v t = in_messages v s"
  "tables_of v t = tables_of v s \<Longrightarrow> in_accounts v t = in_accounts v s"
  "tables_of v t = tables_of v s \<Longrightarrow> in_domains v t = in_domains v s"
  by (simp_all add: tables_of_def)

text \<open>A database in memory, for the witnesses: three lists, ids in a made-up notation.\<close>

definition mem_contents :: "tables contents" where
  "mem_contents = \<lparr>in_domains = fst, in_accounts = (\<lambda>s. fst (snd s)), in_messages = (\<lambda>s. snd (snd s))\<rparr>"

definition mem_database :: "tables database" where
  "mem_database =
     \<lparr>db_domains = mem_collection domain_schema (in_domains mem_contents) (\<lambda>x (d, a, m). (x, a, m)),
      db_accounts = mem_collection account_schema (in_accounts mem_contents) (\<lambda>x (d, a, m). (d, x, m)),
      db_messages = mem_collection message_schema (in_messages mem_contents) (\<lambda>x (d, a, m). (d, a, x)),
      db_hex = (\<lambda>i. show_nat (unat i)), db_from_hex = (\<lambda>t. if list_all is_digit t then Some (of_nat (digits_val t)) else None),
      db_cancelled = (\<lambda>s. False)\<rparr>"

lemma mem_database_laws: "database_laws mem_database mem_contents"
proof -
  have "hex_laws mem_database"
    using show_nat_digits by (auto simp: hex_laws_def mem_database_def digits_val_show_nat list_all_iff)
  then show ?thesis
    unfolding database_laws_def mem_database_def
    by (auto simp: mem_contents_def piece_def intro!: mem_collection_laws split: prod.splits)
qed

end
