(* ===== verification/Documents.thy ===== *)
theory Documents
  imports Store
begin

text \<open>
  The documents of the three collections are well-formed, and every operation of \<open>internal/store/store.go\<close> that writes
  keeps them so, whether it succeeds or fails: ids are distinct and not zero, the unique keys (the name of a
  domain, the address of an account, the key of a message in the stream) are unique, all values survive
  their encoding (dates have milliseconds), an account has a quota (positive, or negative for none) and uses a
  non-negative amount, and no message has a negative size.
\<close>

section \<open>Tidy collections\<close>

definition tidy :: "'d schema \<Rightarrow> ('d \<Rightarrow> bool) \<Rightarrow> 'd list \<Rightarrow> bool" where
  "tidy sc P xs \<longleftrightarrow> (\<forall>x \<in> set xs. P x \<and> sc_id sc x \<noteq> 0) \<and> distinct (map (sc_id sc) xs) \<and>
     sorted_wrt (\<lambda>x y. \<not> sc_clash sc x y) xs"

text \<open>A document in the place of another, as far as the ids and the unique keys are concerned.\<close>

definition replaces :: "'d schema \<Rightarrow> ('d \<Rightarrow> bool) \<Rightarrow> 'd \<Rightarrow> 'd \<Rightarrow> bool" where
  "replaces sc P x y \<longleftrightarrow> (P x \<longrightarrow> P y) \<and> sc_id sc y = sc_id sc x \<and>
     (\<forall>z. sc_clash sc y z = sc_clash sc x z \<and> sc_clash sc z y = sc_clash sc z x)"

definition harmless :: "'d schema \<Rightarrow> ('d \<Rightarrow> bool) \<Rightarrow> filter_doc \<Rightarrow> update_op list \<Rightarrow> bool" where
  "harmless sc P f us \<longleftrightarrow> (\<forall>x. matches f (sc_fields sc x) \<longrightarrow> replaces sc P x (apply_update sc us x))"

lemma replaces_refl [simp]: "replaces sc P x x"
  by (simp add: replaces_def)

lemma tidy_replaced:
  assumes "tidy sc P xs" "list_all2 (replaces sc P) xs ys"
  shows "tidy sc P ys"
proof -
  have len: "length ys = length xs" and each: "\<And>i. i < length xs \<Longrightarrow> replaces sc P (xs ! i) (ys ! i)"
    using assms(2) by (auto simp: list_all2_conv_all_nth)
  have "map (sc_id sc) ys = map (sc_id sc) xs" using len each by (auto simp: replaces_def intro!: nth_equalityI)
  moreover have "sc_clash sc (ys ! i) (ys ! j) = sc_clash sc (xs ! i) (xs ! j)" if "i < length xs" "j < length xs" for i j
    using each [OF that(1)] each [OF that(2)] unfolding replaces_def by metis
  moreover have "P (ys ! i) \<and> sc_id sc (ys ! i) \<noteq> 0" if "i < length xs" for i
    using assms(1) each [OF that] that by (auto simp: tidy_def replaces_def)
  ultimately show ?thesis
    using assms(1) len unfolding tidy_def by (auto simp: sorted_wrt_iff_nth_less in_set_conv_nth)
qed

lemma tidy_updates:
  assumes "tidy sc P xs" "harmless sc P f us"
  shows "updates_one sc f us xs ys \<Longrightarrow> tidy sc P ys" "tidy sc P (updates_many sc f us xs)"
    "list_all2 (\<lambda>x y. y = x \<or> matches f (sc_fields sc x) \<and> y = apply_update sc us x) xs ys \<Longrightarrow> tidy sc P ys"
proof -
  have all: "tidy sc P ys"
    if "list_all2 (\<lambda>x y. y = x \<or> matches f (sc_fields sc x) \<and> y = apply_update sc us x) xs ys" for ys
    using that assms(2) by (intro tidy_replaced [OF assms(1)]) (auto simp: harmless_def elim!: list_all2_mono)
  then show "list_all2 (\<lambda>x y. y = x \<or> matches f (sc_fields sc x) \<and> y = apply_update sc us x) xs ys \<Longrightarrow> tidy sc P ys" .
  show "tidy sc P (updates_many sc f us xs)"
    by (rule all) (auto simp: updates_many_def list_all2_conv_all_nth)
  show "tidy sc P ys" if "updates_one sc f us xs ys"
    using that by (intro all) (auto simp: updates_one_def list_all2_append1 intro!: list_all2_refl list_all2_appendI)
qed

lemma tidy_filter: "tidy sc P xs \<Longrightarrow> tidy sc P (filter p xs)"
  by (auto simp: tidy_def sorted_wrt_filter distinct_map_filter)

lemma tidy_removed: "tidy sc P (l @ x # r) \<Longrightarrow> tidy sc P (l @ r)"
  by (auto simp: tidy_def sorted_wrt_append)

lemma tidy_inserted:
  assumes "tidy sc P xs" "inserts sc d i xs ys"
    and "\<And>i. P (sc_stored sc (sc_with_id sc i d)) \<and> sc_id sc (sc_stored sc (sc_with_id sc i d)) = i"
  shows "tidy sc P ys"
  using assms by (auto simp: tidy_def inserts_def Let_def sorted_wrt_append)

lemma tidy_upserted:
  assumes "tidy sc P xs" "upserts sc us xs ys" "\<And>i. P (upserted sc us i) \<and> sc_id sc (upserted sc us i) = i"
  shows "tidy sc P ys"
  using assms by (auto simp: tidy_def upserts_def sorted_wrt_append)

section \<open>Operations on a collection\<close>

lemma tidy_ops:
  assumes laws: "collection_laws sc docs frame co" and tidy: "tidy sc P (docs s)"
  shows "co_insert_one co d s = (r, s') \<Longrightarrow>
       (\<And>i. P (sc_stored sc (sc_with_id sc i d)) \<and> sc_id sc (sc_stored sc (sc_with_id sc i d)) = i) \<Longrightarrow> tidy sc P (docs s')"
    "co_update_one co f us s = (u, s') \<Longrightarrow> harmless sc P f us \<Longrightarrow> tidy sc P (docs s')"
    "co_upsert_one co f us s = (u, s') \<Longrightarrow> harmless sc P f us \<Longrightarrow>
       (\<And>i. P (upserted sc us i) \<and> sc_id sc (upserted sc us i) = i) \<Longrightarrow> tidy sc P (docs s')"
    "co_update_many co f us s = (u, s') \<Longrightarrow> harmless sc P f us \<Longrightarrow> tidy sc P (docs s')"
    "co_delete_one co f s = (n, s') \<Longrightarrow> tidy sc P (docs s')"
    "co_delete_many co f s = (n, s') \<Longrightarrow> tidy sc P (docs s')"
proof -
  show "tidy sc P (docs s')" if "co_insert_one co d s = (r, s')"
    "\<And>i. P (sc_stored sc (sc_with_id sc i d)) \<and> sc_id sc (sc_stored sc (sc_with_id sc i d)) = i"
    using insert_law(2) [OF laws that(1)] tidy tidy_inserted [OF tidy _ that(2)] by (auto split: sum.splits)
  show "tidy sc P (docs s')" if "co_update_one co f us s = (u, s')" "harmless sc P f us"
    using update_one_law(2) [OF laws that(1)] tidy tidy_updates(1) [OF tidy that(2)] by (auto split: sum.splits if_splits)
  show "tidy sc P (docs s')" if "co_upsert_one co f us s = (u, s')" "harmless sc P f us"
    "\<And>i. P (upserted sc us i) \<and> sc_id sc (upserted sc us i) = i"
    using upsert_one_law(2) [OF laws that(1)] tidy tidy_updates(1) [OF tidy that(2)] tidy_upserted [OF tidy _ that(3)] by auto
  show "tidy sc P (docs s')" if "co_update_many co f us s = (u, s')" "harmless sc P f us"
    using update_many_law(2) [OF laws that(1)] tidy_updates(2,3) [OF tidy that(2)] by (auto split: sum.splits)
  show "tidy sc P (docs s')" if "co_delete_one co f s = (n, s')"
    using delete_one_law(2) [OF laws that] tidy by (auto intro: tidy_removed)
  show "tidy sc P (docs s')" if "co_delete_many co f s = (n, s')"
    using delete_many_law(2) [OF laws that] tidy_filter [OF tidy] by auto
qed

section \<open>Well-formed documents\<close>

definition ok_domain :: "mail_domain \<Rightarrow> bool" where "ok_domain d \<longleftrightarrow> sc_stored domain_schema d = d"

definition ok_account :: "account \<Rightarrow> bool" where
  "ok_account a \<longleftrightarrow> sc_stored account_schema a = a \<and> ac_quota a \<noteq> 0 \<and> 0 \<le> ac_used a"

definition ok_message :: "message \<Rightarrow> bool" where
  "ok_message m \<longleftrightarrow> sc_stored message_schema m = m \<and> 0 \<le> ms_size m"

definition well_formed :: "'s contents \<Rightarrow> 's \<Rightarrow> bool" where
  "well_formed v s \<longleftrightarrow> tidy domain_schema ok_domain (in_domains v s) \<and> tidy account_schema ok_account (in_accounts v s) \<and>
     tidy message_schema ok_message (in_messages v s)"

lemma trunc_ms_idem [simp]: "trunc_ms (trunc_ms t) = trunc_ms t" "trunc_ms (t * millisecond) = t * millisecond"
  by (simp_all add: trunc_ms_def millis_def millisecond_def)

lemma trunc_ms_zero [simp]: "trunc_ms zero_time = zero_time"
  by (simp add: trunc_ms_def millis_def millisecond_def zero_time_def second_def)

lemma ok_simps:
  "ok_domain d \<longleftrightarrow> trunc_ms (dm_created_at d) = dm_created_at d \<and> trunc_ms (dm_updated_at d) = dm_updated_at d"
  "ok_account a \<longleftrightarrow> trunc_ms (ac_created_at a) = ac_created_at a \<and> trunc_ms (ac_updated_at a) = ac_updated_at a \<and>
     ac_quota a \<noteq> 0 \<and> 0 \<le> ac_used a"
  "ok_message m \<longleftrightarrow> trunc_ms (ms_created_at m) = ms_created_at m \<and> trunc_ms (ms_updated_at m) = ms_updated_at m \<and>
     trunc_ms (ms_retention_date m) = ms_retention_date m \<and> ms_download_url m = [] \<and> 0 \<le> ms_size m"
proof -
  show "ok_domain d \<longleftrightarrow> trunc_ms (dm_created_at d) = dm_created_at d \<and> trunc_ms (dm_updated_at d) = dm_updated_at d"
    by (cases d) (auto simp: ok_domain_def domain_schema_def)
  show "ok_account a \<longleftrightarrow> trunc_ms (ac_created_at a) = ac_created_at a \<and> trunc_ms (ac_updated_at a) = ac_updated_at a \<and>
     ac_quota a \<noteq> 0 \<and> 0 \<le> ac_used a"
    by (cases a) (auto simp: ok_account_def account_schema_def)
  show "ok_message m \<longleftrightarrow> trunc_ms (ms_created_at m) = ms_created_at m \<and> trunc_ms (ms_updated_at m) = ms_updated_at m \<and>
     trunc_ms (ms_retention_date m) = ms_retention_date m \<and> ms_download_url m = [] \<and> 0 \<le> ms_size m"
    by (cases m) (auto simp: ok_message_def message_schema_def)
qed

section \<open>The operations of the store\<close>

datatype store_op =
    CreateDomain mail_domain
  | SyncDomains "(mail_domain \<times> time \<times> time) list"
  | CreateAccount account
  | DeleteAccount string
  | UpdateUsed object_id int
  | ReserveUsed object_id int
  | RecalculateUsed object_id
  | CreateMessage message
  | UpdateFlags string "bool option" "bool option"
  | UpdateSeen string bool
  | UpdateKeep string bool
  | BulkFlagsByIds object_id "string list" "bool option" "bool option"
  | BulkFlagsByAccount object_id "bool option" "bool option"
  | DeleteMessage string
  | SoftDeleteByAccount object_id "bool option" int
  | SoftDeleteByIds object_id "string list"
  | HardDelete object_id

fun run_store :: "'s database \<Rightarrow> (nat \<Rightarrow> time) \<Rightarrow> store_op \<Rightarrow> 's \<Rightarrow> 's" where
  "run_store db clk (CreateDomain d) s = snd (create_domain db (clk 0) d s)"
| "run_store db clk (SyncDomains ds) s = snd (sync_domains db ds s)"
| "run_store db clk (CreateAccount a) s = snd (snd (create_account db (clk 0) a s))"
| "run_store db clk (DeleteAccount i) s = snd (delete_account db i s)"
| "run_store db clk (UpdateUsed i delta) s = snd (update_account_used db (clk 0) i delta s)"
| "run_store db clk (ReserveUsed i delta) s = snd (try_reserve_account_used db (clk 0) i delta s)"
| "run_store db clk (RecalculateUsed i) s = snd (recalculate_account_used db (clk 0) i s)"
| "run_store db clk (CreateMessage m) s = snd (snd (create_message db (clk 0) m s))"
| "run_store db clk (UpdateFlags i seen keep) s = snd (update_message_flags db (clk 0) i seen keep s)"
| "run_store db clk (UpdateSeen i seen) s = snd (update_message_seen db (clk 0) i seen s)"
| "run_store db clk (UpdateKeep i keep) s = snd (update_message_keep db (clk 0) i keep s)"
| "run_store db clk (BulkFlagsByIds acc ids seen keep) s = snd (bulk_update_message_flags_by_ids db (clk 0) acc ids seen keep s)"
| "run_store db clk (BulkFlagsByAccount acc seen keep) s = snd (bulk_update_message_flags_by_account db (clk 0) acc seen keep s)"
| "run_store db clk (DeleteMessage i) s = snd (delete_message db (clk 0) i s)"
| "run_store db clk (SoftDeleteByAccount acc seen limit) s = snd (soft_delete_messages_by_account db clk acc seen limit s)"
| "run_store db clk (SoftDeleteByIds acc ids) s = snd (soft_delete_messages_by_ids db (clk 0) acc ids s)"
| "run_store db clk (HardDelete acc) s = snd (hard_delete_messages_by_account db acc s)"

text \<open>What is stored was not invalid before: a new account uses nothing negative, a new message has a size.\<close>

fun admissible :: "store_op \<Rightarrow> bool" where
  "admissible (CreateAccount a) = (0 \<le> ac_used a)"
| "admissible (CreateMessage m) = (0 \<le> ms_size m)"
| "admissible _ = True"

section \<open>Every operation keeps the documents well-formed\<close>

lemma stored_ok:
  "ok_domain (sc_stored domain_schema (sc_with_id domain_schema i d)) \<and>
     sc_id domain_schema (sc_stored domain_schema (sc_with_id domain_schema i d)) = i"
  "ac_quota a \<noteq> 0 \<Longrightarrow> 0 \<le> ac_used a \<Longrightarrow> ok_account (sc_stored account_schema (sc_with_id account_schema i a)) \<and>
     sc_id account_schema (sc_stored account_schema (sc_with_id account_schema i a)) = i"
  "0 \<le> ms_size m \<Longrightarrow> ok_message (sc_stored message_schema (sc_with_id message_schema i m)) \<and>
     sc_id message_schema (sc_stored message_schema (sc_with_id message_schema i m)) = i"
  by (simp_all add: ok_simps domain_schema_def account_schema_def message_schema_def)

lemma harmless_account:
  "harmless account_schema ok_account f [USet ''updatedAt'' (BDate t)]"
  "harmless account_schema ok_account f
     [USetExpr ''used'' (EMax (ELit 0) (EAdd (EIfNull (EField ''used'') (ELit 0)) (ELit delta))), USet ''updatedAt'' (BDate t)]"
  "0 \<le> delta \<Longrightarrow> harmless account_schema ok_account f [UInc ''used'' delta, USet ''updatedAt'' (BDate t)]"
  "0 \<le> u \<Longrightarrow> harmless account_schema ok_account f [USet ''used'' (BInt u), USet ''updatedAt'' (BDate t)]"
  by (auto simp: harmless_def replaces_def ok_simps apply_op_def account_fields_def set_account_field_def account_schema_def)

lemma harmless_message:
  "harmless message_schema ok_message f (mark_deleted now)"
  "harmless message_schema ok_message f (USet ''updatedAt'' (BDate t) # flag_updates seen keep)"
  by (auto simp: harmless_def replaces_def ok_simps apply_op_def set_message_field_def same_ingest_def flag_updates_def mark_deleted_def
      message_schema_def split: option.splits)

lemma harmless_domain:
  "harmless domain_schema ok_domain [CEq ''domain'' (BStr name)]
     [USet ''domain'' (BStr name), USet ''isActive'' (BBool a), USet ''isPrivate'' (BBool p), USet ''updatedAt'' (BDate t),
      USetOnInsert ''createdAt'' (BDate c)]"
  by (auto simp: harmless_def replaces_def ok_simps apply_op_def set_domain_field_def domain_schema_def domain_fields_def)

lemma ok_upserted_domain:
  "ok_domain (upserted domain_schema [USet ''domain'' (BStr name), USet ''isActive'' (BBool a), USet ''isPrivate'' (BBool p),
     USet ''updatedAt'' (BDate t), USetOnInsert ''createdAt'' (BDate c)] i) \<and>
   sc_id domain_schema (upserted domain_schema [USet ''domain'' (BStr name), USet ''isActive'' (BBool a), USet ''isPrivate'' (BBool p),
     USet ''updatedAt'' (BDate t), USetOnInsert ''createdAt'' (BDate c)] i) = i"
  by (simp add: upserted_def apply_op_def set_domain_field_def domain_schema_def ok_simps)

lemma well_formed_domains:
  assumes laws: "database_laws db v" and ok: "well_formed v s"
  shows "co_insert_one (db_domains db) d s = (r1, s') \<Longrightarrow> well_formed v s'"
    "co_upsert_one (db_domains db) [CEq ''domain'' (BStr name)]
       [USet ''domain'' (BStr name), USet ''isActive'' (BBool a), USet ''isPrivate'' (BBool p), USet ''updatedAt'' (BDate t),
        USetOnInsert ''createdAt'' (BDate c)] s = (r2, s') \<Longrightarrow> well_formed v s'"
proof -
  note L = tidy_ops [OF accounts_laws(3) [OF laws] ok [unfolded well_formed_def, THEN conjunct1]]
  show "well_formed v s'" if "co_insert_one (db_domains db) d s = (r1, s')"
    using L(1) [OF that stored_ok(1)] insert_law(1) [OF accounts_laws(3) [OF laws] that] ok by (simp add: well_formed_def)
  show "well_formed v s'" if "co_upsert_one (db_domains db) [CEq ''domain'' (BStr name)]
       [USet ''domain'' (BStr name), USet ''isActive'' (BBool a), USet ''isPrivate'' (BBool p), USet ''updatedAt'' (BDate t),
        USetOnInsert ''createdAt'' (BDate c)] s = (r2, s')"
    using L(3) [OF that harmless_domain ok_upserted_domain] upsert_one_law(1) [OF accounts_laws(3) [OF laws] that] ok by (simp add: well_formed_def)
qed

lemma well_formed_accounts:
  assumes laws: "database_laws db v" and ok: "well_formed v s"
  shows "co_insert_one (db_accounts db) a s = (r1, s') \<Longrightarrow> ac_quota a \<noteq> 0 \<Longrightarrow> 0 \<le> ac_used a \<Longrightarrow> well_formed v s'"
    "co_update_one (db_accounts db) f us s = (r2, s') \<Longrightarrow> harmless account_schema ok_account f us \<Longrightarrow> well_formed v s'"
    "co_delete_one (db_accounts db) f s = (r3, s') \<Longrightarrow> well_formed v s'"
proof -
  note L = tidy_ops [OF accounts_laws(1) [OF laws] ok [unfolded well_formed_def, THEN conjunct2, THEN conjunct1]]
  show "well_formed v s'" if "co_insert_one (db_accounts db) a s = (r1, s')" "ac_quota a \<noteq> 0" "0 \<le> ac_used a"
    using L(1) [OF that(1) stored_ok(2) [OF that(2,3)]] insert_law(1) [OF accounts_laws(1) [OF laws] that(1)] ok
    by (simp add: well_formed_def)
  show "well_formed v s'" if "co_update_one (db_accounts db) f us s = (r2, s')" "harmless account_schema ok_account f us"
    using L(2) [OF that] update_one_law(1) [OF accounts_laws(1) [OF laws] that(1)] ok by (simp add: well_formed_def)
  show "well_formed v s'" if "co_delete_one (db_accounts db) f s = (r3, s')"
    using L(5) [OF that] delete_one_law(1) [OF accounts_laws(1) [OF laws] that] ok by (simp add: well_formed_def)
qed

lemma well_formed_messages:
  assumes laws: "database_laws db v" and ok: "well_formed v s"
  shows "co_insert_one (db_messages db) m s = (r1, s') \<Longrightarrow> 0 \<le> ms_size m \<Longrightarrow> well_formed v s'"
    "co_update_one (db_messages db) f us s = (r2, s') \<Longrightarrow> harmless message_schema ok_message f us \<Longrightarrow> well_formed v s'"
    "co_update_many (db_messages db) f us s = (r2, s') \<Longrightarrow> harmless message_schema ok_message f us \<Longrightarrow> well_formed v s'"
    "co_delete_many (db_messages db) f s = (r3, s') \<Longrightarrow> well_formed v s'"
proof -
  note L = tidy_ops [OF accounts_laws(2) [OF laws] ok [unfolded well_formed_def, THEN conjunct2, THEN conjunct2]]
  show "well_formed v s'" if "co_insert_one (db_messages db) m s = (r1, s')" "0 \<le> ms_size m"
    using L(1) [OF that(1) stored_ok(3) [OF that(2)]] insert_law(1) [OF accounts_laws(2) [OF laws] that(1)] ok
    by (simp add: well_formed_def)
  show "well_formed v s'" if "co_update_one (db_messages db) f us s = (r2, s')" "harmless message_schema ok_message f us"
    using L(2) [OF that] update_one_law(1) [OF accounts_laws(2) [OF laws] that(1)] ok by (simp add: well_formed_def)
  show "well_formed v s'" if "co_update_many (db_messages db) f us s = (r2, s')" "harmless message_schema ok_message f us"
    using L(4) [OF that] update_many_law(1) [OF accounts_laws(2) [OF laws] that(1)] ok by (simp add: well_formed_def)
  show "well_formed v s'" if "co_delete_many (db_messages db) f s = (r3, s')"
    using L(6) [OF that] delete_many_law(1) [OF accounts_laws(2) [OF laws] that] ok by (simp add: well_formed_def)
qed

lemma synced_well_formed:
  assumes laws: "database_laws db v"
  shows "well_formed v s \<Longrightarrow> well_formed v (snd (sync_domains db ds s))"
proof (induction ds arbitrary: s)
  case (Cons p ds)
  obtain d now now2 where p: "p = (d, now, now2)" by (cases p) auto
  obtain r s1 where r: "co_upsert_one (db_domains db) [CEq ''domain'' (BStr (dm_domain d))]
      [USet ''domain'' (BStr (dm_domain d)), USet ''isActive'' (BBool (dm_is_active d)), USet ''isPrivate'' (BBool (dm_is_private d)),
       USet ''updatedAt'' (BDate (millis now)), USetOnInsert ''createdAt'' (BDate (millis now2))] s = (r, s1)" by fastforce
  from well_formed_domains(2) [OF laws Cons.prems r] show ?case
    using Cons.IH by (auto simp: p r split: sum.split)
qed simp

lemma soft_deleted_well_formed:
  "database_laws db v \<Longrightarrow> well_formed v s \<Longrightarrow> well_formed v (snd (soft_delete_loop db now acc seen remaining deleted size0 n s))"
proof (induction db now acc seen remaining deleted size0 n s rule: soft_delete_loop.induct)
  case (1 db now acc seen remaining deleted size0 n s)
  let ?found = "co_find (db_messages db) (live_filter acc seen)
        \<lparr>fo_sort = NewestFirst, fo_skip = 0, fo_limit = (if remaining < 1000 then remaining else 1000),
         fo_projection = ProjInclude [''_id'', ''size'']\<rparr> s"
  show ?case
  proof (cases "remaining \<le> 0 \<or> (\<exists>e. ?found = Inl e) \<or> ?found = Inr []")
    case True
    then show ?thesis using 1(3) by (subst soft_delete_loop.simps) auto
  next
    case False
    then obtain docs where docs: "?found = Inr docs" "docs \<noteq> []" "\<not> remaining \<le> 0" by (cases ?found) auto
    obtain r s1 where r: "co_update_many (db_messages db) (in_ids acc docs) (mark_deleted (now n)) s = (r, s1)" by fastforce
    have ok: "well_formed v s1" by (rule well_formed_messages(3) [OF 1(2,3) r harmless_message(1)])
    show ?thesis
    proof (cases r)
      case (Inl e)
      then show ?thesis using docs r ok by (subst soft_delete_loop.simps) simp
    next
      case (Inr u)
      then show ?thesis using docs r 1(1) [OF docs(3,1) _ r [symmetric] Inr 1(2) ok] by (subst soft_delete_loop.simps) simp
    qed
  qed
qed

lemma run_store_well_formed:
  assumes laws: "database_laws db v" and ok: "well_formed v s" and op: "admissible op"
  shows "well_formed v (run_store db clk op s)"
proof (cases op)
  case (CreateDomain d)
  then show ?thesis using well_formed_domains(1) [OF laws ok]
    by (auto simp: create_domain_def Let_def split: prod.split sum.split)
next
  case (SyncDomains ds)
  then show ?thesis using synced_well_formed [OF laws ok] by simp
next
  case (CreateAccount a)
  then show ?thesis using well_formed_accounts(1) [OF laws ok] op
    by (auto simp: create_account_def Let_def split: prod.split sum.split)
next
  case (DeleteAccount i)
  then show ?thesis using well_formed_accounts(3) [OF laws ok] ok
    by (auto simp: delete_account_def split: option.split prod.split sum.split)
next
  case (UpdateUsed i delta)
  then show ?thesis using well_formed_accounts(2) [OF laws ok _ harmless_account(1)] well_formed_accounts(2) [OF laws ok _ harmless_account(2)]
    by (auto simp: update_account_used_def update_result_error_def split: prod.split sum.split)
next
  case (ReserveUsed i delta)
  then show ?thesis using well_formed_accounts(2) [OF laws ok _ harmless_account(3)] ok
    by (auto simp: try_reserve_account_used_def Let_def split: prod.split sum.split)
next
  case (RecalculateUsed i)
  then show ?thesis using well_formed_accounts(2) [OF laws ok _ harmless_account(4)] ok
    by (auto simp: recalculate_account_used_def Let_def split: prod.split sum.split option.split)
next
  case (CreateMessage m)
  then show ?thesis using well_formed_messages(1) [OF laws ok] op
    by (auto simp: create_message_def Let_def split: prod.split sum.split)
next
  case (DeleteMessage i)
  then show ?thesis using well_formed_messages(2) [OF laws ok _ harmless_message(1)] ok
    by (auto simp: delete_message_def split: option.split prod.split sum.split)
next
  case (SoftDeleteByAccount acc seen limit)
  then show ?thesis using soft_deleted_well_formed [OF laws ok] by (simp add: soft_delete_messages_by_account_def Let_def)
next
  case (SoftDeleteByIds acc ids)
  then show ?thesis using well_formed_messages(3) [OF laws ok _ harmless_message(1)] ok
    by (auto simp: soft_delete_messages_by_ids_def split: option.split prod.split sum.split)
next
  case (HardDelete acc)
  then show ?thesis using well_formed_messages(4) [OF laws ok] ok
    by (auto simp: hard_delete_messages_by_account_def split: prod.split sum.split)
qed (use well_formed_messages(2) [OF laws ok _ harmless_message(2)] well_formed_messages(3) [OF laws ok _ harmless_message(2)] ok in
    \<open>auto simp: update_message_flags_def update_message_seen_def update_message_keep_def bulk_update_message_flags_by_ids_def
       bulk_update_message_flags_by_account_def modified_count_def split: option.split prod.split sum.split\<close>)

section \<open>Any sequence of operations\<close>

definition run_all :: "'s database \<Rightarrow> ((nat \<Rightarrow> time) \<times> store_op) list \<Rightarrow> 's \<Rightarrow> 's" where
  "run_all db ops s = foldl (\<lambda>s (clk, op). run_store db clk op s) s ops"

text \<open>
  C15: the documents are well-formed at every time: whatever operations of the store run, in whatever order, and whether
  they succeed, fail or fail after their effect, the ids of domains, accounts and messages are distinct and not zero, no
  two domains have the same name, no two accounts the same address, no account has two messages of the same place in the
  stream, every value is one that its encoding preserves, every account has a quota and uses nothing negative, and no
  message has a negative size.
\<close>

theorem stored_documents_well_formed:
  assumes "database_laws db v" and "well_formed v s" and "list_all (\<lambda>(clk, op). admissible op) ops"
  shows "well_formed v (run_all db ops s) \<and>
    distinct (map dm_domain (in_domains v (run_all db ops s))) \<and> distinct (map ac_address (in_accounts v (run_all db ops s))) \<and>
    (\<forall>m \<in> set (in_messages v (run_all db ops s)). \<forall>m' \<in> set (in_messages v (run_all db ops s)). same_ingest m m' \<longrightarrow> m = m') \<and>
    (\<forall>a \<in> set (in_accounts v (run_all db ops s)). ac_id a \<noteq> 0 \<and> ac_quota a \<noteq> 0 \<and> 0 \<le> ac_used a)"
proof -
  have ok: "well_formed v (run_all db ops s)"
    using assms(2,3)
  proof (induction ops arbitrary: s)
    case (Cons p ops)
    obtain clk op where p: "p = (clk, op)" by fastforce
    have "well_formed v (run_store db clk op s)" using run_store_well_formed [OF assms(1) Cons.prems(1)] Cons.prems(2) p by simp
    then show ?case using Cons.IH Cons.prems(2) p by (simp add: run_all_def)
  qed (simp add: run_all_def)
  have keys: "distinct (map f xs)" if "sorted_wrt (\<lambda>x y. f x \<noteq> f y) xs" for f :: "'x \<Rightarrow> 'y" and xs
    using that by (induction xs) auto
  have one: "x = y" if "sorted_wrt (\<lambda>x y. \<not> same_ingest x y) xs" "x \<in> set xs" "y \<in> set xs" "same_ingest x y" for x y xs
  proof -
    have "same_ingest y x" using that(4) by (auto simp: same_ingest_def)
    then show ?thesis using that by (induction xs) auto
  qed
  show ?thesis
    using ok one unfolding well_formed_def tidy_def
    by (auto simp: ok_simps domain_schema_def intro!: keys)
qed

definition example_ops :: "((nat \<Rightarrow> time) \<times> store_op) list" where
  "example_ops =
     [(\<lambda>_. 0, CreateAccount (empty_account\<lparr>ac_address := ''a@ok.com''\<rparr>)),
      (\<lambda>_. 1, CreateAccount (empty_account\<lparr>ac_address := ''a@ok.com''\<rparr>)),
      (\<lambda>_. 2, ReserveUsed 1 7), (\<lambda>_. 3, CreateMessage (empty_message\<lparr>ms_account_id := 1, ms_size := 7\<rparr>)),
      (\<lambda>_. 4, SoftDeleteByAccount 1 None 0), (\<lambda>_. 5, UpdateUsed 1 (-9)), (\<lambda>_. 6, SyncDomains [])]"

lemma example_ops_result:
  "map (\<lambda>a. (ac_address a, ac_used a)) (in_accounts mem_contents (run_all mem_database example_ops ([], [], []))) = [(''a@ok.com'', 0)]"
  "map ms_is_deleted (in_messages mem_contents (run_all mem_database example_ops ([], [], []))) = [True]"
  by code_simp+

theorem stored_documents_well_formed_witness:
  "map (\<lambda>a. (ac_address a, ac_used a)) (in_accounts mem_contents (run_all mem_database example_ops ([], [], []))) = [(''a@ok.com'', 0)] \<and>
   well_formed mem_contents (run_all mem_database example_ops ([], [], [])) \<and>
   distinct (map ac_address (in_accounts mem_contents (run_all mem_database example_ops ([], [], []))))"
proof -
  have "well_formed mem_contents ([], [], [])" by (simp add: well_formed_def tidy_def mem_contents_def)
  moreover have "list_all (\<lambda>(clk, op). admissible op) example_ops"
    by (simp add: example_ops_def empty_account_def empty_message_def)
  ultimately show ?thesis using stored_documents_well_formed [OF mem_database_laws] example_ops_result(1) by blast
qed

end
