(* ===== verification/Quota.thy ===== *)
theory Quota
  imports Store
begin

text \<open>
  The accounting of an account's storage (\<open>TryReserveAccountUsed\<close>, \<open>UpdateAccountUsed\<close> and
  \<open>CreateAccount\<close> of \<open>internal/store/store.go\<close>): what every sequence of these operations keeps, under the
  laws of the database.
\<close>

section \<open>The operations on an account's use\<close>

lemma account_ops [simp]:
  "apply_op account_schema (USet ''updatedAt'' (BDate t)) a = a\<lparr>ac_updated_at := t * millisecond\<rparr>"
  "apply_op account_schema (USet ''used'' (BInt u)) a = a\<lparr>ac_used := u\<rparr>"
  "apply_op account_schema (UInc ''used'' u) a = a\<lparr>ac_used := ac_used a + u\<rparr>"
  "apply_op account_schema
     (USetExpr ''used'' (EMax (ELit 0) (EAdd (EIfNull (EField ''used'') (ELit 0)) (ELit delta)))) a =
   a\<lparr>ac_used := max 0 (ac_used a + delta)\<rparr>"
  by (simp_all add: apply_op_def set_account_field_def account_fields_def)

lemma updates_one_all:
  assumes "updates_one sc f us xs ys" "\<forall>x \<in> set xs. P x"
    and "\<And>x. x \<in> set xs \<Longrightarrow> P x \<Longrightarrow> matches f (sc_fields sc x) \<Longrightarrow> P (apply_update sc us x)"
  shows "\<forall>y \<in> set ys. P y"
  using assms by (auto simp: updates_one_def)

lemma update_one_all:
  assumes "collection_laws sc docs frame co" "co_update_one co f us s = (r, s')" "\<forall>x \<in> set (docs s). P x"
    and "\<And>x. x \<in> set (docs s) \<Longrightarrow> P x \<Longrightarrow> matches f (sc_fields sc x) \<Longrightarrow> P (apply_update sc us x)"
  shows "\<forall>x \<in> set (docs s'). P x"
  using update_one_law(2) [OF assms(1,2)] updates_one_all [OF _ assms(3,4)] assms(3)
  by (auto split: sum.splits if_splits)

text \<open>
  What happens to the accounts: a reservation, a correction of \<open>used\<close>, a new account; with the clock
  readings of each.
\<close>

datatype quota_op = Reserve time object_id int | Adjust time object_id int | OpenAccount time account

definition quota_step :: "'s database \<Rightarrow> quota_op \<Rightarrow> 's \<Rightarrow> 's" where
  "quota_step db op s =
     (case op of
        Reserve now i delta \<Rightarrow> snd (try_reserve_account_used db now i delta s)
      | Adjust now i delta \<Rightarrow> snd (update_account_used db now i delta s)
      | OpenAccount now a \<Rightarrow> snd (snd (create_account db now a s)))"

text \<open>The worker and the API give back what was reserved, and open accounts that are empty.\<close>

definition fair_op :: "quota_op \<Rightarrow> bool" where
  "fair_op op = (case op of Reserve now i delta \<Rightarrow> True | Adjust now i delta \<Rightarrow> delta \<le> 0
     | OpenAccount now a \<Rightarrow> ac_used a = 0)"

lemma quota_step_within:
  assumes laws: "database_laws db v" and "fair_op op" and inv: "\<forall>a \<in> set (in_accounts v s). within_quota a"
  shows "\<forall>a \<in> set (in_accounts v (quota_step db op s)). within_quota a"
proof (cases op)
  case (Reserve now i delta)
  show ?thesis
  proof (cases "delta \<le> 0")
    case False
    obtain r s' where r: "co_update_one (db_accounts db) [CEq ''_id'' (BId i), COr [[CLte ''quota'' (BInt 0)],
        [CExprLte (EAdd (EIfNull (EField ''used'') (ELit 0)) (ELit delta)) (EField ''quota'')]]]
        [UInc ''used'' delta, USet ''updatedAt'' (BDate (millis now))] s = (r, s')" by fastforce
    have "\<forall>a \<in> set (in_accounts v s'). within_quota a"
      using inv False
      by (intro update_one_all [OF accounts_laws(1) [OF laws] r])
        (simp_all only: schema_simps matches_reserve apply_reserve, auto simp: within_quota_def has_room_def)
    moreover have "quota_step db op s = s'"
      using r False by (auto simp: Reserve quota_step_def try_reserve_account_used_def Let_def split: sum.splits)
    ultimately show ?thesis by simp
  qed (use Reserve inv in \<open>simp add: quota_step_def try_reserve_account_used_def\<close>)
next
  case (Adjust now i delta)
  define us where "us = (if delta = 0 then [USet ''updatedAt'' (BDate (millis now))]
    else [USetExpr ''used'' (EMax (ELit 0) (EAdd (EIfNull (EField ''used'') (ELit 0)) (ELit delta))),
          USet ''updatedAt'' (BDate (millis now))])"
  obtain r s' where r: "co_update_one (db_accounts db) [CEq ''_id'' (BId i)] us s = (r, s')" by fastforce
  have "within_quota (apply_update account_schema us a)" if "within_quota a" for a
    using that assms(2) by (auto simp: Adjust fair_op_def within_quota_def us_def)
  then have "\<forall>a \<in> set (in_accounts v s'). within_quota a"
    using update_one_all [OF accounts_laws(1) [OF laws] r inv] by blast
  moreover have "quota_step db op s = s'"
    using r by (auto simp: Adjust quota_step_def update_account_used_def update_result_error_def us_def
        split: sum.splits if_splits)
  ultimately show ?thesis by simp
next
  case (OpenAccount now a)
  let ?a = "a\<lparr>ac_created_at := now, ac_updated_at := now,
    ac_quota := (if ac_quota a = 0 then 40000000 else ac_quota a)\<rparr>"
  obtain r s' where r: "co_insert_one (db_accounts db) ?a s = (r, s')" by fastforce
  have "\<forall>b \<in> set (in_accounts v s'). within_quota b" if "inserts account_schema ?a i (in_accounts v s) (in_accounts v s')" for i
    using that inv assms(2)
    by (auto simp: inserts_def OpenAccount fair_op_def account_schema_def within_quota_def Let_def)
  then have "\<forall>b \<in> set (in_accounts v s'). within_quota b"
    using insert_law(2) [OF accounts_laws(1) [OF laws] r] inv by (auto split: sum.splits)
  moreover have "quota_step db op s = s'"
    using r by (auto simp: OpenAccount quota_step_def create_account_def Let_def split: sum.splits)
  ultimately show ?thesis by simp
qed

lemma try_reserve_iff:
  assumes laws: "database_laws db v" and "0 < delta" and "try_reserve_account_used db now i delta s = (Inr ok, s')"
  shows "ok = (\<exists>a \<in> set (in_accounts v s). ac_id a = i \<and> has_room delta a)"
proof -
  let ?f = "[CEq ''_id'' (BId i), COr [[CLte ''quota'' (BInt 0)],
        [CExprLte (EAdd (EIfNull (EField ''used'') (ELit 0)) (ELit delta)) (EField ''quota'')]]]"
  let ?us = "[UInc ''used'' delta, USet ''updatedAt'' (BDate (millis now))]"
  obtain u where u: "co_update_one (db_accounts db) ?f ?us s = (Inr u, s')" "ok = (0 < ur_matched u)"
    using assms(2,3) by (auto simp: try_reserve_account_used_def Let_def split: prod.splits sum.splits)
  show ?thesis
    using update_one_law(2) [OF accounts_laws(1) [OF laws] u(1)] u(2)
    by (auto simp: matching_def filter_empty_conv updates_one_def split: if_splits simp del: matches_simps)
qed

lemma quota_run_within:
  assumes "database_laws db v" and "list_all fair_op ops" and "\<forall>a \<in> set (in_accounts v s). within_quota a"
  shows "\<forall>a \<in> set (in_accounts v (foldl (\<lambda>s op. quota_step db op s) s ops)). within_quota a"
  using assms(2,3)
proof (induction ops arbitrary: s)
  case (Cons op ops)
  have "\<forall>a \<in> set (in_accounts v (quota_step db op s)). within_quota a"
    by (rule quota_step_within [OF assms(1) _ Cons.prems(2)]) (use Cons.prems(1) in simp)
  moreover have "list_all fair_op ops" using Cons.prems(1) by simp
  ultimately show ?case unfolding foldl_Cons by (intro Cons.IH)
qed simp

text \<open>
  C11: quotas hold: however reservations, releases and new accounts are interleaved, and whichever of
  their writes fail, no account with a quota ever uses more than it, and no use is negative; and a
  reservation is granted exactly when the account exists and has room for it.
\<close>

theorem quota_never_exceeded:
  assumes "database_laws db v" and "list_all fair_op ops" and "\<forall>a \<in> set (in_accounts v s). within_quota a"
  shows "(let s' = foldl (\<lambda>s op. quota_step db op s) s ops in
      (\<forall>a \<in> set (in_accounts v s'). within_quota a) \<and>
      (0 < delta \<longrightarrow> fst (try_reserve_account_used db now i delta s') = Inr ok \<longrightarrow>
       ok = (\<exists>a \<in> set (in_accounts v s'). ac_id a = i \<and> has_room delta a)))"
proof -
  have inv: "\<forall>a \<in> set (in_accounts v (foldl (\<lambda>s op. quota_step db op s) s ops)). within_quota a"
    by (rule quota_run_within [OF assms])
  have iff: "ok = (\<exists>a \<in> set (in_accounts v t). ac_id a = i \<and> has_room delta a)"
    if "0 < delta" "fst (try_reserve_account_used db now i delta t) = Inr ok" for t
  proof -
    have "try_reserve_account_used db now i delta t = (Inr ok, snd (try_reserve_account_used db now i delta t))"
      by (rule prod_eqI) (simp_all only: that(2) fst_conv snd_conv)
    then show ?thesis by (rule try_reserve_iff [OF assms(1) that(1)])
  qed
  show ?thesis unfolding Let_def by (intro conjI impI inv iff)
qed

theorem quota_never_exceeded_witness:
  "let a = empty_account\<lparr>ac_address := ''a'', ac_quota := 10\<rparr>;
       s = foldl (\<lambda>s op. quota_step mem_database op s) ([], [], []) [OpenAccount 0 a, Reserve 0 1 7, Reserve 0 1 7] in
   (\<forall>a \<in> set (in_accounts mem_contents s). within_quota a)"
proof -
  have "list_all fair_op [OpenAccount 0 (empty_account\<lparr>ac_address := ''a'', ac_quota := 10\<rparr>), Reserve 0 1 7, Reserve 0 1 7]"
    by (simp add: fair_op_def empty_account_def)
  from quota_never_exceeded [OF mem_database_laws this, of "([], [], [])"] show ?thesis
    unfolding Let_def by (simp add: mem_contents_def)
qed

end
