(* ===== verification/Listing.thy ===== *)
theory Listing
  imports Store
begin

text \<open>
  Seek pagination: \<open>ListMessagesAfter\<close> and \<open>ListMessagesAfterFiltered\<close> of \<open>internal/store/store.go\<close> with
  the cursor \<open>ListMessages\<close> of \<open>internal/handler/message.go\<close> hands out. The abstract specification is the
  listing of an account: its live messages, newest first.
\<close>

section \<open>The cursor of a page\<close>

definition next_cursor :: "'s database \<Rightarrow> message list \<Rightarrow> string" where
  "next_cursor db ms =
     (if 0 < length ms
      then (let last' = ms ! (length ms - 1) in format_int (millis (ms_created_at last')) @ ''.'' @ db_hex db (ms_id last'))
      else [])"

text \<open>
  A client that follows the cursors until a page is empty, with at most \<open>n\<close> requests; \<open>clk\<close> gives the
  clock readings of each. The result is \<^const>\<open>None\<close> when a request fails or there are too few.
\<close>

fun fetch_pages ::
  "'s database \<Rightarrow> (nat \<Rightarrow> time \<times> time \<times> time) \<Rightarrow> object_id \<Rightarrow> bool option \<Rightarrow> int \<Rightarrow> nat \<Rightarrow> string \<Rightarrow> 's store
     \<Rightarrow> message list option" where
  "fetch_pages db clk account_id seen limit 0 cursor st = None"
| "fetch_pages db clk account_id seen limit (Suc n) cursor st =
     (case list_messages_after_filtered db (clk n) account_id cursor limit seen st of
        (Inl e, st') \<Rightarrow> None
      | (Inr (ms, total_items), st') \<Rightarrow>
          if ms = [] then Some []
          else map_option (\<lambda>rest. ms @ rest)
                 (fetch_pages db clk account_id seen limit n (next_cursor db ms) st'))"

definition listing :: "object_id \<Rightarrow> bool option \<Rightarrow> message list \<Rightarrow> message list" where
  "listing account_id seen ms = rev (sort_key newest_key (filter (live account_id seen) ms))"

text \<open>Reads succeed, and no context is cancelled.\<close>

definition reads_ok :: "'s database \<Rightarrow> 's \<Rightarrow> bool" where
  "reads_ok db s \<longleftrightarrow> \<not> db_cancelled db s \<and>
     (\<forall>f opts. 0 \<le> fo_skip opts \<longrightarrow> (\<exists>ms. co_find (db_messages db) f opts s = Inr ms)) \<and>
     (\<forall>f. \<exists>n. co_count (db_messages db) f s = Inr n)"

lemma parse_next_cursor:
  assumes "hex_laws db" "int64_ok (millis (ms_created_at m))"
  shows "parse_cursor_token db (next_cursor db (ms @ [m])) = Some (millis (ms_created_at m), ms_id m)"
    "trim_space (next_cursor db (ms @ [m])) = next_cursor db (ms @ [m])" "next_cursor db (ms @ [m]) \<noteq> []"
proof -
  let ?t = "format_int (millis (ms_created_at m))" and ?h = "db_hex db (ms_id m)"
  have c: "next_cursor db (ms @ [m]) = ?t @ CHR ''.'' # ?h" by (simp add: next_cursor_def)
  have dot: "CHR ''.'' \<notin> set ?t" using format_int_chars by (fastforce simp: is_digit_def)
  have "?h \<noteq> []" and h: "\<And>c. c \<in> set ?h \<Longrightarrow> is_digit c \<or> c \<in> set ''abcdef''"
    using assms(1) unfolding hex_laws_def by blast+
  then show "parse_cursor_token db (next_cursor db (ms @ [m])) = Some (millis (ms_created_at m), ms_id m)"
    using assms dot by (simp add: c parse_cursor_token_def index_byte_append hex_laws_def not_le)
  have "\<not> is_space (hd ?t)" using format_int_trimmed [of "millis (ms_created_at m)"] by (simp add: trimmed_def)
  moreover have "\<not> is_space (last ?h)" using h [OF last_in_set [OF \<open>?h \<noteq> []\<close>]]
    by (auto dest: is_digit_not simp: is_space_def)
  ultimately show "trim_space (next_cursor db (ms @ [m])) = next_cursor db (ms @ [m])"
    using \<open>?h \<noteq> []\<close> by (intro trim_space_trimmed) (simp add: c trimmed_def)
  show "next_cursor db (ms @ [m]) \<noteq> []" by (simp add: c)
qed

section \<open>Pages\<close>

lemma newest_key_id: "newest_key x = newest_key y \<Longrightarrow> ms_id x = ms_id y"
  by (simp add: newest_key_def word_unat_eq_iff)

lemma newest_key_inj: "distinct (map ms_id xs) \<Longrightarrow> inj_on newest_key (set xs)"
  by (auto simp: inj_on_def distinct_map dest: newest_key_id)

lemma newest_first_unique:
  assumes "distinct (map ms_id xs)" "mset ys = mset xs" "sorted (rev (map newest_key ys))"
  shows "ys = rev (sort_key newest_key xs)"
proof -
  have inj: "inj_on newest_key (set xs)"
    using assms(1) by (rule newest_key_inj)
  have set: "set ys = set xs" using assms(2) by (metis set_mset_mset)
  have d: "distinct xs" using assms(1) by (simp add: distinct_map)
  then have "distinct ys" using assms(2) by (metis mset_eq_imp_distinct_iff)
  then have "distinct (map newest_key (rev ys))" "distinct (map newest_key (sort_key newest_key xs))"
    using inj set d by (simp_all add: distinct_map)
  moreover have "sorted (map newest_key (rev ys))" using assms(3) by (simp add: rev_map)
  ultimately have "map newest_key (rev ys) = map newest_key (sort_key newest_key xs)"
    using set by (intro sorted_distinct_set_unique) simp_all
  then have "rev ys = sort_key newest_key xs"
    using inj set by (intro map_inj_on [of newest_key "rev ys"]) simp_all
  then show ?thesis by (metis rev_rev_ident)
qed

lemma listing_descends:
  assumes "distinct (map ms_id xs)"
  shows "sorted_wrt (\<lambda>a b. newest_key b < newest_key a) (listing account_id seen xs)"
proof -
  let ?ys = "filter (live account_id seen) xs"
  have d: "distinct (map ms_id ?ys)" using assms by (rule distinct_map_filter)
  then have "inj_on newest_key (set ?ys)" "distinct ?ys"
    by (rule newest_key_inj) (use d in \<open>simp add: distinct_map\<close>)
  then have "distinct (map newest_key (sort_key newest_key ?ys))" by (simp add: distinct_map)
  then have "sorted_wrt (<) (map newest_key (sort_key newest_key ?ys))"
    by (simp add: strict_sorted_iff)
  then show ?thesis by (simp add: listing_def sorted_wrt_rev sorted_wrt_map)
qed

lemma find_page_listing:
  assumes laws: "database_laws db v" and "reads_ok db s" and ids: "distinct (map ms_id (in_messages v s))"
    and "0 < limit" and f: "\<And>m. matches f (message_fields m) = (live account_id seen m \<and> P (newest_key m))"
  shows "find_page db f 0 limit s =
    Inr (map (project_message list_projection)
      (take (nat limit) (filter (\<lambda>m. P (newest_key m)) (listing account_id seen (in_messages v s)))))"
proof -
  let ?o = "\<lparr>fo_sort = NewestFirst, fo_skip = 0, fo_limit = limit, fo_projection = list_projection\<rparr>"
  obtain ds where ds: "co_find (db_messages db) f ?o s = Inr ds"
    using assms(2) by (force simp: reads_ok_def)
  from find_law [OF accounts_laws(2) [OF laws] this] obtain ys where
    ys: "mset ys = mset (matching message_schema f (in_messages v s))" "sorted (rev (map newest_key ys))"
    "ds = map (project_message list_projection) (take (nat limit) ys)"
    using \<open>0 < limit\<close> by (auto simp: selects_def)
  have m: "matching message_schema f (in_messages v s) =
      filter (\<lambda>m. P (newest_key m)) (filter (live account_id seen) (in_messages v s))"
    by (simp add: matching_def f conj_commute)
  have "ys = rev (sort_key newest_key (filter (\<lambda>m. P (newest_key m)) (filter (live account_id seen) (in_messages v s))))"
    using ys(1,2) ids unfolding m by (intro newest_first_unique) (simp_all add: distinct_map_filter)
  also have "\<dots> = filter (\<lambda>m. P (newest_key m)) (listing account_id seen (in_messages v s))"
    unfolding listing_def by (simp only: rev_filter [symmetric] filter_sort)
  finally show ?thesis using ds ys(3) by (simp add: find_page_def)
qed

lemma project_list [simp]:
  "newest_key (project_message list_projection m) = newest_key m"
  "ms_created_at (project_message list_projection m) = ms_created_at m"
  "ms_id (project_message list_projection m) = ms_id m"
  by (simp_all add: newest_key_def project_message_def list_projection_def is_shown_def Let_def)

lemma next_cursor_project [simp]: "next_cursor db (map (project_message list_projection) ms) = next_cursor db ms"
  by (simp add: next_cursor_def Let_def)

lemma filter_behind:
  assumes "sorted_wrt (\<lambda>a b. newest_key b < newest_key a) (xs @ [x] @ ys)"
  shows "filter (\<lambda>m. newest_key m < newest_key x) (xs @ [x] @ ys) = ys"
  using assms by (auto simp: sorted_wrt_append filter_empty_conv filter_id_conv not_less less_imp_le)

text \<open>Where a cursor stands in a listing: at its start, or behind the messages already delivered.\<close>

definition cursor_at :: "'s database \<Rightarrow> message list \<Rightarrow> string \<Rightarrow> bool" where
  "cursor_at db delivered cursor \<longleftrightarrow>
     (if delivered = [] then cursor = [] else cursor = next_cursor db [last delivered])"

lemma after_query_page:
  assumes laws: "database_laws db v" and ok: "reads_ok db s" and ids: "distinct (map ms_id (in_messages v s))"
    and "0 < limit" and times: "\<forall>m \<in> set (in_messages v s). int64_ok (millis (ms_created_at m))"
    and split: "listing account_id seen (in_messages v s) = delivered @ rest" and "cursor_at db delivered cursor"
  shows "after_query db account_id seen (trim_space cursor) limit s =
    Inr (map (project_message list_projection) (take (nat limit) rest))"
proof (cases delivered rule: rev_cases)
  case Nil
  have "find_page db (live_filter account_id seen) 0 limit s =
    Inr (map (project_message list_projection)
      (take (nat limit) (filter (\<lambda>m. True) (listing account_id seen (in_messages v s)))))"
    by (rule find_page_listing [OF laws ok ids \<open>0 < limit\<close>]) simp
  then show ?thesis using Nil assms(7) split by (simp add: after_query_def cursor_at_def)
next
  case (snoc ds m)
  have "m \<in> set (listing account_id seen (in_messages v s))" using split snoc by simp
  then have "m \<in> set (in_messages v s)" by (simp add: listing_def)
  then have "int64_ok (millis (ms_created_at m))" using times by blast
  note tok = parse_next_cursor [OF accounts_laws(4) [OF laws] this, of "[]", unfolded append_Nil]
  have "find_page db (live_filter account_id seen @ [after_cond (millis (ms_created_at m)) (ms_id m)]) 0 limit s =
    Inr (map (project_message list_projection) (take (nat limit)
      (filter (\<lambda>m'. newest_key m' < newest_key m) (listing account_id seen (in_messages v s)))))"
    by (rule find_page_listing [OF laws ok ids \<open>0 < limit\<close>]) (simp add: newest_key_def)
  moreover have "filter (\<lambda>m'. newest_key m' < newest_key m) (listing account_id seen (in_messages v s)) = rest"
    using filter_behind [of ds m rest] listing_descends [OF ids, of account_id seen] split snoc by simp
  ultimately show ?thesis
    using tok assms(7) snoc by (simp add: after_query_def cursor_at_def)
qed

lemma count_messages_ok:
  assumes "reads_ok db (so_db st)"
  shows "\<exists>n st'. count_messages_cached db clk account_id seen st = (Inr n, st') \<and> so_db st' = so_db st"
proof -
  obtain now now2 now3 where "clk = (now, now2, now3)" by (cases clk)
  moreover obtain n where "co_count (db_messages db) (live_filter account_id seen) (so_db st) = Inr n"
    using assms unfolding reads_ok_def by blast
  moreover have "\<not> db_cancelled db (so_db st)" using assms by (simp add: reads_ok_def)
  ultimately show ?thesis
    by (auto simp: count_messages_cached_def maybe_sweep_counts_def Let_def split: option.splits)
qed

lemma list_after_page:
  assumes "database_laws db v" and "reads_ok db (so_db st)" and "distinct (map ms_id (in_messages v (so_db st)))"
    and "\<forall>m \<in> set (in_messages v (so_db st)). int64_ok (millis (ms_created_at m))"
    and "listing account_id seen (in_messages v (so_db st)) = delivered @ rest" and "cursor_at db delivered cursor"
  shows "\<exists>n st'. list_messages_after_filtered db clk account_id cursor limit seen st =
    (Inr (map (project_message list_projection) (take (nat (clamp_limit limit)) rest), n), st') \<and> so_db st' = so_db st"
proof -
  obtain n st' where "count_messages_cached db clk account_id seen st = (Inr n, st')" "so_db st' = so_db st"
    using count_messages_ok [OF assms(2)] by blast
  moreover have "0 < clamp_limit limit" by (simp add: clamp_limit_def Let_def)
  moreover have "\<not> db_cancelled db (so_db st)" using assms(2) by (simp add: reads_ok_def)
  ultimately show ?thesis
    using after_query_page [OF assms(1-3) _ assms(4-6)]
    by (simp add: list_messages_after_filtered_def list_query_def)
qed

lemma fetch_pages_rest:
  assumes "database_laws db v" and "reads_ok db (so_db st)" and "distinct (map ms_id (in_messages v (so_db st)))"
    and "\<forall>m \<in> set (in_messages v (so_db st)). int64_ok (millis (ms_created_at m))"
    and "listing account_id seen (in_messages v (so_db st)) = delivered @ rest" and "cursor_at db delivered cursor"
    and "length rest < n"
  shows "fetch_pages db clk account_id seen limit n cursor st = Some (map (project_message list_projection) rest)"
  using assms(2-)
proof (induction n arbitrary: delivered rest cursor st)
  case (Suc n)
  let ?k = "nat (clamp_limit limit)"
  obtain t st' where page: "list_messages_after_filtered db (clk n) account_id cursor limit seen st =
      (Inr (map (project_message list_projection) (take ?k rest), t), st')" "so_db st' = so_db st"
    using list_after_page [OF assms(1) Suc.prems(1-5)] by blast
  show ?case
  proof (cases "rest = []")
    case False
    have k: "0 < ?k" by (simp add: clamp_limit_def Let_def)
    have ne: "take ?k rest \<noteq> []" using k False by simp
    have at: "cursor_at db (delivered @ take ?k rest) (next_cursor db (take ?k rest))"
      using ne by (simp add: cursor_at_def next_cursor_def last_append last_conv_nth Let_def)
    have "0 < length rest" using False by simp
    then have "length (drop ?k rest) < n" using Suc.prems(6) k unfolding length_drop by linarith
    then have "fetch_pages db clk account_id seen limit n (next_cursor db (take ?k rest)) st' =
        Some (map (project_message list_projection) (drop ?k rest))"
      using Suc.prems page(2) by (intro Suc.IH [OF _ _ _ _ at]) simp_all
    then show ?thesis
      using page ne by (simp add: map_append [symmetric] del: map_append)
  qed (use page in simp)
qed simp

text \<open>
  C13: following the cursors of the listing terminates and delivers every live message of the account
  (with the asked for \<open>seen\<close>) exactly once, newest first: as many requests as there are messages, plus
  one, are enough, whatever the page size, while the messages do not change.
\<close>

theorem cursor_pages_enumerate:
  assumes "database_laws db v" and "reads_ok db (so_db st)" and "distinct (map ms_id (in_messages v (so_db st)))"
    and "\<forall>m \<in> set (in_messages v (so_db st)). int64_ok (millis (ms_created_at m))"
    and "length (filter (live account_id seen) (in_messages v (so_db st))) < n"
  shows "\<exists>ms. fetch_pages db clk account_id seen limit n [] st = Some (map (project_message list_projection) ms) \<and>
    mset ms = mset (filter (live account_id seen) (in_messages v (so_db st))) \<and>
    sorted_wrt (\<lambda>a b. (millis (ms_created_at b), unat (ms_id b)) < (millis (ms_created_at a), unat (ms_id a))) ms"
proof -
  let ?ms = "listing account_id seen (in_messages v (so_db st))"
  have "length ?ms < n" using assms(5) by (simp add: listing_def)
  then have "fetch_pages db clk account_id seen limit n [] st = Some (map (project_message list_projection) ?ms)"
    by (intro fetch_pages_rest [OF assms(1-4), where delivered = "[]"]) (simp_all add: cursor_at_def)
  moreover have "mset ?ms = mset (filter (live account_id seen) (in_messages v (so_db st)))"
    by (simp add: listing_def)
  ultimately show ?thesis using listing_descends [OF assms(3), of account_id seen] by (auto simp: newest_key_def)
qed

theorem cursor_pages_enumerate_witness:
  "let m1 = empty_message\<lparr>ms_id := 1, ms_account_id := 7\<rparr>; m2 = empty_message\<lparr>ms_id := 2, ms_account_id := 7\<rparr>;
       st = \<lparr>so_db = ([], [], [m1, m2]), so_counts = Map.empty, so_last_sweep = 0\<rparr>
   in \<exists>ms. fetch_pages mem_database (\<lambda>_. (0, 0, 0)) 7 None 1 3 [] st = Some (map (project_message list_projection) ms) \<and>
        mset ms = mset [m1, m2]"
proof -
  let ?m1 = "empty_message\<lparr>ms_id := 1, ms_account_id := 7\<rparr>" and ?m2 = "empty_message\<lparr>ms_id := 2, ms_account_id := 7\<rparr>"
  let ?st = "\<lparr>so_db = ([], [], [?m1, ?m2]), so_counts = Map.empty, so_last_sweep = 0\<rparr> :: tables store"
  have m: "in_messages mem_contents (so_db ?st) = [?m1, ?m2]" by (simp add: mem_contents_def)
  have "reads_ok mem_database (so_db ?st)"
    by (auto simp: reads_ok_def mem_database_def mem_collection_def Let_def)
  moreover have "distinct (map ms_id (in_messages mem_contents (so_db ?st)))" unfolding m by simp
  moreover have "\<forall>m \<in> set (in_messages mem_contents (so_db ?st)). int64_ok (millis (ms_created_at m))"
    unfolding m by (simp add: empty_message_def int64_ok_def millis_def time_defs)
  moreover have "filter (live 7 None) (in_messages mem_contents (so_db ?st)) = [?m1, ?m2]"
    unfolding m by (simp add: live_def empty_message_def)
  ultimately show ?thesis
    using cursor_pages_enumerate [OF mem_database_laws, of ?st 7 None 3 "\<lambda>_. (0, 0, 0)" 1] unfolding Let_def by fastforce
qed

end
