(* ===== verification/Deletion.thy ===== *)
theory Deletion
  imports Store
begin

text \<open>
  Soft deletion in batches (\<open>SoftDeleteMessagesByAccount\<close> and \<open>SoftDeleteMessagesByIDs\<close> of
  \<open>internal/store/store.go\<close>): what is deleted, counted and reported. That the loop ends is the
  termination proof of \<^const>\<open>soft_delete_loop\<close>.
\<close>

section \<open>Marking messages as deleted\<close>

definition marks :: "message list \<Rightarrow> message list \<Rightarrow> message list \<Rightarrow> bool" where
  "marks docs xs ys \<longleftrightarrow> list_all2 (\<lambda>m m'. if m \<in> set docs
     then \<exists>t. m' = m\<lparr>ms_is_deleted := True, ms_updated_at := t\<rparr> else m' = m) xs ys"

lemma marks_Nil [simp]: "marks [] xs xs"
  by (simp add: marks_def list_all2_refl)

lemma marks_nth:
  assumes "marks docs xs ys"
  shows "length ys = length xs"
    "k < length xs \<Longrightarrow> if xs ! k \<in> set docs
       then \<exists>t. ys ! k = (xs ! k)\<lparr>ms_is_deleted := True, ms_updated_at := t\<rparr> else ys ! k = xs ! k"
  using assms by (simp_all add: marks_def list_all2_conv_all_nth)

lemma marks_ids:
  assumes "marks docs xs ys" shows "map ms_id ys = map ms_id xs"
proof (rule nth_equalityI)
  fix k assume "k < length (map ms_id ys)"
  then show "map ms_id ys ! k = map ms_id xs ! k"
    using marks_nth(2) [OF assms, of k] marks_nth(1) [OF assms] by (auto split: if_splits)
qed (simp add: marks_nth [OF assms])

lemma marks_live:
  assumes "marks docs xs ys" "m \<in> set ys" "\<not> ms_is_deleted m"
  shows "m \<in> set xs \<and> m \<notin> set docs"
proof -
  obtain k where k: "k < length xs" "ys ! k = m"
    using assms(2) marks_nth(1) [OF assms(1)] by (auto simp: in_set_conv_nth)
  then show ?thesis
    using marks_nth(2) [OF assms(1) k(1)] assms(3) nth_mem [OF k(1)] by (auto split: if_splits)
qed

lemma marks_trans:
  assumes "marks docs xs ys" "marks docs' ys zs" "\<forall>m \<in> set docs'. \<not> ms_is_deleted m"
  shows "marks (docs @ docs') xs zs"
  unfolding marks_def list_all2_conv_all_nth
proof (intro conjI allI impI)
  show "length xs = length zs" using assms(1,2) by (simp add: marks_def list_all2_conv_all_nth)
  fix k assume k: "k < length xs"
  then have 1: "if xs ! k \<in> set docs then \<exists>t. ys ! k = (xs ! k)\<lparr>ms_is_deleted := True, ms_updated_at := t\<rparr>
      else ys ! k = xs ! k"
    and 2: "if ys ! k \<in> set docs' then \<exists>t. zs ! k = (ys ! k)\<lparr>ms_is_deleted := True, ms_updated_at := t\<rparr>
      else zs ! k = ys ! k"
    using assms(1,2) by (auto simp: marks_def list_all2_conv_all_nth)
  show "if xs ! k \<in> set (docs @ docs')
    then \<exists>t. zs ! k = (xs ! k)\<lparr>ms_is_deleted := True, ms_updated_at := t\<rparr> else zs ! k = xs ! k"
    using 1 2 assms(3) by (auto split: if_splits)
qed

lemma project_id_size [simp]:
  "ms_id (project_message (ProjInclude [''_id'', ''size'']) m) = ms_id m"
  "ms_size (project_message (ProjInclude [''_id'', ''size'']) m) = ms_size m"
  by (simp_all add: project_message_def is_shown_def Let_def)

section \<open>A batch\<close>

lemma delete_batch:
  assumes laws: "database_laws db v" and ids: "distinct (map ms_id (in_messages v s))"
    and "set docs \<subseteq> {m \<in> set (in_messages v s). live acc None m}"
    and "co_update_many (db_messages db)
      (in_ids acc (map (project_message (ProjInclude [''_id'', ''size''])) docs)) (mark_deleted now) s = (Inr r, s')"
  shows "marks docs (in_messages v s) (in_messages v s')" "in_accounts v s' = in_accounts v s"
    "in_domains v s' = in_domains v s"
proof -
  note L = update_many_law [OF accounts_laws(2) [OF laws] assms(4)]
  show "in_accounts v s' = in_accounts v s" "in_domains v s' = in_domains v s" using L(1) by simp_all
  have same: "(ms_id m \<in> ms_id ` set docs \<and> ms_account_id m = acc \<and> \<not> ms_is_deleted m) = (m \<in> set docs)"
    if "m \<in> set (in_messages v s)" for m
  proof
    assume "ms_id m \<in> ms_id ` set docs \<and> ms_account_id m = acc \<and> \<not> ms_is_deleted m"
    then obtain d where "d \<in> set docs" "ms_id d = ms_id m" by auto
    moreover from this have "d \<in> set (in_messages v s)" using assms(3) by auto
    ultimately have "m = d" using ids that by (auto simp: distinct_map dest: inj_onD)
    then show "m \<in> set docs" using \<open>d \<in> set docs\<close> by simp
  qed (use assms(3) in \<open>auto simp: live_def\<close>)
  let ?ds = "map (project_message (ProjInclude [''_id'', ''size''])) docs"
  have "matches (in_ids acc ?ds) (message_fields m) = (m \<in> set docs)" if "m \<in> set (in_messages v s)" for m
    using same [OF that] by (simp only: matches_in_ids list.set_map image_image project_id_size)
  then show "marks docs (in_messages v s) (in_messages v s')"
    using L(2) by (auto simp: updates_many_def marks_def list_all2_conv_all_nth simp del: matches_simps)
qed

lemma find_docs:
  assumes "database_laws db v" and "co_find (db_messages db) f opts s = Inr ds"
    and ids: "distinct (map ms_id (in_messages v s))" and opts: "fo_skip opts = 0" "0 < fo_limit opts"
  obtains docs where "ds = map (project_message (fo_projection opts)) docs" "distinct docs"
    "set docs \<subseteq> {m \<in> set (in_messages v s). matches f (message_fields m)}"
    "int (length docs) \<le> fo_limit opts"
    "docs = [] \<Longrightarrow> \<forall>m \<in> set (in_messages v s). \<not> matches f (message_fields m)"
proof -
  obtain ys where ys: "mset ys = mset (matching message_schema f (in_messages v s))"
    "ds = map (project_message (fo_projection opts)) (take (nat (fo_limit opts)) ys)"
    using find_law [OF accounts_laws(2) [OF assms(1)] assms(2)] opts by (auto simp: selects_def)
  have "distinct ys" using ids ys(1) by (metis distinct_map distinct_filter matching_def mset_eq_imp_distinct_iff)
  moreover have set: "set ys = {m \<in> set (in_messages v s). matches f (message_fields m)}"
    using arg_cong [OF ys(1), of set_mset] by (simp add: matching_def del: matches_simps)
  moreover have "take (nat (fo_limit opts)) ys = [] \<Longrightarrow> ys = []" using opts by simp
  ultimately show thesis
    using that [OF ys(2)] opts by (fastforce dest: in_set_takeD simp del: matches_simps)
qed

section \<open>The loop\<close>

text \<open>What a successful run reports and leaves behind.\<close>

definition deleted_exactly ::
  "'s contents \<Rightarrow> object_id \<Rightarrow> bool option \<Rightarrow> int \<Rightarrow> message list \<Rightarrow> 's \<Rightarrow> 's \<Rightarrow> bool" where
  "deleted_exactly v acc seen limit docs s s' \<longleftrightarrow>
     distinct docs \<and> set docs \<subseteq> {m \<in> set (in_messages v s). live acc seen m} \<and>
     marks docs (in_messages v s) (in_messages v s') \<and>
     in_accounts v s' = in_accounts v s \<and> in_domains v s' = in_domains v s \<and>
     int (length docs) \<le> max 0 limit \<and>
     (int (length docs) < limit \<longrightarrow> (\<forall>m \<in> set (in_messages v s'). \<not> live acc seen m))"

lemma deleted_none:
  assumes "limit \<le> 0 \<or> (\<forall>m \<in> set (in_messages v s). \<not> live acc seen m)"
  shows "deleted_exactly v acc seen limit [] s s"
  using assms by (auto simp: deleted_exactly_def)

lemma live_not_deleted: "live acc seen m \<Longrightarrow> \<not> ms_is_deleted m"
  by (simp add: live_def)

lemma deleted_append:
  assumes d: "distinct docs" "set docs \<subseteq> {m \<in> set (in_messages v s). live acc seen m}"
      "int (length docs) \<le> limit"
    and m: "marks docs (in_messages v s) (in_messages v t)"
      "in_accounts v t = in_accounts v s" "in_domains v t = in_domains v s"
    and rest: "deleted_exactly v acc seen (limit - int (length docs)) docs' t s'"
  shows "deleted_exactly v acc seen limit (docs @ docs') s s'"
proof -
  have r: "distinct docs'" "set docs' \<subseteq> {m \<in> set (in_messages v t). live acc seen m}"
    "marks docs' (in_messages v t) (in_messages v s')"
    "in_accounts v s' = in_accounts v t" "in_domains v s' = in_domains v t"
    "int (length docs') \<le> max 0 (limit - int (length docs))"
    "int (length docs') < limit - int (length docs) \<longrightarrow> (\<forall>m \<in> set (in_messages v s'). \<not> live acc seen m)"
    using rest unfolding deleted_exactly_def by blast+
  have new: "m \<in> set (in_messages v s) \<and> m \<notin> set docs" if "m \<in> set docs'" for m
    using marks_live [OF m(1), of m] r(2) that live_not_deleted by blast
  have "marks (docs @ docs') (in_messages v s) (in_messages v s')"
    using r(2) live_not_deleted by (intro marks_trans [OF m(1) r(3)]) blast
  moreover have "distinct (docs @ docs')" using d(1) r(1) new by auto
  moreover have "set (docs @ docs') \<subseteq> {m \<in> set (in_messages v s). live acc seen m}"
    using d(2) r(2) new by auto
  moreover have "int (length (docs @ docs')) \<le> max 0 limit" using d(3) r(6) by simp
  moreover have "int (length (docs @ docs')) < limit \<Longrightarrow> \<forall>m \<in> set (in_messages v s'). \<not> live acc seen m"
    using r(7) by simp
  ultimately show ?thesis using m(2,3) r(4,5) by (simp add: deleted_exactly_def)
qed

lemma soft_delete_loop_exact:
  "soft_delete_loop db now acc seen limit deleted sz n s = (Inr (ids, bytes), s') \<Longrightarrow>
    database_laws db v \<Longrightarrow> distinct (map ms_id (in_messages v s)) \<Longrightarrow>
    \<exists>docs. ids = deleted @ map (\<lambda>d. db_hex db (ms_id d)) docs \<and> bytes = sz + sum_list (map ms_size docs) \<and>
      deleted_exactly v acc seen limit docs s s'"
proof (induction db now acc seen limit deleted sz n s arbitrary: ids bytes s' rule: soft_delete_loop.induct)
  case (1 db now acc seen limit deleted sz n s)
  let ?opts = "\<lparr>fo_sort = NewestFirst, fo_skip = 0, fo_limit = (if limit < 1000 then limit else 1000),
                 fo_projection = ProjInclude [''_id'', ''size'']\<rparr>"
  note run = "1.prems"(1) [unfolded soft_delete_loop.simps [of db now acc seen limit]]
  show ?case
  proof (cases "limit \<le> 0")
    case True
    then have "ids = deleted" "bytes = sz" "s' = s" using run by simp_all
    then show ?thesis by (intro exI [of _ "[]"]) (simp add: deleted_none [OF disjI1 [OF True]])
  next
    case False
    obtain ds where ds: "co_find (db_messages db) (live_filter acc seen) ?opts s = Inr ds"
      using run False by (auto split: sum.splits)
    obtain docs where docs: "ds = map (project_message (ProjInclude [''_id'', ''size''])) docs" "distinct docs"
      "set docs \<subseteq> {m \<in> set (in_messages v s). live acc seen m}"
      "int (length docs) \<le> (if limit < 1000 then limit else 1000)"
      "docs = [] \<Longrightarrow> \<forall>m \<in> set (in_messages v s). \<not> live acc seen m"
    proof (rule find_docs [OF "1.prems"(2) ds "1.prems"(3)])
      fix docs assume d: "ds = map (project_message (fo_projection ?opts)) docs" "distinct docs"
        "set docs \<subseteq> {m \<in> set (in_messages v s). matches (live_filter acc seen) (message_fields m)}"
        "int (length docs) \<le> fo_limit ?opts"
        "docs = [] \<Longrightarrow> \<forall>m \<in> set (in_messages v s). \<not> matches (live_filter acc seen) (message_fields m)"
      show thesis by (rule that) (use d in \<open>simp_all only: matches_live find_options.simps\<close>)
    qed (use False in simp_all)
    show ?thesis
    proof (cases "docs = []")
      case True
      then have "ids = deleted" "bytes = sz" "s' = s" using run False ds docs(1) by simp_all
      then show ?thesis
        by (intro exI [of _ "[]"]) (simp add: deleted_none [OF disjI2 [OF docs(5) [OF True]]])
    next
      case nonempty: False
      let ?upd = "co_update_many (db_messages db) (in_ids acc ds) (mark_deleted (now n)) s"
      obtain r t where upd: "?upd = (Inr r, t)"
        using run False ds docs(1) nonempty by (cases ?upd) (auto split: sum.splits)
      have rest: "soft_delete_loop db now acc seen (limit - int (length ds))
          (deleted @ map (\<lambda>d. db_hex db (ms_id d)) ds) (sz + sum_list (map ms_size ds)) (Suc n) t =
          (Inr (ids, bytes), s')"
        using run False ds docs(1) nonempty upd by simp
      have sub: "set docs \<subseteq> {m \<in> set (in_messages v s). live acc None m}"
        using docs(3) by (auto simp: live_def)
      note B = delete_batch [OF "1.prems"(2,3) sub upd [unfolded docs(1)]]
      have "distinct (map ms_id (in_messages v t))" using marks_ids [OF B(1)] "1.prems"(3) by simp
      moreover have "length ds \<noteq> 0" using docs(1) nonempty by simp
      ultimately obtain docs' where ih:
        "ids = (deleted @ map (\<lambda>d. db_hex db (ms_id d)) ds) @ map (\<lambda>d. db_hex db (ms_id d)) docs'"
        "bytes = sz + sum_list (map ms_size ds) + sum_list (map ms_size docs')"
        "deleted_exactly v acc seen (limit - int (length ds)) docs' t s'"
        using "1.IH" [OF False ds _ upd [symmetric] refl rest "1.prems"(2)] by blast
      have "deleted_exactly v acc seen limit (docs @ docs') s s'"
        using ih(3) docs(1,4) by (intro deleted_append [OF docs(2,3) _ B]) (auto split: if_splits)
      then show ?thesis
        using ih(1,2) by (intro exI [of _ "docs @ docs'"]) (simp add: docs(1) comp_def add.assoc)
    qed
  qed
qed

text \<open>
  C14: a bulk deletion ends (its loop is a total function: no batch is empty), and when it reports success
  it has marked exactly the reported messages as deleted, each of them once, and nothing else changed:
  they are live messages of the account that match the \<open>seen\<close> filter, the reported size, which the
  handler gives back to the account's quota, is the sum of theirs, they are at most the limit (5000 when
  none is asked for, never above 20000), and when they are fewer no matching message is left.
\<close>

theorem soft_delete_exact:
  assumes "database_laws db v" and "distinct (map ms_id (in_messages v s))"
    and "soft_delete_messages_by_account db now acc seen limit s = (Inr (ids, bytes), s')"
  shows "\<exists>docs. ids = map (\<lambda>d. db_hex db (ms_id d)) docs \<and> bytes = sum_list (map ms_size docs) \<and>
    deleted_exactly v acc seen (min 20000 (if limit \<le> 0 then 5000 else limit)) docs s s'"
proof -
  let ?l = "min 20000 (if limit \<le> 0 then 5000 else limit)"
  have l: "(if 20000 < (if limit \<le> 0 then 5000 else limit) then 20000 else if limit \<le> 0 then 5000 else limit) = ?l"
    by (simp add: min_def)
  have "soft_delete_loop db now acc seen ?l [] 0 0 s = (Inr (ids, bytes), s')"
    using assms(3) l by (simp only: soft_delete_messages_by_account_def Let_def)
  from soft_delete_loop_exact [OF this assms(1,2)] show ?thesis by simp
qed


definition example_messages :: tables where
  "example_messages = ([], [],
     [empty_message\<lparr>ms_id := 1, ms_account_id := 7, ms_size := 10\<rparr>,
      empty_message\<lparr>ms_id := 2, ms_account_id := 7, ms_size := 20, ms_is_deleted := True\<rparr>,
      empty_message\<lparr>ms_id := 3, ms_account_id := 7, ms_size := 30\<rparr>])"

lemma example_deletion:
  "fst (soft_delete_messages_by_account mem_database (\<lambda>_. 0) 7 None 0 example_messages) = Inr ([''3'', ''1''], 40)"
  by code_simp

theorem soft_delete_exact_witness:
  "\<exists>docs. [''3'', ''1''] = map (\<lambda>d. db_hex mem_database (ms_id d)) docs \<and> 40 = sum_list (map ms_size docs) \<and>
     deleted_exactly mem_contents 7 None 5000 docs example_messages
       (snd (soft_delete_messages_by_account mem_database (\<lambda>_. 0) 7 None 0 example_messages))"
proof -
  have ids: "distinct (map ms_id (in_messages mem_contents example_messages))"
    by (simp add: mem_contents_def example_messages_def)
  have "soft_delete_messages_by_account mem_database (\<lambda>_. 0) 7 None 0 example_messages =
    (Inr ([''3'', ''1''], 40), snd (soft_delete_messages_by_account mem_database (\<lambda>_. 0) 7 None 0 example_messages))"
    by (rule prod_eqI) (simp_all only: example_deletion fst_conv snd_conv)
  from soft_delete_exact [OF mem_database_laws ids this] show ?thesis by simp
qed

end
