(* ===== verification/Process.thy ===== *)
theory Process
  imports Worker Store Codec
begin

text \<open>
  \<open>processForRecipient\<close> of \<open>internal/worker/worker.go\<close>: one e-mail for one recipient. The account is
  looked up, an e-mail that was processed before is skipped, its size is reserved in the account's
  quota, its parts are parsed and uploaded, the message is stored and an event published; the
  reservation is given back unless the message was stored.

  The parser of e-mails and the JSON encoder are library code; the object store, the Redis channel and
  the semaphore of the cleanup are outside the process. They are the fields of a \<open>worker_env\<close>, over the
  state of the database, together with the clock readings and the new object ids of a run.
\<close>

section \<open>E-mails and the environment\<close>

text \<open>The parts up to the end, or up to an error of the parser: the code stops at either.\<close>

datatype mail_part =
    InlinePart string reader
  | AttachmentPart string string reader
  | OtherPart

record parsed_mail =
  pm_subject :: string
  pm_message_id :: string
  pm_from :: "mail_address list"
  pm_to :: "mail_address list"
  pm_cc :: "mail_address list"
  pm_parts :: "mail_part list"

record sse_notification =
  sn_type :: string
  sn_id :: string
  sn_subject :: string
  sn_from :: mail_address
  sn_intro :: string
  sn_seen :: bool

record 's worker_env =
  we_db :: "'s database"
  we_put :: "'s put_object"
  we_delete_by_message :: "string \<Rightarrow> 's \<Rightarrow> 's"
  we_slot_free :: "'s \<Rightarrow> bool"
  we_publish :: "string \<Rightarrow> string \<Rightarrow> 's \<Rightarrow> 's"
  we_json :: "sse_notification \<Rightarrow> string"
  we_parse :: "bytes \<Rightarrow> go_error + parsed_mail"
  we_new_id :: "nat \<Rightarrow> object_id"
  we_clock :: "nat \<Rightarrow> time"
  we_message_ttl :: duration

definition max_mime_depth :: nat where "max_mime_depth = 50"

definition convert_address :: "mail_address list \<Rightarrow> mail_address" where
  "convert_address addrs =
     (case addrs of [] \<Rightarrow> \<lparr>ma_name = [], ma_address = []\<rparr>
      | a # as \<Rightarrow> \<lparr>ma_name = ma_name a, ma_address = ma_address a\<rparr>)"

definition convert_addresses :: "mail_address list \<Rightarrow> mail_address list" where
  "convert_addresses addrs = map (\<lambda>a. \<lparr>ma_name = ma_name a, ma_address = ma_address a\<rparr>) addrs"

definition read_part_string_limited :: "reader \<Rightarrow> nat \<Rightarrow> string option" where
  "read_part_string_limited r limit =
     (case limit_reader limit r of (bs, fails) \<Rightarrow> if fails then None else Some (string_of_bytes bs))"

text \<open>The errors of the store as error values; none of them is permanent.\<close>

definition store_go_error :: "store_error \<Rightarrow> go_error" where
  "store_go_error e =
     (case e of
        ErrNotFound \<Rightarrow> PlainError ''not found''
      | ErrDuplicateKey \<Rightarrow> PlainError ''duplicate key''
      | ErrInvalidID \<Rightarrow> PlainError ''invalid id''
      | ErrAccountDeleted \<Rightarrow> PlainError ''account deleted''
      | DriverError (MongoFailure t) \<Rightarrow> PlainError t
      | DriverError NoDocuments \<Rightarrow> PlainError ''mongo: no documents in result''
      | DriverError DuplicateKeyError \<Rightarrow> PlainError ''write exception''
      | ContextDone \<Rightarrow> PlainError ''context canceled''
      | SyncDomain d _ \<Rightarrow> PlainError (''sync domain '' @ d))"

section \<open>The parts of a message\<close>

record parts_state =
  pa_text :: string
  pa_html :: "string list"
  pa_attachments :: "attachment list"
  pa_next_id :: nat

text \<open>One part; an attachment takes a new id even when its upload fails and it is dropped.\<close>

definition part_step ::
  "'s worker_env \<Rightarrow> string \<Rightarrow> mail_part \<Rightarrow> parts_state \<Rightarrow> 's \<Rightarrow> parts_state \<times> 's" where
  "part_step w mid p a s =
     (case p of
        InlinePart ct r \<Rightarrow>
          (case read_part_string_limited r (10 * 2 ^ 20) of
             None \<Rightarrow> (a, s)
           | Some body \<Rightarrow>
               if has_prefix ct ''text/plain'' then (a\<lparr>pa_text := body\<rparr>, s)
               else if has_prefix ct ''text/html'' then (a\<lparr>pa_html := pa_html a @ [body]\<rparr>, s)
               else (a, s))
      | AttachmentPart filename0 ct r \<Rightarrow>
          (let filename = (if filename0 = [] then ''unnamed'' else filename0);
               att_id = db_hex (we_db w) (we_new_id w (pa_next_id a));
               a' = a\<lparr>pa_next_id := Suc (pa_next_id a)\<rparr>
           in case upload_reader (we_put w) mid att_id filename ct (limit_reader (20 * 2 ^ 20) r) (-1) s of
                (None, s') \<Rightarrow> (a', s')
              | (Some n, s') \<Rightarrow>
                  (a'\<lparr>pa_attachments := pa_attachments a @
                      [\<lparr>at_id = att_id, at_filename = filename, at_content_type = ct,
                        at_disposition = ''attachment'', at_transfer_encoding = ''base64'',
                        at_size = int n\<rparr>]\<rparr>, s'))
      | OtherPart \<Rightarrow> (a, s))"

fun part_loop ::
  "'s worker_env \<Rightarrow> string \<Rightarrow> nat \<Rightarrow> mail_part list \<Rightarrow> parts_state \<Rightarrow> 's \<Rightarrow> parts_state \<times> 's" where
  "part_loop w mid depth [] a s = (a, s)"
| "part_loop w mid depth (p # ps) a s =
     (if max_mime_depth < depth then (a, s)
      else (let (a', s') = part_step w mid p a s in part_loop w mid (Suc depth) ps a' s'))"

section \<open>One recipient\<close>

definition try_async_storage_cleanup :: "'s worker_env \<Rightarrow> string \<Rightarrow> 's \<Rightarrow> 's" where
  "try_async_storage_cleanup w mid s = (if we_slot_free w s then we_delete_by_message w mid s else s)"

text \<open>The message of an e-mail, before its parts are read.\<close>

definition new_message ::
  "'s worker_env \<Rightarrow> incoming_email \<Rightarrow> parsed_mail \<Rightarrow> object_id \<Rightarrow> object_id \<Rightarrow> time \<Rightarrow> message" where
  "new_message w e mr account_id oid now =
     empty_message\<lparr>ms_id := oid, ms_account_id := account_id, ms_msgid := pm_message_id mr,
       ms_subject := pm_subject mr, ms_from := convert_address (pm_from mr),
       ms_to := convert_addresses (pm_to mr), ms_cc := convert_addresses (pm_cc mr),
       ms_size := int (length (ie_raw_message e)), ms_seen := False, ms_is_deleted := False,
       ms_ingest_stream := ie_ingest_stream e, ms_ingest_seq := ie_ingest_seq e, ms_retention := True,
       ms_retention_date := (if 0 < we_message_ttl w then now + we_message_ttl w else now + 168 * hour),
       ms_created_at := now, ms_updated_at := now\<rparr>"

definition with_parts :: "parts_state \<Rightarrow> message \<Rightarrow> message" where
  "with_parts a m =
     m\<lparr>ms_text := pa_text a, ms_html := pa_html a, ms_attachments := pa_attachments a,
       ms_has_attachments := 0 < length (pa_attachments a), ms_intro := generate_intro (pa_text a) 100\<rparr>"

text \<open>From the parsing on: the error, whether the message was stored, and the state.\<close>

definition store_incoming ::
  "'s worker_env \<Rightarrow> incoming_email \<Rightarrow> object_id \<Rightarrow> 's \<Rightarrow> go_error option \<times> bool \<times> 's" where
  "store_incoming w e account_id s =
     (case we_parse w (ie_raw_message e) of
        Inl err \<Rightarrow> (permanent (Some (WrapError ''create mail reader'' err)), False, s)
      | Inr mr \<Rightarrow>
          (let oid = we_new_id w 0; mid = db_hex (we_db w) oid;
               msg0 = new_message w e mr account_id oid (we_clock w 3);
               (raw, s1) = upload_raw_message (we_put w) mid (ie_raw_message e) s;
               msg1 = (if raw = None then msg0\<lparr>ms_raw_message := ie_raw_message e\<rparr> else msg0);
               (a, s2) = part_loop w mid 0 (pm_parts mr)
                 \<lparr>pa_text = [], pa_html = [], pa_attachments = [], pa_next_id = 1\<rparr> s1;
               msg = with_parts a msg1
           in case create_message (we_db w) (we_clock w 4) msg s2 of
                (Some err, _, s3) \<Rightarrow>
                  (let s4 = try_async_storage_cleanup w mid s3 in
                   if err = ErrDuplicateKey then (None, False, s4)
                   else (Some (WrapError ''store message'' (store_go_error err)), False, s4))
              | (None, m, s3) \<Rightarrow>
                  (None, True, we_publish w (db_hex (we_db w) account_id)
                     (we_json w \<lparr>sn_type = ''Message'', sn_id = mid, sn_subject = pm_subject mr,
                        sn_from = ms_from m, sn_intro = ms_intro m, sn_seen = False\<rparr>) s3)))"

text \<open>The reservation, with one correction of \<open>used\<close> and a second try; an error or \<^const>\<open>None\<close>.\<close>

definition reserve_quota ::
  "'s worker_env \<Rightarrow> object_id \<Rightarrow> int \<Rightarrow> string \<Rightarrow> 's \<Rightarrow> go_error option \<times> 's" where
  "reserve_quota w account_id delta recipient s =
     (let db = we_db w; failed = (\<lambda>err. Some (WrapError (''reserve quota for '' @ recipient) (store_go_error err)))
      in if \<not> 0 < delta then (None, s)
         else
           (case try_reserve_account_used db (we_clock w 0) account_id delta s of
              (Inl err, s1) \<Rightarrow> (failed err, s1)
            | (Inr True, s1) \<Rightarrow> (None, s1)
            | (Inr False, s1) \<Rightarrow>
                (let s2 = snd (recalculate_account_used db (we_clock w 1) account_id s1) in
                 case try_reserve_account_used db (we_clock w 2) account_id delta s2 of
                   (Inl err, s3) \<Rightarrow> (failed err, s3)
                 | (Inr True, s3) \<Rightarrow> (None, s3)
                 | (Inr False, s3) \<Rightarrow> (permanent (Some (PlainError (''quota exceeded for '' @ recipient))), s3))))"

definition process_for_recipient ::
  "'s worker_env \<Rightarrow> incoming_email \<Rightarrow> string \<Rightarrow> 's \<Rightarrow> go_error option \<times> 's" where
  "process_for_recipient w e recipient s =
     (let db = we_db w in
      case get_account_id_by_address db recipient s of
        Inl err \<Rightarrow>
          (let wrapped = WrapError (''account lookup for '' @ recipient) (store_go_error err) in
           (if err = ErrNotFound \<or> err = ErrAccountDeleted then permanent (Some wrapped) else Some wrapped, s))
      | Inr account_id \<Rightarrow>
          (case (if trim_space (ie_ingest_stream e) \<noteq> [] \<and> 0 < ie_ingest_seq e
                 then has_message_by_ingest db account_id (ie_ingest_stream e) (ie_ingest_seq e) s
                 else Inr False) of
             Inl err \<Rightarrow> (Some (WrapError (''ingest dedup check for '' @ recipient) (store_go_error err)), s)
           | Inr True \<Rightarrow> (None, s)
           | Inr False \<Rightarrow>
               (let delta = int (length (ie_raw_message e)) in
                case reserve_quota w account_id delta recipient s of
                  (Some err, s1) \<Rightarrow> (Some err, s1)
                | (None, s1) \<Rightarrow>
                    (let (err, committed, s2) = store_incoming w e account_id s1 in
                     (err, if committed \<or> delta \<le> 0 then s2
                           else snd (update_account_used db (we_clock w 5) account_id (- delta) s2))))))"

end
