(* ===== verification/Delivery.thy ===== *)
theory Delivery
  imports Process
begin

text \<open>
  What processing an e-mail for a recipient (theory Process) does to the database: exactly-once storage
  (the ingest position of the queue and its unique index) and the accounting of the account's use.
  \<open>worker_laws\<close> collects what the environment may not do: uploads, cleanup and events leave the three
  collections alone.
\<close>

section \<open>What the environment leaves alone\<close>

definition worker_laws :: "'s worker_env \<Rightarrow> 's contents \<Rightarrow> bool" where
  "worker_laws w v \<longleftrightarrow> database_laws (we_db w) v \<and> we_new_id w 0 \<noteq> 0 \<and>
     (\<forall>k ct r n s. tables_of v (snd (we_put w k ct r n s)) = tables_of v s) \<and>
     (\<forall>m s. tables_of v (we_delete_by_message w m s) = tables_of v s) \<and>
     (\<forall>c p s. tables_of v (we_publish w c p s) = tables_of v s)"

lemma worker_env_keeps:
  assumes "worker_laws w v"
  shows "tables_of v (snd (we_put w k ct r n s)) = tables_of v s"
    "tables_of v (try_async_storage_cleanup w m s) = tables_of v s"
    "tables_of v (we_publish w c p s) = tables_of v s"
  using assms unfolding worker_laws_def try_async_storage_cleanup_def by (blast | simp)+

lemma upload_keeps:
  assumes "worker_laws w v"
  shows "tables_of v (snd (upload_raw_message (we_put w) mid bs s)) = tables_of v s"
    "tables_of v (snd (part_step w mid p a s)) = tables_of v s"
proof -
  show "tables_of v (snd (upload_raw_message (we_put w) mid bs s)) = tables_of v s"
    by (simp add: upload_raw_message_def upload_def upload_reader_def worker_env_keeps [OF assms])
  show "tables_of v (snd (part_step w mid p a s)) = tables_of v s"
  proof (cases p)
    case (AttachmentPart filename ct r)
    obtain n s' where put: "upload_reader (we_put w) mid (db_hex (we_db w) (we_new_id w (pa_next_id a)))
        (if filename = [] then ''unnamed'' else filename) ct (limit_reader (20 * 2 ^ 20) r) (-1) s = (n, s')"
      by fastforce
    have "tables_of v s' = tables_of v s"
      using worker_env_keeps(1) [OF assms] put unfolding upload_reader_def Let_def by (metis snd_conv)
    moreover have "snd (part_step w mid p a s) = s'"
      unfolding AttachmentPart part_step_def by (simp only: mail_part.case put Let_def) (simp split: option.split)
    ultimately show ?thesis by simp
  qed (simp_all add: part_step_def split: option.split)
qed

lemma part_loop_keeps:
  assumes "worker_laws w v"
  shows "tables_of v (snd (part_loop w mid depth ps a s)) = tables_of v s"
proof (induction ps arbitrary: depth a s)
  case (Cons p ps)
  show ?case
    using Cons.IH upload_keeps(2) [OF assms] by (simp add: case_prod_beta)
qed simp

section \<open>What is stored\<close>

text \<open>The database answers; unique indexes still refuse documents.\<close>

definition reliable :: "'s database \<Rightarrow> bool" where
  "reliable db \<longleftrightarrow>
     (\<forall>f us s. \<exists>u s'. co_update_one (db_accounts db) f us s = (Inr u, s')) \<and>
     (\<forall>f e s. \<exists>r. co_sum (db_messages db) f e s = Inr r) \<and>
     (\<forall>d s r s'. ms_id d \<noteq> 0 \<longrightarrow> co_insert_one (db_messages db) d s = (r, s') \<longrightarrow> r = Inl DuplicateKeyError \<or> (\<exists>i. r = Inr i))"


definition stored_as :: "incoming_email \<Rightarrow> object_id \<Rightarrow> message \<Rightarrow> bool" where
  "stored_as e acc m \<longleftrightarrow> ms_account_id m = acc \<and> ms_size m = int (length (ie_raw_message e)) \<and>
     \<not> ms_is_deleted m \<and> ms_ingest_stream m = ie_ingest_stream e \<and> ms_ingest_seq m = ie_ingest_seq e"

definition adds :: "incoming_email \<Rightarrow> object_id \<Rightarrow> message list \<Rightarrow> message list \<Rightarrow> bool" where
  "adds e acc xs ys \<longleftrightarrow>
     (\<exists>m. stored_as e acc m \<and> ys = xs @ [m] \<and> (\<forall>x \<in> set xs. ms_id x \<noteq> ms_id m \<and> \<not> same_ingest x m))"

lemma message_schema_stored [simp]:
  "ms_id (sc_stored message_schema m) = ms_id m"
  "ms_account_id (sc_stored message_schema m) = ms_account_id m"
  "ms_size (sc_stored message_schema m) = ms_size m"
  "ms_is_deleted (sc_stored message_schema m) = ms_is_deleted m"
  "ms_ingest_stream (sc_stored message_schema m) = ms_ingest_stream m"
  "ms_ingest_seq (sc_stored message_schema m) = ms_ingest_seq m"
  "sc_with_id message_schema i m = m\<lparr>ms_id := i\<rparr>"
  by (simp_all add: message_schema_def)

lemma create_message_effect:
  assumes laws: "database_laws db v" and "stored_as e acc msg" and "create_message db now msg s = (err, m, s')"
  shows "in_accounts v s' = in_accounts v s" "in_domains v s' = in_domains v s"
    "err = None \<Longrightarrow> adds e acc (in_messages v s) (in_messages v s')"
    "in_messages v s' = in_messages v s \<or> err \<noteq> Some ErrDuplicateKey \<and> adds e acc (in_messages v s) (in_messages v s')"
    "err = Some ErrDuplicateKey \<Longrightarrow> ms_id msg \<noteq> 0 \<Longrightarrow>
       \<exists>x \<in> set (in_messages v s). ms_id x = ms_id msg \<or> same_ingest x msg"
    "reliable db \<Longrightarrow> ms_id msg \<noteq> 0 \<Longrightarrow> err \<noteq> None \<Longrightarrow> err = Some ErrDuplicateKey"
proof -
  define msg1 where "msg1 = (if is_zero_time (ms_created_at msg) then msg\<lparr>ms_created_at := now\<rparr> else msg)"
  define msg2 where "msg2 = (if is_zero_time (ms_updated_at msg1) \<or> ms_updated_at msg1 < ms_created_at msg1
    then msg1\<lparr>ms_updated_at := ms_created_at msg1\<rparr> else msg1)"
  obtain r where r: "co_insert_one (db_messages db) msg2 s = (r, s')"
    "err = (case r of Inl e \<Rightarrow> Some (duplicate_error e) | Inr i \<Rightarrow> None)"
    using assms(3) unfolding create_message_def Let_def msg1_def [symmetric] msg2_def [symmetric]
    by (auto split: prod.splits sum.splits)
  note L = insert_law [OF accounts_laws(2) [OF laws] r(1)]
  show "in_accounts v s' = in_accounts v s" "in_domains v s' = in_domains v s" using L(1) by simp_all
  have msg2: "stored_as e acc msg2" "ms_id msg2 = ms_id msg" "same_ingest x msg2 = same_ingest x msg" for x
    using assms(2) by (simp_all add: msg2_def msg1_def stored_as_def same_ingest_def)
  have adds: "adds e acc (in_messages v s) (in_messages v s')"
    if "inserts message_schema msg2 i (in_messages v s) (in_messages v s')" for i
    using that msg2(1) unfolding adds_def inserts_def Let_def
    by (intro exI [of _ "sc_stored message_schema (msg2\<lparr>ms_id := i\<rparr>)"]) (auto simp: stored_as_def)
  show "err = None \<Longrightarrow> adds e acc (in_messages v s) (in_messages v s')"
    using L(2) r(2) adds by (auto split: sum.splits)
  show "in_messages v s' = in_messages v s \<or> err \<noteq> Some ErrDuplicateKey \<and> adds e acc (in_messages v s) (in_messages v s')"
    using L(2) r(2) adds by (auto simp: duplicate_error_def split: sum.splits)
  show "err = Some ErrDuplicateKey" if "reliable db" "ms_id msg \<noteq> 0" "err \<noteq> None"
  proof -
    have "r = Inl DuplicateKeyError \<or> (\<exists>i. r = Inr i)" using that(1,2) r(1) msg2(2) unfolding reliable_def by metis
    then show ?thesis using r(2) that(3) by (auto simp: duplicate_error_def)
  qed
  show "\<exists>x \<in> set (in_messages v s). ms_id x = ms_id msg \<or> same_ingest x msg"
    if "err = Some ErrDuplicateKey" "ms_id msg \<noteq> 0"
  proof -
    have "r = Inl DuplicateKeyError" using that(1) r(2) by (auto simp: duplicate_error_def split: sum.splits if_splits)
    from L(3) [OF this] that(2) msg2(2,3) show ?thesis
      by (auto simp: taken_def same_ingest_def)
  qed
qed


lemma store_incoming_cases:
  assumes laws: "worker_laws w v" and run: "store_incoming w e acc s = (err, committed, s')"
  obtains (unreadable) x where "we_parse w (ie_raw_message e) = Inl x" "\<not> committed" "s' = s"
      "err = permanent (Some (WrapError ''create mail reader'' x))"
  | (created) msg s2 res m s3 raw s1 ps a0 a channel payload where "tables_of v s2 = tables_of v s" "stored_as e acc msg" "ms_id msg = we_new_id w 0"
      "create_message (we_db w) (we_clock w 4) msg s2 = (res, m, s3)" "tables_of v s' = tables_of v s3" "committed = (res = None)"
      "err = (case res of None \<Rightarrow> None | Some er \<Rightarrow>
         if er = ErrDuplicateKey then None else Some (WrapError ''store message'' (store_go_error er)))"
      "upload_raw_message (we_put w) (db_hex (we_db w) (we_new_id w 0)) (ie_raw_message e) s = (raw, s1)"
      "part_loop w (db_hex (we_db w) (we_new_id w 0)) 0 ps a0 s1 = (a, s2)"
      "ms_raw_message msg = (if raw = None then ie_raw_message e else [])"
      "res = None \<Longrightarrow> s' = we_publish w channel payload s3"
proof (cases "we_parse w (ie_raw_message e)")
  case (Inl x)
  then show thesis using run unreadable by (auto simp: store_incoming_def)
next
  case (Inr mr)
  define mid where "mid = db_hex (we_db w) (we_new_id w 0)"
  define pa0 where "pa0 = \<lparr>pa_text = [], pa_html = [], pa_attachments = [], pa_next_id = 1\<rparr>"
  obtain raw s1 where raw: "upload_raw_message (we_put w) mid (ie_raw_message e) s = (raw, s1)" by fastforce
  obtain a s2 where parts: "part_loop w mid 0 (pm_parts mr) pa0 s1 = (a, s2)" by fastforce
  define msg where "msg = with_parts a
    (if raw = None then (new_message w e mr acc (we_new_id w 0) (we_clock w 3))\<lparr>ms_raw_message := ie_raw_message e\<rparr>
     else new_message w e mr acc (we_new_id w 0) (we_clock w 3))"
  obtain res m s3 where create: "create_message (we_db w) (we_clock w 4) msg s2 = (res, m, s3)"
    by (cases "create_message (we_db w) (we_clock w 4) msg s2") auto
  have tab: "tables_of v s2 = tables_of v s"
    using part_loop_keeps [OF laws, of mid 0 "pm_parts mr" pa0 s1] upload_keeps(1) [OF laws, of mid "ie_raw_message e" s]
    by (simp only: raw parts snd_conv)
  have msg: "stored_as e acc msg" "ms_id msg = we_new_id w 0" "ms_raw_message msg = (if raw = None then ie_raw_message e else [])"
    by (simp_all add: msg_def with_parts_def new_message_def stored_as_def empty_message_def)
  have step: "(err, committed, s') =
    (case res of
       Some er \<Rightarrow> (let s4 = try_async_storage_cleanup w mid s3 in
         if er = ErrDuplicateKey then (None, False, s4)
         else (Some (WrapError ''store message'' (store_go_error er)), False, s4))
     | None \<Rightarrow> (None, True, we_publish w (db_hex (we_db w) acc)
         (we_json w \<lparr>sn_type = ''Message'', sn_id = mid, sn_subject = pm_subject mr,
            sn_from = ms_from m, sn_intro = ms_intro m, sn_seen = False\<rparr>) s3))"
    unfolding run [symmetric] store_incoming_def Let_def Inr sum.case mid_def [symmetric] pa0_def [symmetric]
    by (simp only: raw parts prod.case msg_def [symmetric] create)
  show thesis
    by (rule created [OF tab msg(1,2) create _ _ _ raw [unfolded mid_def] parts [unfolded mid_def] msg(3)]; cases res)
      (use step worker_env_keeps(2,3) [OF laws] in \<open>simp_all add: Let_def split: if_splits\<close>)
qed

lemma store_incoming_effect:
  assumes laws: "worker_laws w v" and run: "store_incoming w e acc s = (err, committed, s')"
  shows "in_accounts v s' = in_accounts v s" "in_domains v s' = in_domains v s"
    "committed \<Longrightarrow> err = None \<and> adds e acc (in_messages v s) (in_messages v s')"
    "\<not> committed \<Longrightarrow> in_messages v s' = in_messages v s \<or> err \<noteq> None \<and> adds e acc (in_messages v s) (in_messages v s')"
    "\<not> committed \<Longrightarrow> err = None \<Longrightarrow>
       \<exists>x \<in> set (in_messages v s). ms_id x = we_new_id w 0 \<or>
         ms_account_id x = acc \<and> ms_ingest_stream x = ie_ingest_stream e \<and> ms_ingest_seq x = ie_ingest_seq e"
    "\<not> committed \<Longrightarrow> reliable (we_db w) \<Longrightarrow> in_messages v s' = in_messages v s"
proof -
  have db: "database_laws (we_db w) v" and id0: "we_new_id w 0 \<noteq> 0" using laws by (simp_all add: worker_laws_def)
  have "in_accounts v s' = in_accounts v s \<and> in_domains v s' = in_domains v s \<and>
    (committed \<longrightarrow> err = None \<and> adds e acc (in_messages v s) (in_messages v s')) \<and>
    (\<not> committed \<longrightarrow> in_messages v s' = in_messages v s \<or> err \<noteq> None \<and> adds e acc (in_messages v s) (in_messages v s')) \<and>
    (\<not> committed \<longrightarrow> err = None \<longrightarrow>
       (\<exists>x \<in> set (in_messages v s). ms_id x = we_new_id w 0 \<or>
         ms_account_id x = acc \<and> ms_ingest_stream x = ie_ingest_stream e \<and> ms_ingest_seq x = ie_ingest_seq e)) \<and>
    (\<not> committed \<longrightarrow> reliable (we_db w) \<longrightarrow> in_messages v s' = in_messages v s)"
    using laws run
  proof (cases rule: store_incoming_cases)
    case (created msg s2 res m s3)
    note C = create_message_effect [OF db created(2,4), unfolded same_tables [OF created(1)], folded same_tables [OF created(5)]]
    show ?thesis
    proof (cases res)
      case None
      then show ?thesis using C(1,2) C(3) [OF None] created(6,7) by simp
    next
      case (Some er)
      then have nc: "\<not> committed" and er: "err = None \<longleftrightarrow> er = ErrDuplicateKey" using created(6,7) by auto
      show ?thesis
        using C(1,2,4,5,6) nc er Some id0 unfolding created(3)
        by (auto simp: same_ingest_def created(2) [unfolded stored_as_def])
    qed
  qed (auto simp: permanent_def)
  then show "in_accounts v s' = in_accounts v s" "in_domains v s' = in_domains v s"
    "committed \<Longrightarrow> err = None \<and> adds e acc (in_messages v s) (in_messages v s')"
    "\<not> committed \<Longrightarrow> in_messages v s' = in_messages v s \<or> err \<noteq> None \<and> adds e acc (in_messages v s) (in_messages v s')"
    "\<not> committed \<Longrightarrow> err = None \<Longrightarrow>
       \<exists>x \<in> set (in_messages v s). ms_id x = we_new_id w 0 \<or>
         ms_account_id x = acc \<and> ms_ingest_stream x = ie_ingest_stream e \<and> ms_ingest_seq x = ie_ingest_seq e"
    "\<not> committed \<Longrightarrow> reliable (we_db w) \<Longrightarrow> in_messages v s' = in_messages v s"
    by blast+
qed

section \<open>The reservation\<close>

lemma account_updates_keep:
  assumes laws: "database_laws db v"
  shows "in_messages v (snd (try_reserve_account_used db now i delta s)) = in_messages v s"
    "in_messages v (snd (recalculate_account_used db now i s)) = in_messages v s"
    "in_messages v (snd (update_account_used db now i delta s)) = in_messages v s"
proof -
  have keep: "in_messages v s' = in_messages v t" if "co_update_one (db_accounts db) f us t = (r, s')" for f us t r s'
    using update_one_law(1) [OF accounts_laws(1) [OF laws] that] by simp
  show "in_messages v (snd (try_reserve_account_used db now i delta s)) = in_messages v s"
    "in_messages v (snd (recalculate_account_used db now i s)) = in_messages v s"
    "in_messages v (snd (update_account_used db now i delta s)) = in_messages v s"
    using keep
    by (auto simp: try_reserve_account_used_def recalculate_account_used_def update_account_used_def
        update_result_error_def Let_def split: prod.splits sum.splits if_splits)
qed

lemma reserve_quota_keeps:
  assumes "database_laws (we_db w) v"
  shows "in_messages v (snd (reserve_quota w acc delta recipient s)) = in_messages v s"
proof -
  note K = account_updates_keep [OF assms]
  obtain r1 s1 where 1: "try_reserve_account_used (we_db w) (we_clock w 0) acc delta s = (r1, s1)" by fastforce
  obtain r3 s3 where 3: "try_reserve_account_used (we_db w) (we_clock w 2) acc delta
      (snd (recalculate_account_used (we_db w) (we_clock w 1) acc s1)) = (r3, s3)" by fastforce
  have "in_messages v s1 = in_messages v s" using K(1) [of "we_clock w 0" acc delta s] by (simp add: 1)
  moreover have "in_messages v s3 = in_messages v s1"
    using K(1) [of "we_clock w 2" acc delta "snd (recalculate_account_used (we_db w) (we_clock w 1) acc s1)"] K(2)
    by (simp only: 3 snd_conv)
  moreover have "snd (reserve_quota w acc delta recipient s) \<in> {s, s1, s3}"
    unfolding reserve_quota_def Let_def 1 prod.case 3 by (auto split: sum.split bool.split)
  ultimately show ?thesis by auto
qed

section \<open>One delivery\<close>

lemma account_id_found:
  assumes "database_laws db v" "get_account_id_by_address db recipient s = Inr acc"
  obtains a where "a \<in> set (in_accounts v s)" "ac_id a = acc" "ac_address a = to_lower (trim_space recipient)"
proof -
  obtain b where b: "co_find_one (db_accounts db) [CEq ''address'' (BStr (to_lower (trim_space recipient)))]
      (ProjInclude [''_id'']) s = Inr b" "ac_id b = acc"
    using assms(2) by (auto simp: get_account_id_by_address_def Let_def split: if_splits sum.splits)
  from find_one_Inr [OF accounts_laws(1) [OF assms(1)] b(1)] obtain a where
    "a \<in> set (in_accounts v s)" "ac_address a = to_lower (trim_space recipient)"
    "b = sc_project account_schema (ProjInclude [''_id'']) a"
    by (auto simp: account_fields_def)
  then show thesis using that b(2) by (auto simp: account_schema_def)
qed

definition copies :: "incoming_email \<Rightarrow> object_id \<Rightarrow> message list \<Rightarrow> message list" where
  "copies e acc ms = filter (\<lambda>m. ms_account_id m = acc \<and> ms_ingest_stream m = ie_ingest_stream e \<and>
     ms_ingest_seq m = ie_ingest_seq e) ms"

lemma has_message_by_ingest_found:
  assumes "database_laws db v" "trim_space (ie_ingest_stream e) = ie_ingest_stream e"
    and "has_message_by_ingest db acc (ie_ingest_stream e) (ie_ingest_seq e) s = Inr True"
  shows "copies e acc (in_messages v s) \<noteq> []"
proof -
  obtain d where "co_find_one (db_messages db)
      [CEq ''accountId'' (BId acc), CEq ''ingestStream'' (BStr (ie_ingest_stream e)),
       CEq ''ingestSeq'' (BInt (ie_ingest_seq e))] (ProjInclude [''_id'']) s = Inr d"
    using assms(2,3) by (auto simp: has_message_by_ingest_def found_def Let_def split: if_splits sum.splits)
  from find_one_Inr [OF accounts_laws(2) [OF assms(1)] this] obtain x where
    x: "x \<in> set (in_messages v s)" "matches [CEq ''accountId'' (BId acc), CEq ''ingestStream'' (BStr (ie_ingest_stream e)),
       CEq ''ingestSeq'' (BInt (ie_ingest_seq e))] (sc_fields message_schema x)"
    by metis
  have "ms_account_id x = acc" "ms_ingest_stream x = ie_ingest_stream e" "ms_ingest_seq x = ie_ingest_seq e"
    using x(2) by (simp_all add: message_fields_def split: if_splits)
  with x(1) show ?thesis by (auto simp: copies_def filter_empty_conv)
qed

lemma copies_adds:
  assumes "adds e acc xs ys" "ie_ingest_stream e \<noteq> []" "0 < ie_ingest_seq e"
  shows "length (copies e acc ys) = 1" "acc' \<noteq> acc \<Longrightarrow> copies e acc' ys = copies e acc' xs"
proof -
  obtain m where m: "stored_as e acc m" "ys = xs @ [m]" "\<forall>x \<in> set xs. \<not> same_ingest x m"
    using assms(1) by (auto simp: adds_def)
  then have "copies e acc xs = []"
    using assms(2,3) by (auto simp: copies_def filter_empty_conv same_ingest_def stored_as_def)
  then show "length (copies e acc ys) = 1" using m(1,2) by (simp add: copies_def stored_as_def)
  show "acc' \<noteq> acc \<Longrightarrow> copies e acc' ys = copies e acc' xs" using m(1,2) by (simp add: copies_def stored_as_def)
qed

text \<open>The ways a delivery can go.\<close>

lemma process_cases:
  assumes laws: "worker_laws w v" and run: "process_for_recipient w e recipient s = (err, s')"
  obtains (refused) er where "err = Some er" "s' = s"
  | (seen_before) acc where "get_account_id_by_address (we_db w) recipient s = Inr acc" "err = None" "s' = s"
      "has_message_by_ingest (we_db w) acc (ie_ingest_stream e) (ie_ingest_seq e) s = Inr True"
  | (no_quota) acc er where "get_account_id_by_address (we_db w) recipient s = Inr acc" "err = Some er"
      "reserve_quota w acc (int (length (ie_raw_message e))) recipient s = (Some er, s')"
  | (stored) acc s1 committed s2 where "get_account_id_by_address (we_db w) recipient s = Inr acc"
      "reserve_quota w acc (int (length (ie_raw_message e))) recipient s = (None, s1)"
      "store_incoming w e acc s1 = (err, committed, s2)"
      "s' = (if committed \<or> int (length (ie_raw_message e)) \<le> 0 then s2
         else snd (update_account_used (we_db w) (we_clock w 5) acc (- int (length (ie_raw_message e))) s2))"
proof -
  show thesis
  proof (cases "get_account_id_by_address (we_db w) recipient s")
    case (Inl x)
    then show thesis using run refused by (auto simp: process_for_recipient_def permanent_def Let_def split: if_splits)
  next
    case (Inr acc)
    let ?dup = "if trim_space (ie_ingest_stream e) \<noteq> [] \<and> 0 < ie_ingest_seq e
      then has_message_by_ingest (we_db w) acc (ie_ingest_stream e) (ie_ingest_seq e) s else Inr False"
    show thesis
    proof (cases ?dup)
      case (Inl x)
      then show thesis using run refused unfolding process_for_recipient_def Let_def Inr sum.case Inl by auto
    next
      case dup: (Inr b)
      show thesis
      proof (cases b)
        case True
        then have "has_message_by_ingest (we_db w) acc (ie_ingest_stream e) (ie_ingest_seq e) s = Inr True"
          using dup by (simp split: if_splits)
        then show thesis
          using run seen_before [OF Inr] True unfolding process_for_recipient_def Let_def Inr sum.case dup by auto
      next
        case False
        then have b: "b = False" by simp
        obtain er s1 where res: "reserve_quota w acc (int (length (ie_raw_message e))) recipient s = (er, s1)" by fastforce
        obtain er2 committed s2 where st: "store_incoming w e acc s1 = (er2, committed, s2)"
          by (cases "store_incoming w e acc s1") auto
        note step = run [unfolded process_for_recipient_def Let_def Inr sum.case dup b bool.case res prod.case st]
        show thesis
        proof (cases er)
          case None
          then show thesis using step by (intro stored [OF Inr, of s1 committed s2]) (simp_all add: res st)
        qed (use step no_quota [OF Inr] res in auto)
      qed
    qed
  qed
qed

lemma delivery_effect:
  assumes laws: "worker_laws w v" and run: "process_for_recipient w e recipient s = (err, s')"
    and stream: "trim_space (ie_ingest_stream e) = ie_ingest_stream e"
    and fresh: "we_new_id w 0 \<notin> ms_id ` set (in_messages v s)"
  shows "in_messages v s' = in_messages v s \<and>
      (err = None \<longrightarrow> (\<exists>a \<in> set (in_accounts v s). ac_address a = to_lower (trim_space recipient) \<and>
         copies e (ac_id a) (in_messages v s') \<noteq> [])) \<or>
    (\<exists>a \<in> set (in_accounts v s). ac_address a = to_lower (trim_space recipient) \<and>
       adds e (ac_id a) (in_messages v s) (in_messages v s'))"
proof -
  have db: "database_laws (we_db w) v" using laws by (simp add: worker_laws_def)
  from laws run show ?thesis
  proof (cases rule: process_cases)
    case (seen_before acc)
    obtain a where "a \<in> set (in_accounts v s)" "ac_id a = acc" "ac_address a = to_lower (trim_space recipient)"
      by (rule account_id_found [OF db seen_before(1)])
    then show ?thesis using has_message_by_ingest_found [OF db stream seen_before(4)] seen_before(3) by auto
  next
    case (no_quota acc er)
    then show ?thesis
      using reserve_quota_keeps [OF db, of acc "int (length (ie_raw_message e))" recipient s] by simp
  next
    case (stored acc s1 committed s2)
    obtain a where a: "a \<in> set (in_accounts v s)" "ac_id a = acc" "ac_address a = to_lower (trim_space recipient)"
      by (rule account_id_found [OF db stored(1)])
    have s1: "in_messages v s1 = in_messages v s"
      using reserve_quota_keeps [OF db, of acc "int (length (ie_raw_message e))" recipient s] stored(2) by simp
    have s': "in_messages v s' = in_messages v s2"
      using stored(4) account_updates_keep(3) [OF db] by simp
    note S = store_incoming_effect [OF laws stored(3), unfolded s1, folded s']
    show ?thesis
    proof (cases committed)
      case True
      then show ?thesis using S(3) a by blast
    next
      case False
      show ?thesis
      proof (cases "err = None")
        case True
        have "copies e acc (in_messages v s) \<noteq> []"
          using S(5) [OF False True] fresh by (simp add: copies_def filter_empty_conv image_iff) metis
        then show ?thesis using S(4) [OF False] True a by auto
      next
        case err: False
        then show ?thesis using S(4) [OF False] a by blast
      qed
    qed
  qed simp
qed

text \<open>
  C5: exactly once: however often an e-mail of the queue is delivered to a recipient, the account never
  has more than one message of it; a delivery that reports success leaves exactly one, also when another
  worker stored it meanwhile; and nothing else happens to the messages.
\<close>

theorem delivered_exactly_once:
  assumes laws: "worker_laws w v" and run: "process_for_recipient w e recipient s = (err, s')"
    and stream: "trim_space (ie_ingest_stream e) = ie_ingest_stream e" "ie_ingest_stream e \<noteq> []" "0 < ie_ingest_seq e"
    and fresh: "we_new_id w 0 \<notin> ms_id ` set (in_messages v s)"
    and unique: "\<forall>acc. length (copies e acc (in_messages v s)) \<le> 1"
  shows "(\<forall>acc. length (copies e acc (in_messages v s')) \<le> 1) \<and>
    (err = None \<longrightarrow> (\<exists>a \<in> set (in_accounts v s). ac_address a = to_lower (trim_space recipient) \<and>
       length (copies e (ac_id a) (in_messages v s')) = 1)) \<and>
    (in_messages v s' = in_messages v s \<or> (\<exists>acc. adds e acc (in_messages v s) (in_messages v s')))"
  using delivery_effect [OF laws run stream(1) fresh]
proof (elim disjE conjE bexE)
  assume same: "in_messages v s' = in_messages v s"
    and "err = None \<longrightarrow> (\<exists>a \<in> set (in_accounts v s). ac_address a = to_lower (trim_space recipient) \<and>
      copies e (ac_id a) (in_messages v s') \<noteq> [])"
  moreover have "length (copies e acc (in_messages v s)) = 1" if "copies e acc (in_messages v s) \<noteq> []" for acc
    using that unique by (metis One_nat_def Suc_leI le_antisym length_greater_0_conv)
  ultimately show ?thesis using unique by auto
next
  fix a assume "a \<in> set (in_accounts v s)" "ac_address a = to_lower (trim_space recipient)"
    and add: "adds e (ac_id a) (in_messages v s) (in_messages v s')"
  moreover have "length (copies e acc (in_messages v s')) \<le> 1" for acc
    using copies_adds [OF add stream(2,3)] unique by (cases "acc = ac_id a") auto
  ultimately show ?thesis using copies_adds(1) [OF add stream(2,3)] by blast
qed

definition example_worker :: "tables worker_env" where
  "example_worker =
     \<lparr>we_db = mem_database, we_put = (\<lambda>k ct r n s. (Some (length (fst r)), s)),
      we_delete_by_message = (\<lambda>m s. s), we_slot_free = (\<lambda>s. True), we_publish = (\<lambda>c p s. s), we_json = sn_id,
      we_parse = (\<lambda>bs. Inr \<lparr>pm_subject = ''Hi'', pm_message_id = [], pm_from = [], pm_to = [], pm_cc = [],
        pm_parts = [OtherPart]\<rparr>),
      we_new_id = (\<lambda>n. of_nat (5 + n)), we_clock = (\<lambda>n. 1000 * second), we_message_ttl = 0\<rparr>"

definition example_incoming :: incoming_email where
  "example_incoming = empty_email\<lparr>ie_to := [''a@b.c''], ie_raw_message := [72, 105],
     ie_ingest_stream := ''S'', ie_ingest_seq := 4\<rparr>"

definition example_tables :: tables where
  "example_tables = ([], [empty_account\<lparr>ac_id := 3, ac_address := ''a@b.c'', ac_quota := 100\<rparr>], [])"

lemma example_worker_laws: "worker_laws example_worker mem_contents"
  by (simp add: worker_laws_def example_worker_def mem_database_laws)

lemma example_run: "fst (process_for_recipient example_worker example_incoming ''A@b.c'' example_tables) = None"
  by code_simp

theorem delivered_exactly_once_witness:
  "\<exists>a \<in> set (in_accounts mem_contents example_tables). ac_address a = ''a@b.c'' \<and>
     length (copies example_incoming (ac_id a) (in_messages mem_contents
       (snd (process_for_recipient example_worker example_incoming ''A@b.c'' example_tables)))) = 1"
proof -
  let ?run = "process_for_recipient example_worker example_incoming ''A@b.c'' example_tables"
  have run: "?run = (None, snd ?run)" using example_run by (simp add: prod_eq_iff)
  have e: "trim_space (ie_ingest_stream example_incoming) = ie_ingest_stream example_incoming"
    "ie_ingest_stream example_incoming \<noteq> []" "0 < ie_ingest_seq example_incoming"
    "to_lower (trim_space ''A@b.c'') = ''a@b.c''"
    by code_simp+
  have w: "we_new_id example_worker 0 \<notin> ms_id ` set (in_messages mem_contents example_tables)"
    "\<forall>acc. length (copies example_incoming acc (in_messages mem_contents example_tables)) \<le> 1"
    by (simp_all add: example_worker_def example_tables_def mem_contents_def copies_def)
  from delivered_exactly_once [OF example_worker_laws run e(1-3) w] show ?thesis by (simp only: e(4))
qed

section \<open>The accounting of a delivery\<close>

definition live_size :: "object_id \<Rightarrow> message list \<Rightarrow> int" where
  "live_size acc ms = sum_list (map ms_size (filter (live acc None) ms))"

text \<open>
  Every account uses as much as its live messages take, the account \<open>acc\<close> \<open>extra\<close> more, and none more than
  its quota.
\<close>

definition balanced :: "object_id \<Rightarrow> int \<Rightarrow> 's contents \<Rightarrow> 's \<Rightarrow> bool" where
  "balanced acc extra v s \<longleftrightarrow>
     distinct (map ac_id (in_accounts v s)) \<and> (\<forall>m \<in> set (in_messages v s). 0 \<le> ms_size m) \<and>
     (\<forall>a \<in> set (in_accounts v s).
        ac_used a = live_size (ac_id a) (in_messages v s) + (if ac_id a = acc then extra else 0) \<and>
        (ac_quota a \<le> 0 \<or> ac_used a \<le> ac_quota a))"

lemma live_size_nonneg: "\<forall>m \<in> set ms. 0 \<le> ms_size m \<Longrightarrow> 0 \<le> live_size acc ms"
  unfolding live_size_def by (intro sum_list_nonneg) auto

lemma live_size_adds:
  assumes "adds e acc xs ys"
  shows "live_size i ys = live_size i xs + (if i = acc then int (length (ie_raw_message e)) else 0)"
    "\<forall>m \<in> set xs. 0 \<le> ms_size m \<Longrightarrow> \<forall>m \<in> set ys. 0 \<le> ms_size m"
  using assms by (auto simp: adds_def live_size_def live_def stored_as_def)

lemma update_account_by_id:
  assumes laws: "database_laws db v" and ids: "distinct (map ac_id (in_accounts v s))"
    and f: "\<forall>a. matches f (account_fields a) \<longrightarrow> ac_id a = i"
    and run: "co_update_one (db_accounts db) f us s = (Inr u, s')"
  shows "in_messages v s' = in_messages v s"
    "ur_matched u = 0 \<Longrightarrow> in_accounts v s' = in_accounts v s"
    "ur_matched u \<noteq> 0 \<Longrightarrow> ur_matched u = 1 \<and>
       in_accounts v s' = map (\<lambda>a. if ac_id a = i then apply_update account_schema us a else a) (in_accounts v s) \<and>
       (\<forall>a \<in> set (in_accounts v s). ac_id a = i \<longrightarrow> matches f (account_fields a))"
proof -
  note L = update_one_law [OF accounts_laws(1) [OF laws] run, simplified]
  show "in_messages v s' = in_messages v s" using L(1) by simp
  show "ur_matched u = 0 \<Longrightarrow> in_accounts v s' = in_accounts v s" using L(2) by simp
  assume "ur_matched u \<noteq> 0"
  then obtain l x r where x: "in_accounts v s = l @ x # r" "matches f (account_fields x)"
    "in_accounts v s' = l @ apply_update account_schema us x # r" and one: "ur_matched u = 1"
    using L(2) by (auto simp: updates_one_def)
  have "ac_id a \<noteq> i" if "a \<in> set l \<union> set r" for a using ids that f x(2) by (force simp: x(1))
  then show "ur_matched u = 1 \<and>
       in_accounts v s' = map (\<lambda>a. if ac_id a = i then apply_update account_schema us a else a) (in_accounts v s) \<and>
       (\<forall>a \<in> set (in_accounts v s). ac_id a = i \<longrightarrow> matches f (account_fields a))"
    using x f one by (auto intro!: map_idI [symmetric])
qed

lemma balanced_update:
  assumes laws: "database_laws db v" and bal: "balanced acc d v s"
    and f: "\<forall>a. matches f (account_fields a) \<longrightarrow> ac_id a = acc"
    and run: "co_update_one (db_accounts db) f us s = (Inr u, s')"
    and us: "\<And>a. a \<in> set (in_accounts v s) \<Longrightarrow> ac_id a = acc \<Longrightarrow> matches f (account_fields a) \<Longrightarrow>
      ac_id (apply_update account_schema us a) = acc \<and>
      ac_quota (apply_update account_schema us a) = ac_quota a \<and>
      ac_used (apply_update account_schema us a) = live_size acc (in_messages v s) + d' \<and>
      (ac_quota a \<le> 0 \<or> ac_used (apply_update account_schema us a) \<le> ac_quota a)"
  shows "balanced acc (if ur_matched u = 0 then d else d') v s'"
proof -
  have ids: "distinct (map ac_id (in_accounts v s))" using bal by (simp add: balanced_def)
  note U = update_account_by_id [OF laws ids f run]
  show ?thesis
  proof (cases "ur_matched u = 0")
    case True
    show ?thesis using bal unfolding balanced_def U(1) U(2) [OF True] if_P [OF True] .
  next
    case False
    note M = U(3) [OF False]
    have "map ac_id (in_accounts v s') = map ac_id (in_accounts v s)"
      using M us by (auto simp: if_distrib)
    moreover have "ac_used b = live_size (ac_id b) (in_messages v s') + (if ac_id b = acc then d' else 0) \<and>
        (ac_quota b \<le> 0 \<or> ac_used b \<le> ac_quota b)" if b: "b \<in> set (in_accounts v s')" for b
    proof -
      obtain a where a: "a \<in> set (in_accounts v s)" "b = (if ac_id a = acc then apply_update account_schema us a else a)"
        using b M by auto
      show ?thesis
      proof (cases "ac_id a = acc")
        case True
        then show ?thesis using us [OF a(1) True] M a U(1) by auto
      next
        case False
        then show ?thesis using a bal U(1) by (auto simp: balanced_def)
      qed
    qed
    ultimately show ?thesis using bal unfolding balanced_def U(1) if_not_P [OF False] by (simp only:) blast
  qed
qed


lemma reserve_balanced:
  assumes laws: "database_laws db v" and bal: "balanced acc 0 v s" and "0 < delta"
    and run: "try_reserve_account_used db now acc delta s = (Inr ok, s')"
  shows "balanced acc (if ok then delta else 0) v s'"
proof -
  let ?f = "[CEq ''_id'' (BId acc), COr [[CLte ''quota'' (BInt 0)],
        [CExprLte (EAdd (EIfNull (EField ''used'') (ELit 0)) (ELit delta)) (EField ''quota'')]]]"
  let ?us = "[UInc ''used'' delta, USet ''updatedAt'' (BDate (millis now))]"
  obtain u where u: "co_update_one (db_accounts db) ?f ?us s = (Inr u, s')" "ok = (0 < ur_matched u)"
    using assms(3,4) by (auto simp: try_reserve_account_used_def Let_def split: prod.splits sum.splits)
  have f: "\<forall>a. matches ?f (account_fields a) \<longrightarrow> ac_id a = acc" by (simp only: matches_reserve) simp
  have ids: "distinct (map ac_id (in_accounts v s))" using bal by (simp add: balanced_def)
  have "ur_matched u = 0 \<or> ur_matched u = 1"
    using update_account_by_id(3) [OF laws ids f u(1)] by blast
  moreover have "balanced acc (if ur_matched u = 0 then 0 else delta) v s'"
    by (rule balanced_update [OF laws bal f u(1)])
      (use bal in \<open>simp only: matches_reserve apply_reserve, auto simp: balanced_def has_room_def\<close>)
  ultimately show ?thesis using u(2) by auto
qed

lemma set_used_balanced:
  assumes laws: "database_laws db v" and bal: "balanced acc d v s"
    and run: "co_update_one (db_accounts db) [CEq ''_id'' (BId acc)] us s = (Inr u, s')"
    and us: "\<And>a. a \<in> set (in_accounts v s) \<Longrightarrow> ac_id a = acc \<Longrightarrow>
      apply_update account_schema us a = a\<lparr>ac_used := live_size acc (in_messages v s), ac_updated_at := t\<rparr>" and "0 \<le> d"
  shows "balanced acc 0 v s'"
proof -
  have f: "\<forall>a. matches [CEq ''_id'' (BId acc)] (account_fields a) \<longrightarrow> ac_id a = acc"
    by (simp only: matches_account_id) simp
  have b: "balanced acc (if ur_matched u = 0 then d else 0) v s'"
  proof (rule balanced_update [OF laws bal f run])
    fix a assume a: "a \<in> set (in_accounts v s)" "ac_id a = acc"
    then have "ac_used a = live_size acc (in_messages v s) + d" "ac_quota a \<le> 0 \<or> ac_used a \<le> ac_quota a"
      using bal by (auto simp: balanced_def)
    then show "ac_id (apply_update account_schema us a) = acc \<and>
      ac_quota (apply_update account_schema us a) = ac_quota a \<and>
      ac_used (apply_update account_schema us a) = live_size acc (in_messages v s) + 0 \<and>
      (ac_quota a \<le> 0 \<or> ac_used (apply_update account_schema us a) \<le> ac_quota a)"
      using a \<open>0 \<le> d\<close> unfolding us [OF a] by auto
  qed
  show ?thesis
  proof (cases "ur_matched u = 0")
    case True
    have "matching account_schema [CEq ''_id'' (BId acc)] (in_accounts v s) = [] \<and> in_accounts v s' = in_accounts v s"
      using update_one_law(2) [OF accounts_laws(1) [OF laws] run] True by simp
    then have "\<forall>a \<in> set (in_accounts v s'). ac_id a \<noteq> acc"
      by (auto simp: matching_def filter_empty_conv account_fields_def)
    then show ?thesis using b True by (auto simp: balanced_def)
  qed (use b in simp)
qed

lemma recalculate_runs:
  assumes laws: "database_laws db v" and rel: "reliable db" and pos: "\<forall>m \<in> set (in_messages v s). 0 \<le> ms_size m"
  obtains u where "co_update_one (db_accounts db) [CEq ''_id'' (BId acc)]
      [USet ''used'' (BInt (live_size acc (in_messages v s))), USet ''updatedAt'' (BDate (millis now))] s
      = (Inr u, snd (recalculate_account_used db now acc s))"
proof -
  let ?f = "[CEq ''accountId'' (BId acc), CEq ''isDeleted'' (BBool False)]" and ?e = "EIfNull (EField ''size'') (ELit 0)"
  obtain r where r: "co_sum (db_messages db) ?f ?e s = Inr r" using rel by (metis reliable_def)
  have m: "matching message_schema ?f (in_messages v s) = filter (live acc None) (in_messages v s)"
    by (auto simp: matching_def message_fields_def live_def intro!: filter_cong)
  have e: "(case eval_expr (message_fields x) ?e of Some i \<Rightarrow> i | None \<Rightarrow> 0) = ms_size x" for x
    by (simp add: message_fields_def)
  have "r = (if filter (live acc None) (in_messages v s) = [] then None else Some (live_size acc (in_messages v s)))"
    using sum_law [OF accounts_laws(2) [OF laws] r] unfolding m schema_simps e live_size_def .
  then have r': "(case r of None \<Rightarrow> 0 | Some u \<Rightarrow> u) = live_size acc (in_messages v s)"
    by (auto simp: live_size_def)
  obtain u s' where u: "co_update_one (db_accounts db) [CEq ''_id'' (BId acc)]
      [USet ''used'' (BInt (live_size acc (in_messages v s))), USet ''updatedAt'' (BDate (millis now))] s = (Inr u, s')"
    using rel by (metis reliable_def)
  have "snd (recalculate_account_used db now acc s) = s'"
    using live_size_nonneg [OF pos, of acc] unfolding recalculate_account_used_def r sum.case Let_def r' by (simp add: u)
  then show thesis using that u by blast
qed

lemma recalculate_balanced:
  assumes laws: "database_laws db v" and bal: "balanced acc 0 v s" and rel: "reliable db"
  shows "balanced acc 0 v (snd (recalculate_account_used db now acc s))"
proof -
  have pos: "\<forall>m \<in> set (in_messages v s). 0 \<le> ms_size m" using bal by (simp add: balanced_def)
  obtain u where u: "co_update_one (db_accounts db) [CEq ''_id'' (BId acc)]
      [USet ''used'' (BInt (live_size acc (in_messages v s))), USet ''updatedAt'' (BDate (millis now))] s
      = (Inr u, snd (recalculate_account_used db now acc s))"
    by (rule recalculate_runs [OF laws rel pos])
  show ?thesis
    by (rule set_used_balanced [OF laws bal u, where t = "trunc_ms now"]) (simp_all only: apply_set_used order.refl)
qed

lemma release_balanced:
  assumes laws: "database_laws db v" and bal: "balanced acc delta v s" and "0 < delta" and rel: "reliable db"
  shows "balanced acc 0 v (snd (update_account_used db now acc (- delta) s))"
proof -
  let ?us = "[USetExpr ''used'' (EMax (ELit 0) (EAdd (EIfNull (EField ''used'') (ELit 0)) (ELit (- delta)))),
      USet ''updatedAt'' (BDate (millis now))]"
  obtain u s' where u: "co_update_one (db_accounts db) [CEq ''_id'' (BId acc)] ?us s = (Inr u, s')"
    using rel by (metis reliable_def)
  have pos: "0 \<le> live_size acc (in_messages v s)" using bal by (intro live_size_nonneg) (simp add: balanced_def)
  have "balanced acc 0 v s'"
  proof (rule set_used_balanced [OF laws bal u, where t = "trunc_ms now"])
    fix a assume "a \<in> set (in_accounts v s)" "ac_id a = acc"
    then have "max 0 (ac_used a + - delta) = live_size acc (in_messages v s)" using bal pos by (auto simp: balanced_def)
    then show "apply_update account_schema ?us a = a\<lparr>ac_used := live_size acc (in_messages v s), ac_updated_at := trunc_ms now\<rparr>"
      by (simp only: apply_used)
  qed (use \<open>0 < delta\<close> in simp)
  moreover have "snd (update_account_used db now acc (- delta) s) = s'"
    using u \<open>0 < delta\<close> by (simp add: update_account_used_def update_result_error_def)
  ultimately show ?thesis by simp
qed


lemma balanced_0: assumes "balanced acc 0 v s" shows "balanced acc' 0 v s"
  using assms unfolding balanced_def if_cancel .

lemma reserve_quota_balanced:
  assumes laws: "database_laws (we_db w) v" and rel: "reliable (we_db w)" and bal: "balanced acc 0 v s"
    and run: "reserve_quota w acc (int n) recipient s = (err, s')"
  shows "balanced acc (if err = None then int n else 0) v s'"
proof (cases "n = 0")
  case False
  then have n: "0 < int n" by simp
  have total: "\<exists>ok t. try_reserve_account_used (we_db w) now acc (int n) s = (Inr ok, t)" for now s
  proof -
    obtain u t where "co_update_one (db_accounts (we_db w)) [CEq ''_id'' (BId acc), COr [[CLte ''quota'' (BInt 0)],
        [CExprLte (EAdd (EIfNull (EField ''used'') (ELit 0)) (ELit (int n))) (EField ''quota'')]]]
        [UInc ''used'' (int n), USet ''updatedAt'' (BDate (millis now))] s = (Inr u, t)"
      using rel by (metis reliable_def)
    then show ?thesis using n unfolding try_reserve_account_used_def Let_def by simp
  qed
  obtain ok1 s1 where 1: "try_reserve_account_used (we_db w) (we_clock w 0) acc (int n) s = (Inr ok1, s1)"
    using total by blast
  obtain ok2 s3 where 3: "try_reserve_account_used (we_db w) (we_clock w 2) acc (int n)
      (snd (recalculate_account_used (we_db w) (we_clock w 1) acc s1)) = (Inr ok2, s3)"
    using total by blast
  note step = run [unfolded reserve_quota_def Let_def 1 3 prod.case sum.case]
  note B1 = reserve_balanced [OF laws bal n 1]
  show ?thesis
  proof (cases ok1)
    case True
    then show ?thesis using step B1 n by simp
  next
    case False
    then have "balanced acc 0 v s1" using B1 by simp
    from reserve_balanced [OF laws recalculate_balanced [OF laws this rel] n 3]
    show ?thesis using step False n by (auto simp: permanent_def split: bool.splits)
  qed
qed (use run bal in \<open>simp add: reserve_quota_def\<close>)

lemma store_incoming_balanced:
  assumes laws: "worker_laws w v" and rel: "reliable (we_db w)" and run: "store_incoming w e acc s = (err, committed, s')"
    and bal: "balanced acc (int (length (ie_raw_message e))) v s"
  shows "balanced acc (if committed then 0 else int (length (ie_raw_message e))) v s'"
proof -
  note S = store_incoming_effect [OF laws run]
  show ?thesis
  proof (cases committed)
    case True
    then have add: "adds e acc (in_messages v s) (in_messages v s')" using S(3) by simp
    have "live_size i (in_messages v s') + (if i = acc then 0 else 0) =
        live_size i (in_messages v s) + (if i = acc then int (length (ie_raw_message e)) else 0)" for i
      using live_size_adds(1) [OF add] by simp
    then show ?thesis
      using bal live_size_adds(2) [OF add] unfolding balanced_def S(1) if_P [OF True] by (simp only:) blast
  next
    case False
    show ?thesis using bal unfolding balanced_def S(6) [OF False rel] S(1) if_not_P [OF False] .
  qed
qed

lemma process_balanced:
  assumes laws: "worker_laws w v" and rel: "reliable (we_db w)" and bal: "balanced acc 0 v s"
  shows "balanced acc 0 v (snd (process_for_recipient w e recipient s))"
proof -
  have db: "database_laws (we_db w) v" using laws by (simp add: worker_laws_def)
  obtain err s' where run: "process_for_recipient w e recipient s = (err, s')" by fastforce
  from laws run have "balanced acc 0 v s'"
  proof (cases rule: process_cases)
    case (no_quota a er)
    from reserve_quota_balanced [OF db rel balanced_0 [OF bal] no_quota(3)] show ?thesis by (simp add: balanced_0)
  next
    case (stored a s1 committed s2)
    from reserve_quota_balanced [OF db rel balanced_0 [OF bal] stored(2)]
    have "balanced a (int (length (ie_raw_message e))) v s1" by simp
    from store_incoming_balanced [OF laws rel stored(3) this]
    have b: "balanced a (if committed then 0 else int (length (ie_raw_message e))) v s2" .
    have "balanced a 0 v s'"
      using b release_balanced [OF db _ _ rel, of a "int (length (ie_raw_message e))" s2 "we_clock w 5"]
      unfolding stored(4) by (cases committed; cases "int (length (ie_raw_message e)) \<le> 0") simp_all
    then show ?thesis by (rule balanced_0)
  qed (use bal in simp_all)
  then show ?thesis by (simp add: run)
qed

lemma recipient_loop_invariant:
  assumes "\<And>r s. P s \<Longrightarrow> P (snd (process r s))" "P s"
  shows "P (snd (snd (recipient_loop process rs te n s)))"
  using assms(2)
proof (induction rs arbitrary: te n s)
  case (Cons r rs)
  obtain err t where p: "process r s = (err, t)" by fastforce
  have "P t" using assms(1) [OF Cons.prems, of r] p by simp
  then show ?case using Cons.IH p by (simp split: option.split)
qed simp

lemma process_message_invariant:
  assumes "\<And>e r s. P s \<Longrightarrow> P (snd (process e r s))" "P s"
  shows "P (snd (process_message process incoming s))"
proof (cases incoming)
  case (Some e)
  obtain te n t where t: "recipient_loop (process e) (unique_recipients (ie_to e)) None 0 s = (te, n, t)"
    by (cases "recipient_loop (process e) (unique_recipients (ie_to e)) None 0 s") auto
  have "P (snd (snd (recipient_loop (process e) (unique_recipients (ie_to e)) None 0 s)))"
    by (rule recipient_loop_invariant [where P = P, OF assms])
  then show ?thesis using assms(2) by (simp add: process_message_def Some Let_def t)
qed (simp add: process_message_def assms(2))


lemma mem_reliable: "reliable mem_database"
  by (auto simp: reliable_def mem_database_def mem_collection_def mem_insert_def Let_def split: if_splits)



end
