(* ===== verification/Handler.thy ===== *)
theory Handler
  imports Store Cache Middleware Auth Prefix Storage
begin

text \<open>
  The API of the native dialect, \<open>internal/handler\<close>: what its handlers share (\<open>handler.go\<close>,
  \<open>domain_cache.go\<close>, \<open>bcrypt_gate.go\<close>, \<open>storage_cleanup.go\<close>). A handler is a function of the request
  context of theory Middleware, the clock readings \<open>clk\<close> of the request, its parameters or its body (\<^const>\<open>None\<close>:
  the JSON binding refused it) and the state; it returns the response. The state is that of the store, of the
  cache, of the random source and the cached list of domains. bcrypt, the JWT library, the object store
  and the semaphores are the fields of an \<open>api_env\<close>.
\<close>

section \<open>State, environment, responses\<close>

record domain_cache_entry =
  dce_domains :: "mail_domain list"
  dce_domain_set :: "string set"
  dce_domain_map :: "string \<rightharpoonup> mail_domain"
  dce_expires_at :: time
  dce_last_update :: time

record ('s, 'r, 'g) api_state =
  as_store :: "'s store"
  as_cache :: "'r cache"
  as_rand :: 'g
  as_domains :: "domain_cache_entry option"

text \<open>How the wait for a bcrypt permit ends.\<close>

datatype permit = Granted | Cancelled | Busy

record ('s, 'r, 'g) api_env =
  ae_db :: "'s database"
  ae_redis :: "'r redis_api"
  ae_draw :: "nat \<Rightarrow> ('g, nat) state"
  ae_get_object :: "'s get_object"
  ae_delete_by_message :: "string \<Rightarrow> 's \<Rightarrow> 's"
  ae_slot_free :: "'s \<Rightarrow> bool"
  ae_permit :: "'s \<Rightarrow> permit"
  ae_bcrypt_hash :: "string \<Rightarrow> unit + string"
  ae_bcrypt_compare :: "string \<Rightarrow> string \<Rightarrow> bool"
  ae_auth :: auth
  ae_numeric_date :: "time \<Rightarrow> time"
  ae_sign :: "bytes \<Rightarrow> claims \<Rightarrow> unit + string"

datatype 'b response = Failure int string | Success int 'b

text \<open>The result of \<open>New\<close>; the components it is given are the environment and the state.\<close>

record handler =
  hd_account_ttl :: duration
  hd_api_keys :: "string \<rightharpoonup> api_key_info"
  hd_global_rpm :: int
  hd_bcrypt_permits :: int
  hd_cleanup_slots :: int
  hd_allow_message_keep :: bool

definition new_handler ::
  "int \<Rightarrow> duration \<Rightarrow> (string \<rightharpoonup> api_key_info) \<Rightarrow> int \<Rightarrow> int \<Rightarrow> bool \<Rightarrow> handler" where
  "new_handler gomaxprocs account_ttl api_keys global_rpm max_concurrent_bcrypt allow_message_keep =
     (let rpm = (if global_rpm = 0 then 100 else if global_rpm < 0 then 0 else global_rpm);
          mb = (if max_concurrent_bcrypt \<le> 0 then gomaxprocs else max_concurrent_bcrypt);
          max_bcrypt = (if mb < 1 then 1 else mb);
          mc = (if gomaxprocs * 4 < 4 then 4 else gomaxprocs * 4);
          max_cleanup = (if 64 < mc then 64 else mc)
      in \<lparr>hd_account_ttl = account_ttl, hd_api_keys = api_keys, hd_global_rpm = rpm,
          hd_bcrypt_permits = max_bcrypt, hd_cleanup_slots = max_cleanup,
          hd_allow_message_keep = allow_message_keep\<rparr>)"

section \<open>The database part of the state\<close>

definition db_state :: "('s, 'r, 'g) api_state \<Rightarrow> 's" where "db_state st = so_db (as_store st)"

definition set_db :: "'s \<Rightarrow> ('s, 'r, 'g) api_state \<Rightarrow> ('s, 'r, 'g) api_state" where
  "set_db s st = st\<lparr>as_store := (as_store st)\<lparr>so_db := s\<rparr>\<rparr>"

lemma db_state_simps [simp]:
  "db_state (set_db s st) = s" "as_domains (set_db s st) = as_domains st" "as_cache (set_db s st) = as_cache st"
  "as_rand (set_db s st) = as_rand st"
  "db_state (st\<lparr>as_cache := c\<rparr>) = db_state st" "db_state (st\<lparr>as_rand := g\<rparr>) = db_state st"
  "db_state (st\<lparr>as_domains := d\<rparr>) = db_state st" "db_state (st\<lparr>as_store := x\<rparr>) = so_db x"
  by (simp_all add: db_state_def set_db_def)

section \<open>Helpers\<close>

definition api_storage_cleanup ::
  "('s, 'r, 'g) api_env \<Rightarrow> string \<Rightarrow> ('s, 'r, 'g) api_state \<Rightarrow> ('s, 'r, 'g) api_state" where
  "api_storage_cleanup env mid st =
     (let s = db_state st in if ae_slot_free env s then set_db (ae_delete_by_message env mid s) st else st)"

datatype bcrypt_error = BcryptBusy | BcryptFailed

definition with_bcrypt_permit ::
  "('s, 'r, 'g) api_env \<Rightarrow> ('s, 'r, 'g) api_state \<Rightarrow> (unit + 'a) \<Rightarrow> bcrypt_error + 'a" where
  "with_bcrypt_permit env st result =
     (case ae_permit env (db_state st) of
        Busy \<Rightarrow> Inl BcryptBusy
      | Cancelled \<Rightarrow> Inl BcryptFailed
      | Granted \<Rightarrow> (case result of Inl _ \<Rightarrow> Inl BcryptFailed | Inr a \<Rightarrow> Inr a))"

definition domains_cache_ttl :: duration where "domains_cache_ttl = 30 * second"

definition domain_entry :: "time \<Rightarrow> mail_domain list \<Rightarrow> domain_cache_entry" where
  "domain_entry now domains =
     \<lparr>dce_domains = domains, dce_domain_set = (\<lambda>d. to_lower (dm_domain d)) ` set domains,
      dce_domain_map = foldl (\<lambda>m d. m(to_lower (dm_domain d) \<mapsto> d)) Map.empty domains,
      dce_expires_at = now + domains_cache_ttl, dce_last_update = now\<rparr>"

text \<open>\<open>getDomainCache\<close>: an expired list is still used while the database does not answer.\<close>

definition get_domain_cache ::
  "('s, 'r, 'g) api_env \<Rightarrow> time \<Rightarrow> ('s, 'r, 'g) api_state
     \<Rightarrow> (store_error + domain_cache_entry) \<times> ('s, 'r, 'g) api_state" where
  "get_domain_cache env now st =
     (let load = (case list_domains (ae_db env) (db_state st) of
                    Inl err \<Rightarrow> (case as_domains st of Some e \<Rightarrow> (Inr e, st) | None \<Rightarrow> (Inl err, st))
                  | Inr domains \<Rightarrow> (let e = domain_entry now domains in (Inr e, st\<lparr>as_domains := Some e\<rparr>)))
      in case as_domains st of
           Some e \<Rightarrow> if now < dce_expires_at e then (Inr e, st) else load
         | None \<Rightarrow> load)"

definition domain_available ::
  "('s, 'r, 'g) api_env \<Rightarrow> time \<Rightarrow> string \<Rightarrow> ('s, 'r, 'g) api_state \<Rightarrow> (store_error + bool) \<times> ('s, 'r, 'g) api_state" where
  "domain_available env now domain st =
     (case get_domain_cache env now st of
        (Inl err, st') \<Rightarrow> (Inl err, st')
      | (Inr e, st') \<Rightarrow> (Inr (to_lower domain \<in> dce_domain_set e), st'))"

definition get_domain_info ::
  "('s, 'r, 'g) api_env \<Rightarrow> time \<Rightarrow> string \<Rightarrow> ('s, 'r, 'g) api_state
     \<Rightarrow> (store_error + mail_domain) \<times> ('s, 'r, 'g) api_state" where
  "get_domain_info env now domain st =
     (case get_domain_cache env now st of
        (Inl err, st') \<Rightarrow> (Inl err, st')
      | (Inr e, st') \<Rightarrow>
          (case dce_domain_map e (to_lower domain) of
             None \<Rightarrow> (Inl ErrNotFound, st') | Some d \<Rightarrow> (Inr d, st')))"

definition domain_available_or_error ::
  "('s, 'r, 'g) api_env \<Rightarrow> time \<Rightarrow> string \<Rightarrow> ('s, 'r, 'g) api_state
     \<Rightarrow> store_error option \<times> ('s, 'r, 'g) api_state" where
  "domain_available_or_error env now domain st =
     (case domain_available env now domain st of
        (Inl err, st') \<Rightarrow> (Some err, st')
      | (Inr ok, st') \<Rightarrow> (if \<not> ok then Some ErrNotFound else None, st'))"

end
