(* ===== verification/AccountApi.thy ===== *)
theory AccountApi
  imports Handler
begin

text \<open>
  \<open>account.go\<close>, \<open>token.go\<close> and \<open>domain.go\<close> of \<open>internal/handler\<close>: the handlers for accounts, tokens and
  domains.
\<close>

section \<open>Access to a domain\<close>

text \<open>
  What \<open>CreateAccount\<close>, \<open>RandomAddress\<close> and \<open>CreateToken\<close> check of a domain in the same words: it is in the
  list of active domains, and a private one is granted explicitly. They differ in the status for a
  domain that is not available.
\<close>

definition check_domain ::
  "('s, 'r, 'g) api_env \<Rightarrow> time \<Rightarrow> req_context \<Rightarrow> int \<Rightarrow> string \<Rightarrow> ('s, 'r, 'g) api_state
     \<Rightarrow> (int \<times> string) option \<times> ('s, 'r, 'g) api_state" where
  "check_domain env now cx unavailable domain st =
     (case get_domain_info env now domain st of
        (Inl err, st') \<Rightarrow>
          (Some (if err = ErrNotFound then (unavailable, ''domain not available'') else (500, ''internal error'')), st')
      | (Inr di, st') \<Rightarrow>
          (if dm_is_private di \<and> \<not> is_domain_explicitly_allowed cx domain
           then Some (403, ''private domain requires explicit API key authorization'') else None, st'))"

section \<open>Accounts\<close>

datatype created = Created account | AddressTaken | CreateFailed

text \<open>The five attempts with a new prefix.\<close>

fun create_retry ::
  "('s, 'r, 'g) api_env \<Rightarrow> (nat \<Rightarrow> time) \<Rightarrow> string \<Rightarrow> nat \<Rightarrow> account \<Rightarrow> ('s, 'r, 'g) api_state
     \<Rightarrow> created \<times> ('s, 'r, 'g) api_state" where
  "create_retry env clk domain 0 a st = (AddressTaken, st)"
| "create_retry env clk domain (Suc n) a st =
     (let (addr, g) = run_state (generate_for_domain (ae_draw env) domain) (as_rand st);
          (err, a', s') = create_account (ae_db env) (clk n) (a\<lparr>ac_address := to_lower addr\<rparr>) (db_state st);
          st' = set_db s' (st\<lparr>as_rand := g\<rparr>)
      in case err of
           None \<Rightarrow> (Created a', st')
         | Some e \<Rightarrow> if e = ErrDuplicateKey then create_retry env clk domain n a' st' else (CreateFailed, st'))"

definition insert_account ::
  "('s, 'r, 'g) api_env \<Rightarrow> (nat \<Rightarrow> time) \<Rightarrow> string \<Rightarrow> account \<Rightarrow> ('s, 'r, 'g) api_state
     \<Rightarrow> created \<times> ('s, 'r, 'g) api_state" where
  "insert_account env clk domain a st =
     (let (err, a', s') = create_account (ae_db env) (clk 5) a (db_state st); st' = set_db s' st in
      case err of
        None \<Rightarrow> (Created a', st')
      | Some e \<Rightarrow>
          if e = ErrDuplicateKey
          then (if domain \<noteq> [] then create_retry env clk domain 5 a' st' else (AddressTaken, st'))
          else (CreateFailed, st'))"

definition create_account_handler ::
  "('s, 'r, 'g) api_env \<Rightarrow> handler \<Rightarrow> (nat \<Rightarrow> time) \<Rightarrow> req_context \<Rightarrow> create_account_request option
     \<Rightarrow> ('s, 'r, 'g) api_state \<Rightarrow> account response \<times> ('s, 'r, 'g) api_state" where
  "create_account_handler env h clk cx body st =
     (case body of
        None \<Rightarrow> (Failure 400 ''invalid request: password (min 6 chars) required, plus address or domain'', st)
      | Some req0 \<Rightarrow>
          if cr_address req0 = [] \<and> cr_domain req0 = []
          then (Failure 400 ''either address or domain is required'', st)
          else
            (let (req, st1) =
               (if cr_address req0 = []
                then (let d = to_lower (cr_domain req0);
                          (addr, g) = run_state (generate_for_domain (ae_draw env) d) (as_rand st)
                      in (req0\<lparr>cr_domain := d, cr_address := addr\<rparr>, st\<lparr>as_rand := g\<rparr>))
                else (req0, st))
             in case index_byte (cr_address req) (CHR ''@'') of
                  None \<Rightarrow> (Failure 400 ''invalid email address (username must be >= 3 chars)'', st1)
                | Some i \<Rightarrow>
                    if i < 3 then (Failure 400 ''invalid email address (username must be >= 3 chars)'', st1)
                    else
                      (let domain = to_lower (drop (Suc i) (cr_address req)) in
                       if \<not> is_domain_allowed cx domain
                       then (Failure 403 ''domain not allowed for this API key'', st1)
                       else
                         (let (ok, c) = check_domain_rate_limit
                                (\<lambda>(k, d). check_key_domain_rate_limit (ae_redis env) k d)
                                (clk 6, clk 7) cx domain (as_cache st1);
                              st2 = st1\<lparr>as_cache := c\<rparr>
                          in if \<not> ok then (Failure 429 ''domain rate limit exceeded for this API key'', st2)
                             else
                               (case check_domain env (clk 8) cx 400 domain st2 of
                                  (Some (status, text), st3) \<Rightarrow> (Failure status text, st3)
                                | (None, st3) \<Rightarrow>
                                    (case with_bcrypt_permit env st3 (ae_bcrypt_hash env (cr_password req)) of
                                       Inl BcryptBusy \<Rightarrow> (Failure 503 ''server busy, please retry'', st3)
                                     | Inl BcryptFailed \<Rightarrow> (Failure 500 ''internal error'', st3)
                                     | Inr hashed \<Rightarrow>
                                         (case insert_account env clk (cr_domain req)
                                                 (empty_account\<lparr>ac_address := to_lower (cr_address req),
                                                                ac_password := hashed\<rparr>) st3 of
                                            (AddressTaken, st4) \<Rightarrow> (Failure 409 ''address already in use'', st4)
                                          | (CreateFailed, st4) \<Rightarrow> (Failure 500 ''failed to create account'', st4)
                                          | (Created a, st4) \<Rightarrow>
                                              (Success 201 a,
                                               st4\<lparr>as_cache := snd (set_address (ae_redis env) (ac_address a)
                                                      (hd_account_ttl h) (as_cache st4))\<rparr>))))))))"

definition random_address ::
  "('s, 'r, 'g) api_env \<Rightarrow> (nat \<Rightarrow> time) \<Rightarrow> req_context \<Rightarrow> string \<Rightarrow> string
     \<Rightarrow> ('s, 'r, 'g) api_state \<Rightarrow> string list response \<times> ('s, 'r, 'g) api_state" where
  "random_address env clk cx domain_query count_query st =
     (let domain = to_lower domain_query in
      if domain = [] then (Failure 400 ''domain query parameter is required'', st)
      else if \<not> is_domain_allowed cx domain then (Failure 403 ''domain not allowed for this API key'', st)
      else
        (case check_domain env (clk 0) cx 400 domain st of
           (Some (status, text), st1) \<Rightarrow> (Failure status text, st1)
         | (None, st1) \<Rightarrow>
             (let count =
                (if count_query \<noteq> []
                 then (let n = (case parse_int count_query of Some n \<Rightarrow> if 0 < n then n else 5 | None \<Rightarrow> 5)
                       in if 50 < n then 50 else n)
                 else 5);
                  (prefixes, g) = run_state (generate_n (ae_draw env) (nat count)) (as_rand st1)
              in (Success 200 (map (\<lambda>p. p @ ''@'' @ domain) prefixes), st1\<lparr>as_rand := g\<rparr>))))"

definition account_response :: "store_error + account \<Rightarrow> account response" where
  "account_response r =
     (case r of
        Inr a \<Rightarrow> Success 200 a
      | Inl err \<Rightarrow> if err = ErrNotFound \<or> err = ErrInvalidID then Failure 404 ''account not found''
                   else Failure 500 ''internal error'')"

definition get_account_handler ::
  "('s, 'r, 'g) api_env \<Rightarrow> req_context \<Rightarrow> string \<Rightarrow> ('s, 'r, 'g) api_state \<Rightarrow> account response" where
  "get_account_handler env cx i st =
     (if i \<noteq> get_string (cx_account_id cx) then Failure 403 ''access denied''
      else account_response (get_account (ae_db env) i (db_state st)))"

definition get_me :: "('s, 'r, 'g) api_env \<Rightarrow> req_context \<Rightarrow> ('s, 'r, 'g) api_state \<Rightarrow> account response" where
  "get_me env cx st = account_response (get_account (ae_db env) (get_string (cx_account_id cx)) (db_state st))"

definition delete_account_handler ::
  "('s, 'r, 'g) api_env \<Rightarrow> req_context \<Rightarrow> string \<Rightarrow> ('s, 'r, 'g) api_state
     \<Rightarrow> unit response \<times> ('s, 'r, 'g) api_state" where
  "delete_account_handler env cx i st =
     (if i \<noteq> get_string (cx_account_id cx) then (Failure 403 ''access denied'', st)
      else
        (case get_account (ae_db env) i (db_state st) of
           Inl err \<Rightarrow>
             (if err = ErrNotFound \<or> err = ErrInvalidID then Failure 404 ''account not found''
              else Failure 500 ''internal error'', st)
         | Inr a \<Rightarrow>
             (let st1 = st\<lparr>as_cache := snd (remove_address (ae_redis env) (ac_address a) (as_cache st))\<rparr>;
                  (messages, s2) = hard_delete_messages_by_account (ae_db env) (ac_id a) (db_state st1);
                  st2 = set_db s2 st1;
                  st3 = (case messages of
                           Inl e \<Rightarrow> st2
                         | Inr ms \<Rightarrow> foldl (\<lambda>st m. api_storage_cleanup env (db_hex (ae_db env) (ms_id m)) st) st2 ms);
                  (err, s4) = delete_account (ae_db env) i (db_state st3);
                  st4 = set_db s4 st3
              in case err of
                   None \<Rightarrow> (Success 204 (), st4)
                 | Some e \<Rightarrow> if e = ErrNotFound then (Failure 404 ''account not found'', st4)
                             else (Failure 500 ''failed to delete account'', st4))))"

section \<open>Tokens\<close>

definition create_token ::
  "('s, 'r, 'g) api_env \<Rightarrow> (nat \<Rightarrow> time) \<Rightarrow> req_context \<Rightarrow> token_request option
     \<Rightarrow> ('s, 'r, 'g) api_state \<Rightarrow> token_response response \<times> ('s, 'r, 'g) api_state" where
  "create_token env clk cx body st =
     (case body of
        None \<Rightarrow> (Failure 400 ''address and password required'', st)
      | Some req \<Rightarrow>
          (let address = to_lower (trim_space (tr_address req)); domain = domain_from_address address in
           if \<not> is_domain_allowed cx domain then (Failure 403 ''domain not allowed for this API key'', st)
           else
             (case check_domain env (clk 0) cx 403 domain st of
                (Some (status, text), st1) \<Rightarrow> (Failure status text, st1)
              | (None, st1) \<Rightarrow>
                  (case get_account_by_address (ae_db env) address (db_state st1) of
                     Inl err \<Rightarrow>
                       (if err = ErrNotFound then Failure 401 ''invalid credentials''
                        else Failure 500 ''internal error'', st1)
                   | Inr a \<Rightarrow>
                       (case with_bcrypt_permit env st1
                               (if ae_bcrypt_compare env (ac_password a) (tr_password req) then Inr () else Inl ()) of
                          Inl BcryptBusy \<Rightarrow> (Failure 503 ''server busy, please retry'', st1)
                        | Inl BcryptFailed \<Rightarrow> (Failure 401 ''invalid credentials'', st1)
                        | Inr _ \<Rightarrow>
                            (case generate_token (ae_numeric_date env) (ae_sign env) (ae_auth env)
                                    (db_hex (ae_db env) (ac_id a)) (ac_address a) (clk 1) of
                               Inl _ \<Rightarrow> (Failure 500 ''failed to generate token'', st1)
                             | Inr token \<Rightarrow>
                                 (Success 200 \<lparr>tp_token = token, tp_id = db_hex (ae_db env) (ac_id a)\<rparr>, st1)))))))"

section \<open>Domains\<close>

definition list_domains_handler ::
  "('s, 'r, 'g) api_env \<Rightarrow> time \<Rightarrow> req_context \<Rightarrow> ('s, 'r, 'g) api_state
     \<Rightarrow> mail_domain hydra_collection response \<times> ('s, 'r, 'g) api_state" where
  "list_domains_handler env now cx st =
     (case get_domain_cache env now st of
        (Inl err, st') \<Rightarrow> (Failure 500 ''failed to list domains'', st')
      | (Inr entry, st') \<Rightarrow>
          (let allowed_set =
             (case cx_api_key_info cx of
                Some info \<Rightarrow>
                  if \<not> ki_wildcard info \<and> ki_domain_set info \<noteq> None then the (ki_domain_set info)
                  else to_lower ` set (get_allowed_domains cx) - {[], ''*''}
              | None \<Rightarrow> to_lower ` set (get_allowed_domains cx) - {[], ''*''});
               domains1 = (if \<not> has_wildcard_access cx
                 then filter (\<lambda>d. to_lower (dm_domain d) \<in> allowed_set) (dce_domains entry) else dce_domains entry);
               domains = filter (\<lambda>d. \<not> (dm_is_private d \<and> \<not> is_domain_explicitly_allowed cx (to_lower (dm_domain d))))
                 domains1
           in (Success 200 \<lparr>hc_context = ''/contexts/Domain'', hc_id = ''/domains'', hc_type = ''hydra:Collection'',
                 hc_total_items = int (length domains), hc_member = domains, hc_next_cursor = []\<rparr>, st')))"

end
