(* ===== verification/AccountScope.thy ===== *)
theory AccountScope
  imports AccountApi
begin

text \<open>
  Who may create which account (\<open>CreateAccount\<close> of \<open>internal/handler/account.go\<close>), and what a successful
  creation does to the database.
\<close>

section \<open>A new account\<close>

text \<open>Exactly one account more: with the given address, which nobody had, nothing used and the default quota.\<close>

definition opens :: "'s contents \<Rightarrow> string \<Rightarrow> string \<Rightarrow> account \<Rightarrow> 's \<Rightarrow> 's \<Rightarrow> bool" where
  "opens v addr hashed a s s' \<longleftrightarrow>
     ac_address a = addr \<and> ac_password a = hashed \<and> ac_used a = 0 \<and> ac_quota a = 40000000 \<and> ac_id a \<noteq> 0 \<and>
     in_accounts v s' = in_accounts v s @ [sc_stored account_schema a] \<and>
     (\<forall>x \<in> set (in_accounts v s). ac_address x \<noteq> addr \<and> ac_id x \<noteq> ac_id a) \<and>
     in_messages v s' = in_messages v s \<and> in_domains v s' = in_domains v s"

definition same_contents :: "'s contents \<Rightarrow> 's \<Rightarrow> 's \<Rightarrow> bool" where
  "same_contents v s s' \<longleftrightarrow> in_accounts v s' = in_accounts v s \<and> in_messages v s' = in_messages v s \<and>
     in_domains v s' = in_domains v s"

lemma same_contents_trans:
  "same_contents v s t \<Longrightarrow> same_contents v t u \<Longrightarrow> same_contents v s u"
  "same_contents v s t \<Longrightarrow> opens v addr hashed a t u \<Longrightarrow> opens v addr hashed a s u"
  by (simp_all add: same_contents_def opens_def)

lemma account_schema_simps [simp]:
  "sc_with_id account_schema i a = a\<lparr>ac_id := i\<rparr>"
  "ac_address (sc_stored account_schema a) = ac_address a" "ac_id (sc_stored account_schema a) = ac_id a"
  by (simp_all add: account_schema_def)

lemma create_account_effect:
  assumes laws: "database_laws db v" and run: "create_account db now a s = (err, a', s')"
    and a: "ac_id a = 0" "ac_used a = 0" "ac_quota a = 0 \<or> ac_quota a = 40000000"
  shows "err = None \<Longrightarrow> opens v (ac_address a) (ac_password a) a' s s'"
    "err = Some ErrDuplicateKey \<Longrightarrow> same_contents v s s' \<and> ac_id a' = 0 \<and> ac_used a' = 0 \<and> ac_quota a' = 40000000 \<and>
       ac_password a' = ac_password a"
proof -
  let ?a = "a\<lparr>ac_created_at := now, ac_updated_at := now,
    ac_quota := (if ac_quota a = 0 then 40000000 else ac_quota a)\<rparr>"
  obtain r where r: "co_insert_one (db_accounts db) ?a s = (r, s')"
    "(err, a') = (case r of Inl e \<Rightarrow> (Some (duplicate_error e), ?a) | Inr i \<Rightarrow> (None, ?a\<lparr>ac_id := i\<rparr>))"
    using run unfolding create_account_def Let_def by (auto split: prod.splits sum.splits)
  note L = insert_law [OF accounts_laws(1) [OF laws] r(1)]
  have q: "ac_quota ?a = 40000000" using a(3) by auto
  show "opens v (ac_address a) (ac_password a) a' s s'" if "err = None"
  proof (cases r)
    case (Inr i)
    have "a' = ?a\<lparr>ac_id := i\<rparr>" using r(2) unfolding Inr sum.case by simp
    moreover have "inserts account_schema ?a i (in_accounts v s) (in_accounts v s')" using L(2) unfolding Inr by simp
    ultimately show ?thesis
      using L(1) a q unfolding opens_def inserts_def by (simp add: Let_def)
  qed (use r(2) that in simp)
  show "same_contents v s s' \<and> ac_id a' = 0 \<and> ac_used a' = 0 \<and> ac_quota a' = 40000000 \<and>
       ac_password a' = ac_password a" if "err = Some ErrDuplicateKey"
  proof (cases r)
    case (Inl e)
    then have "e = DuplicateKeyError" "a' = ?a"
      using r(2) that by (auto simp: duplicate_error_def split: if_splits)
    then show ?thesis using L(1,2) a q unfolding Inl same_contents_def by auto
  qed (use r(2) that in simp)
qed

lemma create_retry_effect:
  assumes laws: "database_laws (ae_db env) v" and draw: "draw_law (ae_draw env)"
  shows "create_retry env clk domain n a st = (Created a', st') \<Longrightarrow>
    ac_id a = 0 \<Longrightarrow> ac_used a = 0 \<Longrightarrow> ac_quota a = 40000000 \<Longrightarrow>
    as_domains st' = as_domains st \<and>
    (\<exists>p. local_part p \<and> opens v (to_lower (p @ ''@'' @ domain)) (ac_password a) a' (db_state st) (db_state st'))"
proof (induction n arbitrary: a st)
  case (Suc n)
  obtain addr g where gen: "run_state (generate_for_domain (ae_draw env) domain) (as_rand st) = (addr, g)" by fastforce
  from pred_stateD [OF pred_state_generate_for_domain [OF draw] this]
  obtain p where p: "addr = p @ ''@'' @ domain" "local_part p" by blast
  obtain err b s' where cr: "create_account (ae_db env) (clk n) (a\<lparr>ac_address := to_lower addr\<rparr>) (db_state st) = (err, b, s')"
    by (cases "create_account (ae_db env) (clk n) (a\<lparr>ac_address := to_lower addr\<rparr>) (db_state st)") auto
  note C = create_account_effect [OF laws cr]
  note step = Suc.prems(1) [unfolded create_retry.simps Let_def gen prod.case cr]
  show ?case
  proof (cases err)
    case None
    then show ?thesis using step C(1) Suc.prems(2-4) p by auto
  next
    case (Some e)
    then have e: "e = ErrDuplicateKey" and rec: "create_retry env clk domain n b (set_db s' (st\<lparr>as_rand := g\<rparr>)) = (Created a', st')"
      using step by (auto split: if_splits)
    then have B: "same_contents v (db_state st) s'" "ac_id b = 0" "ac_used b = 0" "ac_quota b = 40000000"
      "ac_password b = ac_password a"
      using C(2) Suc.prems(2-4) Some by auto
    from Suc.IH [OF rec B(2-4)] show ?thesis using same_contents_trans(2) [OF B(1)] B(5) by auto
  qed
qed simp

lemma insert_account_effect:
  assumes laws: "database_laws (ae_db env) v" and draw: "draw_law (ae_draw env)"
    and run: "insert_account env clk domain a st = (Created a', st')"
    and a: "ac_id a = 0" "ac_used a = 0" "ac_quota a = 0"
  shows "as_domains st' = as_domains st \<and> (\<exists>addr. (addr = ac_address a \<or>
      domain \<noteq> [] \<and> (\<exists>p. local_part p \<and> addr = to_lower (p @ ''@'' @ domain))) \<and>
    opens v addr (ac_password a) a' (db_state st) (db_state st'))"
proof -
  obtain err b s' where cr: "create_account (ae_db env) (clk 5) a (db_state st) = (err, b, s')"
    by (cases "create_account (ae_db env) (clk 5) a (db_state st)") auto
  note C = create_account_effect [OF laws cr a(1,2)]
  note step = run [unfolded insert_account_def Let_def cr prod.case]
  show ?thesis
  proof (cases err)
    case None
    then show ?thesis using step C(1) a by auto
  next
    case (Some e)
    then have e: "e = ErrDuplicateKey" and d: "domain \<noteq> []"
      and rec: "create_retry env clk domain 5 b (set_db s' st) = (Created a', st')"
      using step by (auto split: if_splits)
    then have B: "same_contents v (db_state st) s'" "ac_id b = 0" "ac_used b = 0" "ac_quota b = 40000000"
      "ac_password b = ac_password a"
      using C(2) a Some by auto
    from create_retry_effect [OF laws draw rec B(2-4)] show ?thesis
      using same_contents_trans(2) [OF B(1)] B(5) d by auto
  qed
qed

lemma check_domain_granted:
  assumes "check_domain env now cx unavailable domain st = (None, st')"
  shows "db_state st' = db_state st"
    "\<exists>e d. as_domains st' = Some e \<and> dce_domain_map e (to_lower domain) = Some d \<and>
       (dm_is_private d \<longrightarrow> is_domain_explicitly_allowed cx domain)"
  using assms
  by (auto simp: check_domain_def get_domain_info_def get_domain_cache_def Let_def
      split: prod.splits sum.splits option.splits if_splits)

lemma index_byte_to_lower [simp]: "index_byte (to_lower s) (CHR ''@'') = index_byte s (CHR ''@'')"
  by (induction s) (simp_all add: to_lower_def)

lemma to_lower_append: "to_lower (s @ t) = to_lower s @ to_lower t"
  by (simp add: to_lower_def)

lemma address_parts:
  assumes "local_part p"
  shows "index_byte (to_lower (p @ ''@'' @ domain)) (CHR ''@'') = Some (length p)"
    "drop (Suc (length p)) (to_lower (p @ ''@'' @ domain)) = to_lower domain" "3 \<le> length p"
proof -
  show "index_byte (to_lower (p @ ''@'' @ domain)) (CHR ''@'') = Some (length p)"
    unfolding index_byte_to_lower using local_part_chars(2) [OF assms] by (simp add: index_byte_append)
  show "drop (Suc (length p)) (to_lower (p @ ''@'' @ domain)) = to_lower domain" "3 \<le> length p"
    using assms by (simp_all add: to_lower_def local_part_def)
qed

text \<open>What a request that is answered with an account has passed.\<close>

lemma create_account_passed:
  assumes "create_account_handler env h clk cx (Some req0) st = (Success status a, st')"
  obtains req g i st2 st3 hashed st4 where
    "(req, g) = (if cr_address req0 = []
       then (let d = to_lower (cr_domain req0); (addr, g) = run_state (generate_for_domain (ae_draw env) d) (as_rand st)
             in (req0\<lparr>cr_domain := d, cr_address := addr\<rparr>, g))
       else (req0, as_rand st))"
    "cr_address req0 = [] \<Longrightarrow> cr_domain req0 \<noteq> []"
    "index_byte (cr_address req) (CHR ''@'') = Some i" "3 \<le> i"
    "is_domain_allowed cx (to_lower (drop (Suc i) (cr_address req)))" "db_state st2 = db_state st"
    "check_domain env (clk 8) cx 400 (to_lower (drop (Suc i) (cr_address req))) st2 = (None, st3)"
    "ae_bcrypt_hash env (cr_password req) = Inr hashed"
    "insert_account env clk (cr_domain req)
       (empty_account\<lparr>ac_address := to_lower (cr_address req), ac_password := hashed\<rparr>) st3 = (Created a, st4)"
    "status = 201" "db_state st' = db_state st4" "as_domains st' = as_domains st4"
proof -
  define choice where "choice = (if cr_address req0 = []
       then (let d = to_lower (cr_domain req0); (addr, g) = run_state (generate_for_domain (ae_draw env) d) (as_rand st)
             in (req0\<lparr>cr_domain := d, cr_address := addr\<rparr>, st\<lparr>as_rand := g\<rparr>))
       else (req0, st))"
  obtain req st1 where c: "choice = (req, st1)" by fastforce
  have ne: "\<not> (cr_address req0 = [] \<and> cr_domain req0 = [])"
    using assms by (auto simp: create_account_handler_def)
  note R = assms [unfolded create_account_handler_def option.case if_not_P [OF ne], folded choice_def,
      unfolded c Let_def prod.case]
  obtain i where i: "index_byte (cr_address req) (CHR ''@'') = Some i" "3 \<le> i"
    "is_domain_allowed cx (to_lower (drop (Suc i) (cr_address req)))"
    using R by (cases "index_byte (cr_address req) (CHR ''@'')") (simp_all split: if_splits)
  obtain ok c2 where ok: "check_domain_rate_limit (\<lambda>(k, d). check_key_domain_rate_limit (ae_redis env) k d)
      (clk 6, clk 7) cx (to_lower (drop (Suc i) (cr_address req))) (as_cache st1) = (ok, c2)" by fastforce
  obtain res st3 where res: "check_domain env (clk 8) cx 400 (to_lower (drop (Suc i) (cr_address req)))
      (st1\<lparr>as_cache := c2\<rparr>) = (res, st3)" by fastforce
  have nlt: "\<not> i < 3" using i(2) by simp
  note R2 = R [unfolded i(1) option.case if_not_P [OF nlt] ok prod.case]
  have ok': "ok" "res = None" using R2 i(3) res by (auto split: if_splits option.splits)
  obtain hashed where hashed: "with_bcrypt_permit env st3 (ae_bcrypt_hash env (cr_password req)) = Inr hashed"
    using R2 i(3) ok' res
    by (cases "with_bcrypt_permit env st3 (ae_bcrypt_hash env (cr_password req))") (auto split: bcrypt_error.splits)
  have hash: "ae_bcrypt_hash env (cr_password req) = Inr hashed"
    using hashed by (auto simp: with_bcrypt_permit_def split: permit.splits sum.splits)
  obtain r st4 where ins: "insert_account env clk (cr_domain req)
       (empty_account\<lparr>ac_address := to_lower (cr_address req), ac_password := hashed\<rparr>) st3 = (r, st4)" by fastforce
  have fin: "r = Created a" "status = 201" "db_state st' = db_state st4" "as_domains st' = as_domains st4"
    using R2 i(3) ok' res hashed ins by (auto split: created.splits)
  have st1: "db_state (st1\<lparr>as_cache := c2\<rparr>) = db_state st"
    using c by (auto simp: choice_def Let_def split: if_splits prod.splits)
  have req: "(req, as_rand st1) = (if cr_address req0 = []
       then (let d = to_lower (cr_domain req0); (addr, g) = run_state (generate_for_domain (ae_draw env) d) (as_rand st)
             in (req0\<lparr>cr_domain := d, cr_address := addr\<rparr>, g))
       else (req0, as_rand st))"
    using c by (auto simp: choice_def Let_def split: if_splits prod.splits)
  show thesis
    by (rule that [OF req _ i st1 res [unfolded ok'(2)] hash ins [unfolded fin(1)] fin(2-4)]) (use ne in simp)
qed


definition example_redis :: "unit redis_api" where
  "example_redis =
     \<lparr>rd_eval = (\<lambda>f r. (Inr (fst (f r)), snd (f r))), rd_incr = (\<lambda>k r. (1, r)), rd_pexpire = (\<lambda>k n r. r),
      rd_pttl = (\<lambda>k r. Inr 1), rd_set = (\<lambda>k x t r. (None, r)), rd_exists = (\<lambda>k r. Inr 0), rd_del = (\<lambda>k r. (None, r))\<rparr>"

definition example_env :: "(tables, unit, nat) api_env" where
  "example_env =
     \<lparr>ae_db = mem_database, ae_redis = example_redis, ae_draw = (\<lambda>n. State (\<lambda>g. (g mod n, Suc g))),
      ae_get_object = (\<lambda>k s. None), ae_delete_by_message = (\<lambda>m s. s), ae_slot_free = (\<lambda>s. True), ae_permit = (\<lambda>s. Granted),
      ae_bcrypt_hash = (\<lambda>p. Inr (rev p)), ae_bcrypt_compare = (\<lambda>h p. h = rev p), ae_auth = new_auth [] hour,
      ae_numeric_date = (\<lambda>t. t), ae_sign = (\<lambda>k c. Inr (cl_account_id c))\<rparr>"

definition example_domain :: "string \<Rightarrow> mail_domain" where
  "example_domain name = \<lparr>dm_id = 1, dm_domain = name, dm_is_active = True, dm_is_private = False,
     dm_created_at = 0, dm_updated_at = 0\<rparr>"

definition example_state :: "(tables, unit, nat) api_state" where
  "example_state =
     \<lparr>as_store = \<lparr>so_db = ([example_domain ''ok.com''],
          [empty_account\<lparr>ac_id := 3, ac_address := ''bob@ok.com''\<rparr>], []), so_counts = Map.empty, so_last_sweep = 0\<rparr>,
      as_cache = \<lparr>ca_redis = (), ca_blocked = None\<rparr>, as_rand = 0, as_domains = None\<rparr>"

definition example_context :: req_context where
  "example_context = fresh_context\<lparr>cx_api_key_domains := Some [''ok.com'']\<rparr>"

definition example_request :: "string \<Rightarrow> string \<Rightarrow> create_account_request option" where
  "example_request address domain = Some \<lparr>cr_address = address, cr_domain = domain, cr_password = ''secret''\<rparr>"

definition created_address :: "account response \<times> ('s, 'r, 'g) api_state \<Rightarrow> string option" where
  "created_address r = (case fst r of Success n a \<Rightarrow> Some (ac_address a) | Failure n t \<Rightarrow> None)"

lemma example_draw_law: "draw_law (ae_draw example_env)"
  by (auto simp: draw_law_def example_env_def)

lemma example_creation:
  "created_address (create_account_handler example_env (new_handler 1 hour Map.empty 0 0 False) (\<lambda>_. second)
     example_context (example_request ''Amy@ok.com'' []) example_state) = Some ''amy@ok.com''"
  by code_simp

text \<open>
  An address that is taken, with a domain that is neither allowed nor configured: the answer is an account
  at that domain.
\<close>

lemma create_account_replaces_explicit_address:
  "(case created_address (create_account_handler example_env (new_handler 1 hour Map.empty 0 0 False) (\<lambda>_. second)
     example_context (example_request ''bob@ok.com'' ''evil.com'') example_state) of
      Some addr \<Rightarrow> has_suffix addr ''@evil.com'' | None \<Rightarrow> False) \<and>
   \<not> is_domain_allowed example_context ''evil.com''"
  by code_simp


end
