(* ===== verification/MessageApi.thy ===== *)
theory MessageApi
  imports Handler Listing Utf8
begin

text \<open>
  \<open>message.go\<close> and \<open>message_bulk.go\<close> of \<open>internal/handler\<close>: listing, reading, flagging, deleting and
  downloading messages. The account is the one \<open>BearerAuth\<close> put into the context. The asynchronous
  correction of \<open>used\<close> after a bulk deletion runs at the end of the request.
\<close>

section \<open>Responses\<close>

text \<open>What a handler answers with: messages, a file or counts.\<close>

datatype message_body =
    OneMessage message
  | MessagePage "message hydra_collection"
  | FileBody string string bytes
  | Modified int
  | Deleted int int bool "bool option"
  | DeletedByIds int int
  | NoContent

definition download_url :: "'s database \<Rightarrow> message \<Rightarrow> message" where
  "download_url db m = m\<lparr>ms_download_url := ''/messages/'' @ db_hex db (ms_id m) @ ''/download''\<rparr>"

text \<open>Optional query parameters; \<^const>\<open>None\<close> is the answer 400.\<close>

definition seen_query :: "string \<Rightarrow> bool option option" where
  "seen_query q =
     (let s = trim_space q in if s = [] then Some None else (case parse_bool s of None \<Rightarrow> None | Some v \<Rightarrow> Some (Some v)))"

text \<open>\<open>v, _ := strconv.Atoi(...)\<close>: zero for a syntax error, the nearest value for one out of range.\<close>

definition atoi_value :: "string \<Rightarrow> int" where
  "atoi_value s =
     (let neg = has_prefix s ''-'';
          body = (if neg \<or> has_prefix s ''+'' then drop 1 s else s)
      in if body = [] \<or> \<not> list_all is_digit body then 0
         else (case parse_int s of Some n \<Rightarrow> n | None \<Rightarrow> if neg then - (2 ^ 63) else 2 ^ 63 - 1))"

section \<open>Listing\<close>

record list_query_params =
  lq_cursor :: string
  lq_after :: string
  lq_items_per_page :: string
  lq_page :: string
  lq_seen :: string

definition list_page ::
  "('s, 'r, 'g) api_env \<Rightarrow> time \<times> time \<times> time \<Rightarrow> object_id \<Rightarrow> list_query_params \<Rightarrow> string \<Rightarrow> int \<Rightarrow> bool option
     \<Rightarrow> 's store \<Rightarrow> (int \<times> string + message list \<times> int) \<times> 's store" where
  "list_page env clk oid q cursor per_page seen st =
     (if cursor \<noteq> []
      then
        (case (if seen \<noteq> None then list_messages_after_filtered (ae_db env) clk oid cursor per_page seen st
               else list_messages_after (ae_db env) clk oid cursor per_page st) of
           (Inl err, st') \<Rightarrow>
             (Inl (if err = ErrInvalidID then (400, ''invalid cursor'')
                   else if err = ErrNotFound then (404, ''cursor not found'')
                   else (500, ''failed to list messages'')), st')
         | (Inr r, st') \<Rightarrow> (Inr r, st'))
      else
        (let p = atoi_value (if lq_page q = [] then ''1'' else lq_page q); page = (if p < 1 then 1 else p) in
         case (if seen \<noteq> None then list_messages_filtered (ae_db env) clk oid page per_page seen st
               else list_messages (ae_db env) clk oid page per_page st) of
           (Inl err, st') \<Rightarrow> (Inl (500, ''failed to list messages''), st')
         | (Inr r, st') \<Rightarrow> (Inr r, st')))"

definition list_messages_handler ::
  "('s, 'r, 'g) api_env \<Rightarrow> time \<times> time \<times> time \<Rightarrow> req_context \<Rightarrow> list_query_params
     \<Rightarrow> ('s, 'r, 'g) api_state \<Rightarrow> message_body response \<times> ('s, 'r, 'g) api_state" where
  "list_messages_handler env clk cx q st =
     (case db_from_hex (ae_db env) (get_string (cx_account_id cx)) of
        None \<Rightarrow> (Failure 400 ''invalid account'', st)
      | Some oid \<Rightarrow>
          (let c = trim_space (lq_cursor q); cursor = (if c = [] then trim_space (lq_after q) else c);
               n = atoi_value (if lq_items_per_page q = [] then ''30'' else lq_items_per_page q);
               per_page = (if n < 1 \<or> 100 < n then 30 else n)
           in case seen_query (lq_seen q) of
                None \<Rightarrow> (Failure 400 ''invalid seen filter'', st)
              | Some seen \<Rightarrow>
                  (case list_page env clk oid q cursor per_page seen (as_store st) of
                     (Inl (status, text), so) \<Rightarrow> (Failure status text, st\<lparr>as_store := so\<rparr>)
                   | (Inr (messages0, total_items), so) \<Rightarrow>
                       (let messages = map (download_url (ae_db env)) messages0 in
                        (Success 200 (MessagePage
                           \<lparr>hc_context = ''/contexts/Message'', hc_id = ''/messages'', hc_type = ''hydra:Collection'',
                            hc_total_items = total_items, hc_member = messages,
                            hc_next_cursor = next_cursor (ae_db env) messages\<rparr>), st\<lparr>as_store := so\<rparr>)))))"

section \<open>One message\<close>

text \<open>The message a request is about, if it exists and belongs to the caller.\<close>

definition owned_message ::
  "('s, 'r, 'g) api_env \<Rightarrow> req_context \<Rightarrow> store_error + message \<Rightarrow> (int \<times> string) + message" where
  "owned_message env cx r =
     (case r of
        Inl err \<Rightarrow> Inl (if err = ErrNotFound \<or> err = ErrInvalidID then (404, ''message not found'')
                        else (500, ''internal error''))
      | Inr m \<Rightarrow> if db_hex (ae_db env) (ms_account_id m) \<noteq> get_string (cx_account_id cx)
                 then Inl (403, ''access denied'') else Inr m)"

definition get_message_handler ::
  "('s, 'r, 'g) api_env \<Rightarrow> req_context \<Rightarrow> string \<Rightarrow> ('s, 'r, 'g) api_state \<Rightarrow> message_body response" where
  "get_message_handler env cx i st =
     (case owned_message env cx (get_message (ae_db env) i (db_state st)) of
        Inl (status, text) \<Rightarrow> Failure status text
      | Inr m \<Rightarrow> Success 200 (OneMessage (download_url (ae_db env) m)))"

definition update_message_handler ::
  "('s, 'r, 'g) api_env \<Rightarrow> handler \<Rightarrow> time \<Rightarrow> req_context \<Rightarrow> string \<Rightarrow> update_message_request option
     \<Rightarrow> ('s, 'r, 'g) api_state \<Rightarrow> message_body response \<times> ('s, 'r, 'g) api_state" where
  "update_message_handler env h now cx i body st =
     (case owned_message env cx (get_message_meta (ae_db env) i (db_state st)) of
        Inl (status, text) \<Rightarrow> (Failure status text, st)
      | Inr m \<Rightarrow>
          (case body of
             None \<Rightarrow> (Failure 400 ''invalid request'', st)
           | Some req \<Rightarrow>
               if ur_keep req \<noteq> None \<and> \<not> hd_allow_message_keep h
               then (Failure 403 ''message keep is disabled'', st)
               else
                 (let seen_to_set = (case ur_seen req of None \<Rightarrow> None | Some b \<Rightarrow> if ms_seen m \<noteq> b then Some b else None);
                      keep_to_set = (case ur_keep req of None \<Rightarrow> None | Some b \<Rightarrow> if ms_keep m \<noteq> b then Some b else None)
                  in if seen_to_set \<noteq> None \<or> keep_to_set \<noteq> None
                     then
                       (case update_message_flags (ae_db env) now i seen_to_set keep_to_set (db_state st) of
                          (Some err, s') \<Rightarrow>
                            (if err = ErrNotFound \<or> err = ErrInvalidID then Failure 404 ''message not found''
                             else Failure 500 ''failed to update message'', set_db s' st)
                        | (None, s') \<Rightarrow>
                            (Success 200 (OneMessage (download_url (ae_db env)
                               (m\<lparr>ms_seen := (case seen_to_set of Some b \<Rightarrow> b | None \<Rightarrow> ms_seen m),
                                  ms_keep := (case keep_to_set of Some b \<Rightarrow> b | None \<Rightarrow> ms_keep m)\<rparr>))), set_db s' st))
                     else (Success 200 (OneMessage (download_url (ae_db env) m)), st))))"

definition delete_message_handler ::
  "('s, 'r, 'g) api_env \<Rightarrow> time \<times> time \<Rightarrow> req_context \<Rightarrow> string
     \<Rightarrow> ('s, 'r, 'g) api_state \<Rightarrow> message_body response \<times> ('s, 'r, 'g) api_state" where
  "delete_message_handler env clk cx i st =
     (case owned_message env cx (get_message_meta (ae_db env) i (db_state st)) of
        Inl (status, text) \<Rightarrow> (Failure status text, st)
      | Inr m \<Rightarrow>
          (case delete_message (ae_db env) (fst clk) i (db_state st) of
             (Some err, s1) \<Rightarrow> (Failure 500 ''failed to delete message'', set_db s1 st)
           | (None, s1) \<Rightarrow>
               (let s2 = snd (update_account_used (ae_db env) (snd clk) (ms_account_id m) (- ms_size m) s1) in
                (Success 204 NoContent, api_storage_cleanup env i (set_db s2 st)))))"


section \<open>Downloads\<close>

text \<open>\<open>strings.TrimSpace\<close> and \<open>strings.Map\<close> see runes; an invalid byte comes out as U+FFFD.\<close>

definition trim_runes :: "nat list \<Rightarrow> nat list" where
  "trim_runes rs = rev (dropWhile unicode_is_space (rev (dropWhile unicode_is_space rs)))"

definition unicode_is_control :: "nat \<Rightarrow> bool" where
  "unicode_is_control r \<longleftrightarrow> r < 0x20 \<or> 0x7F \<le> r \<and> r \<le> 0x9F"

definition clean_runes :: "nat list \<Rightarrow> nat list" where
  "clean_runes rs =
     map (\<lambda>r. if r = 0x2F \<or> r = 0x5C then 0x5F else r)
       (filter (\<lambda>r. r = 0x2F \<or> r = 0x5C \<or> \<not> unicode_is_control r)
         (filter (\<lambda>r. r \<notin> {0x0D, 0x0A, 0}) rs))"

definition sanitize_filename_for_header :: "string \<Rightarrow> string \<Rightarrow> string" where
  "sanitize_filename_for_header filename fallback =
     (let rs0 = trim_runes (runes (bytes_of filename)) in
      if rs0 = [] then fallback
      else
        (let rs1 = trim_runes (clean_runes rs0) in
         if rs1 = [] then fallback
         else
           (let rs2 = (if 200 < length rs1 then trim_runes (take 200 rs1) else rs1) in
            if rs2 = [] then fallback else string_of (concat (map encode_rune rs2)))))"

text \<open>\<open>mime.FormatMediaType\<close> for the single parameter \<open>filename\<close> (RFC 2045, RFC 2231).\<close>

definition t_special :: "char \<Rightarrow> bool" where
  "t_special c \<longleftrightarrow> c \<in> set ''()<>@,;:/[]?='' \<or> c = CHR 0x22 \<or> c = CHR 0x5C"

definition media_token :: "string \<Rightarrow> bool" where
  "media_token s \<longleftrightarrow> s \<noteq> [] \<and>
     list_all (\<lambda>c. 0x20 < (of_char c :: nat) \<and> (of_char c :: nat) < 0x7F \<and> \<not> t_special c) s"

definition upper_hex :: "nat \<Rightarrow> char" where
  "upper_hex n = (if n < 10 then char_of (48 + n) else char_of (55 + n))"

definition percent_encode :: "char \<Rightarrow> string" where
  "percent_encode c =
     (let n = of_char c :: nat in
      if n \<le> 0x20 \<or> 0x7F \<le> n \<or> c = CHR ''*'' \<or> c = CHR 0x27 \<or> c = CHR ''%'' \<or> t_special c
      then [CHR ''%'', upper_hex (n div 16), upper_hex (n mod 16)] else [c])"

definition format_attachment :: "string \<Rightarrow> string" where
  "format_attachment filename =
     (let needs_encoding = list_ex (\<lambda>c. ((of_char c :: nat) < 0x20 \<or> 0x7E < (of_char c :: nat)) \<and> of_char c \<noteq> (9 :: nat)) filename
      in ''attachment; filename'' @
         (if needs_encoding then ''*=utf-8'' @ [CHR 0x27, CHR 0x27] @ concat (map percent_encode filename)
          else ''='' @
            (if media_token filename then filename
             else [CHR 0x22] @
               concat (map (\<lambda>c. if c = CHR 0x22 \<or> c = CHR 0x5C then [CHR 0x5C, c] else [c]) filename) @ [CHR 0x22])))"

definition content_disposition_attachment :: "string \<Rightarrow> string" where
  "content_disposition_attachment filename = format_attachment (sanitize_filename_for_header filename ''attachment'')"

definition download_message ::
  "('s, 'r, 'g) api_env \<Rightarrow> req_context \<Rightarrow> string \<Rightarrow> ('s, 'r, 'g) api_state \<Rightarrow> message_body response" where
  "download_message env cx i st =
     (case owned_message env cx (get_message_raw (ae_db env) i (db_state st)) of
        Inl (status, text) \<Rightarrow> Failure status text
      | Inr m \<Rightarrow>
          (let disposition = content_disposition_attachment (i @ ''.eml'') in
           if 0 < length (ms_raw_message m) then Success 200 (FileBody disposition ''message/rfc822'' (ms_raw_message m))
           else
             (case open_raw_message (ae_get_object env) i (db_state st) of
                None \<Rightarrow> Failure 404 ''source not available''
              | Some (content, content_type) \<Rightarrow> Success 200 (FileBody disposition content_type content))))"

definition download_attachment ::
  "('s, 'r, 'g) api_env \<Rightarrow> req_context \<Rightarrow> string \<Rightarrow> string \<Rightarrow> ('s, 'r, 'g) api_state \<Rightarrow> message_body response" where
  "download_attachment env cx i attachment_id st =
     (case owned_message env cx (get_message_meta (ae_db env) i (db_state st)) of
        Inl (status, text) \<Rightarrow> Failure status text
      | Inr m \<Rightarrow>
          (case find (\<lambda>a. at_id a = attachment_id) (ms_attachments m) of
             None \<Rightarrow> Failure 404 ''attachment not found''
           | Some att \<Rightarrow>
               (case open_object (ae_get_object env) i attachment_id (at_filename att) (db_state st) of
                  None \<Rightarrow> Failure 500 ''failed to download attachment''
                | Some (content, content_type) \<Rightarrow>
                    Success 200 (FileBody (content_disposition_attachment (at_filename att)) content_type content))))"

section \<open>Many messages\<close>

record bulk_update_request =
  bu_ids :: "string list"
  bu_all :: bool
  bu_seen :: "bool option"
  bu_keep :: "bool option"

definition bulk_update_messages ::
  "('s, 'r, 'g) api_env \<Rightarrow> handler \<Rightarrow> time \<Rightarrow> req_context \<Rightarrow> bulk_update_request option
     \<Rightarrow> ('s, 'r, 'g) api_state \<Rightarrow> message_body response \<times> ('s, 'r, 'g) api_state" where
  "bulk_update_messages env h now cx body st =
     (case db_from_hex (ae_db env) (get_string (cx_account_id cx)) of
        None \<Rightarrow> (Failure 400 ''invalid account'', st)
      | Some oid \<Rightarrow>
          (case body of
             None \<Rightarrow> (Failure 400 ''invalid request'', st)
           | Some req \<Rightarrow>
               if bu_seen req = None \<and> bu_keep req = None
               then (Failure 400 ''at least one of seen/keep is required'', st)
               else if bu_keep req \<noteq> None \<and> \<not> hd_allow_message_keep h
               then (Failure 403 ''message keep is disabled'', st)
               else if \<not> bu_all req \<and> length (bu_ids req) = 0
               then (Failure 400 ''ids is required unless all=true'', st)
               else if bu_all req \<and> 0 < length (bu_ids req)
               then (Failure 400 ''ids must be empty when all=true'', st)
               else if 2000 < length (bu_ids req)
               then (Failure 400 ''too many ids (max 2000)'', st)
               else
                 (case (if bu_all req
                        then bulk_update_message_flags_by_account (ae_db env) now oid (bu_seen req) (bu_keep req) (db_state st)
                        else bulk_update_message_flags_by_ids (ae_db env) now oid (bu_ids req) (bu_seen req) (bu_keep req)
                               (db_state st)) of
                    (Inl err, s') \<Rightarrow>
                      (if err = ErrInvalidID then Failure 400 ''invalid id'' else Failure 500 ''failed to update messages'',
                       set_db s' st)
                  | (Inr modified, s') \<Rightarrow> (Success 200 (Modified modified), set_db s' st))))"

text \<open>What follows a bulk deletion: release of the quota, correction of \<open>used\<close>, cleanup of the objects.\<close>

definition after_bulk_delete ::
  "('s, 'r, 'g) api_env \<Rightarrow> time \<times> time \<Rightarrow> object_id \<Rightarrow> string list \<Rightarrow> int \<Rightarrow> ('s, 'r, 'g) api_state
     \<Rightarrow> ('s, 'r, 'g) api_state" where
  "after_bulk_delete env clk oid ids total_size st =
     (let st1 = (if total_size \<noteq> 0
                 then set_db (snd (update_account_used (ae_db env) (fst clk) oid (- total_size) (db_state st))) st else st);
          st2 = (if 0 < length ids
                 then set_db (snd (recalculate_account_used (ae_db env) (snd clk) oid (db_state st1))) st1 else st1)
      in foldl (\<lambda>st i. api_storage_cleanup env i st) st2 ids)"

definition delete_messages ::
  "('s, 'r, 'g) api_env \<Rightarrow> (nat \<Rightarrow> time) \<times> time \<times> time \<Rightarrow> req_context \<Rightarrow> string \<Rightarrow> string
     \<Rightarrow> ('s, 'r, 'g) api_state \<Rightarrow> message_body response \<times> ('s, 'r, 'g) api_state" where
  "delete_messages env clk cx seen_q limit_q st =
     (case db_from_hex (ae_db env) (get_string (cx_account_id cx)) of
        None \<Rightarrow> (Failure 400 ''invalid account'', st)
      | Some oid \<Rightarrow>
          (case seen_query seen_q of
             None \<Rightarrow> (Failure 400 ''invalid seen filter'', st)
           | Some seen_filter \<Rightarrow>
               (case (if trim_space limit_q = [] then Some 5000 else parse_int (trim_space limit_q)) of
                  None \<Rightarrow> (Failure 400 ''invalid limit'', st)
                | Some limit0 \<Rightarrow>
                    (let limit = (if limit0 < 1 then 1 else limit0); limit = (if 20000 < limit then 20000 else limit) in
                     case soft_delete_messages_by_account (ae_db env) (fst clk) oid seen_filter limit (db_state st) of
                       (Inl err, s') \<Rightarrow> (Failure 500 ''failed to delete messages'', set_db s' st)
                     | (Inr (ids, total_size), s') \<Rightarrow>
                         (Success 200 (Deleted (int (length ids)) total_size (int (length ids) = limit) seen_filter),
                          after_bulk_delete env (snd clk) oid ids total_size (set_db s' st))))))"

definition bulk_delete_messages_by_ids ::
  "('s, 'r, 'g) api_env \<Rightarrow> time \<times> time \<times> time \<Rightarrow> req_context \<Rightarrow> string list option
     \<Rightarrow> ('s, 'r, 'g) api_state \<Rightarrow> message_body response \<times> ('s, 'r, 'g) api_state" where
  "bulk_delete_messages_by_ids env clk cx body st =
     (case db_from_hex (ae_db env) (get_string (cx_account_id cx)) of
        None \<Rightarrow> (Failure 400 ''invalid account'', st)
      | Some oid \<Rightarrow>
          (case body of
             None \<Rightarrow> (Failure 400 ''invalid request'', st)
           | Some req_ids \<Rightarrow>
               if length req_ids = 0 then (Failure 400 ''ids is required'', st)
               else if 2000 < length req_ids then (Failure 400 ''too many ids (max 2000)'', st)
               else
                 (case soft_delete_messages_by_ids (ae_db env) (fst clk) oid req_ids (db_state st) of
                    (Inl err, s') \<Rightarrow>
                      (if err = ErrInvalidID then Failure 400 ''invalid id'' else Failure 500 ''failed to delete messages'',
                       set_db s' st)
                  | (Inr (ids, total_size), s') \<Rightarrow>
                      (Success 200 (DeletedByIds (int (length ids)) total_size),
                       after_bulk_delete env (snd clk) oid ids total_size (set_db s' st)))))"

end
