(* ===== verification/Isolation.thy ===== *)
theory Isolation
  imports MessageApi AccountScope
begin

text \<open>
  The requests about messages and what they may touch: the routes under \<open>/messages\<close> as one function
  (\<open>serve_messages\<close>) and the proof that each stays within the account of its caller, for every behaviour of the
  database its laws allow, failures included.
\<close>

section \<open>What belongs to others\<close>

definition others_same :: "'s contents \<Rightarrow> object_id \<Rightarrow> 's \<Rightarrow> 's \<Rightarrow> bool" where
  "others_same v acc s s' \<longleftrightarrow>
     filter (\<lambda>m. ms_account_id m \<noteq> acc) (in_messages v s') = filter (\<lambda>m. ms_account_id m \<noteq> acc) (in_messages v s) \<and>
     filter (\<lambda>a. ac_id a \<noteq> acc) (in_accounts v s') = filter (\<lambda>a. ac_id a \<noteq> acc) (in_accounts v s) \<and>
     in_domains v s' = in_domains v s"

lemma others_refl [simp]: "others_same v acc s s"
  by (simp add: others_same_def)

lemma others_trans: "others_same v acc s t \<Longrightarrow> others_same v acc t u \<Longrightarrow> others_same v acc s u"
  by (simp add: others_same_def)

lemma apply_update_keeps:
  "ms_account_id (apply_update message_schema us m) = ms_account_id m"
  "ms_id (apply_update message_schema us m) = ms_id m" "ac_id (apply_update account_schema us a) = ac_id a"
proof -
  have field: "ms_account_id (set_message_field k x m) = ms_account_id m" "ms_id (set_message_field k x m) = ms_id m"
    "ac_id (set_account_field k x a) = ac_id a" for k x m a
    by (simp_all add: set_message_field_def set_account_field_def split: bson_value.split)
  have op: "ms_account_id (apply_op message_schema u m) = ms_account_id m" "ms_id (apply_op message_schema u m) = ms_id m"
    "ac_id (apply_op account_schema u a) = ac_id a" for u m a
    by (cases u; simp add: apply_op_def field split: option.split)+
  show "ms_account_id (apply_update message_schema us m) = ms_account_id m"
    "ms_id (apply_update message_schema us m) = ms_id m"
    by (induction us arbitrary: m) (simp_all add: op)
  show "ac_id (apply_update account_schema us a) = ac_id a"
    by (induction us arbitrary: a) (simp_all add: op)
qed

lemma update_one_others:
  assumes "collection_laws sc docs frame co" "co_update_one co f us s = (r, s')"
    and "\<forall>x \<in> set (docs s). matches f (sc_fields sc x) \<longrightarrow> P x \<and> P (apply_update sc us x)"
  shows "filter (\<lambda>x. \<not> P x) (docs s') = filter (\<lambda>x. \<not> P x) (docs s)" "frame s' = frame s"
proof -
  show "frame s' = frame s" by (rule update_one_law(1) [OF assms(1,2)])
  have "docs s' = docs s \<or> updates_one sc f us (docs s) (docs s')"
    using update_one_law(2) [OF assms(1,2)] by (auto split: sum.splits if_splits)
  then show "filter (\<lambda>x. \<not> P x) (docs s') = filter (\<lambda>x. \<not> P x) (docs s)"
    using assms(3) by (auto simp: updates_one_def)
qed

lemma list_all2_filter:
  "list_all2 (\<lambda>x y. y = x \<or> P x \<and> P y) xs ys \<Longrightarrow> filter (\<lambda>x. \<not> P x) ys = filter (\<lambda>x. \<not> P x) xs"
  by (induction rule: list_all2_induct) auto

lemma update_many_others:
  assumes "collection_laws sc docs frame co" "co_update_many co f us s = (r, s')"
    and P: "\<forall>x \<in> set (docs s). matches f (sc_fields sc x) \<longrightarrow> P x \<and> P (apply_update sc us x)"
  shows "filter (\<lambda>x. \<not> P x) (docs s') = filter (\<lambda>x. \<not> P x) (docs s)" "frame s' = frame s"
proof -
  show "frame s' = frame s" by (rule update_many_law(1) [OF assms(1,2)])
  have "list_all2 (\<lambda>x y. y = x \<or> matches f (sc_fields sc x) \<and> y = apply_update sc us x) (docs s) (docs s')"
    using update_many_law(2) [OF assms(1,2)]
    by (auto simp: updates_many_def list_all2_map2 list_all2_same split: sum.splits)
  then have "list_all2 (\<lambda>x y. y = x \<or> P x \<and> P y) (docs s) (docs s')"
    using P by (auto simp: list_all2_conv_all_nth)
  then show "filter (\<lambda>x. \<not> P x) (docs s') = filter (\<lambda>x. \<not> P x) (docs s)" by (rule list_all2_filter)
qed

lemma messages_update_others:
  assumes laws: "database_laws db v"
    and run: "co_update_one (db_messages db) f us s = (r, s') \<or> co_update_many (db_messages db) f us s = (r, s')"
    and f: "\<forall>m \<in> set (in_messages v s). matches f (message_fields m) \<longrightarrow> ms_account_id m = acc"
  shows "others_same v acc s s'"
proof -
  have P: "\<forall>m \<in> set (in_messages v s). matches f (sc_fields message_schema m) \<longrightarrow>
      ms_account_id m = acc \<and> ms_account_id (apply_update message_schema us m) = acc"
    using f by (simp add: apply_update_keeps)
  from run show ?thesis
  proof
    assume "co_update_one (db_messages db) f us s = (r, s')"
    from update_one_others [OF accounts_laws(2) [OF laws] this P] show ?thesis by (simp add: others_same_def)
  next
    assume "co_update_many (db_messages db) f us s = (r, s')"
    from update_many_others [OF accounts_laws(2) [OF laws] this P] show ?thesis by (simp add: others_same_def)
  qed
qed

lemma account_update_others:
  assumes laws: "database_laws db v"
  shows "others_same v acc s (snd (update_account_used db now acc delta s))"
    "others_same v acc s (snd (recalculate_account_used db now acc s))"
proof -
  have one: "others_same v acc t s'" if "co_update_one (db_accounts db) [CEq ''_id'' (BId acc)] us t = (r, s')" for us t r s'
  proof -
    have "\<forall>a \<in> set (in_accounts v t). matches [CEq ''_id'' (BId acc)] (sc_fields account_schema a) \<longrightarrow>
        ac_id a = acc \<and> ac_id (apply_update account_schema us a) = acc"
      by (simp add: apply_update_keeps account_fields_def)
    from update_one_others [OF accounts_laws(1) [OF laws] that this] show ?thesis by (simp add: others_same_def)
  qed
  then show "others_same v acc s (snd (update_account_used db now acc delta s))"
    "others_same v acc s (snd (recalculate_account_used db now acc s))"
    by (auto simp: recalculate_account_used_def update_account_used_def
        update_result_error_def Let_def split: prod.splits sum.splits if_splits)
qed

section \<open>The operations of the store\<close>

definition id_of_owner :: "'s database \<Rightarrow> 's contents \<Rightarrow> object_id \<Rightarrow> string \<Rightarrow> 's \<Rightarrow> bool" where
  "id_of_owner db v acc i s \<longleftrightarrow>
     (\<forall>m \<in> set (in_messages v s). db_from_hex db i = Some (ms_id m) \<longrightarrow> ms_account_id m = acc)"

lemma flags_and_delete_others:
  assumes laws: "database_laws db v" and own: "id_of_owner db v acc i s"
  shows "others_same v acc s (snd (update_message_flags db now i seen keep s))"
    "others_same v acc s (snd (delete_message db now i s))"
proof -
  have one: "others_same v acc s s'"
    if "co_update_one (db_messages db) (CEq ''_id'' (BId oid) # cs) us s = (r, s')" "db_from_hex db i = Some oid" for oid cs us r s'
    by (rule messages_update_others [OF laws disjI1 [OF that(1)]])
      (use own that(2) in \<open>auto simp: id_of_owner_def message_fields_def\<close>)
  show "others_same v acc s (snd (update_message_flags db now i seen keep s))"
    "others_same v acc s (snd (delete_message db now i s))"
    using one by (auto simp: update_message_flags_def delete_message_def split: option.splits prod.splits sum.splits)
qed

lemma bulk_flags_others:
  assumes laws: "database_laws db v"
  shows "others_same v acc s (snd (bulk_update_message_flags_by_ids db now acc ids seen keep s))"
    "others_same v acc s (snd (bulk_update_message_flags_by_account db now acc seen keep s))"
proof -
  have many: "others_same v acc s s'" if "co_update_many (db_messages db) f us s = (r, s')"
    "\<forall>m. matches f (message_fields m) \<longrightarrow> ms_account_id m = acc" for f us r s'
    by (rule messages_update_others [OF laws disjI2 [OF that(1)]]) (use that(2) in simp)
  show "others_same v acc s (snd (bulk_update_message_flags_by_ids db now acc ids seen keep s))"
  proof (cases "parse_ids db ids")
    case (Some oids)
    obtain r s' where r: "co_update_many (db_messages db)
        [CIn ''_id'' (map BId oids), CEq ''accountId'' (BId acc), CEq ''isDeleted'' (BBool False)]
        (USet ''updatedAt'' (BDate (millis now)) # flag_updates seen keep) s = (r, s')" by fastforce
    have "others_same v acc s s'" by (rule many [OF r]) (simp add: message_fields_def)
    then show ?thesis
      using r Some by (simp add: bulk_update_message_flags_by_ids_def modified_count_def split: sum.split)
  qed (simp add: bulk_update_message_flags_by_ids_def)
  obtain r s' where r: "co_update_many (db_messages db)
       ([CEq ''accountId'' (BId acc), CEq ''isDeleted'' (BBool False)] @
        (case seen of None \<Rightarrow> [] | Some b \<Rightarrow> [CNe ''seen'' (BBool b)]) @
        (case keep of None \<Rightarrow> [] | Some b \<Rightarrow> [CNe ''keep'' (BBool b)]))
        (USet ''updatedAt'' (BDate (millis now)) # flag_updates seen keep) s = (r, s')" by fastforce
  have "others_same v acc s s'" by (rule many [OF r]) (simp add: message_fields_def)
  then show "others_same v acc s (snd (bulk_update_message_flags_by_account db now acc seen keep s))"
    using r by (simp add: bulk_update_message_flags_by_account_def modified_count_def split: sum.split)
qed

lemma in_ids_others:
  assumes "database_laws db v" "co_update_many (db_messages db) (in_ids acc docs) us s = (r, s')"
  shows "others_same v acc s s'"
  by (rule messages_update_others [OF assms(1) disjI2 [OF assms(2)]]) simp

lemma soft_delete_loop_others:
  "database_laws db v \<Longrightarrow> others_same v acc s (snd (soft_delete_loop db now acc seen limit ids sz n s))"
proof (induction db now acc seen limit ids sz n s rule: soft_delete_loop.induct)
  case (1 db now acc seen limit ids sz n s)
  let ?opts = "\<lparr>fo_sort = NewestFirst, fo_skip = 0, fo_limit = (if limit < 1000 then limit else 1000),
                 fo_projection = ProjInclude [''_id'', ''size'']\<rparr>"
  show ?case
  proof (cases "limit \<le> 0")
    case False
    show ?thesis
    proof (cases "co_find (db_messages db) (live_filter acc seen) ?opts s")
      case (Inr ds)
      show ?thesis
      proof (cases "length ds = 0")
        case ne: False
        obtain r t where upd: "co_update_many (db_messages db) (in_ids acc ds) (mark_deleted (now n)) s = (r, t)"
          by fastforce
        have t: "others_same v acc s t" by (rule in_ids_others [OF "1.prems" upd])
        show ?thesis
        proof (cases r)
          case Inl': (Inl e)
          then show ?thesis using t False Inr ne upd by (subst soft_delete_loop.simps) simp
        next
          case Inr': (Inr u)
          have "others_same v acc t (snd (soft_delete_loop db now acc seen (limit - int (length ds))
              (ids @ map (\<lambda>d. db_hex db (ms_id d)) ds) (sz + sum_list (map ms_size ds)) (Suc n) t))"
            by (rule "1.IH" [OF False Inr ne upd [symmetric] Inr' "1.prems"])
          then show ?thesis
            using others_trans [OF t] False Inr ne upd Inr' by (subst soft_delete_loop.simps) simp
        qed
      qed (use False Inr in \<open>subst soft_delete_loop.simps, simp\<close>)
    qed (use False in \<open>subst soft_delete_loop.simps, simp\<close>)
  qed (subst soft_delete_loop.simps, simp)
qed

lemma soft_delete_others:
  assumes laws: "database_laws db v"
  shows "others_same v acc s (snd (soft_delete_messages_by_account db now acc seen limit s))"
    "others_same v acc s (snd (soft_delete_messages_by_ids db now1 acc ids s))"
  using soft_delete_loop_others [OF laws] in_ids_others [OF laws]
  by (auto simp: soft_delete_messages_by_account_def soft_delete_messages_by_ids_def Let_def
      simp del: soft_delete_loop.simps split: option.splits prod.splits sum.splits)

section \<open>Requests\<close>

datatype message_request =
    ListRequest list_query_params
  | GetRequest string
  | UpdateRequest string "update_message_request option"
  | DeleteRequest string
  | DownloadRequest string
  | AttachmentRequest string string
  | BulkUpdateRequest "bulk_update_request option"
  | DeleteManyRequest string string
  | BulkDeleteRequest "string list option"

definition serve_messages ::
  "('s, 'r, 'g) api_env \<Rightarrow> handler \<Rightarrow> (nat \<Rightarrow> time) \<Rightarrow> req_context \<Rightarrow> message_request
     \<Rightarrow> ('s, 'r, 'g) api_state \<Rightarrow> message_body response \<times> ('s, 'r, 'g) api_state" where
  "serve_messages env h clk cx rq st =
     (case rq of
        ListRequest q \<Rightarrow> list_messages_handler env (clk 0, clk 1, clk 2) cx q st
      | GetRequest i \<Rightarrow> (get_message_handler env cx i st, st)
      | UpdateRequest i body \<Rightarrow> update_message_handler env h (clk 0) cx i body st
      | DeleteRequest i \<Rightarrow> delete_message_handler env (clk 0, clk 1) cx i st
      | DownloadRequest i \<Rightarrow> (download_message env cx i st, st)
      | AttachmentRequest i k \<Rightarrow> (download_attachment env cx i k st, st)
      | BulkUpdateRequest body \<Rightarrow> bulk_update_messages env h (clk 0) cx body st
      | DeleteManyRequest seen limit \<Rightarrow> delete_messages env (\<lambda>n. clk (n + 2), clk 0, clk 1) cx seen limit st
      | BulkDeleteRequest ids \<Rightarrow> bulk_delete_messages_by_ids env (clk 0, clk 1, clk 2) cx ids st)"

text \<open>What a response may show: live messages of the account and their files.\<close>

definition shown_from :: "object_id \<Rightarrow> message \<Rightarrow> message \<Rightarrow> bool" where
  "shown_from acc m x \<longleftrightarrow> live acc None x \<and> ms_id m = ms_id x \<and> ms_account_id m = acc \<and> ms_subject m = ms_subject x"

definition shows_only ::
  "('s, 'r, 'g) api_env \<Rightarrow> object_id \<Rightarrow> 's \<Rightarrow> message list \<Rightarrow> message_body \<Rightarrow> bool" where
  "shows_only env acc s ms body =
     (case body of
        OneMessage m \<Rightarrow> \<exists>x \<in> set ms. shown_from acc m x
      | MessagePage p \<Rightarrow> \<forall>m \<in> set (hc_member p). \<exists>x \<in> set ms. shown_from acc m x
      | FileBody d ct content \<Rightarrow>
          \<exists>x \<in> set ms. live acc None x \<and> (content = ms_raw_message x \<or>
            (\<exists>i k f. db_from_hex (ae_db env) i = Some (ms_id x) \<and>
               ae_get_object env (object_key i k f) s = Some (content, ct)))
      | _ \<Rightarrow> True)"

definition caller :: "('s, 'r, 'g) api_env \<Rightarrow> req_context \<Rightarrow> object_id \<Rightarrow> bool" where
  "caller env cx acc \<longleftrightarrow> cx_account_id cx = Some (db_hex (ae_db env) acc)"

lemma caller_simps:
  assumes "hex_laws (ae_db env)" "caller env cx acc"
  shows "db_from_hex (ae_db env) (get_string (cx_account_id cx)) = Some acc"
    "(db_hex (ae_db env) i = get_string (cx_account_id cx)) = (i = acc)"
proof -
  show "db_from_hex (ae_db env) (get_string (cx_account_id cx)) = Some acc"
    using assms by (simp add: caller_def get_string_def hex_laws_def)
  show "(db_hex (ae_db env) i = get_string (cx_account_id cx)) = (i = acc)"
    using assms by (auto simp: caller_def get_string_def hex_laws_def) (metis option.inject)
qed

lemma owned_message_found:
  assumes laws: "database_laws (ae_db env) v" and c: "caller env cx acc"
    and run: "owned_message env cx (find_message (ae_db env) p i s) = Inr m" and p: "is_shown p ''accountId''"
  obtains x where "x \<in> set (in_messages v s)" "live acc None x" "db_from_hex (ae_db env) i = Some (ms_id x)"
    "m = project_message p x"
proof -
  have hex: "hex_laws (ae_db env)" using laws by (rule accounts_laws(4))
  have m: "find_message (ae_db env) p i s = Inr m" "ms_account_id m = acc"
    using run caller_simps(2) [OF hex c] by (auto simp: owned_message_def split: sum.splits if_splits)
  obtain oid where oid: "db_from_hex (ae_db env) i = Some oid"
    "co_find_one (db_messages (ae_db env)) [CEq ''_id'' (BId oid), CEq ''isDeleted'' (BBool False)] p s = Inr m"
    using m(1) by (auto simp: find_message_def find_one_error_def split: option.splits sum.splits)
  from find_one_Inr [OF accounts_laws(2) [OF laws] oid(2)] obtain x where
    x: "x \<in> set (in_messages v s)" "ms_id x = oid" "\<not> ms_is_deleted x" "m = project_message p x"
    by (auto simp: message_fields_def)
  have "ms_account_id x = acc" using m(2) p by (simp add: x(4) project_message_def Let_def)
  then show thesis using that x oid(1) by (simp add: live_def)
qed

lemma owner_unique:
  assumes "distinct (map ms_id (in_messages v s))" "x \<in> set (in_messages v s)" "ms_account_id x = acc"
    "db_from_hex db i = Some (ms_id x)"
  shows "id_of_owner db v acc i s"
  using assms by (auto simp: id_of_owner_def distinct_map dest: inj_onD)

lemma selects_subset:
  assumes "selects sc f opts xs ds"
  shows "\<exists>zs. ds = map (sc_project sc (fo_projection opts)) zs \<and> set zs \<subseteq> {x \<in> set xs. matches f (sc_fields sc x)}"
proof -
  obtain ys where ys: "mset ys = mset (matching sc f xs)"
    "ds = map (sc_project sc (fo_projection opts)) (let rest = drop (nat (fo_skip opts)) ys in
       if fo_limit opts = 0 then rest else take (nat \<bar>fo_limit opts\<bar>) rest)"
    using assms unfolding selects_def by blast
  define zs where "zs = (let rest = drop (nat (fo_skip opts)) ys in
       if fo_limit opts = 0 then rest else take (nat \<bar>fo_limit opts\<bar>) rest)"
  have "set zs \<subseteq> set ys" by (auto simp: zs_def Let_def dest: in_set_dropD in_set_takeD)
  also have "set ys = {x \<in> set xs. matches f (sc_fields sc x)}"
    using arg_cong [OF ys(1), of set_mset] by (simp add: matching_def)
  finally show ?thesis using ys(2) by (auto simp: zs_def)
qed

lemma shown_projected:
  "live acc seen x \<Longrightarrow> is_shown p ''accountId'' \<Longrightarrow> is_shown p ''subject'' \<Longrightarrow> shown_from acc (project_message p x) x"
  by (simp add: shown_from_def live_def project_message_def Let_def)

lemma list_projection_shows [simp]:
  "is_shown list_projection ''accountId''" "is_shown list_projection ''subject''"
  by (simp_all add: list_projection_def is_shown_def)

lemma find_page_shows:
  assumes laws: "database_laws db v" and "find_page db (live_filter acc seen @ cs) skip limit s = Inr ms"
  shows "\<forall>m \<in> set ms. \<exists>x \<in> set (in_messages v s). shown_from acc m x"
proof -
  let ?o = "\<lparr>fo_sort = NewestFirst, fo_skip = skip, fo_limit = limit, fo_projection = list_projection\<rparr>"
  have "co_find (db_messages db) (live_filter acc seen @ cs) ?o s = Inr ms"
    using assms(2) by (auto simp: find_page_def split: sum.splits)
  from selects_subset [OF find_law [OF accounts_laws(2) [OF laws] this]] obtain zs where
    zs: "ms = map (project_message list_projection) zs"
      "set zs \<subseteq> {x \<in> set (in_messages v s). matches (live_filter acc seen @ cs) (message_fields x)}"
    unfolding find_options.simps schema_simps by blast
  then have "set zs \<subseteq> {x \<in> set (in_messages v s). live acc seen x}" by auto
  then show ?thesis using zs(1) shown_projected [OF _ list_projection_shows] by fastforce
qed

lemma counting_keeps:
  "so_db (snd (count_messages_cached db clk acc seen st)) = so_db st"
  by (auto simp: count_messages_cached_def maybe_sweep_counts_def Let_def split: prod.splits option.splits sum.splits)

lemma list_query_keeps:
  assumes "list_query db clk acc seen query st = (r, st')"
  shows "so_db st' = so_db st \<and> (\<forall>ms n. r = Inr (ms, n) \<longrightarrow> query (so_db st) = Inr ms)"
proof -
  obtain c st1 where c: "count_messages_cached db clk acc seen st = (c, st1)" by fastforce
  have "so_db st1 = so_db st" using counting_keeps [of db clk acc seen st] by (simp add: c)
  then show ?thesis
    using assms by (auto simp: list_query_def c split: sum.splits if_splits)
qed

lemma after_query_shows:
  assumes laws: "database_laws db v" and "after_query db acc seen cursor limit s = Inr ms"
  shows "\<forall>m \<in> set ms. \<exists>x \<in> set (in_messages v s). shown_from acc m x"
  using assms(2) find_page_shows [OF laws, of acc seen _ 0 limit s] find_page_shows [OF laws, of acc seen "[]" 0 limit s]
  by (auto simp: after_query_def split: if_splits option.splits prod.splits sum.splits)

lemma list_page_shows:
  assumes laws: "database_laws (ae_db env) v" and run: "list_page env clk acc q cursor per_page seen st = (r, st')"
  shows "so_db st' = so_db st"
    "r = Inr (ms, n) \<Longrightarrow> \<forall>m \<in> set ms. \<exists>x \<in> set (in_messages v (so_db st)). shown_from acc m x"
proof -
  have after: "so_db st' = so_db st \<and>
      (r' = Inr (ms, n) \<longrightarrow> (\<forall>m \<in> set ms. \<exists>x \<in> set (in_messages v (so_db st)). shown_from acc m x))"
    if "list_messages_after_filtered (ae_db env) clk acc cursor per_page seen' st = (r', st')" for r' seen' st' ms n
    using list_query_keeps [OF that [unfolded list_messages_after_filtered_def]] after_query_shows [OF laws]
    by blast
  have skip: "so_db st' = so_db st \<and>
      (r' = Inr (ms, n) \<longrightarrow> (\<forall>m \<in> set ms. \<exists>x \<in> set (in_messages v (so_db st)). shown_from acc m x))"
    if "list_messages_filtered (ae_db env) clk acc page per_page seen' st = (r', st')" for r' seen' st' ms n page
    using list_query_keeps [OF that [unfolded list_messages_filtered_def]]
      find_page_shows [OF laws, of acc seen' "[]"] by simp blast
  have "so_db st' = so_db st \<and>
      (r = Inr (ms, n) \<longrightarrow> (\<forall>m \<in> set ms. \<exists>x \<in> set (in_messages v (so_db st)). shown_from acc m x))"
    using run after skip
    by (auto simp: list_page_def list_messages_after_def list_messages_def Let_def split: prod.splits sum.splits if_splits)
  then show "so_db st' = so_db st"
    "r = Inr (ms, n) \<Longrightarrow> \<forall>m \<in> set ms. \<exists>x \<in> set (in_messages v (so_db st)). shown_from acc m x" by simp_all
qed

section \<open>Every request stays within the account\<close>

definition api_laws :: "('s, 'r, 'g) api_env \<Rightarrow> 's contents \<Rightarrow> bool" where
  "api_laws env v \<longleftrightarrow> database_laws (ae_db env) v \<and> draw_law (ae_draw env) \<and>
     (\<forall>m s. tables_of v (ae_delete_by_message env m s) = tables_of v s)"

lemma cleanup_keeps:
  assumes "api_laws env v"
  shows "tables_of v (db_state (api_storage_cleanup env i st)) = tables_of v (db_state st)"
    "tables_of v (db_state (foldl (\<lambda>st i. api_storage_cleanup env i st) st ids)) = tables_of v (db_state st)"
proof -
  show one: "tables_of v (db_state (api_storage_cleanup env i st)) = tables_of v (db_state st)" for i st
    using assms by (simp add: api_laws_def api_storage_cleanup_def Let_def)
  show "tables_of v (db_state (foldl (\<lambda>st i. api_storage_cleanup env i st) st ids)) = tables_of v (db_state st)"
    by (induction ids arbitrary: st) (simp_all add: one)
qed

lemma others_same_tables: "others_same v acc s t \<Longrightarrow> tables_of v u = tables_of v t \<Longrightarrow> others_same v acc s u"
  by (simp add: others_same_def tables_of_def)

definition kept_private ::
  "('s, 'r, 'g) api_env \<Rightarrow> 's contents \<Rightarrow> object_id \<Rightarrow> ('s, 'r, 'g) api_state
     \<Rightarrow> message_body response \<times> ('s, 'r, 'g) api_state \<Rightarrow> bool" where
  "kept_private env v acc st r \<longleftrightarrow>
     others_same v acc (db_state st) (db_state (snd r)) \<and>
     (\<forall>n body. fst r = Success n body \<longrightarrow> shows_only env acc (db_state st) (in_messages v (db_state st)) body)"

lemma kept_private_simps [simp]:
  "kept_private env v acc st (Failure n t, st') = others_same v acc (db_state st) (db_state st')"
  "kept_private env v acc st (Success n b, st') = (others_same v acc (db_state st) (db_state st') \<and>
     shows_only env acc (db_state st) (in_messages v (db_state st)) b)"
  by (simp_all add: kept_private_def)

lemma shows_only_counts [simp]:
  "shows_only env acc s ms (Modified n)" "shows_only env acc s ms (Deleted n k b f)"
  "shows_only env acc s ms (DeletedByIds n k)" "shows_only env acc s ms NoContent"
  by (simp_all add: shows_only_def)

lemma projections_show [simp]:
  "is_shown (ProjExclude [''rawMessage'']) ''accountId''" "is_shown (ProjExclude [''rawMessage'']) ''subject''"
  "is_shown (ProjExclude [''rawMessage'', ''text'', ''html'']) ''accountId''"
  "is_shown (ProjExclude [''rawMessage'', ''text'', ''html'']) ''subject''"
  "is_shown (ProjInclude [''accountId'', ''rawMessage'']) ''accountId''"
  "is_shown (ProjInclude [''accountId'', ''rawMessage'']) ''rawMessage''"
  by (simp_all add: is_shown_def)

lemma shown_from_url [simp]:
  "shown_from acc (download_url db m) x = shown_from acc m x"
  "shown_from acc (m\<lparr>ms_seen := b\<rparr>) x = shown_from acc m x"
  "shown_from acc (m\<lparr>ms_keep := b\<rparr>) x = shown_from acc m x"
  by (simp_all add: shown_from_def download_url_def)

lemma db_laws: "api_laws env v \<Longrightarrow> database_laws (ae_db env) v"
  by (simp add: api_laws_def)

lemma own_id:
  assumes "api_laws env v" "caller env cx acc"
  shows "db_from_hex (ae_db env) (get_string (cx_account_id cx)) = Some acc"
  by (rule caller_simps(1) [OF accounts_laws(4) [OF db_laws [OF assms(1)]] assms(2)])

lemma list_private:
  assumes laws: "api_laws env v" and cx: "caller env cx acc"
  shows "kept_private env v acc st (list_messages_handler env clk cx q st)"
proof -
  have "others_same v acc (db_state st) (so_db so) \<and>
      (r = Inr (ms, n) \<longrightarrow> (\<forall>m \<in> set ms. \<exists>x \<in> set (in_messages v (db_state st)). shown_from acc m x))"
    if "list_page env clk acc q cursor per_page seen (as_store st) = (r, so)" for cursor per_page seen r so ms n
    using list_page_shows(1) [OF db_laws [OF laws] that] list_page_shows(2) [OF db_laws [OF laws] that, of ms n] by (simp add: db_state_def)
  then show ?thesis
    by (auto simp: list_messages_handler_def own_id [OF laws cx] Let_def shows_only_def
        split: option.split prod.split sum.split)
qed

lemma get_private:
  assumes laws: "api_laws env v" and cx: "caller env cx acc"
  shows "kept_private env v acc st (get_message_handler env cx i st, st)"
proof (cases "owned_message env cx (get_message (ae_db env) i (db_state st))")
  case (Inr m)
  then obtain x where "x \<in> set (in_messages v (db_state st))" "live acc None x" "m = project_message (ProjExclude [''rawMessage'']) x"
    by (auto simp: get_message_def elim!: owned_message_found [OF db_laws [OF laws] cx])
  then show ?thesis
    using Inr by (auto simp: get_message_handler_def shows_only_def intro!: bexI shown_projected)
qed (auto simp: get_message_handler_def)

lemma owned_meta:
  assumes laws: "api_laws env v" and cx: "caller env cx acc" and "owned_message env cx (get_message_meta (ae_db env) i s) = Inr m" "distinct (map ms_id (in_messages v s))"
  shows "id_of_owner (ae_db env) v acc i s" "\<exists>x \<in> set (in_messages v s). shown_from acc m x \<and> db_from_hex (ae_db env) i = Some (ms_id x)"
    "ms_account_id m = acc"
proof -
  obtain x where x: "x \<in> set (in_messages v s)" "live acc None x" "db_from_hex (ae_db env) i = Some (ms_id x)"
    "m = project_message (ProjExclude [''rawMessage'', ''text'', ''html'']) x"
    using assms(3) by (auto simp: get_message_meta_def elim!: owned_message_found [OF db_laws [OF laws] cx])
  then show "id_of_owner (ae_db env) v acc i s" by (intro owner_unique [OF assms(4) x(1)]) (simp_all add: live_def)
  have "shown_from acc m x" using x by (simp add: shown_projected)
  then show "\<exists>x \<in> set (in_messages v s). shown_from acc m x \<and> db_from_hex (ae_db env) i = Some (ms_id x)"
    "ms_account_id m = acc" using x by (auto simp: shown_from_def)
qed

lemma update_private:
  assumes laws: "api_laws env v" and cx: "caller env cx acc" and "distinct (map ms_id (in_messages v (db_state st)))"
  shows "kept_private env v acc st (update_message_handler env h now cx i body st)"
proof (cases "owned_message env cx (get_message_meta (ae_db env) i (db_state st))")
  case (Inr m)
  note O = owned_meta [OF laws cx Inr assms(3)]
  have "others_same v acc (db_state st) s'"
    if "update_message_flags (ae_db env) now i seen keep (db_state st) = (e, s')" for seen keep e s'
    using flags_and_delete_others(1) [OF db_laws [OF laws] O(1), of now seen keep] that by simp
  then show ?thesis
    using Inr O(2) by (auto simp: update_message_handler_def Let_def shows_only_def
        split: option.split prod.split)
qed (auto simp: update_message_handler_def)

lemma delete_private:
  assumes laws: "api_laws env v" and cx: "caller env cx acc" and "distinct (map ms_id (in_messages v (db_state st)))"
  shows "kept_private env v acc st (delete_message_handler env clk cx i st)"
proof (cases "owned_message env cx (get_message_meta (ae_db env) i (db_state st))")
  case (Inr m)
  note O = owned_meta [OF laws cx Inr assms(3)]
  obtain e s1 where del: "delete_message (ae_db env) (fst clk) i (db_state st) = (e, s1)" by fastforce
  have s1: "others_same v acc (db_state st) s1"
    using flags_and_delete_others(2) [OF db_laws [OF laws] O(1), of "fst clk"] del by simp
  let ?s2 = "snd (update_account_used (ae_db env) (snd clk) (ms_account_id m) (- ms_size m) s1)"
  have s2: "others_same v acc (db_state st) ?s2"
    using others_trans [OF s1 account_update_others(1) [OF db_laws [OF laws]]] by (simp add: O(3))
  have "others_same v acc (db_state st) (db_state (api_storage_cleanup env i (set_db ?s2 st)))"
    by (rule others_same_tables [OF s2]) (simp add: cleanup_keeps(1) [OF laws])
  then show ?thesis using s1 Inr del by (auto simp: delete_message_handler_def Let_def split: option.split)
qed (auto simp: delete_message_handler_def)

lemma download_private:
  assumes laws: "api_laws env v" and cx: "caller env cx acc"
  shows "kept_private env v acc st (download_message env cx i st, st)"
proof (cases "owned_message env cx (get_message_raw (ae_db env) i (db_state st))")
  case (Inr m)
  then obtain x where x: "x \<in> set (in_messages v (db_state st))" "live acc None x" "db_from_hex (ae_db env) i = Some (ms_id x)"
    "m = project_message (ProjInclude [''accountId'', ''rawMessage'']) x"
    by (auto simp: get_message_raw_def elim!: owned_message_found [OF db_laws [OF laws] cx])
  then have "ms_raw_message m = ms_raw_message x" by (simp add: project_message_def Let_def)
  then show ?thesis
    using Inr x(1-3) unfolding download_message_def
    by (auto simp: shows_only_def Let_def open_raw_message_def open_object_def split: option.split)
qed (auto simp: download_message_def)

lemma attachment_private:
  assumes laws: "api_laws env v" and cx: "caller env cx acc"
  shows "kept_private env v acc st (download_attachment env cx i k st, st)"
proof (cases "owned_message env cx (get_message_meta (ae_db env) i (db_state st))")
  case (Inr m)
  then obtain x where x: "x \<in> set (in_messages v (db_state st))" "live acc None x" "db_from_hex (ae_db env) i = Some (ms_id x)"
    by (auto simp: get_message_meta_def elim!: owned_message_found [OF db_laws [OF laws] cx])
  then show ?thesis
    using Inr unfolding download_attachment_def
    by (auto simp: shows_only_def Let_def open_object_def split: option.split)
qed (auto simp: download_attachment_def)

lemma bulk_update_private:
  assumes laws: "api_laws env v" and cx: "caller env cx acc"
  shows "kept_private env v acc st (bulk_update_messages env h now cx body st)"
proof (cases body)
  case (Some req)
  obtain r s' where R: "(if bu_all req
     then bulk_update_message_flags_by_account (ae_db env) now acc (bu_seen req) (bu_keep req) (db_state st)
     else bulk_update_message_flags_by_ids (ae_db env) now acc (bu_ids req) (bu_seen req) (bu_keep req) (db_state st)) = (r, s')"
    by fastforce
  have "others_same v acc (db_state st) s'"
    using bulk_flags_others [OF db_laws [OF laws], of acc "db_state st" now] R by (metis snd_conv)
  then show ?thesis
    unfolding bulk_update_messages_def own_id [OF laws cx] option.case Some R prod.case
    by (cases r) simp_all
qed (simp add: bulk_update_messages_def own_id [OF laws cx])

lemma after_bulk_private:
  assumes laws: "api_laws env v" and cx: "caller env cx acc" and "others_same v acc s (db_state st)"
  shows "others_same v acc s (db_state (after_bulk_delete env clk acc ids n st))"
proof -
  define st1 where "st1 = (if n \<noteq> 0
     then set_db (snd (update_account_used (ae_db env) (fst clk) acc (- n) (db_state st))) st else st)"
  define st2 where "st2 = (if 0 < length ids
     then set_db (snd (recalculate_account_used (ae_db env) (snd clk) acc (db_state st1))) st1 else st1)"
  have 1: "others_same v acc s (db_state st1)"
    using assms(3) others_trans [OF assms(3) account_update_others(1) [OF db_laws [OF laws]]] by (simp add: st1_def)
  have 2: "others_same v acc s (db_state st2)"
    using 1 others_trans [OF 1 account_update_others(2) [OF db_laws [OF laws]]] by (simp add: st2_def)
  show ?thesis
    unfolding after_bulk_delete_def Let_def st1_def [symmetric] st2_def [symmetric]
    by (rule others_same_tables [OF 2 cleanup_keeps(2) [OF laws]])
qed

lemma delete_many_private:
  assumes laws: "api_laws env v" and cx: "caller env cx acc"
  shows "kept_private env v acc st (delete_messages env clk cx seen_q limit_q st)"
proof -
  have "others_same v acc (db_state st) s'"
    if "soft_delete_messages_by_account (ae_db env) now acc seen limit (db_state st) = (r, s')" for now seen limit r s'
    using soft_delete_others(1) [OF db_laws [OF laws], of acc "db_state st" now seen limit] that by simp
  then show ?thesis
    by (auto simp: delete_messages_def own_id [OF laws cx] Let_def intro!: after_bulk_private [OF laws cx]
        split: option.split prod.split sum.split)
qed

lemma bulk_delete_private:
  assumes laws: "api_laws env v" and cx: "caller env cx acc"
  shows "kept_private env v acc st (bulk_delete_messages_by_ids env clk cx body st)"
proof -
  have "others_same v acc (db_state st) s'"
    if "soft_delete_messages_by_ids (ae_db env) now acc ids (db_state st) = (r, s')" for now ids r s'
    using soft_delete_others(2) [OF db_laws [OF laws], of acc "db_state st" now ids] that by simp
  then show ?thesis
    by (auto simp: bulk_delete_messages_by_ids_def own_id [OF laws cx] Let_def intro!: after_bulk_private [OF laws cx]
        split: option.split prod.split sum.split)
qed

lemma serve_messages_private:
  assumes "api_laws env v" and "caller env cx acc" and "distinct (map ms_id (in_messages v (db_state st)))"
  shows "kept_private env v acc st (serve_messages env h clk cx rq st)"
proof -
  note P = list_private [OF assms(1,2)] get_private [OF assms(1,2)] update_private [OF assms]
    delete_private [OF assms] download_private [OF assms(1,2)] attachment_private [OF assms(1,2)]
    bulk_update_private [OF assms(1,2)] delete_many_private [OF assms(1,2)] bulk_delete_private [OF assms(1,2)]
  show ?thesis by (cases rq) (simp_all only: serve_messages_def message_request.case P)
qed

text \<open>
  Messages are private: whatever request about messages a caller makes, and whichever accesses to the
  database fail, no message and no account of anybody else is changed, and what is answered comes from
  live messages of the caller's account: their fields, their source, or files stored under their id.
\<close>

theorem messages_are_private:
  assumes "api_laws env v" and "caller env cx acc" and "distinct (map ms_id (in_messages v (db_state st)))"
    and "serve_messages env h clk cx rq st = (res, st')"
  shows "others_same v acc (db_state st) (db_state st') \<and>
    (\<forall>n body. res = Success n body \<longrightarrow> shows_only env acc (db_state st) (in_messages v (db_state st)) body)"
  using serve_messages_private [OF assms(1-3), of h clk rq] by (simp add: assms(4) kept_private_def)

definition example_mailbox :: "(tables, unit, nat) api_state" where
  "example_mailbox = set_db ([], [empty_account\<lparr>ac_id := 7, ac_used := 30\<rparr>, empty_account\<lparr>ac_id := 8\<rparr>],
     [empty_message\<lparr>ms_id := 1, ms_account_id := 7, ms_size := 10\<rparr>,
      empty_message\<lparr>ms_id := 2, ms_account_id := 8, ms_size := 20\<rparr>]) example_state"

definition example_caller :: req_context where
  "example_caller = fresh_context\<lparr>cx_account_id := Some ''7''\<rparr>"

lemma example_api_laws: "api_laws example_env mem_contents"
  using example_draw_law by (simp add: api_laws_def example_env_def mem_database_laws)

lemma example_answers:
  "fst (serve_messages example_env (new_handler 1 hour Map.empty 0 0 False) (\<lambda>_. 0) example_caller (DeleteRequest ''1'')
     example_mailbox) = Success 204 NoContent"
  "fst (serve_messages example_env (new_handler 1 hour Map.empty 0 0 False) (\<lambda>_. 0) example_caller (DeleteRequest ''2'')
     example_mailbox) = Failure 403 ''access denied''"
  by code_simp+

theorem messages_are_private_witness:
  "\<exists>st'. serve_messages example_env (new_handler 1 hour Map.empty 0 0 False) (\<lambda>_. 0) example_caller (DeleteRequest ''1'')
     example_mailbox = (Success 204 NoContent, st') \<and> others_same mem_contents 7 (db_state example_mailbox) (db_state st')"
proof -
  let ?r = "serve_messages example_env (new_handler 1 hour Map.empty 0 0 False) (\<lambda>_. 0) example_caller
    (DeleteRequest ''1'') example_mailbox"
  have run: "?r = (Success 204 NoContent, snd ?r)" using example_answers(1) by (simp add: prod_eq_iff)
  have "caller example_env example_caller 7"
    unfolding caller_def by code_simp
  moreover have "distinct (map ms_id (in_messages mem_contents (db_state example_mailbox)))"
    by (simp add: example_mailbox_def mem_contents_def)
  ultimately show ?thesis using messages_are_private [OF example_api_laws _ _ run] run by blast
qed

end
