(* ===== verification/Downloads.thy ===== *)
theory Downloads
  imports MessageApi
begin

text \<open>
  The headers of a download (\<open>contentDispositionAttachment\<close> of \<open>internal/handler/message.go\<close>): what an
  attachment's name, which a sender chooses, can do to the response.
\<close>

section \<open>The headers of a download\<close>

definition printable :: "char \<Rightarrow> bool" where
  "printable c \<longleftrightarrow> 0x20 \<le> (of_char c :: nat) \<and> (of_char c :: nat) \<le> 0x7E"

definition code_in :: "nat \<Rightarrow> nat \<Rightarrow> char \<Rightarrow> bool" where
  "code_in a b c \<longleftrightarrow> a \<le> of_char c \<and> of_char c \<le> b"

lemma upper_hex_printable: "n < 16 \<Longrightarrow> printable (upper_hex n)"
  by (auto simp: upper_hex_def printable_def)

lemma percent_encode_printable: "list_all printable (percent_encode c)"
proof -
  have "(of_char c :: nat) < 256" by (rule nat_of_char_less_256)
  then have "(of_char c :: nat) div 16 < 16" by (simp add: div_less_iff_less_mult)
  then show ?thesis
    by (auto simp: percent_encode_def Let_def upper_hex_printable) (auto simp: printable_def)
qed

lemma list_all_concat_map: "(\<And>x. x \<in> set xs \<Longrightarrow> list_all P (f x)) \<Longrightarrow> list_all P (concat (map f xs))"
  by (induction xs) auto

lemma format_attachment_printable:
  assumes "CHR 0x09 \<notin> set filename"
  shows "list_all printable (format_attachment filename)"
proof -
  have lit: "list_all printable ''attachment; filename''" "list_all printable ''*=utf-8''"
    "printable (CHR 0x27)" "printable (CHR ''='')" "printable (CHR 0x22)" "printable (CHR 0x5C)"
    by (simp_all add: printable_def)
  show ?thesis
  proof (cases "list_ex (\<lambda>c. ((of_char c :: nat) < 0x20 \<or> 0x7E < (of_char c :: nat)) \<and> of_char c \<noteq> (9 :: nat)) filename")
    case True
    then show ?thesis
      using lit list_all_concat_map [of filename printable percent_encode] percent_encode_printable
      by (simp add: format_attachment_def)
  next
    case False
    have "printable c" if "c \<in> set filename" for c
    proof -
      have "c \<noteq> CHR 0x09" using assms that by auto
      then have "of_char c \<noteq> (9 :: nat)" using char_eq_code [of c "CHR 0x09"] by simp
      then show ?thesis using False that by (auto simp: list_ex_iff printable_def not_less)
    qed
    then have "list_all printable filename"
      "list_all printable (concat (map (\<lambda>c. if c = CHR 0x22 \<or> c = CHR 0x5C then [CHR 0x5C, c] else [c]) filename))"
      using lit by (auto simp: list_all_iff)
    then show ?thesis using False lit by (simp add: format_attachment_def)
  qed
qed

lemma set_trim_runes: "set (trim_runes rs) \<subseteq> set rs"
  by (auto simp: trim_runes_def dest!: set_dropWhileD)

definition safe_rune :: "nat \<Rightarrow> bool" where
  "safe_rune r \<longleftrightarrow> \<not> unicode_is_control r \<and> r \<noteq> 0x2F \<and> r \<noteq> 0x5C \<and> 0 < rune_len r"

lemma clean_runes_safe: "\<forall>r \<in> set rs. 0 < rune_len r \<Longrightarrow> \<forall>r \<in> set (clean_runes rs). safe_rune r"
proof -
  have "rune_len 0x5F = 1" by (simp add: rune_len_def)
  then show "\<forall>r \<in> set rs. 0 < rune_len r \<Longrightarrow> \<forall>r \<in> set (clean_runes rs). safe_rune r"
    by (auto simp: clean_runes_def safe_rune_def unicode_is_control_def)
qed

definition safe_char :: "char \<Rightarrow> bool" where
  "safe_char c \<longleftrightarrow> 0x20 \<le> (of_char c :: nat) \<and> (of_char c :: nat) \<noteq> 0x7F \<and> c \<noteq> CHR ''/'' \<and> c \<noteq> CHR 0x5C"

lemma encode_safe:
  assumes "safe_rune r" "b \<in> set (encode_rune r)"
  shows "safe_char (char_of b)"
proof -
  have r: "0 < rune_len r" "\<not> unicode_is_control r" "r \<noteq> 0x2F" "r \<noteq> 0x5C" using assms(1) by (simp_all add: safe_rune_def)
  have "r \<le> 0x10FFFF" using r(1) by (auto simp: rune_len_def split: if_splits)
  then have "b < 256 \<and> (b = r \<and> r < 0x80 \<or> 0x80 \<le> b)"
    using assms(2) r(1) by (auto simp: encode_rune_def Let_def split: if_splits)
  then show ?thesis
    using r(2-4) by (auto simp: safe_char_def unicode_is_control_def char_eq_code)
qed

lemma sanitized:
  defines "s \<equiv> \<lambda>filename. sanitize_filename_for_header filename ''attachment''"
  shows "s filename = ''attachment'' \<or>
    (\<exists>rs. rs \<noteq> [] \<and> length rs \<le> 200 \<and> (\<forall>r \<in> set rs. safe_rune r) \<and> s filename = string_of (concat (map encode_rune rs)))"
proof -
  define rs0 where "rs0 = trim_runes (runes (bytes_of filename))"
  define rs1 where "rs1 = trim_runes (clean_runes rs0)"
  define rs2 where "rs2 = (if 200 < length rs1 then trim_runes (take 200 rs1) else rs1)"
  have "\<forall>r \<in> set rs0. 0 < rune_len r" using runes_valid set_trim_runes unfolding rs0_def by blast
  then have "\<forall>r \<in> set rs1. safe_rune r" using clean_runes_safe set_trim_runes unfolding rs1_def by blast
  moreover have "set rs2 \<subseteq> set rs1"
    using set_trim_runes [of "take 200 rs1"] set_take_subset [of 200 rs1] by (auto simp: rs2_def)
  moreover have "length rs2 \<le> 200"
  proof -
    have "length (trim_runes xs) \<le> length xs" for xs
      using length_dropWhile_le [of unicode_is_space "rev (dropWhile unicode_is_space xs)"]
        length_dropWhile_le [of unicode_is_space xs] by (simp add: trim_runes_def)
    from this [of "take 200 rs1"] show ?thesis by (simp add: rs2_def)
  qed
  moreover have s: "s filename = (if rs0 = [] \<or> rs1 = [] \<or> rs2 = [] then ''attachment'' else string_of (concat (map encode_rune rs2)))"
    by (simp add: s_def sanitize_filename_for_header_def Let_def rs0_def rs1_def rs2_def)
  ultimately have rs2: "length rs2 \<le> 200" "\<forall>r \<in> set rs2. safe_rune r" by blast+
  show ?thesis
  proof (cases "rs0 = [] \<or> rs1 = [] \<or> rs2 = []")
    case True
    then show ?thesis unfolding s if_P [OF True] by (intro disjI1 refl)
  next
    case False
    then show ?thesis
      unfolding s if_not_P [OF False] using rs2 by (intro disjI2 exI [of _ rs2] conjI refl) simp_all
  qed
qed

text \<open>
  C23: nobody can inject headers or paths through a file name: whatever bytes the name of an attachment has, the
  value of \<open>Content-Disposition\<close> is printable ASCII (no line breaks), and the name it offers is not empty, has at most 200
  runes and neither control characters nor path separators.
\<close>

theorem content_disposition_safe:
  "list_all printable (content_disposition_attachment filename) \<and>
   sanitize_filename_for_header filename ''attachment'' \<noteq> [] \<and>
   list_all safe_char (sanitize_filename_for_header filename ''attachment'') \<and>
   (\<exists>rs. length rs \<le> 200 \<and>
      sanitize_filename_for_header filename ''attachment'' = string_of (concat (map encode_rune rs)))"
proof -
  let ?s = "sanitize_filename_for_header filename ''attachment''"
  have att: "''attachment'' = string_of (concat (map encode_rune (bytes_of ''attachment'')))"
    "length (bytes_of ''attachment'') \<le> 200" "list_all safe_char ''attachment''"
    by code_simp+
  have "?s \<noteq> [] \<and> list_all safe_char ?s \<and> (\<exists>rs. length rs \<le> 200 \<and> ?s = string_of (concat (map encode_rune rs)))"
    using sanitized [of filename]
  proof
    assume e: "?s = ''attachment''"
    have ne: "''attachment'' \<noteq> []" by simp
    show ?thesis unfolding e 
      by (rule conjI [OF ne conjI [OF att(3) exI [of _ "bytes_of ''attachment''"]]]) (rule conjI [OF att(2,1)])
  next
    assume "\<exists>rs. rs \<noteq> [] \<and> length rs \<le> 200 \<and> (\<forall>r \<in> set rs. safe_rune r) \<and> ?s = string_of (concat (map encode_rune rs))"
    then obtain rs where rs: "rs \<noteq> []" "length rs \<le> 200" "\<forall>r \<in> set rs. safe_rune r"
      "?s = string_of (concat (map encode_rune rs))" by blast
    have "encode_rune (hd rs) \<noteq> []" by (simp add: encode_rune_def Let_def)
    then have "?s \<noteq> []" using rs(1,4) by (cases rs) (auto simp: string_of_def)
    moreover have "list_all safe_char ?s"
      using rs(3) encode_safe unfolding rs(4) by (auto simp: string_of_def list_all_iff)
    ultimately show ?thesis using rs(2,4) by blast
  qed
  then have safe: "?s \<noteq> []" "list_all safe_char ?s" "\<exists>rs. length rs \<le> 200 \<and> ?s = string_of (concat (map encode_rune rs))"
    by blast+
  have "CHR 0x09 \<notin> set ?s"
  proof
    assume "CHR 0x09 \<in> set ?s"
    then have "safe_char (CHR 0x09)" using safe(2) by (simp only: list_all_iff)
    then show False by (simp add: safe_char_def)
  qed
  then have "list_all printable (content_disposition_attachment filename)"
    unfolding content_disposition_attachment_def by (rule format_attachment_printable)
  with safe show ?thesis by (intro conjI)
qed

end
