(* ===== verification/Sse.thy ===== *)
theory Sse
  imports Prelude
begin

text \<open>
  \<open>internal/handler/sse_hub.go\<close>: one Redis subscription per account, shared by the account's SSE clients. The
  hub maps accounts to topics; a topic has the channels of its clients, a subscription and a goroutine
  that forwards payloads. Channels and topics are numbers, given out in order.

  What runs under a mutex is one step: \<open>Subscribe\<close>, the first part of \<open>unsubscribe\<close> (up to unlocking the hub),
  \<open>close\<close>, and \<open>broadcast\<close> for a payload from Redis; a client receives what its channel buffers. The steps of all
  goroutines interleave freely. The counters of \<open>internal/metrics\<close> are part of the state; a step changes
  them together with what they count.
\<close>

section \<open>The hub\<close>

type_synonym channel = nat

record sse_topic =
  tp_account :: string
  tp_clients :: "channel set"
  tp_stopped :: bool

record sse_hub =
  hb_topics :: "string \<rightharpoonup> nat"
  hb_heap :: "nat \<rightharpoonup> sse_topic"
  hb_closing :: "nat set"
  hb_owner :: "channel \<rightharpoonup> string"
  hb_buffer :: "channel \<Rightarrow> string list"
  hb_closed :: "channel set"
  hb_unsubscribed :: "channel set"
  hb_next_channel :: nat
  hb_next_topic :: nat
  hb_sse_clients :: int
  hb_sse_topics :: int
  hb_sse_dropped :: int
  hb_resubscribed :: int

definition new_sse_hub :: sse_hub where
  "new_sse_hub =
     \<lparr>hb_topics = Map.empty, hb_heap = Map.empty, hb_closing = {}, hb_owner = Map.empty, hb_buffer = (\<lambda>_. []),
      hb_closed = {}, hb_unsubscribed = {}, hb_next_channel = 0, hb_next_topic = 0, hb_sse_clients = 0,
      hb_sse_topics = 0, hb_sse_dropped = 0, hb_resubscribed = 0\<rparr>"

text \<open>The topic of an account, made when there is none.\<close>

definition ensure_topic :: "string \<Rightarrow> sse_hub \<Rightarrow> nat \<times> sse_hub" where
  "ensure_topic acc h =
     (case hb_topics h acc of
        Some t \<Rightarrow> (t, h)
      | None \<Rightarrow>
          (let t = hb_next_topic h in
           (t, h\<lparr>hb_topics := (hb_topics h)(acc \<mapsto> t),
                 hb_heap := (hb_heap h)(t \<mapsto> \<lparr>tp_account = acc, tp_clients = {}, tp_stopped = False\<rparr>),
                 hb_next_topic := Suc t, hb_sse_topics := hb_sse_topics h + 1\<rparr>)))"

definition change_clients :: "(channel set \<Rightarrow> channel set) \<Rightarrow> nat \<Rightarrow> sse_hub \<Rightarrow> sse_hub" where
  "change_clients f t h =
     h\<lparr>hb_heap := (hb_heap h)(t := map_option (\<lambda>tp. tp\<lparr>tp_clients := f (tp_clients tp)\<rparr>) (hb_heap h t))\<rparr>"

definition clients_of :: "sse_hub \<Rightarrow> nat \<Rightarrow> channel set" where
  "clients_of h t = (case hb_heap h t of None \<Rightarrow> {} | Some tp \<Rightarrow> tp_clients tp)"

definition sse_subscribe :: "string \<Rightarrow> sse_hub \<Rightarrow> channel \<times> sse_hub" where
  "sse_subscribe acc h =
     (let (t, h1) = ensure_topic acc h; ch = hb_next_channel h1 in
      (ch, (change_clients (insert ch) t h1)
             \<lparr>hb_owner := (hb_owner h1)(ch \<mapsto> acc), hb_next_channel := Suc ch,
              hb_sse_clients := hb_sse_clients h1 + 1\<rparr>))"

definition remove_client :: "nat \<Rightarrow> channel \<Rightarrow> sse_hub \<Rightarrow> bool \<times> bool \<times> sse_hub" where
  "remove_client t ch h =
     (let removed = ch \<in> clients_of h t;
          h1 = (if removed then (change_clients (\<lambda>cs. cs - {ch}) t h)\<lparr>hb_closed := insert ch (hb_closed h)\<rparr> else h)
      in (removed, clients_of h1 t = {}, h1))"

text \<open>\<open>unsubscribe\<close> up to \<open>t.close()\<close>, which follows when the topic became empty.\<close>

definition sse_unsubscribe :: "string \<Rightarrow> channel \<Rightarrow> sse_hub \<Rightarrow> sse_hub" where
  "sse_unsubscribe acc ch h0 =
     (let h = h0\<lparr>hb_unsubscribed := insert ch (hb_unsubscribed h0)\<rparr> in
      case hb_topics h acc of
        None \<Rightarrow> h\<lparr>hb_closed := insert ch (hb_closed h)\<rparr>
      | Some t \<Rightarrow>
          (let (removed, empty, h1) = remove_client t ch h;
               h2 = (if removed then h1\<lparr>hb_sse_clients := hb_sse_clients h1 - 1\<rparr> else h1)
           in if empty
              then h2\<lparr>hb_topics := (hb_topics h2)(acc := None), hb_closing := insert t (hb_closing h2),
                      hb_sse_topics := hb_sse_topics h2 - 1\<rparr>
              else h2))"

text \<open>\<open>close\<close>: the goroutine stops, the subscription is closed, so are clients that are left.\<close>

definition sse_close :: "nat \<Rightarrow> sse_hub \<Rightarrow> sse_hub" where
  "sse_close t h =
     h\<lparr>hb_closing := hb_closing h - {t}, hb_closed := hb_closed h \<union> clients_of h t,
       hb_heap := (hb_heap h)(t := map_option (\<lambda>tp. tp\<lparr>tp_clients := {}, tp_stopped := True\<rparr>) (hb_heap h t))\<rparr>"

text \<open>\<open>broadcast\<close>: a client whose buffer of sixteen payloads is full is dropped.\<close>

definition sse_broadcast :: "nat \<Rightarrow> string \<Rightarrow> sse_hub \<Rightarrow> sse_hub" where
  "sse_broadcast t payload h =
     (let cs = clients_of h t; slow = {ch \<in> cs. 16 \<le> length (hb_buffer h ch)} in
      (change_clients (\<lambda>cs. cs - slow) t h)
        \<lparr>hb_buffer := (\<lambda>ch. if ch \<in> cs \<and> ch \<notin> slow then hb_buffer h ch @ [payload] else hb_buffer h ch),
         hb_closed := hb_closed h \<union> slow,
         hb_sse_dropped := hb_sse_dropped h + int (card slow),
         hb_sse_clients := hb_sse_clients h - int (card slow)\<rparr>)"

definition running :: "sse_hub \<Rightarrow> nat \<Rightarrow> bool" where
  "running h t \<longleftrightarrow> (case hb_heap h t of None \<Rightarrow> False | Some tp \<Rightarrow> \<not> tp_stopped tp)"

inductive hub_step :: "sse_hub \<Rightarrow> sse_hub \<Rightarrow> bool" where
  subscribe: "hub_step h (snd (sse_subscribe acc h))"
| unsubscribe: "hb_owner h ch = Some acc \<Longrightarrow> ch \<notin> hb_unsubscribed h \<Longrightarrow> hub_step h (sse_unsubscribe acc ch h)"
| close: "t \<in> hb_closing h \<Longrightarrow> hub_step h (sse_close t h)"
| payload: "running h t \<Longrightarrow> hub_step h (sse_broadcast t p h)"
| receive: "hb_buffer h ch = p # ps \<Longrightarrow> hub_step h (h\<lparr>hb_buffer := (hb_buffer h)(ch := ps)\<rparr>)"
| resubscribe: "running h t \<Longrightarrow> hub_step h (h\<lparr>hb_resubscribed := hb_resubscribed h + 1\<rparr>)"

inductive hub_reachable :: "sse_hub \<Rightarrow> bool" where
  start: "hub_reachable new_sse_hub"
| step: "hub_reachable h \<Longrightarrow> hub_step h h' \<Longrightarrow> hub_reachable h'"

section \<open>The invariant\<close>

text \<open>The channels a client still reads from.\<close>

definition open_channels :: "sse_hub \<Rightarrow> channel set" where
  "open_channels h = {ch. ch < hb_next_channel h \<and> ch \<notin> hb_closed h}"

definition inv_topics :: "sse_hub \<Rightarrow> bool" where
  "inv_topics h \<longleftrightarrow> (\<forall>acc t. hb_topics h acc = Some t \<longrightarrow> t \<notin> hb_closing h \<and>
     (\<exists>tp. hb_heap h t = Some tp \<and> tp_account tp = acc \<and> \<not> tp_stopped tp))"

definition inv_heap :: "sse_hub \<Rightarrow> bool" where
  "inv_heap h \<longleftrightarrow> (\<forall>t \<in> hb_closing h. t < hb_next_topic h) \<and> (\<forall>t tp. hb_heap h t = Some tp \<longrightarrow> t < hb_next_topic h \<and>
     (hb_topics h (tp_account tp) = Some t \<or> tp_clients tp = {} \<and> (tp_stopped tp \<or> t \<in> hb_closing h)) \<and>
     (\<forall>ch \<in> tp_clients tp. hb_owner h ch = Some (tp_account tp)))"

definition inv_channels :: "sse_hub \<Rightarrow> bool" where
  "inv_channels h \<longleftrightarrow> (\<forall>ch. ch \<in> open_channels h \<longleftrightarrow> (\<exists>t. ch \<in> clients_of h t)) \<and>
     (\<forall>ch. hb_owner h ch \<noteq> None \<longleftrightarrow> ch < hb_next_channel h) \<and>
     hb_unsubscribed h \<subseteq> hb_closed h \<and> hb_closed h \<subseteq> {ch. ch < hb_next_channel h} \<and>
     (\<forall>ch. length (hb_buffer h ch) \<le> 16)"

text \<open>A topic is kept because a client has not unsubscribed yet.\<close>

definition inv_demand :: "sse_hub \<Rightarrow> bool" where
  "inv_demand h \<longleftrightarrow>
     (\<forall>acc t. hb_topics h acc = Some t \<longrightarrow> (\<exists>ch. hb_owner h ch = Some acc \<and> ch \<notin> hb_unsubscribed h))"

definition inv_gauges :: "sse_hub \<Rightarrow> bool" where
  "inv_gauges h \<longleftrightarrow> finite (dom (hb_topics h)) \<and>
     hb_sse_clients h = int (card (open_channels h)) \<and> hb_sse_topics h = int (card (dom (hb_topics h)))"

definition hub_inv :: "sse_hub \<Rightarrow> bool" where
  "hub_inv h \<longleftrightarrow> inv_topics h \<and> inv_heap h \<and> inv_channels h \<and> inv_demand h \<and> inv_gauges h"

lemma finite_open [simp]: "finite (open_channels h)"
  by (simp add: open_channels_def)

lemma new_hub_inv: "hub_inv new_sse_hub"
  by (simp add: hub_inv_def inv_topics_def inv_heap_def inv_channels_def inv_demand_def inv_gauges_def
      new_sse_hub_def open_channels_def clients_of_def)

lemma change_clients_simps [simp]:
  "hb_topics (change_clients f t h) = hb_topics h" "hb_closing (change_clients f t h) = hb_closing h"
  "hb_owner (change_clients f t h) = hb_owner h" "hb_buffer (change_clients f t h) = hb_buffer h"
  "hb_closed (change_clients f t h) = hb_closed h" "hb_unsubscribed (change_clients f t h) = hb_unsubscribed h"
  "hb_next_channel (change_clients f t h) = hb_next_channel h" "hb_next_topic (change_clients f t h) = hb_next_topic h"
  "hb_sse_clients (change_clients f t h) = hb_sse_clients h" "hb_sse_topics (change_clients f t h) = hb_sse_topics h"
  "hb_sse_dropped (change_clients f t h) = hb_sse_dropped h"
  "hb_heap (change_clients f t h) =
     (hb_heap h)(t := map_option (\<lambda>tp. tp\<lparr>tp_clients := f (tp_clients tp)\<rparr>) (hb_heap h t))"
  by (simp_all add: change_clients_def)

section \<open>The steps keep it\<close>

lemma inv_topicsD:
  assumes "inv_topics h" "hb_topics h acc = Some t"
  shows "t \<notin> hb_closing h" "\<exists>tp. hb_heap h t = Some tp \<and> tp_account tp = acc \<and> \<not> tp_stopped tp"
  using assms unfolding inv_topics_def by blast+

lemma topics_inj: "inv_topics h \<Longrightarrow> hb_topics h acc = Some t \<Longrightarrow> hb_topics h acc' = Some t \<Longrightarrow> acc' = acc"
  using inv_topicsD(2) [of h acc t] inv_topicsD(2) [of h acc' t] by auto

lemma inv_heapI:
  assumes "\<And>t. t \<in> hb_closing h \<Longrightarrow> t < hb_next_topic h"
    "\<And>t tp. hb_heap h t = Some tp \<Longrightarrow> t < hb_next_topic h"
    "\<And>t tp. hb_heap h t = Some tp \<Longrightarrow>
       hb_topics h (tp_account tp) = Some t \<or> tp_clients tp = {} \<and> (tp_stopped tp \<or> t \<in> hb_closing h)"
    "\<And>t tp ch. hb_heap h t = Some tp \<Longrightarrow> ch \<in> tp_clients tp \<Longrightarrow> hb_owner h ch = Some (tp_account tp)"
  shows "inv_heap h"
  using assms unfolding inv_heap_def by blast

lemma inv_heapD:
  assumes "inv_heap h"
  shows "t \<in> hb_closing h \<Longrightarrow> t < hb_next_topic h"
    "hb_heap h t = Some tp \<Longrightarrow> t < hb_next_topic h"
    "hb_heap h t = Some tp \<Longrightarrow>
       hb_topics h (tp_account tp) = Some t \<or> tp_clients tp = {} \<and> (tp_stopped tp \<or> t \<in> hb_closing h)"
    "hb_heap h t = Some tp \<Longrightarrow> ch \<in> tp_clients tp \<Longrightarrow> hb_owner h ch = Some (tp_account tp)"
  using assms unfolding inv_heap_def by blast+

lemma ensure_topic_inv:
  assumes "inv_topics h" "inv_heap h" "inv_channels h" "inv_gauges h" "ensure_topic acc h = (t, h')"
  shows "inv_topics h' \<and> inv_heap h' \<and> inv_channels h' \<and> inv_gauges h' \<and> hb_topics h' acc = Some t \<and>
    hb_unsubscribed h' = hb_unsubscribed h \<and> hb_owner h' = hb_owner h \<and>
    (\<forall>acc'. acc' \<noteq> acc \<longrightarrow> hb_topics h' acc' = hb_topics h acc')"
proof (cases "hb_topics h acc")
  case None
  let ?t = "hb_next_topic h"
  have t: "t = ?t" and h': "h' = h\<lparr>hb_topics := (hb_topics h)(acc \<mapsto> ?t),
      hb_heap := (hb_heap h)(?t \<mapsto> \<lparr>tp_account = acc, tp_clients = {}, tp_stopped = False\<rparr>),
      hb_next_topic := Suc ?t, hb_sse_topics := hb_sse_topics h + 1\<rparr>"
    using assms(5) None by (auto simp: ensure_topic_def Let_def)
  have new: "hb_heap h ?t = None" "?t \<notin> hb_closing h"
    using assms(2) unfolding inv_heap_def by (metis nat_neq_iff not_Some_eq)+
  have c: "clients_of h' s = clients_of h s" for s using new(1) by (simp add: h' clients_of_def)
  have o: "open_channels h' = open_channels h" by (simp add: h' open_channels_def)
  have "hb_topics h a \<noteq> Some ?t" for a using inv_topicsD(2) [OF assms(1)] new(1) by fastforce
  then have "inv_topics h'" using assms(1) new(2) None unfolding inv_topics_def h' by (auto dest: sym)
  moreover have "inv_heap h'"
  proof (rule inv_heapI)
    fix s assume "s \<in> hb_closing h'"
    then show "s < hb_next_topic h'" using inv_heapD(1) [OF assms(2), of s] by (simp add: h')
  next
    fix s tp assume tp: "hb_heap h' s = Some tp"
    then show "s < hb_next_topic h'"
      using inv_heapD(2) [OF assms(2), of s tp] by (cases "s = ?t") (simp_all add: h')
    show "hb_topics h' (tp_account tp) = Some s \<or> tp_clients tp = {} \<and> (tp_stopped tp \<or> s \<in> hb_closing h')"
      using inv_heapD(3) [OF assms(2), of s tp] tp None by (cases "s = ?t") (auto simp: h')
    show "hb_owner h' ch = Some (tp_account tp)" if "ch \<in> tp_clients tp" for ch
      using inv_heapD(4) [OF assms(2), of s tp ch] tp that by (cases "s = ?t") (auto simp: h')
  qed
  moreover have "inv_channels h'" using assms(3) unfolding inv_channels_def c o by (simp add: h')
  moreover have "inv_gauges h'" using assms(4) None unfolding inv_gauges_def o by (simp add: h' card_insert_if domIff)
  ultimately show ?thesis by (simp add: h' t)
next
  case (Some s)
  then show ?thesis using assms by (simp add: ensure_topic_def)
qed

lemma subscribe_inv:
  assumes "hub_inv h" shows "hub_inv (snd (sse_subscribe acc h))"
proof -
  obtain t h1 where e: "ensure_topic acc h = (t, h1)" by fastforce
  have inv: "inv_topics h1" "inv_heap h1" "inv_channels h1" "inv_gauges h1" "hb_topics h1 acc = Some t"
    "hb_unsubscribed h1 = hb_unsubscribed h" "hb_owner h1 = hb_owner h"
    "\<And>acc'. acc' \<noteq> acc \<Longrightarrow> hb_topics h1 acc' = hb_topics h acc'"
    using ensure_topic_inv [OF _ _ _ _ e] assms by (simp_all add: hub_inv_def)
  let ?ch = "hb_next_channel h1"
  obtain tp where tp: "hb_heap h1 t = Some tp" "tp_account tp = acc" "\<not> tp_stopped tp" "t \<notin> hb_closing h1"
    using inv(1,5) unfolding inv_topics_def by blast
  let ?h = "snd (sse_subscribe acc h)"
  have h: "?h = (change_clients (insert ?ch) t h1)\<lparr>hb_owner := (hb_owner h1)(?ch \<mapsto> acc), hb_next_channel := Suc ?ch,
      hb_sse_clients := hb_sse_clients h1 + 1\<rparr>"
    by (simp add: sse_subscribe_def e Let_def)
  have fresh: "hb_owner h1 ?ch = None" "?ch \<notin> hb_closed h1" "?ch \<notin> hb_unsubscribed h1"
    using inv(3) unfolding inv_channels_def by (metis less_irrefl, blast, blast)
  have c: "clients_of ?h s = (if s = t then insert ?ch (clients_of h1 s) else clients_of h1 s)" for s
    using tp(1) by (simp add: h clients_of_def)
  have o: "open_channels ?h = insert ?ch (open_channels h1)" using fresh(2) by (auto simp: h open_channels_def)
  have "hb_topics h1 a = Some t \<Longrightarrow> a = acc" for a using topics_inj [OF inv(1,5)] .
  then have "inv_topics ?h" using inv(1) tp unfolding inv_topics_def h by auto
  moreover have "inv_heap ?h" using inv(2,5) tp fresh(1) unfolding inv_heap_def h by auto
  moreover have "inv_channels ?h"
    using inv(3) unfolding inv_channels_def c o by (auto simp: h less_Suc_eq)
  moreover have "inv_demand ?h"
    unfolding inv_demand_def
  proof (intro allI impI)
    fix a s assume a: "hb_topics ?h a = Some s"
    show "\<exists>ch. hb_owner ?h ch = Some a \<and> ch \<notin> hb_unsubscribed ?h"
    proof (cases "a = acc")
      case True then show ?thesis using fresh(3) by (auto simp: h)
    next
      case False
      then have "hb_topics h a = Some s" using a inv(8) by (simp add: h)
      then obtain c where "hb_owner h c = Some a" "c \<notin> hb_unsubscribed h"
        using assms unfolding hub_inv_def inv_demand_def by blast
      then show ?thesis using inv(6,7) fresh(1) by (intro exI [of _ c]) (auto simp: h)
    qed
  qed
  moreover have "inv_gauges ?h"
    using inv(4) fresh unfolding inv_gauges_def o by (simp add: h card_insert_if open_channels_def)
  ultimately show ?thesis by (simp add: hub_inv_def)
qed


text \<open>Removing clients that are closed at the same time, and counted.\<close>

definition drop_clients :: "channel set \<Rightarrow> nat \<Rightarrow> sse_hub \<Rightarrow> sse_hub" where
  "drop_clients cs t h =
     (change_clients (\<lambda>xs. xs - cs) t h)\<lparr>hb_closed := hb_closed h \<union> cs, hb_sse_clients := hb_sse_clients h - int (card cs)\<rparr>"

lemma clients_open: "inv_channels h \<Longrightarrow> clients_of h t \<subseteq> open_channels h"
  unfolding inv_channels_def by blast

lemma clients_ofD: "ch \<in> clients_of h t \<Longrightarrow> \<exists>tp. hb_heap h t = Some tp \<and> ch \<in> tp_clients tp"
  by (simp add: clients_of_def split: option.splits)

lemma client_topic:
  assumes "inv_heap h" "ch \<in> clients_of h t"
  shows "\<exists>acc. hb_owner h ch = Some acc \<and> hb_topics h acc = Some t"
proof -
  obtain tp where tp: "hb_heap h t = Some tp" "ch \<in> tp_clients tp" using clients_ofD [OF assms(2)] by blast
  then show ?thesis using inv_heapD(3,4) [OF assms(1) tp(1)] by blast
qed

lemma clients_disjoint: "inv_heap h \<Longrightarrow> s \<noteq> t \<Longrightarrow> clients_of h s \<inter> clients_of h t = {}"
  using client_topic [of h _ s] client_topic [of h _ t] by fastforce

lemma drop_clients_inv:
  assumes inv: "inv_topics h" "inv_heap h" "inv_channels h" "inv_gauges h" and cs: "cs \<subseteq> clients_of h t"
  shows "inv_topics (drop_clients cs t h) \<and> inv_heap (drop_clients cs t h) \<and> inv_channels (drop_clients cs t h) \<and>
    inv_gauges (drop_clients cs t h)"
proof -
  let ?h = "drop_clients cs t h"
  have open': "cs \<subseteq> open_channels h" using cs clients_open [OF inv(3)] by blast
  have o: "open_channels ?h = open_channels h - cs" by (auto simp: drop_clients_def open_channels_def)
  have c: "clients_of ?h s = (if s = t then clients_of h s - cs else clients_of h s)" for s
    by (auto simp: drop_clients_def clients_of_def split: option.split)
  note disj = clients_disjoint [OF inv(2)]
  have "inv_topics ?h"
    unfolding inv_topics_def
  proof (intro allI impI)
    fix a s assume "hb_topics ?h a = Some s"
    then have a: "hb_topics h a = Some s" by (simp add: drop_clients_def)
    show "s \<notin> hb_closing ?h \<and> (\<exists>tp. hb_heap ?h s = Some tp \<and> tp_account tp = a \<and> \<not> tp_stopped tp)"
      using inv_topicsD [OF inv(1) a] by (cases "s = t") (auto simp: drop_clients_def)
  qed
  moreover have "inv_heap ?h"
  proof (rule inv_heapI)
    fix s tp assume "hb_heap ?h s = Some tp"
    then obtain tp0 where tp0: "hb_heap h s = Some tp0" "tp_account tp = tp_account tp0"
      "tp_stopped tp = tp_stopped tp0" "tp_clients tp \<subseteq> tp_clients tp0"
      by (cases "s = t") (auto simp: drop_clients_def)
    show "s < hb_next_topic ?h" using inv_heapD(2) [OF inv(2) tp0(1)] by (simp add: drop_clients_def)
    show "hb_topics ?h (tp_account tp) = Some s \<or> tp_clients tp = {} \<and> (tp_stopped tp \<or> s \<in> hb_closing ?h)"
      using inv_heapD(3) [OF inv(2) tp0(1)] tp0 by (auto simp: drop_clients_def)
    show "hb_owner ?h ch = Some (tp_account tp)" if "ch \<in> tp_clients tp" for ch
      using inv_heapD(4) [OF inv(2) tp0(1)] tp0 that by (auto simp: drop_clients_def)
  qed (use inv_heapD(1) [OF inv(2)] in \<open>simp add: drop_clients_def\<close>)
  moreover have "inv_channels ?h"
  proof -
    have "(ch \<in> open_channels ?h) = (\<exists>s. ch \<in> clients_of ?h s)" for ch
    proof -
      have "(ch \<in> open_channels h) = (\<exists>s. ch \<in> clients_of h s)" using inv(3) unfolding inv_channels_def by blast
      moreover have "ch \<in> cs \<Longrightarrow> ch \<in> clients_of h s \<Longrightarrow> s = t" for s using cs disj [of s] by blast
      ultimately show ?thesis unfolding o c by (cases "ch \<in> cs") (auto split: if_splits)
    qed
    moreover have "hb_closed ?h \<subseteq> {ch. ch < hb_next_channel ?h}" "hb_unsubscribed ?h \<subseteq> hb_closed ?h"
      using inv(3) open' unfolding inv_channels_def by (auto simp: drop_clients_def open_channels_def)
    ultimately show ?thesis
      using inv(3) unfolding inv_channels_def by (simp add: drop_clients_def)
  qed
  moreover have "inv_gauges ?h"
    using inv(4) open' unfolding inv_gauges_def o
    by (simp add: drop_clients_def card_Diff_subset finite_subset [OF open'] of_nat_diff card_mono)
  ultimately show ?thesis by blast
qed


lemma drop_none [simp]: "drop_clients {} t h = h"
  by (cases "hb_heap h t") (simp_all add: drop_clients_def change_clients_def fun_upd_idem)

lemma unsubscribe_eq:
  assumes "hb_topics h acc = Some t"
  shows "sse_unsubscribe acc ch h =
    (let h2 = (drop_clients ({ch} \<inter> clients_of h t) t h)\<lparr>hb_unsubscribed := insert ch (hb_unsubscribed h)\<rparr>
     in if clients_of h2 t = {}
        then h2\<lparr>hb_topics := (hb_topics h2)(acc := None), hb_closing := insert t (hb_closing h2),
                hb_sse_topics := hb_sse_topics h2 - 1\<rparr>
        else h2)"
proof (cases "ch \<in> clients_of h t")
  case True
  then show ?thesis
    using assms by (auto simp: sse_unsubscribe_def remove_client_def drop_clients_def change_clients_def clients_of_def
        Let_def)
next
  case False
  have "clients_of (h\<lparr>hb_unsubscribed := u\<rparr>) = clients_of h" for u by (simp add: clients_of_def fun_eq_iff)
  then show ?thesis using assms False by (simp add: sse_unsubscribe_def remove_client_def)
qed

text \<open>An open channel is a client of the topic its account is mapped to.\<close>

lemma open_client:
  assumes "inv_heap h" "inv_channels h" "ch \<in> open_channels h" "hb_owner h ch = Some acc"
  shows "\<exists>t. hb_topics h acc = Some t \<and> ch \<in> clients_of h t"
proof -
  obtain t where t: "ch \<in> clients_of h t" using assms(2,3) unfolding inv_channels_def by blast
  then show ?thesis using client_topic [OF assms(1) t] assms(4) by auto
qed

lemma inv_channelsD:
  assumes "inv_channels h"
  shows "ch \<in> open_channels h \<longleftrightarrow> (\<exists>t. ch \<in> clients_of h t)" "hb_owner h ch \<noteq> None \<longleftrightarrow> ch < hb_next_channel h"
    "hb_unsubscribed h \<subseteq> hb_closed h" "hb_closed h \<subseteq> {ch. ch < hb_next_channel h}" "length (hb_buffer h ch) \<le> 16"
  using assms unfolding inv_channels_def by blast+

lemma open_not_unsubscribed: "inv_channels h \<Longrightarrow> ch \<in> open_channels h \<Longrightarrow> ch \<notin> hb_unsubscribed h"
  using inv_channelsD(3) [of h] by (auto simp: open_channels_def)

lemma close_inv:
  assumes inv: "hub_inv h" and t: "t \<in> hb_closing h"
  shows "hub_inv (sse_close t h)"
proof -
  note I = inv [unfolded hub_inv_def]
  have nt: "hb_topics h acc \<noteq> Some t" for acc using I t inv_topicsD(1) by blast
  have empty: "clients_of h t = {}" using client_topic [of h _ t] I nt by blast
  let ?h = "sse_close t h"
  have c: "clients_of ?h = clients_of h" using empty by (auto simp: fun_eq_iff sse_close_def clients_of_def split: option.splits)
  have h: "?h = h\<lparr>hb_closing := hb_closing h - {t}, hb_heap := hb_heap ?h\<rparr>"
    unfolding sse_close_def empty by simp
  have heap: "hb_heap ?h = (hb_heap h)(t := map_option (\<lambda>tp. tp\<lparr>tp_clients := {}, tp_stopped := True\<rparr>) (hb_heap h t))"
    by (simp add: sse_close_def)
  have f: "hb_topics ?h = hb_topics h" "hb_owner ?h = hb_owner h" "hb_closed ?h = hb_closed h"
    "hb_unsubscribed ?h = hb_unsubscribed h" "hb_next_channel ?h = hb_next_channel h" "hb_buffer ?h = hb_buffer h"
    "hb_next_topic ?h = hb_next_topic h" "hb_sse_clients ?h = hb_sse_clients h" "hb_sse_topics ?h = hb_sse_topics h"
    "hb_closing ?h = hb_closing h - {t}"
    by (subst h; simp)+
  have o: "open_channels ?h = open_channels h" by (simp add: open_channels_def f)
  have "inv_topics ?h"
    using I nt unfolding inv_topics_def f heap by (metis (no_types, lifting) DiffD1 fun_upd_apply)
  moreover have "inv_heap ?h"
  proof (rule inv_heapI)
    fix s tp assume tp: "hb_heap ?h s = Some tp"
    then obtain tp0 where tp0: "hb_heap h s = Some tp0" by (cases "s = t") (auto simp: heap)
    show "s < hb_next_topic ?h" using inv_heapD(2) [of h, OF _ tp0] I by (simp add: f)
    show "hb_topics ?h (tp_account tp) = Some s \<or> tp_clients tp = {} \<and> (tp_stopped tp \<or> s \<in> hb_closing ?h)"
      using inv_heapD(3) [of h, OF _ tp0] I tp tp0 by (cases "s = t") (auto simp: f heap)
    show "hb_owner ?h ch = Some (tp_account tp)" if "ch \<in> tp_clients tp" for ch
      using inv_heapD(4) [of h, OF _ tp0] I tp tp0 that by (cases "s = t") (auto simp: f heap)
  qed (use inv_heapD(1) [of h] I in \<open>simp add: f\<close>)
  ultimately show ?thesis using I by (simp add: hub_inv_def inv_channels_def inv_demand_def inv_gauges_def o c f)
qed


lemma mark_unsubscribed:
  assumes "inv_topics d" "inv_heap d" "inv_channels d" "inv_gauges d" "ch \<in> hb_closed d"
  shows "inv_topics (d\<lparr>hb_unsubscribed := insert ch (hb_unsubscribed d)\<rparr>)"
    "inv_heap (d\<lparr>hb_unsubscribed := insert ch (hb_unsubscribed d)\<rparr>)"
    "inv_channels (d\<lparr>hb_unsubscribed := insert ch (hb_unsubscribed d)\<rparr>)"
    "inv_gauges (d\<lparr>hb_unsubscribed := insert ch (hb_unsubscribed d)\<rparr>)"
  using assms by (simp_all add: inv_topics_def inv_heap_def inv_channels_def inv_gauges_def open_channels_def
      clients_of_def)

lemma unsubscribe_inv:
  assumes inv: "hub_inv h" and own: "hb_owner h ch = Some acc" "ch \<notin> hb_unsubscribed h"
  shows "hub_inv (sse_unsubscribe acc ch h)"
proof (cases "hb_topics h acc")
  case None
  note I = inv [unfolded hub_inv_def]
  have "ch \<notin> open_channels h" using open_client [OF _ _ _ own(1)] I None by auto
  moreover have "ch < hb_next_channel h" using inv_channelsD(2) [of h ch] I own(1) by simp
  ultimately have closed: "ch \<in> hb_closed h" by (simp add: open_channels_def)
  have e: "sse_unsubscribe acc ch h = h\<lparr>hb_unsubscribed := insert ch (hb_unsubscribed h)\<rparr>"
    using None closed by (simp add: sse_unsubscribe_def insert_absorb)
  have "inv_demand (sse_unsubscribe acc ch h)"
    unfolding inv_demand_def
  proof (intro allI impI)
    fix a t assume "hb_topics (sse_unsubscribe acc ch h) a = Some t"
    then have a: "hb_topics h a = Some t" by (simp add: e)
    then obtain c where c: "hb_owner h c = Some a" "c \<notin> hb_unsubscribed h" using I unfolding inv_demand_def by blast
    then have "c \<noteq> ch" using own(1) a None by auto
    then show "\<exists>c. hb_owner (sse_unsubscribe acc ch h) c = Some a \<and> c \<notin> hb_unsubscribed (sse_unsubscribe acc ch h)"
      using c by (intro exI [of _ c]) (simp add: e)
  qed
  then show ?thesis
    using I closed by (simp add: hub_inv_def inv_topics_def inv_heap_def inv_channels_def inv_gauges_def open_channels_def
        clients_of_def e)
next
  case (Some t)
  note I = inv [unfolded hub_inv_def]
  let ?d = "drop_clients ({ch} \<inter> clients_of h t) t h"
  let ?h2 = "?d\<lparr>hb_unsubscribed := insert ch (hb_unsubscribed h)\<rparr>"
  have d: "inv_topics ?d" "inv_heap ?d" "inv_channels ?d" "inv_gauges ?d"
    using drop_clients_inv [of h "{ch} \<inter> clients_of h t" t] I by blast+
  have f: "hb_topics ?d = hb_topics h" "hb_owner ?d = hb_owner h" "hb_unsubscribed ?d = hb_unsubscribed h"
    "hb_next_channel ?d = hb_next_channel h"
    by (simp_all add: drop_clients_def)
  have "ch \<in> open_channels h \<Longrightarrow> ch \<in> clients_of h t" using open_client [OF _ _ _ own(1)] I Some by auto
  then have no: "ch \<notin> open_channels ?d" by (auto simp: drop_clients_def open_channels_def)
  have less: "ch < hb_next_channel h" using inv_channelsD(2) [of h ch] I own(1) by simp
  have closed: "ch \<in> hb_closed ?d" using no less by (simp add: open_channels_def f)
  have c2: "clients_of ?h2 = clients_of ?d" by (simp add: clients_of_def fun_eq_iff)
  have h2: "inv_topics ?h2" "inv_heap ?h2" "inv_channels ?h2" "inv_gauges ?h2"
    using mark_unsubscribed [OF d closed] by (simp_all add: f)
  have other: "\<exists>c. hb_owner ?h2 c = Some a \<and> c \<notin> hb_unsubscribed ?h2" if a: "hb_topics h a = Some s" "a \<noteq> acc" for a s
  proof -
    obtain c where c: "hb_owner h c = Some a" "c \<notin> hb_unsubscribed h" using I a(1) unfolding inv_demand_def by blast
    then show ?thesis using own(1) a(2) by (intro exI [of _ c]) (auto simp: f)
  qed
  show ?thesis
  proof (cases "clients_of ?h2 t = {}")
    case False
    then obtain c where c: "c \<in> clients_of ?d t" by (auto simp: c2)
    have "hb_owner ?d c = Some acc" using client_topic [OF d(2) c] topics_inj [OF d(1)] Some by (auto simp: f)
    moreover have "c \<in> open_channels ?d" using clients_open [OF d(3)] c by blast
    moreover have "c \<noteq> ch" using calculation(2) no by blast
    ultimately have "\<exists>c. hb_owner ?h2 c = Some acc \<and> c \<notin> hb_unsubscribed ?h2"
      using open_not_unsubscribed [OF d(3), of c] by (auto simp: f)
    then have "inv_demand ?h2" using other unfolding inv_demand_def by (simp add: f) blast
    then show ?thesis using h2 False by (simp add: hub_inv_def unsubscribe_eq [OF Some] Let_def)
  next
    case True
    let ?h3 = "?h2\<lparr>hb_topics := (hb_topics ?h2)(acc := None), hb_closing := insert t (hb_closing ?h2),
                hb_sse_topics := hb_sse_topics ?h2 - 1\<rparr>"
    have e: "sse_unsubscribe acc ch h = ?h3" using True by (simp add: unsubscribe_eq [OF Some] Let_def)
    have ft: "hb_topics ?h2 acc = Some t" using Some by (simp add: f)
    have "inv_topics ?h3"
      unfolding inv_topics_def
    proof (intro allI impI)
      fix a s assume "hb_topics ?h3 a = Some s"
      then have a: "a \<noteq> acc" "hb_topics ?h2 a = Some s" by (auto split: if_splits)
      then have "s \<noteq> t" using topics_inj [OF h2(1) ft] by auto
      then show "s \<notin> hb_closing ?h3 \<and> (\<exists>tp. hb_heap ?h3 s = Some tp \<and> tp_account tp = a \<and> \<not> tp_stopped tp)"
        using inv_topicsD [OF h2(1) a(2)] by simp
    qed
    moreover have "inv_heap ?h3"
    proof (rule inv_heapI)
      fix s tp assume tp: "hb_heap ?h3 s = Some tp"
      then have tp2: "hb_heap ?h2 s = Some tp" by simp
      show "s < hb_next_topic ?h3" using inv_heapD(2) [OF h2(2) tp2] by simp
      show "hb_owner ?h3 c = Some (tp_account tp)" if "c \<in> tp_clients tp" for c
        using inv_heapD(4) [OF h2(2) tp2 that] by simp
      show "hb_topics ?h3 (tp_account tp) = Some s \<or> tp_clients tp = {} \<and> (tp_stopped tp \<or> s \<in> hb_closing ?h3)"
      proof (cases "s = t")
        case True
        then have "tp_clients tp = {}" using \<open>clients_of ?h2 t = {}\<close> tp2 by (simp add: clients_of_def)
        then show ?thesis using True by simp
      next
        case False
        then have "hb_topics ?h2 (tp_account tp) = Some s \<Longrightarrow> tp_account tp \<noteq> acc" using ft by auto
        then show ?thesis using inv_heapD(3) [OF h2(2) tp2] by auto
      qed
    next
      fix s assume "s \<in> hb_closing ?h3"
      then have "s = t \<or> s \<in> hb_closing ?h2" by simp
      moreover have "t < hb_next_topic ?h2"
        using inv_topicsD(2) [OF h2(1) ft] inv_heapD(2) [OF h2(2), of t] by blast
      ultimately show "s < hb_next_topic ?h3" using inv_heapD(1) [OF h2(2), of s] by auto
    qed
    moreover have "inv_channels ?h3" using h2(3) by (simp add: inv_channels_def open_channels_def clients_of_def)
    moreover have "inv_demand ?h3" using other unfolding inv_demand_def by (simp add: f) blast
    moreover have "inv_gauges ?h3"
    proof -
      have "dom (hb_topics ?h3) = dom (hb_topics ?h2) - {acc}" by auto
      moreover have "acc \<in> dom (hb_topics ?h2)" using ft by blast
      moreover have "open_channels ?h3 = open_channels ?h2" by (simp add: open_channels_def)
      moreover have "0 < card (dom (hb_topics ?h2))"
        using h2(4) calculation(2) unfolding inv_gauges_def by (auto simp: card_gt_0_iff)
      ultimately show ?thesis using h2(4) unfolding inv_gauges_def by (simp add: card_Diff_singleton of_nat_diff)
    qed
    ultimately show ?thesis unfolding e hub_inv_def by blast
  qed
qed

lemma broadcast_eq:
  "sse_broadcast t p h =
     (let cs = clients_of h t; slow = {ch \<in> cs. 16 \<le> length (hb_buffer h ch)} in
      (drop_clients slow t h)
        \<lparr>hb_buffer := (\<lambda>ch. if ch \<in> cs \<and> ch \<notin> slow then hb_buffer h ch @ [p] else hb_buffer h ch),
         hb_sse_dropped := hb_sse_dropped h + int (card slow)\<rparr>)"
  by (simp add: sse_broadcast_def drop_clients_def Let_def)

lemma buffers_inv:
  assumes "hub_inv h" "\<And>ch. length (b ch) \<le> 16"
  shows "hub_inv (h\<lparr>hb_buffer := b\<rparr>)"
  using assms by (simp add: hub_inv_def inv_topics_def inv_heap_def inv_channels_def inv_demand_def inv_gauges_def
      open_channels_def clients_of_def)

lemma counters_inv:
  "hub_inv (h\<lparr>hb_sse_dropped := n\<rparr>) = hub_inv h" "hub_inv (h\<lparr>hb_resubscribed := n\<rparr>) = hub_inv h"
  by (simp_all add: hub_inv_def inv_topics_def inv_heap_def inv_channels_def inv_demand_def inv_gauges_def
      open_channels_def clients_of_def)

lemma broadcast_inv:
  assumes inv: "hub_inv h" shows "hub_inv (sse_broadcast t p h)"
proof -
  note I = inv [unfolded hub_inv_def]
  let ?slow = "{ch \<in> clients_of h t. 16 \<le> length (hb_buffer h ch)}"
  let ?d = "drop_clients ?slow t h"
  have "inv_topics ?d" "inv_heap ?d" "inv_channels ?d" "inv_gauges ?d"
    using drop_clients_inv [of h ?slow t] I by blast+
  moreover have "inv_demand ?d" using I by (simp add: inv_demand_def drop_clients_def)
  ultimately have d: "hub_inv ?d" by (simp add: hub_inv_def)
  have "length (hb_buffer h ch) \<le> 16" for ch using inv_channelsD(5) [of h ch] I by blast
  then have "hub_inv (?d\<lparr>hb_buffer := (\<lambda>ch. if ch \<in> clients_of h t \<and> ch \<notin> ?slow then hb_buffer h ch @ [p] else hb_buffer h ch)\<rparr>)"
    by (intro buffers_inv [OF d]) auto
  then show ?thesis by (simp add: broadcast_eq Let_def counters_inv)
qed

lemma hub_reachable_inv: "hub_reachable h \<Longrightarrow> hub_inv h"
proof (induction rule: hub_reachable.induct)
  case start
  show ?case by (rule new_hub_inv)
next
  case (step h h')
  have len: "length (hb_buffer h ch) \<le> 16" for ch using step.IH inv_channelsD(5) [of h ch] unfolding hub_inv_def by blast
  from step(2) show ?case
  proof cases
    case (receive ch p ps)
    then show ?thesis using len [of ch] len step.IH by (auto intro!: buffers_inv)
  qed (use step.IH in \<open>simp_all add: subscribe_inv unsubscribe_inv close_inv broadcast_inv counters_inv\<close>)
qed


section \<open>What the hub promises\<close>

lemma open_has_owner: "inv_channels h \<Longrightarrow> ch \<in> open_channels h \<Longrightarrow> \<exists>acc. hb_owner h ch = Some acc"
  using inv_channelsD(2) [of h ch] by (auto simp: open_channels_def)

lemma running_topic:
  assumes "inv_heap h" "running h t"
  shows "t \<in> hb_closing h \<or> (\<exists>acc. hb_topics h acc = Some t)"
proof -
  obtain tp where tp: "hb_heap h t = Some tp" "\<not> tp_stopped tp"
    using assms(2) by (auto simp: running_def split: option.splits)
  then show ?thesis using inv_heapD(3) [OF assms(1) tp(1)] by auto
qed

text \<open>What a payload of an account does to a channel.\<close>

definition gets_payload :: "sse_hub \<Rightarrow> string \<Rightarrow> sse_hub \<Rightarrow> channel \<Rightarrow> bool" where
  "gets_payload h p h' ch \<longleftrightarrow>
     (if length (hb_buffer h ch) < 16 then ch \<in> open_channels h' \<and> hb_buffer h' ch = hb_buffer h ch @ [p]
      else ch \<in> hb_closed h' \<and> hb_buffer h' ch = hb_buffer h ch)"

lemma payload_reaches:
  assumes inv: "inv_topics h" "inv_heap h" "inv_channels h" and t: "hb_topics h acc = Some t"
    and ch: "ch \<in> open_channels h" "hb_owner h ch = Some owner"
  shows "if owner = acc then gets_payload h p (sse_broadcast t p h) ch
    else ch \<in> open_channels (sse_broadcast t p h) \<and> hb_buffer (sse_broadcast t p h) ch = hb_buffer h ch"
proof -
  obtain s where s: "hb_topics h owner = Some s" "ch \<in> clients_of h s" using open_client [OF inv(2,3) ch] by blast
  show ?thesis
  proof (cases "owner = acc")
    case True
    then have "ch \<in> clients_of h t" using s t by simp
    then show ?thesis using True ch(1) by (simp add: gets_payload_def sse_broadcast_def Let_def open_channels_def)
  next
    case False
    then have "s \<noteq> t" using topics_inj [OF inv(1) t] s(1) by blast
    then have "ch \<notin> clients_of h t" using clients_disjoint [OF inv(2)] s(2) by blast
    then show ?thesis using False ch(1) by (simp add: sse_broadcast_def Let_def open_channels_def)
  qed
qed

text \<open>
  C9: However subscriptions, cancellations, payloads, reads and subscription failures of all goroutines
  interleave, an open client channel is served by the one running topic its account is mapped to; a payload
  of that account is buffered for each of the account's open channels, or closes a channel whose sixteen places
  are taken, and changes no other account's channels; a goroutine with a Redis subscription belongs to a mapped
  topic or to one being closed, and an account stays mapped only while a client of it has not cancelled; the
  gauges count the open channels and the mapped topics exactly.
\<close>

theorem sse_hub_correct:
  assumes "hub_reachable h"
  shows "(\<forall>ch acc. ch \<in> open_channels h \<longrightarrow> hb_owner h ch = Some acc \<longrightarrow>
       (\<exists>t. hb_topics h acc = Some t \<and> running h t \<and> ch \<in> clients_of h t)) \<and>
     (\<forall>acc t p ch owner. hb_topics h acc = Some t \<longrightarrow> ch \<in> open_channels h \<longrightarrow> hb_owner h ch = Some owner \<longrightarrow>
       (if owner = acc then gets_payload h p (sse_broadcast t p h) ch
        else ch \<in> open_channels (sse_broadcast t p h) \<and> hb_buffer (sse_broadcast t p h) ch = hb_buffer h ch)) \<and>
     (\<forall>t. running h t \<longrightarrow> t \<in> hb_closing h \<or> (\<exists>acc. hb_topics h acc = Some t)) \<and>
     (\<forall>acc t. hb_topics h acc = Some t \<longrightarrow> (\<exists>ch. hb_owner h ch = Some acc \<and> ch \<notin> hb_unsubscribed h)) \<and>
     hb_sse_clients h = int (card (open_channels h)) \<and> hb_sse_topics h = int (card (dom (hb_topics h)))"
proof -
  note I = hub_reachable_inv [OF assms, unfolded hub_inv_def]
  have 1: "\<exists>t. hb_topics h acc = Some t \<and> running h t \<and> ch \<in> clients_of h t"
    if ch: "ch \<in> open_channels h" "hb_owner h ch = Some acc" for ch acc
  proof -
    obtain t where t: "hb_topics h acc = Some t" "ch \<in> clients_of h t" using open_client [OF _ _ ch] I by blast
    then show ?thesis using inv_topicsD(2) [of h acc t] I by (auto simp: running_def)
  qed
  have "inv_topics h" "inv_heap h" "inv_channels h" "inv_demand h" "inv_gauges h" using I by blast+
  then have "\<forall>acc t p ch owner. hb_topics h acc = Some t \<longrightarrow> ch \<in> open_channels h \<longrightarrow> hb_owner h ch = Some owner \<longrightarrow>
       (if owner = acc then gets_payload h p (sse_broadcast t p h) ch
        else ch \<in> open_channels (sse_broadcast t p h) \<and> hb_buffer (sse_broadcast t p h) ch = hb_buffer h ch)"
    using payload_reaches by blast
  moreover have "\<forall>t. running h t \<longrightarrow> t \<in> hb_closing h \<or> (\<exists>acc. hb_topics h acc = Some t)"
    using running_topic [of h] I by blast
  ultimately show ?thesis using 1 I unfolding inv_gauges_def inv_demand_def by blast
qed

definition busy_hub :: sse_hub where
  "busy_hub = snd (sse_subscribe ''b'' (snd (sse_subscribe ''a'' new_sse_hub)))"

lemma busy_hub_reachable: "hub_reachable busy_hub"
  unfolding busy_hub_def
  by (rule hub_reachable.step [OF _ hub_step.subscribe], rule hub_reachable.step [OF _ hub_step.subscribe],
      rule hub_reachable.start)

lemma busy_hub_values: "hb_topics busy_hub ''a'' = Some 0" "hb_owner busy_hub 0 = Some ''a''" "0 \<in> open_channels busy_hub"
  "hb_buffer busy_hub 0 = []"
  by (simp_all add: busy_hub_def sse_subscribe_def ensure_topic_def new_sse_hub_def open_channels_def Let_def)

theorem sse_hub_correct_witness:
  "hub_reachable busy_hub \<and> gets_payload busy_hub ''m'' (sse_broadcast 0 ''m'' busy_hub) 0"
proof -
  have "\<forall>acc t p ch owner. hb_topics busy_hub acc = Some t \<longrightarrow> ch \<in> open_channels busy_hub \<longrightarrow>
     hb_owner busy_hub ch = Some owner \<longrightarrow>
       (if owner = acc then gets_payload busy_hub p (sse_broadcast t p busy_hub) ch
        else ch \<in> open_channels (sse_broadcast t p busy_hub) \<and>
          hb_buffer (sse_broadcast t p busy_hub) ch = hb_buffer busy_hub ch)"
    using sse_hub_correct [OF busy_hub_reachable] by (elim conjE) assumption
  then show ?thesis using busy_hub_values busy_hub_reachable by fastforce
qed

end
