(* ===== verification/Yyds.thy ===== *)
theory Yyds
  imports MessageApi AccountApi Config
begin

text \<open>
  The yyds dialect, \<open>internal/dialect/yyds/api.go\<close>: its settings and middlewares, the domains a request may use
  and the address a new inbox gets. A request is the context of theory Middleware with the kind of its
  authentication (\<open>yyds.auth.kind\<close>); an \<open>apiError\<close> is the record \<open>api_error\<close>, the value \<open>Inl\<close> of what can fail. \<open>cmd/api/main.go\<close>
  passes all components to \<open>New\<close>; the branches for a missing one (\<open>a.core == nil\<close> and so on) are
  not modelled. \<open>crypto/rand\<close> is a parameter that may fail (\<^const>\<open>None\<close>) and shares the state of the random source.
\<close>

section \<open>Settings, errors, responses\<close>

record ('s, 'r, 'g) yyds_api =
  ya_env :: "('s, 'r, 'g) api_env"
  ya_core :: handler
  ya_account_ttl :: duration
  ya_token_ttl :: duration
  ya_api_keys :: "string \<rightharpoonup> api_key_info"
  ya_global_rpm :: int
  ya_public :: yyds_dialect_config
  ya_rand_int :: "nat \<Rightarrow> ('g, nat option) state"
  ya_rand_read :: "nat \<Rightarrow> ('g, bytes option) state"

definition new_yyds ::
  "('s, 'r, 'g) api_env \<Rightarrow> handler \<Rightarrow> duration \<Rightarrow> duration \<Rightarrow> (string \<rightharpoonup> api_key_info) \<Rightarrow> int \<Rightarrow> yyds_dialect_config
     \<Rightarrow> (nat \<Rightarrow> ('g, nat option) state) \<Rightarrow> (nat \<Rightarrow> ('g, bytes option) state) \<Rightarrow> ('s, 'r, 'g) yyds_api" where
  "new_yyds env core account_ttl token_ttl api_keys global_rpm public rand_int rand_read =
     \<lparr>ya_env = env, ya_core = core, ya_account_ttl = account_ttl, ya_token_ttl = token_ttl, ya_api_keys = api_keys,
      ya_global_rpm = (if global_rpm = 0 then 100 else if global_rpm < 0 then 0 else global_rpm),
      ya_public = public, ya_rand_int = rand_int, ya_rand_read = rand_read\<rparr>"

record api_error =
  er_status :: int
  er_code :: string
  er_message :: string

datatype auth_kind = KindNone | KindApiKey | KindToken

record yyds_context =
  yx_kind :: auth_kind
  yx_cx :: req_context

text \<open>The answer: an error envelope, a success envelope, or what the handler of the native dialect answers.\<close>

datatype 'b yyds_response = Rejected api_error | Answered int 'b | FromCore "message_body response"

abbreviation internal_error :: "string \<Rightarrow> api_error" where
  "internal_error text \<equiv> \<lparr>er_status = 500, er_code = ''internal_error'', er_message = text\<rparr>"

section \<open>Middlewares\<close>

definition yyds_global_rate_limit ::
  "(string, 'e, 's) limiter \<Rightarrow> ('d, 'r, 'g) yyds_api \<Rightarrow> time \<times> time \<Rightarrow> string \<Rightarrow> 's \<Rightarrow> api_error option \<times> 's" where
  "yyds_global_rate_limit check a clk client_ip s =
     (if ya_global_rpm a \<le> 0 then (None, s)
      else
        (case check client_ip (ya_global_rpm a) minute clk s of
           (Inr False, s') \<Rightarrow>
             (Some \<lparr>er_status = 429, er_code = ''rate_limit_exceeded'', er_message = ''Rate limit exceeded''\<rparr>, s')
         | (_, s') \<Rightarrow> (None, s')))"

definition yyds_key_rate_limit ::
  "(string, 'e, 's) limiter \<Rightarrow> time \<times> time \<Rightarrow> yyds_context \<Rightarrow> 's \<Rightarrow> api_error option \<times> 's" where
  "yyds_key_rate_limit check clk x s =
     (case cx_api_key_info (yx_cx x) of
        None \<Rightarrow> (None, s)
      | Some info \<Rightarrow>
          if ki_rpm_limit info \<le> 0 then (None, s)
          else
            (case check (get_string (cx_api_key (yx_cx x))) (ki_rpm_limit info) minute clk s of
               (Inr False, s') \<Rightarrow>
                 (Some \<lparr>er_status = 429, er_code = ''api_key_rate_limit_exceeded'',
                        er_message = ''API key rate limit exceeded''\<rparr>, s')
             | (_, s') \<Rightarrow> (None, s')))"

definition apply_api_key_context :: "string \<Rightarrow> api_key_info \<Rightarrow> req_context \<Rightarrow> yyds_context" where
  "apply_api_key_context key info cx =
     \<lparr>yx_kind = KindApiKey,
      yx_cx = cx\<lparr>cx_api_key := Some key, cx_api_key_name := Some (ki_name info), cx_api_key_info := Some info,
                 cx_api_key_domains := Some (ki_domains info)\<rparr>\<rparr>"

text \<open>\<open>validate\<close> is \<open>ValidateToken\<close>; the arguments are the headers \<open>X-API-Key\<close> and \<open>Authorization\<close>.\<close>

definition yyds_auth ::
  "('d, 'r, 'g) yyds_api \<Rightarrow> (string \<Rightarrow> 's \<Rightarrow> (auth_error + claims) \<times> 's) \<Rightarrow> string \<Rightarrow> string \<Rightarrow> req_context \<Rightarrow> 's
     \<Rightarrow> (api_error + yyds_context) \<times> 's" where
  "yyds_auth a validate x_api_key authorization cx0 s =
     (let cx = cx0\<lparr>cx_api_key_domains := Some (if ya_api_keys a = Map.empty then [''*''] else [])\<rparr>;
          nobody = \<lparr>yx_kind = KindNone, yx_cx = cx\<rparr>; key = trim_space x_api_key
      in if key \<noteq> []
         then (case ya_api_keys a key of
                 None \<Rightarrow> (Inl \<lparr>er_status = 401, er_code = ''invalid_api_key'', er_message = ''Invalid API key''\<rparr>, s)
               | Some info \<Rightarrow> (Inr (apply_api_key_context key info cx), s))
         else
           (case bearer_token_from_authorization authorization of
              None \<Rightarrow> (Inr nobody, s)
            | Some token \<Rightarrow>
                if token = [] then (Inr nobody, s)
                else
                  (case ya_api_keys a token of
                     Some info \<Rightarrow> (Inr (apply_api_key_context token info cx), s)
                   | None \<Rightarrow>
                       (case validate token s of
                          (Inl err, s') \<Rightarrow>
                            (Inl \<lparr>er_status = 401, er_code = ''invalid_or_expired_token'',
                                  er_message = ''Invalid or expired token''\<rparr>, s')
                        | (Inr claims, s') \<Rightarrow>
                            (let cx1 = cx\<lparr>cx_account_id := Some (cl_account_id claims),
                                          cx_address := Some (to_lower (trim_space (cl_address claims)))\<rparr>;
                                 domain = domain_from_address (cl_address claims)
                             in (Inr \<lparr>yx_kind = KindToken,
                                      yx_cx = (if domain \<noteq> [] then cx1\<lparr>cx_api_key_domains := Some [domain]\<rparr>
                                               else cx1)\<rparr>, s'))))))"

definition require_create_auth :: "('d, 'r, 'g) yyds_api \<Rightarrow> yyds_context \<Rightarrow> api_error option" where
  "require_create_auth a x =
     (if ya_api_keys a = Map.empty \<or> yx_kind x \<noteq> KindNone then None
      else Some \<lparr>er_status = 401, er_code = ''authorization_required_create'',
                 er_message = ''Authorization required (API key or temp token)''\<rparr>)"

definition require_any_auth :: "yyds_context \<Rightarrow> api_error option" where
  "require_any_auth x =
     (if yx_kind x \<noteq> KindNone then None
      else Some \<lparr>er_status = 401, er_code = ''authorization_required_any'',
                 er_message = ''Authorization required (JWT, API key, or temp token)''\<rparr>)"

definition require_token_auth :: "yyds_context \<Rightarrow> api_error option" where
  "require_token_auth x =
     (if yx_kind x = KindToken then None
      else Some \<lparr>er_status = 401, er_code = ''authorization_required_temp_token'',
                 er_message = ''Temp token required''\<rparr>)"

section \<open>Domains\<close>

definition domain_name :: "mail_domain \<Rightarrow> string" where "domain_name d = to_lower (trim_space (dm_domain d))"

definition domain_visible :: "yyds_context \<Rightarrow> mail_domain \<Rightarrow> bool" where
  "domain_visible x d \<longleftrightarrow> domain_name d \<noteq> [] \<and>
     (if yx_kind x = KindNone then \<not> dm_is_private d
      else is_domain_allowed (yx_cx x) (domain_name d) \<and>
        (dm_is_private d \<longrightarrow> is_domain_explicitly_allowed (yx_cx x) (domain_name d)))"

definition visible_domains ::
  "('s, 'r, 'g) yyds_api \<Rightarrow> yyds_context \<Rightarrow> 's \<Rightarrow> store_error + mail_domain list" where
  "visible_domains a x s =
     (case list_domains (ae_db (ya_env a)) s of
        Inl err \<Rightarrow> Inl err | Inr domains \<Rightarrow> Inr (filter (domain_visible x) domains))"

record domain_response =
  dr_id :: string
  dr_domain :: string
  dr_is_verified :: bool
  dr_is_public :: bool
  dr_created_at :: time
  dr_updated_at :: time

definition object_id_string :: "'s database \<Rightarrow> object_id \<Rightarrow> string" where
  "object_id_string db i = (if i = 0 then [] else db_hex db i)"

definition yyds_list_domains ::
  "('s, 'r, 'g) yyds_api \<Rightarrow> yyds_context \<Rightarrow> ('s, 'r, 'g) api_state \<Rightarrow> domain_response list yyds_response" where
  "yyds_list_domains a x st =
     (case visible_domains a x (db_state st) of
        Inl err \<Rightarrow> Rejected (internal_error ''Failed to list domains'')
      | Inr domains \<Rightarrow> Answered 200 (map (\<lambda>d.
          \<lparr>dr_id = object_id_string (ae_db (ya_env a)) (dm_id d), dr_domain = to_lower (dm_domain d),
           dr_is_verified = dm_is_active d, dr_is_public = (\<not> dm_is_private d),
           dr_created_at = dm_created_at d, dr_updated_at = dm_updated_at d\<rparr>) domains))"

definition yyds_list_wildcard_rules ::
  "('s, 'r, 'g) yyds_api \<Rightarrow> yyds_context \<Rightarrow> ('s, 'r, 'g) api_state \<Rightarrow> domain_response list yyds_response" where
  "yyds_list_wildcard_rules a x st =
     (case visible_domains a x (db_state st) of
        Inl err \<Rightarrow> Rejected (internal_error ''Failed to list wildcard rules'')
      | Inr domains \<Rightarrow> Answered 200 (map (\<lambda>d.
          \<lparr>dr_id = domain_name d, dr_domain = domain_name d,
           dr_is_verified = dm_is_active d, dr_is_public = (\<not> dm_is_private d),
           dr_created_at = dm_created_at d, dr_updated_at = dm_updated_at d\<rparr>)
          (filter (\<lambda>d. domain_name d \<noteq> []) domains)))"

text \<open>The most specific active domain among a name and its parents; \<open>Inl\<close> is a failed look-up.\<close>

fun matching_domain ::
  "'s database \<Rightarrow> string list \<Rightarrow> 's \<Rightarrow> store_error + (mail_domain \<times> string) option" where
  "matching_domain db [] s = Inr None"
| "matching_domain db (candidate # cs) s =
     (case get_domain_by_name db candidate s of
        Inr d \<Rightarrow> Inr (Some (d, candidate))
      | Inl err \<Rightarrow> if err \<noteq> ErrNotFound then Inl err else matching_domain db cs s)"

definition ensure_domain_accessible ::
  "('s, 'r, 'g) yyds_api \<Rightarrow> yyds_context \<Rightarrow> string \<Rightarrow> bool \<Rightarrow> 's \<Rightarrow> api_error + mail_domain \<times> string" where
  "ensure_domain_accessible a x domain0 allow_anonymous_public s =
     (let domain = to_lower (trim_space domain0) in
      if domain = [] then Inl \<lparr>er_status = 400, er_code = ''domain_required'', er_message = ''domain is required''\<rparr>
      else
        (case matching_domain (ae_db (ya_env a)) (candidates domain) s of
           Inl err \<Rightarrow> Inl (internal_error ''Failed to load domain'')
         | Inr None \<Rightarrow> Inl \<lparr>er_status = 400, er_code = ''domain_not_available'', er_message = ''Domain not available''\<rparr>
         | Inr (Some (di, matched)) \<Rightarrow>
             (case yx_kind x of
                KindApiKey \<Rightarrow>
                  if \<not> is_domain_allowed (yx_cx x) domain
                  then Inl \<lparr>er_status = 403, er_code = ''domain_not_allowed'',
                            er_message = ''Domain not allowed for this API key''\<rparr>
                  else if dm_is_private di \<and> \<not> is_domain_explicitly_allowed (yx_cx x) matched
                  then Inl \<lparr>er_status = 403, er_code = ''private_domain_requires_explicit_authorization'',
                            er_message = ''Private domain requires explicit authorization''\<rparr>
                  else Inr (di, matched)
              | KindToken \<Rightarrow>
                  if \<not> is_domain_allowed (yx_cx x) domain
                  then Inl \<lparr>er_status = 403, er_code = ''domain_not_allowed'',
                            er_message = ''Domain not allowed for this temp token''\<rparr>
                  else Inr (di, matched)
              | KindNone \<Rightarrow>
                  if dm_is_private di \<or> \<not> allow_anonymous_public
                  then Inl \<lparr>er_status = 403, er_code = ''domain_not_public'',
                            er_message = ''Domain is not available for anonymous access''\<rparr>
                  else Inr (di, matched))))"

definition check_address_domain ::
  "('s, 'r, 'g) yyds_api \<Rightarrow> yyds_context \<Rightarrow> string \<Rightarrow> bool \<Rightarrow> 's \<Rightarrow> api_error + mail_domain" where
  "check_address_domain a x address0 allow_anonymous_public s =
     (let domain = domain_from_address (to_lower (trim_space address0)) in
      if domain = [] then Inl \<lparr>er_status = 400, er_code = ''invalid_address'', er_message = ''Invalid address''\<rparr>
      else (case ensure_domain_accessible a x domain allow_anonymous_public s of
              Inl e \<Rightarrow> Inl e | Inr (di, _) \<Rightarrow> Inr di))"

section \<open>The address of a new inbox\<close>

record yyds_create_request =
  yq_address :: string
  yq_local_part :: string
  yq_domain :: string
  yq_subdomain :: string
  yq_wildcard_rule_id :: string
  yq_subdomain_label :: string
  yq_auto_domain_strategy :: string

definition is_dns_label :: "string \<Rightarrow> bool" where
  "is_dns_label label \<longleftrightarrow>
     0 < length label \<and> length label \<le> 63 \<and> hd label \<noteq> CHR ''-'' \<and> last label \<noteq> CHR ''-'' \<and>
     list_all (\<lambda>ch. lower_letter ch \<or> is_digit ch \<or> ch = CHR ''-'') label"

definition validate_wildcard_subdomain :: "string \<Rightarrow> api_error option" where
  "validate_wildcard_subdomain subdomain0 =
     (let subdomain = to_lower (trim_space subdomain0);
          invalid = Some \<lparr>er_status = 400, er_code = ''invalid_subdomain'', er_message = ''Invalid subdomain''\<rparr>
      in if subdomain = [] then invalid
         else if has_prefix subdomain ''.'' \<or> has_suffix subdomain ''.'' \<or> contains_str subdomain ''..'' then invalid
         else if \<not> list_all is_dns_label (split_on subdomain (CHR ''.'')) then invalid
         else None)"

text \<open>The distinct names of the visible domains, in their order.\<close>

fun first_names_of :: "string set \<Rightarrow> mail_domain list \<Rightarrow> mail_domain list" where
  "first_names_of seen [] = []"
| "first_names_of seen (d # ds) =
     (if domain_name d = [] \<or> domain_name d \<in> seen then first_names_of seen ds
      else d # first_names_of (insert (domain_name d) seen) ds)"

definition candidate_domains ::
  "('s, 'r, 'g) yyds_api \<Rightarrow> yyds_context \<Rightarrow> string \<Rightarrow> 's \<Rightarrow> api_error + string list" where
  "candidate_domains a x strategy0 s =
     (case visible_domains a x s of
        Inl err \<Rightarrow> Inl (internal_error ''Failed to load domains'')
      | Inr domains \<Rightarrow>
          (let distinct_domains = first_names_of {} domains;
               out = map domain_name distinct_domains;
               public_domains = map domain_name (filter (\<lambda>d. \<not> dm_is_private d) distinct_domains);
               explicit_domains = filter (is_domain_explicitly_allowed (yx_cx x)) out;
               others = filter (\<lambda>n. \<not> is_domain_explicitly_allowed (yx_cx x) n) out;
               strategy = to_lower (trim_space strategy0)
           in if strategy = [] \<or> strategy = ''balanced'' then Inr out
              else if strategy = ''prefer_public''
              then Inr (if public_domains = [] then out
                        else public_domains @ filter (\<lambda>n. n \<notin> set public_domains) out)
              else if strategy = ''prefer_owned''
              then Inr (if explicit_domains = [] then out else explicit_domains @ others)
              else Inl \<lparr>er_status = 400, er_code = ''invalid_auto_domain_strategy'',
                        er_message = ''Invalid autoDomainStrategy''\<rparr>))"

definition default_domain_from_context ::
  "('s, 'r, 'g) yyds_api \<Rightarrow> yyds_context \<Rightarrow> 's \<Rightarrow> string option" where
  "default_domain_from_context a x s =
     (case cx_api_key_info (yx_cx x) of
        None \<Rightarrow> None
      | Some info \<Rightarrow>
          (let domain = to_lower (trim_space (ki_default_domain info)) in
           if domain = [] then None
           else (case ensure_domain_accessible a x domain True s of Inl _ \<Rightarrow> None | Inr _ \<Rightarrow> Some domain)))"

definition random_intn :: "(nat \<Rightarrow> ('g, nat option) state) \<Rightarrow> nat \<Rightarrow> ('g, nat option) state" where
  "random_intn rand_int n =
     (if n = 0 then State_Monad.return None else if n = 1 then State_Monad.return (Some 0) else rand_int n)"

definition default_domain_for_create ::
  "('s, 'r, 'g) yyds_api \<Rightarrow> yyds_context \<Rightarrow> string \<Rightarrow> bool \<Rightarrow> ('s, 'r, 'g) api_state
     \<Rightarrow> (api_error + string) \<times> ('s, 'r, 'g) api_state" where
  "default_domain_for_create a x strategy force_wildcard st =
     (case default_domain_from_context a x (db_state st) of
        Some domain \<Rightarrow> (Inr domain, st)
      | None \<Rightarrow>
          (case candidate_domains a x strategy (db_state st) of
             Inl e \<Rightarrow> (Inl e, st)
           | Inr domains \<Rightarrow>
               if domains = []
               then (Inl \<lparr>er_status = 400, er_code = ''domain_not_available'',
                          er_message = ''No domain available for inbox creation''\<rparr>, st)
               else if \<not> force_wildcard then (Inr (hd domains), st)
               else
                 (let (idx, g) = run_state (random_intn (ya_rand_int a) (length domains)) (as_rand st);
                      st1 = st\<lparr>as_rand := g\<rparr>
                  in case idx of
                       None \<Rightarrow> (Inl (internal_error ''Failed to select wildcard domain''), st1)
                     | Some i \<Rightarrow> (Inr (domains ! i), st1))))"

definition default_subdomain_for_create :: "yyds_context \<Rightarrow> string" where
  "default_subdomain_for_create x =
     (case cx_api_key_info (yx_cx x) of None \<Rightarrow> [] | Some info \<Rightarrow> to_lower (trim_space (ki_default_subdomain info)))"

text \<open>\<open>hex.EncodeToString\<close> of random bytes.\<close>

definition hex_digit :: "nat \<Rightarrow> char" where "hex_digit n = (if n < 10 then char_of (48 + n) else char_of (87 + n))"

definition hex_encode :: "bytes \<Rightarrow> string" where
  "hex_encode bs = concat (map (\<lambda>b. [hex_digit (unat b div 16), hex_digit (unat b mod 16)]) bs)"

definition random_password :: "(nat \<Rightarrow> ('g, bytes option) state) \<Rightarrow> ('g, string option) state" where
  "random_password rand_read = do { buf \<leftarrow> rand_read 24; State_Monad.return (map_option hex_encode buf) }"

definition random_child_domain_label :: "(nat \<Rightarrow> ('g, bytes option) state) \<Rightarrow> ('g, string option) state" where
  "random_child_domain_label rand_read =
     do { buf \<leftarrow> rand_read 6; State_Monad.return (map_option (\<lambda>b. ''w'' @ hex_encode b) buf) }"

text \<open>The subdomain to use, possibly none (\<open>[]\<close>).\<close>

definition choose_subdomain ::
  "('s, 'r, 'g) yyds_api \<Rightarrow> yyds_context \<Rightarrow> bool \<Rightarrow> string \<Rightarrow> ('s, 'r, 'g) api_state
     \<Rightarrow> string option \<times> ('s, 'r, 'g) api_state" where
  "choose_subdomain a x force_wildcard subdomain st =
     (if force_wildcard \<and> subdomain = []
      then (let d = default_subdomain_for_create x in
            if d \<noteq> [] then (Some d, st)
            else (let (label, g) = run_state (random_child_domain_label (ya_rand_read a)) (as_rand st)
                  in (label, st\<lparr>as_rand := g\<rparr>)))
      else (Some subdomain, st))"

definition resolve_create_address ::
  "('s, 'r, 'g) yyds_api \<Rightarrow> yyds_context \<Rightarrow> yyds_create_request \<Rightarrow> bool \<Rightarrow> ('s, 'r, 'g) api_state
     \<Rightarrow> (api_error + string \<times> bool) \<times> ('s, 'r, 'g) api_state" where
  "resolve_create_address a x req force_wildcard st =
     (let raw_address = trim_space (yq_address req);
          local_part0 = trim_space (yq_local_part req);
          domain0 = to_lower (trim_space (yq_domain req));
          subdomain0 = to_lower (trim_space (yq_subdomain req));
          subdomain1 = (if subdomain0 = [] then to_lower (trim_space (yq_subdomain_label req)) else subdomain0);
          requested = (if domain0 = [] then to_lower (trim_space (yq_wildcard_rule_id req)) else domain0)
      in if CHR ''@'' \<in> set raw_address
         then (case check_address_domain a x (to_lower raw_address) True (db_state st) of
                 Inl e \<Rightarrow> (Inl e, st) | Inr _ \<Rightarrow> (Inr (to_lower raw_address, False), st))
         else
           (let local_part = (if local_part0 = [] \<and> raw_address \<noteq> [] then raw_address else local_part0) in
            case (if requested = [] then default_domain_for_create a x (yq_auto_domain_strategy req) force_wildcard st
                  else (Inr requested, st)) of
              (Inl e, st1) \<Rightarrow> (Inl e, st1)
            | (Inr parent, st1) \<Rightarrow>
                (case choose_subdomain a x force_wildcard subdomain1 st1 of
                   (None, st2) \<Rightarrow> (Inl (internal_error ''Failed to create wildcard inbox''), st2)
                 | (Some subdomain, st2) \<Rightarrow>
                     (case (if subdomain \<noteq> [] then validate_wildcard_subdomain subdomain else None) of
                        Some e \<Rightarrow> (Inl e, st2)
                      | None \<Rightarrow>
                          (let target = (if subdomain \<noteq> [] then subdomain @ ''.'' @ parent else parent) in
                           case ensure_domain_accessible a x target True (db_state st2) of
                             Inl e \<Rightarrow> (Inl e, st2)
                           | Inr _ \<Rightarrow>
                               (if local_part = []
                                then (let (p, g) = run_state (generate (ae_draw (ya_env a))) (as_rand st2)
                                      in (Inr (to_lower (p @ ''@'' @ target), True), st2\<lparr>as_rand := g\<rparr>))
                                else (Inr (to_lower (local_part @ ''@'' @ target), False), st2)))))))"

section \<open>Creating an inbox\<close>

record yyds_account =
  yn_id :: string
  yn_address :: string
  yn_token :: string
  yn_inbox_type :: string
  yn_source :: string
  yn_is_active :: bool
  yn_message_count :: int
  yn_created_at :: time
  yn_expires_at :: time

definition to_account_response ::
  "('s, 'r, 'g) yyds_api \<Rightarrow> time \<Rightarrow> account \<Rightarrow> string \<Rightarrow> int \<Rightarrow> yyds_account" where
  "to_account_response a now acc token message_count =
     (let created_at = (if is_zero_time (ac_created_at acc) then now else ac_created_at acc) in
      \<lparr>yn_id = db_hex (ae_db (ya_env a)) (ac_id acc), yn_address = to_lower (ac_address acc), yn_token = token,
       yn_inbox_type = ''temp'', yn_source = ''api'', yn_is_active = (\<not> ac_is_deleted acc),
       yn_message_count = message_count, yn_created_at = created_at,
       yn_expires_at = created_at + ya_account_ttl a\<rparr>)"

text \<open>The attempts; only a generated address is replaced when it is taken.\<close>

fun create_inbox ::
  "('s, 'r, 'g) yyds_api \<Rightarrow> (nat \<Rightarrow> time) \<Rightarrow> bool \<Rightarrow> nat \<Rightarrow> account \<Rightarrow> ('s, 'r, 'g) api_state
     \<Rightarrow> (store_error + account) \<times> ('s, 'r, 'g) api_state" where
  "create_inbox a clk auto_generated 0 acc st = (Inl ErrDuplicateKey, st)"
| "create_inbox a clk auto_generated (Suc n) acc st =
     (let (err, acc', s') = create_account (ae_db (ya_env a)) (clk n) acc (db_state st); st' = set_db s' st in
      case err of
        None \<Rightarrow> (Inr acc', st')
      | Some e \<Rightarrow>
          if \<not> auto_generated \<or> e \<noteq> ErrDuplicateKey then (Inl e, st')
          else
            (let domain = domain_from_address (ac_address acc');
                 (addr, g) = run_state (generate_for_domain (ae_draw (ya_env a)) domain) (as_rand st')
             in create_inbox a clk auto_generated n (acc'\<lparr>ac_address := to_lower addr\<rparr>) (st'\<lparr>as_rand := g\<rparr>)))"

definition create_account_with_mode ::
  "('s, 'r, 'g) yyds_api \<Rightarrow> (nat \<Rightarrow> time) \<Rightarrow> yyds_context \<Rightarrow> yyds_create_request option \<Rightarrow> bool
     \<Rightarrow> ('s, 'r, 'g) api_state \<Rightarrow> yyds_account yyds_response \<times> ('s, 'r, 'g) api_state" where
  "create_account_with_mode a clk x body force_wildcard st =
     (case body of
        None \<Rightarrow> (Rejected \<lparr>er_status = 400, er_code = ''invalid_request_body'', er_message = ''Invalid request body''\<rparr>, st)
      | Some req \<Rightarrow>
          (case resolve_create_address a x req force_wildcard st of
             (Inl e, st1) \<Rightarrow> (Rejected e, st1)
           | (Inr (address, auto_generated), st1) \<Rightarrow>
               (let (password, g) = run_state (random_password (ya_rand_read a)) (as_rand st1);
                    st2 = st1\<lparr>as_rand := g\<rparr>
                in case password of
                     None \<Rightarrow> (Rejected (internal_error ''Failed to create inbox''), st2)
                   | Some pw \<Rightarrow>
                       (case create_inbox a clk auto_generated 5
                               (empty_account\<lparr>ac_address := address, ac_password := pw\<rparr>) st2 of
                          (Inl e, st3) \<Rightarrow>
                            (Rejected (if e = ErrDuplicateKey
                               then \<lparr>er_status = 409, er_code = ''address_already_exists'',
                                     er_message = ''Address already exists''\<rparr>
                               else internal_error ''Failed to create inbox''), st3)
                        | (Inr acc, st3) \<Rightarrow>
                            (let st4 = st3\<lparr>as_cache := snd (set_address (ae_redis (ya_env a)) (ac_address acc)
                                             (ya_account_ttl a) (as_cache st3))\<rparr>
                             in case generate_token (ae_numeric_date (ya_env a)) (ae_sign (ya_env a)) (ae_auth (ya_env a))
                                       (db_hex (ae_db (ya_env a)) (ac_id acc)) (ac_address acc) (clk 5) of
                                  Inl _ \<Rightarrow> (Rejected (internal_error ''Failed to create inbox token''), st4)
                                | Inr token \<Rightarrow>
                                    (Answered 201 (to_account_response a (clk 6) acc token 0), st4))))))"

end
