(* ===== verification/YydsApi.thy ===== *)
theory YydsApi
  imports Yyds
begin

text \<open>
  The yyds dialect, \<open>internal/dialect/yyds/api.go\<close>: tokens, inboxes, messages and the public information. \<open>st\<close> is the
  state of theory Handler; \<open>clk\<close> gives the readings of the clock.
\<close>

section \<open>Who may use an inbox\<close>

abbreviation account_not_found :: api_error where
  "account_not_found \<equiv> \<lparr>er_status = 404, er_code = ''account_not_found'', er_message = ''Inbox not found''\<rparr>"

abbreviation message_not_found :: api_error where
  "message_not_found \<equiv> \<lparr>er_status = 404, er_code = ''message_not_found'', er_message = ''Message not found''\<rparr>"

abbreviation access_denied :: api_error where
  "access_denied \<equiv> \<lparr>er_status = 403, er_code = ''forbidden'', er_message = ''Access denied''\<rparr>"

abbreviation address_mismatch :: api_error where
  "address_mismatch \<equiv>
     \<lparr>er_status = 403, er_code = ''forbidden'', er_message = ''Address does not match temp token''\<rparr>"

abbreviation invalid_body :: api_error where
  "invalid_body \<equiv> \<lparr>er_status = 400, er_code = ''invalid_request_body'', er_message = ''Invalid request body''\<rparr>"

definition lookup_account_by_address ::
  "('s, 'r, 'g) yyds_api \<Rightarrow> yyds_context \<Rightarrow> string \<Rightarrow> bool \<Rightarrow> 's \<Rightarrow> api_error + account" where
  "lookup_account_by_address a x address0 needs_auth s =
     (let address = to_lower (trim_space address0) in
      if address = [] then Inl \<lparr>er_status = 400, er_code = ''address_required'', er_message = ''Address is required''\<rparr>
      else
        (case check_address_domain a x address (\<not> needs_auth) s of
           Inl e \<Rightarrow> Inl e
         | Inr _ \<Rightarrow>
             (case get_account_by_address (ae_db (ya_env a)) address s of
                Inl err \<Rightarrow> Inl (if err = ErrNotFound then account_not_found else internal_error ''Failed to load inbox'')
              | Inr acc \<Rightarrow> Inr acc)))"

definition load_account :: "('s, 'r, 'g) yyds_api \<Rightarrow> string \<Rightarrow> 's \<Rightarrow> api_error + account" where
  "load_account a i s =
     (case get_account (ae_db (ya_env a)) i s of
        Inl err \<Rightarrow> Inl (if err = ErrNotFound \<or> err = ErrInvalidID then account_not_found
                        else internal_error ''Failed to load inbox'')
      | Inr acc \<Rightarrow> Inr acc)"

definition current_token_account ::
  "('s, 'r, 'g) yyds_api \<Rightarrow> yyds_context \<Rightarrow> 's \<Rightarrow> api_error + account" where
  "current_token_account a x s =
     (let account_id = get_string (cx_account_id (yx_cx x)) in
      if account_id = []
      then Inl \<lparr>er_status = 401, er_code = ''authorization_required_temp_token'', er_message = ''Temp token required''\<rparr>
      else load_account a account_id s)"

definition account_by_id_authorized ::
  "('s, 'r, 'g) yyds_api \<Rightarrow> yyds_context \<Rightarrow> string \<Rightarrow> 's \<Rightarrow> api_error + account" where
  "account_by_id_authorized a x i s =
     (case load_account a i s of
        Inl e \<Rightarrow> Inl e
      | Inr acc \<Rightarrow>
          if yx_kind x = KindToken
          then (if db_hex (ae_db (ya_env a)) (ac_id acc) \<noteq> get_string (cx_account_id (yx_cx x)) then Inl access_denied
                else Inr acc)
          else (case check_address_domain a x (ac_address acc) False s of Inl e \<Rightarrow> Inl e | Inr _ \<Rightarrow> Inr acc))"

definition message_list_account ::
  "('s, 'r, 'g) yyds_api \<Rightarrow> yyds_context \<Rightarrow> string \<Rightarrow> 's \<Rightarrow> api_error + account" where
  "message_list_account a x address_query s =
     (if yx_kind x = KindToken
      then
        (case current_token_account a x s of
           Inl e \<Rightarrow> Inl e
         | Inr acc \<Rightarrow>
             (let addr = to_lower (trim_space address_query) in
              if addr \<noteq> [] \<and> addr \<noteq> to_lower (ac_address acc) then Inl address_mismatch else Inr acc))
      else lookup_account_by_address a x address_query True s)"

text \<open>\<open>body\<close> is the address in the body; \<^const>\<open>None\<close>: the JSON binding refused it.\<close>

definition account_from_address_body_or_token ::
  "('s, 'r, 'g) yyds_api \<Rightarrow> yyds_context \<Rightarrow> string \<Rightarrow> string option \<Rightarrow> 's \<Rightarrow> api_error + account" where
  "account_from_address_body_or_token a x address_query body s =
     (let query = to_lower (trim_space address_query) in
      if yx_kind x = KindToken
      then
        (case current_token_account a x s of
           Inl e \<Rightarrow> Inl e
         | Inr acc \<Rightarrow>
             (let addr = (if query = [] then to_lower (trim_space (get_string body)) else query) in
              if addr \<noteq> [] \<and> addr \<noteq> to_lower (ac_address acc) then Inl address_mismatch else Inr acc))
      else if query \<noteq> [] then lookup_account_by_address a x query True s
      else
        (case body of
           None \<Rightarrow> Inl invalid_body
         | Some address \<Rightarrow> lookup_account_by_address a x address True s))"

definition authorize_message_account ::
  "('s, 'r, 'g) yyds_api \<Rightarrow> yyds_context \<Rightarrow> object_id \<Rightarrow> 's \<Rightarrow> api_error option" where
  "authorize_message_account a x account_id s =
     (if yx_kind x = KindToken
      then (if db_hex (ae_db (ya_env a)) account_id \<noteq> get_string (cx_account_id (yx_cx x)) then Some access_denied
            else None)
      else
        (case load_account a (db_hex (ae_db (ya_env a)) account_id) s of
           Inl e \<Rightarrow> Some e
         | Inr acc \<Rightarrow> (case check_address_domain a x (ac_address acc) False s of Inl e \<Rightarrow> Some e | Inr _ \<Rightarrow> None)))"

text \<open>\<open>messageByIDAuthorized\<close> and its two variants, which differ in the projection they load.\<close>

definition message_authorized ::
  "('s, 'r, 'g) yyds_api \<Rightarrow> yyds_context \<Rightarrow> store_error + message \<Rightarrow> 's \<Rightarrow> api_error + message" where
  "message_authorized a x r s =
     (case r of
        Inl err \<Rightarrow> Inl (if err = ErrNotFound \<or> err = ErrInvalidID then message_not_found
                        else internal_error ''Failed to load message'')
      | Inr m \<Rightarrow>
          (case authorize_message_account a x (ms_account_id m) s of Some e \<Rightarrow> Inl e | None \<Rightarrow> Inr m))"

definition message_by_id_authorized ::
  "('s, 'r, 'g) yyds_api \<Rightarrow> yyds_context \<Rightarrow> string \<Rightarrow> 's \<Rightarrow> api_error + message" where
  "message_by_id_authorized a x i s = message_authorized a x (get_message (ae_db (ya_env a)) i s) s"

definition message_meta_by_id_authorized ::
  "('s, 'r, 'g) yyds_api \<Rightarrow> yyds_context \<Rightarrow> string \<Rightarrow> 's \<Rightarrow> api_error + message" where
  "message_meta_by_id_authorized a x i s = message_authorized a x (get_message_meta (ae_db (ya_env a)) i s) s"

definition message_raw_by_id_authorized ::
  "('s, 'r, 'g) yyds_api \<Rightarrow> yyds_context \<Rightarrow> string \<Rightarrow> 's \<Rightarrow> api_error + message" where
  "message_raw_by_id_authorized a x i s = message_authorized a x (get_message_raw (ae_db (ya_env a)) i s) s"

section \<open>Tokens and inboxes\<close>

record yyds_token =
  yo_id :: string
  yo_address :: string
  yo_token :: string

definition yyds_create_token ::
  "('s, 'r, 'g) yyds_api \<Rightarrow> time \<Rightarrow> yyds_context \<Rightarrow> string option \<Rightarrow> ('s, 'r, 'g) api_state \<Rightarrow> yyds_token yyds_response" where
  "yyds_create_token a now x body st =
     (case body of
        None \<Rightarrow> Rejected invalid_body
      | Some address \<Rightarrow>
          (case lookup_account_by_address a x address False (db_state st) of
             Inl e \<Rightarrow> Rejected e
           | Inr acc \<Rightarrow>
               (let i = db_hex (ae_db (ya_env a)) (ac_id acc) in
                case generate_token (ae_numeric_date (ya_env a)) (ae_sign (ya_env a)) (ae_auth (ya_env a)) i
                       (ac_address acc) now of
                  Inl _ \<Rightarrow> Rejected (internal_error ''Failed to refresh token'')
                | Inr token \<Rightarrow> Answered 200 \<lparr>yo_id = i, yo_address = ac_address acc, yo_token = token\<rparr>)))"

text \<open>The common end of \<open>getCurrentAccount\<close> and \<open>getAccountByID\<close>.\<close>

definition answer_account ::
  "('s, 'r, 'g) yyds_api \<Rightarrow> (nat \<Rightarrow> time) \<Rightarrow> api_error + account \<Rightarrow> ('s, 'r, 'g) api_state
     \<Rightarrow> yyds_account yyds_response \<times> ('s, 'r, 'g) api_state" where
  "answer_account a clk r st =
     (case r of
        Inl e \<Rightarrow> (Rejected e, st)
      | Inr acc \<Rightarrow>
          (let (res, so) = count_messages_by_account (ae_db (ya_env a)) (clk 0, clk 1, clk 2) (ac_id acc) (as_store st);
               st' = st\<lparr>as_store := so\<rparr>
           in case res of
                Inl _ \<Rightarrow> (Rejected (internal_error ''Failed to load inbox''), st')
              | Inr n \<Rightarrow> (Answered 200 (to_account_response a (clk 3) acc [] n), st')))"

definition get_current_account ::
  "('s, 'r, 'g) yyds_api \<Rightarrow> (nat \<Rightarrow> time) \<Rightarrow> yyds_context \<Rightarrow> ('s, 'r, 'g) api_state
     \<Rightarrow> yyds_account yyds_response \<times> ('s, 'r, 'g) api_state" where
  "get_current_account a clk x st = answer_account a clk (current_token_account a x (db_state st)) st"

definition get_account_by_id ::
  "('s, 'r, 'g) yyds_api \<Rightarrow> (nat \<Rightarrow> time) \<Rightarrow> yyds_context \<Rightarrow> string \<Rightarrow> ('s, 'r, 'g) api_state
     \<Rightarrow> yyds_account yyds_response \<times> ('s, 'r, 'g) api_state" where
  "get_account_by_id a clk x i st = answer_account a clk (account_by_id_authorized a x i (db_state st)) st"

text \<open>The context the handlers of the native dialect see.\<close>

definition core_context :: "('s, 'r, 'g) yyds_api \<Rightarrow> yyds_context \<Rightarrow> object_id \<Rightarrow> req_context" where
  "core_context a x account_id = (yx_cx x)\<lparr>cx_account_id := Some (db_hex (ae_db (ya_env a)) account_id)\<rparr>"

definition yyds_delete_account ::
  "('s, 'r, 'g) yyds_api \<Rightarrow> yyds_context \<Rightarrow> string \<Rightarrow> ('s, 'r, 'g) api_state
     \<Rightarrow> unit yyds_response \<times> ('s, 'r, 'g) api_state" where
  "yyds_delete_account a x i st =
     (case account_by_id_authorized a x i (db_state st) of
        Inl e \<Rightarrow> (Rejected e, st)
      | Inr acc \<Rightarrow>
          (case delete_account_handler (ya_env a)
                  ((core_context a x (ac_id acc))\<lparr>cx_address := Some (ac_address acc)\<rparr>) i st of
             (Failure n text, st') \<Rightarrow> (FromCore (Failure n text), st')
           | (Success n _, st') \<Rightarrow> (FromCore (Success n NoContent), st')))"

section \<open>Messages\<close>

record message_summary =
  su_id :: string
  su_inbox_id :: string
  su_from :: mail_address
  su_to :: "mail_address list"
  su_subject :: string
  su_intro :: string
  su_seen :: bool
  su_has_attachments :: bool
  su_size :: int
  su_created_at :: time

record message_envelope =
  me_messages :: "message_summary list"
  me_total :: int
  me_unread_count :: int

record attachment_response =
  ar_id :: string
  ar_filename :: string
  ar_content_type :: string
  ar_size :: int
  ar_download_url :: string

record message_detail = message_summary +
  md_cc :: "mail_address list"
  md_bcc :: "mail_address list"
  md_text :: string
  md_html :: "string list"
  md_attachments :: "attachment_response list"

definition to_message_summary :: "'s database \<Rightarrow> message \<Rightarrow> message_summary" where
  "to_message_summary db m =
     \<lparr>su_id = db_hex db (ms_id m), su_inbox_id = db_hex db (ms_account_id m), su_from = ms_from m, su_to = ms_to m,
      su_subject = ms_subject m, su_intro = ms_intro m, su_seen = ms_seen m, su_has_attachments = ms_has_attachments m,
      su_size = ms_size m, su_created_at = ms_created_at m\<rparr>"

definition to_message_detail :: "'s database \<Rightarrow> message \<Rightarrow> message_detail" where
  "to_message_detail db m =
     message_summary.extend (to_message_summary db m)
       (message_detail.fields (ms_cc m) (ms_bcc m) (ms_text m) (ms_html m)
          (map (\<lambda>att. \<lparr>ar_id = at_id att, ar_filename = at_filename att, ar_content_type = at_content_type att,
                       ar_size = at_size att,
                       ar_download_url = ''/v1/messages/'' @ db_hex db (ms_id m) @ ''/attachments/'' @ at_id att\<rparr>)
             (ms_attachments m)))"

text \<open>\<open>fmt.Sscanf(_, "%d", _)\<close>: the number a string starts with, as far as it fits 64 bits.\<close>

definition scan_int :: "string \<Rightarrow> int option" where
  "scan_int s =
     (let sign = (if has_prefix s ''-'' \<or> has_prefix s ''+'' then take 1 s else []);
          digits = takeWhile is_digit (drop (length sign) s)
      in parse_int (sign @ digits))"

definition parse_limit :: "string \<Rightarrow> int" where
  "parse_limit raw =
     (if raw = [] then 50
      else
        (case scan_int (trim_space raw) of
           None \<Rightarrow> 50
         | Some n \<Rightarrow> if n \<le> 0 then 50 else if 200 < n then 200 else n))"

definition yyds_list_messages ::
  "('s, 'r, 'g) yyds_api \<Rightarrow> (nat \<Rightarrow> time) \<Rightarrow> yyds_context \<Rightarrow> string \<Rightarrow> string \<Rightarrow> ('s, 'r, 'g) api_state
     \<Rightarrow> message_envelope yyds_response \<times> ('s, 'r, 'g) api_state" where
  "yyds_list_messages a clk x address_query limit_query st =
     (let db = ae_db (ya_env a) in
      case message_list_account a x address_query (db_state st) of
        Inl e \<Rightarrow> (Rejected e, st)
      | Inr acc \<Rightarrow>
          (case list_messages db (clk 0, clk 1, clk 2) (ac_id acc) 1 (parse_limit limit_query) (as_store st) of
             (Inl _, so1) \<Rightarrow> (Rejected (internal_error ''Failed to list messages''), st\<lparr>as_store := so1\<rparr>)
           | (Inr (messages, n), so1) \<Rightarrow>
               (case list_messages_filtered db (clk 3, clk 4, clk 5) (ac_id acc) 1 1 (Some False) so1 of
                  (Inl _, so2) \<Rightarrow> (Rejected (internal_error ''Failed to list messages''), st\<lparr>as_store := so2\<rparr>)
                | (Inr (_, unread), so2) \<Rightarrow>
                    (Answered 200 \<lparr>me_messages = map (to_message_summary db) messages, me_total = n,
                                   me_unread_count = unread\<rparr>, st\<lparr>as_store := so2\<rparr>))))"

text \<open>The answer of \<open>markMessagesRead\<close>: updated, already seen, total.\<close>

definition mark_messages_read ::
  "('s, 'r, 'g) yyds_api \<Rightarrow> (nat \<Rightarrow> time) \<Rightarrow> yyds_context \<Rightarrow> string \<Rightarrow> string option \<Rightarrow> ('s, 'r, 'g) api_state
     \<Rightarrow> (int \<times> int \<times> int) yyds_response \<times> ('s, 'r, 'g) api_state" where
  "mark_messages_read a clk x address_query body st =
     (let db = ae_db (ya_env a) in
      case account_from_address_body_or_token a x address_query body (db_state st) of
        Inl e \<Rightarrow> (Rejected e, st)
      | Inr acc \<Rightarrow>
          (case bulk_update_message_flags_by_account db (clk 0) (ac_id acc) (Some True) None (db_state st) of
             (Inl _, s1) \<Rightarrow> (Rejected (internal_error ''Failed to update messages''), set_db s1 st)
           | (Inr updated, s1) \<Rightarrow>
               (let st1 = set_db s1 st;
                    (res, so) = count_messages_by_account db (clk 1, clk 2, clk 3) (ac_id acc) (as_store st1);
                    st2 = st1\<lparr>as_store := so\<rparr>
                in case res of
                     Inl _ \<Rightarrow> (Rejected (internal_error ''Failed to update messages''), st2)
                   | Inr n \<Rightarrow>
                       (Answered 200 (updated, (if n - updated < 0 then 0 else n - updated), n), st2))))"

definition yyds_get_message ::
  "('s, 'r, 'g) yyds_api \<Rightarrow> yyds_context \<Rightarrow> string \<Rightarrow> ('s, 'r, 'g) api_state \<Rightarrow> message_detail yyds_response" where
  "yyds_get_message a x i st =
     (case message_by_id_authorized a x i (db_state st) of
        Inl e \<Rightarrow> Rejected e | Inr m \<Rightarrow> Answered 200 (to_message_detail (ae_db (ya_env a)) m))"

text \<open>\<open>body\<close>: the binding may fail, and \<open>seen\<close> may be missing.\<close>

definition yyds_update_message ::
  "('s, 'r, 'g) yyds_api \<Rightarrow> time \<Rightarrow> yyds_context \<Rightarrow> string \<Rightarrow> bool option option \<Rightarrow> ('s, 'r, 'g) api_state
     \<Rightarrow> (string \<times> bool) yyds_response \<times> ('s, 'r, 'g) api_state" where
  "yyds_update_message a now x i body st =
     (case message_by_id_authorized a x i (db_state st) of
        Inl e \<Rightarrow> (Rejected e, st)
      | Inr m \<Rightarrow>
          (case body of
             Some (Some seen) \<Rightarrow>
               (let mid = db_hex (ae_db (ya_env a)) (ms_id m) in
                case update_message_flags (ae_db (ya_env a)) now mid (Some seen) None (db_state st) of
                  (Some err, s') \<Rightarrow>
                    (Rejected (if err = ErrNotFound \<or> err = ErrInvalidID then message_not_found
                               else internal_error ''Failed to update message''), set_db s' st)
                | (None, s') \<Rightarrow> (Answered 200 (mid, seen), set_db s' st))
           | _ \<Rightarrow> (Rejected invalid_body, st)))"

definition yyds_delete_message ::
  "('s, 'r, 'g) yyds_api \<Rightarrow> time \<times> time \<Rightarrow> yyds_context \<Rightarrow> string \<Rightarrow> ('s, 'r, 'g) api_state
     \<Rightarrow> unit yyds_response \<times> ('s, 'r, 'g) api_state" where
  "yyds_delete_message a clk x i st =
     (case message_meta_by_id_authorized a x i (db_state st) of
        Inl e \<Rightarrow> (Rejected e, st)
      | Inr m \<Rightarrow>
          (let (res, st') = delete_message_handler (ya_env a) clk (core_context a x (ms_account_id m)) i st
           in (FromCore res, st')))"

text \<open>The answer of \<open>getMessageSource\<close>: the id and the raw message.\<close>

definition get_message_source ::
  "('s, 'r, 'g) yyds_api \<Rightarrow> yyds_context \<Rightarrow> string \<Rightarrow> ('s, 'r, 'g) api_state \<Rightarrow> (string \<times> bytes) yyds_response" where
  "get_message_source a x i st =
     (case message_raw_by_id_authorized a x i (db_state st) of
        Inl e \<Rightarrow> Rejected e
      | Inr m \<Rightarrow>
          (let mid = db_hex (ae_db (ya_env a)) (ms_id m) in
           if 0 < length (ms_raw_message m) then Answered 200 (mid, ms_raw_message m)
           else
             (case open_raw_message (ae_get_object (ya_env a)) mid (db_state st) of
                None \<Rightarrow> Rejected \<lparr>er_status = 404, er_code = ''source_not_available'',
                                  er_message = ''Raw source not available''\<rparr>
              | Some (content, _) \<Rightarrow> Answered 200 (mid, content))))"

definition yyds_download_attachment ::
  "('s, 'r, 'g) yyds_api \<Rightarrow> yyds_context \<Rightarrow> string \<Rightarrow> string \<Rightarrow> ('s, 'r, 'g) api_state \<Rightarrow> unit yyds_response" where
  "yyds_download_attachment a x i attachment_id st =
     (case message_meta_by_id_authorized a x i (db_state st) of
        Inl e \<Rightarrow> Rejected e
      | Inr m \<Rightarrow> FromCore (download_attachment (ya_env a) (core_context a x (ms_account_id m)) i attachment_id st))"

section \<open>Public information\<close>

definition zero_plan :: yyds_plan_config where
  "zero_plan =
     \<lparr>yp_id = [], yp_name = [], yp_description = [], yp_price_monthly = 0, yp_max_domains = 0, yp_max_inboxes = 0,
      yp_max_api_keys = 0, yp_max_subdomain_depth = 0, yp_max_messages_per_day = 0, yp_max_api_calls_daily = 0,
      yp_max_api_calls_weekly = 0, yp_max_api_calls_monthly = 0, yp_max_webhooks = 0, yp_max_wildcard_rules = 0,
      yp_retention_days = 0, yp_max_attachment_bytes = 0, yp_storage_bytes = 0, yp_max_rps = 0, yp_features = [],
      yp_sort_order = 0, yp_is_active = False\<rparr>"

definition effective_quota_plan :: "yyds_dialect_config \<Rightarrow> yyds_plan_config" where
  "effective_quota_plan public =
     (case find yp_is_active (yy_plans public) of
        Some plan \<Rightarrow> plan
      | None \<Rightarrow> if 0 < length (yy_plans public) then yy_plans public ! 0 else zero_plan)"

definition quota_dimensions :: "yyds_plan_config \<Rightarrow> (string \<times> int) list" where
  "quota_dimensions plan =
     [(''maxDomains'', yp_max_domains plan), (''maxInboxes'', yp_max_inboxes plan),
      (''maxApiKeys'', yp_max_api_keys plan), (''maxSubdomainDepth'', yp_max_subdomain_depth plan),
      (''maxMessagesPerDay'', yp_max_messages_per_day plan), (''maxApiCallsDaily'', yp_max_api_calls_daily plan),
      (''maxApiCallsWeekly'', yp_max_api_calls_weekly plan), (''maxApiCallsMonthly'', yp_max_api_calls_monthly plan),
      (''maxWebhooks'', yp_max_webhooks plan), (''maxWildcardRules'', yp_max_wildcard_rules plan),
      (''retentionDays'', yp_retention_days plan), (''storageBytes'', yp_storage_bytes plan),
      (''maxRps'', yp_max_rps plan)]"

definition get_stats ::
  "('s, 'r, 'g) yyds_api \<Rightarrow> ('s, 'r, 'g) api_state \<Rightarrow> yyds_stats_config" where
  "get_stats a st =
     (let stats = yy_stats (ya_public a) in
      if ys_total_domains stats = 0 \<and> ys_verified_domains stats = 0 \<and> ys_public_domains stats = 0
      then (case list_domains (ae_db (ya_env a)) (db_state st) of
              Inl _ \<Rightarrow> stats
            | Inr domains \<Rightarrow>
                stats\<lparr>ys_total_domains := int (length domains), ys_verified_domains := int (length domains),
                      ys_public_domains := int (length (filter (\<lambda>d. \<not> dm_is_private d) domains))\<rparr>)
      else stats)"

text \<open>\<open>tls\<close>: whether the connection is encrypted; \<open>proto\<close> is the header \<open>X-Forwarded-Proto\<close>.\<close>

definition base_url :: "yyds_dialect_config \<Rightarrow> string \<Rightarrow> bool \<Rightarrow> string \<Rightarrow> string" where
  "base_url public proto tls host =
     (let s = trim_space (yy_public_base_url public) in
      if s \<noteq> [] then rev (dropWhile (\<lambda>c. c = CHR ''/'') (rev s))
      else
        (let scheme0 = trim_space proto; scheme = (if scheme0 = [] then (if tls then ''https'' else ''http'') else scheme0)
         in scheme @ ''://'' @ host @ ''/v1''))"

end
