(* ===== verification/YydsAccess.thy ===== *)
theory YydsAccess
  imports Isolation YydsApi
begin

text \<open>
  Who gets at which inbox in the yyds dialect (\<open>internal/dialect/yyds/api.go\<close>): every request about inboxes and
  messages that needs authentication, as one function, and what it may touch and show.
\<close>

section \<open>Domains\<close>

text \<open>The most specific active domain that a name is, or is below.\<close>

definition governs :: "'s contents \<Rightarrow> string \<Rightarrow> mail_domain \<Rightarrow> 's \<Rightarrow> bool" where
  "governs v name d s \<longleftrightarrow> d \<in> set (in_domains v s) \<and> dm_is_active d \<and> dm_domain d \<noteq> [] \<and> subdomain_of name (dm_domain d) \<and>
     (\<forall>d' \<in> set (in_domains v s). dm_is_active d' \<longrightarrow> dm_domain d' \<noteq> [] \<longrightarrow> subdomain_of name (dm_domain d') \<longrightarrow>
        length (dm_domain d') \<le> length (dm_domain d))"

definition may_use_domain :: "'s contents \<Rightarrow> yyds_context \<Rightarrow> string \<Rightarrow> 's \<Rightarrow> bool" where
  "may_use_domain v x name s \<longleftrightarrow> (\<exists>d. governs v name d s \<and>
     (case yx_kind x of
        KindApiKey \<Rightarrow> is_domain_allowed (yx_cx x) name \<and>
          (dm_is_private d \<longrightarrow> is_domain_explicitly_allowed (yx_cx x) (dm_domain d))
      | KindToken \<Rightarrow> is_domain_allowed (yx_cx x) name
      | KindNone \<Rightarrow> \<not> dm_is_private d))"

lemma get_domain_by_name_cases:
  assumes laws: "database_laws db v"
  shows "get_domain_by_name db c s = Inr d \<Longrightarrow> d \<in> set (in_domains v s) \<and> dm_is_active d \<and> dm_domain d = c"
    "get_domain_by_name db c s = Inl ErrNotFound \<Longrightarrow> d' \<in> set (in_domains v s) \<Longrightarrow> dm_is_active d' \<Longrightarrow> dm_domain d' \<noteq> c"
proof -
  note L = accounts_laws(3) [OF laws]
  show "d \<in> set (in_domains v s) \<and> dm_is_active d \<and> dm_domain d = c" if "get_domain_by_name db c s = Inr d"
  proof -
    have "co_find_one (db_domains db) [CEq ''domain'' (BStr c), CEq ''isActive'' (BBool True)] ProjAll s = Inr d"
      using that by (auto simp: get_domain_by_name_def find_one_error_def split: sum.splits)
    from find_one_Inr [OF L this] show ?thesis by (auto simp: domain_fields_def)
  qed
  show "dm_domain d' \<noteq> c" if "get_domain_by_name db c s = Inl ErrNotFound" "d' \<in> set (in_domains v s)" "dm_is_active d'"
  proof -
    have "co_find_one (db_domains db) [CEq ''domain'' (BStr c), CEq ''isActive'' (BBool True)] ProjAll s = Inl NoDocuments"
      using that(1) by (auto simp: get_domain_by_name_def find_one_error_def not_found_error_def split: sum.splits if_splits)
    from find_one_NoDocuments [OF L this that(2)] show ?thesis using that(3) by (auto simp: domain_fields_def)
  qed
qed

lemma matching_domain_Some:
  assumes laws: "database_laws db v"
  shows "matching_domain db cs s = Inr (Some (d, c)) \<Longrightarrow> d \<in> set (in_domains v s) \<and> dm_is_active d \<and> dm_domain d = c \<and>
     (\<exists>l r. cs = l @ c # r \<and> (\<forall>d' \<in> set (in_domains v s). dm_is_active d' \<longrightarrow> dm_domain d' \<notin> set l))"
proof (induction cs)
  case (Cons c0 cs)
  show ?case
  proof (cases "get_domain_by_name db c0 s")
    case (Inl e)
    then have e: "e = ErrNotFound" "matching_domain db cs s = Inr (Some (d, c))"
      using Cons.prems by (auto split: if_splits)
    from Cons.IH [OF e(2)] obtain l r where "cs = l @ c # r" "d \<in> set (in_domains v s)" "dm_is_active d" "dm_domain d = c"
      "\<forall>d' \<in> set (in_domains v s). dm_is_active d' \<longrightarrow> dm_domain d' \<notin> set l" by blast
    then show ?thesis
      using get_domain_by_name_cases(2) [OF laws Inl [unfolded e(1)]] by (intro conjI exI [of _ "c0 # l"] exI [of _ r]) auto
  next
    case (Inr d0)
    then show ?thesis using Cons.prems get_domain_by_name_cases(1) [OF laws Inr] by (auto intro: exI [of _ "[]"])
  qed
qed simp

lemma matching_domain_governs:
  assumes laws: "database_laws db v" and run: "matching_domain db (candidates name) s = Inr (Some (d, c))"
    and name: "Domainutil.normalize name = name"
  shows "governs v name d s \<and> c = dm_domain d"
proof -
  obtain l r where d: "d \<in> set (in_domains v s)" "dm_is_active d" "dm_domain d = c" "candidates name = l @ c # r"
    and before: "\<forall>d' \<in> set (in_domains v s). dm_is_active d' \<longrightarrow> dm_domain d' \<notin> set l"
    using matching_domain_Some [OF laws run] by blast
  have c: "c \<noteq> []" "subdomain_of name c" using set_candidates [of c name] d(4) name by auto
  have "length (dm_domain d') \<le> length c"
    if "d' \<in> set (in_domains v s)" "dm_is_active d'" "dm_domain d' \<noteq> []" "subdomain_of name (dm_domain d')" for d'
  proof -
    have "dm_domain d' \<in> set (candidates name)" using that(3,4) name by (simp add: set_candidates)
    then have "dm_domain d' \<in> set (c # r)" using d(4) before that(1,2) by auto
    moreover have "sorted_wrt (\<lambda>a b. length b < length a) (c # r)"
      using sorted_candidates [of name] by (simp add: d(4) sorted_wrt_append)
    ultimately show ?thesis by auto
  qed
  then show ?thesis using d c by (auto simp: governs_def)
qed

lemma ensure_domain_accessible_Inr:
  assumes laws: "database_laws (ae_db (ya_env a)) v"
    and run: "ensure_domain_accessible a x domain anon s = Inr (d, c)"
  shows "may_use_domain v x (to_lower (trim_space domain)) s \<and> (yx_kind x = KindNone \<longrightarrow> anon)"
proof -
  let ?n = "to_lower (trim_space domain)"
  have n: "Domainutil.normalize ?n = ?n" using normalize_idem [of domain] by (simp add: Domainutil.normalize_def)
  have m: "matching_domain (ae_db (ya_env a)) (candidates ?n) s = Inr (Some (d, c))"
    and k: "case yx_kind x of
        KindApiKey \<Rightarrow> is_domain_allowed (yx_cx x) ?n \<and> (dm_is_private d \<longrightarrow> is_domain_explicitly_allowed (yx_cx x) c)
      | KindToken \<Rightarrow> is_domain_allowed (yx_cx x) ?n
      | KindNone \<Rightarrow> \<not> dm_is_private d \<and> anon"
    using run
    by (auto simp: ensure_domain_accessible_def Let_def split: if_splits sum.splits option.splits auth_kind.splits)
  from matching_domain_governs [OF laws m n] have g: "governs v ?n d s" "c = dm_domain d" by simp_all
  show ?thesis using k g unfolding may_use_domain_def by (cases "yx_kind x") auto
qed

text \<open>The domain of an address, as \<open>checkDomainAccessibleForAddress\<close> reads it.\<close>

definition address_domain :: "string \<Rightarrow> string" where
  "address_domain addr = to_lower (trim_space (domain_from_address (to_lower (trim_space addr))))"

lemma check_address_domain_Inr:
  assumes "database_laws (ae_db (ya_env a)) v" "check_address_domain a x addr anon s = Inr d"
  shows "may_use_domain v x (address_domain addr) s \<and> (yx_kind x = KindNone \<longrightarrow> anon)"
  using assms(2) ensure_domain_accessible_Inr [OF assms(1), of x "domain_from_address (to_lower (trim_space addr))" anon s]
  by (auto simp: check_address_domain_def address_domain_def Let_def split: if_splits sum.splits prod.splits)

section \<open>Inboxes\<close>

text \<open>A temp token names its inbox; an API key reaches the inboxes in the domains it may use.\<close>

definition may_use_inbox :: "('s, 'r, 'g) yyds_api \<Rightarrow> 's contents \<Rightarrow> yyds_context \<Rightarrow> object_id \<Rightarrow> 's \<Rightarrow> bool" where
  "may_use_inbox a v x acc s \<longleftrightarrow>
     (if yx_kind x = KindToken
      then db_from_hex (ae_db (ya_env a)) (get_string (cx_account_id (yx_cx x))) = Some acc
      else yx_kind x = KindApiKey \<and>
        (\<exists>b \<in> set (in_accounts v s). ac_id b = acc \<and> may_use_domain v x (address_domain (ac_address b)) s))"

lemma load_account_Inr:
  assumes laws: "database_laws (ae_db (ya_env a)) v" and run: "load_account a i s = Inr b"
  shows "b \<in> set (in_accounts v s) \<and> db_from_hex (ae_db (ya_env a)) i = Some (ac_id b)"
proof -
  obtain oid where oid: "db_from_hex (ae_db (ya_env a)) i = Some oid"
    "co_find_one (db_accounts (ae_db (ya_env a))) [CEq ''_id'' (BId oid)] ProjAll s = Inr b"
    using run by (auto simp: load_account_def get_account_def find_one_error_def split: option.splits sum.splits)
  from find_one_Inr [OF accounts_laws(1) [OF laws] oid(2)] show ?thesis
    by (auto simp: oid(1) account_fields_def account_schema_def)
qed

lemma lookup_account_Inr:
  assumes laws: "database_laws (ae_db (ya_env a)) v" and run: "lookup_account_by_address a x addr needs s = Inr b"
  shows "b \<in> set (in_accounts v s) \<and> may_use_domain v x (address_domain (ac_address b)) s \<and>
    (yx_kind x = KindNone \<longrightarrow> \<not> needs)"
proof -
  let ?addr = "to_lower (trim_space addr)"
  obtain d where d: "check_address_domain a x ?addr (\<not> needs) s = Inr d"
    and find: "co_find_one (db_accounts (ae_db (ya_env a))) [CEq ''address'' (BStr ?addr)] ProjAll s = Inr b"
    using run
    by (auto simp: lookup_account_by_address_def get_account_by_address_def find_one_error_def Let_def
        split: if_splits sum.splits)
  from find_one_Inr [OF accounts_laws(1) [OF laws] find] have b: "b \<in> set (in_accounts v s)" "ac_address b = ?addr"
    by (auto simp: account_fields_def account_schema_def)
  then show ?thesis using check_address_domain_Inr [OF laws d] by simp
qed

lemma account_authorized:
  assumes laws: "database_laws (ae_db (ya_env a)) v"
  shows "current_token_account a x s = Inr b \<Longrightarrow> yx_kind x = KindToken \<Longrightarrow> may_use_inbox a v x (ac_id b) s"
    "account_by_id_authorized a x i s = Inr b \<Longrightarrow> yx_kind x \<noteq> KindNone \<Longrightarrow> may_use_inbox a v x (ac_id b) s"
    "message_list_account a x q s = Inr b \<Longrightarrow> yx_kind x \<noteq> KindNone \<Longrightarrow> may_use_inbox a v x (ac_id b) s"
    "account_from_address_body_or_token a x q body s = Inr b \<Longrightarrow> yx_kind x \<noteq> KindNone \<Longrightarrow> may_use_inbox a v x (ac_id b) s"
proof -
  note L = load_account_Inr [OF laws] lookup_account_Inr [OF laws]
  show tok: "may_use_inbox a v x (ac_id b) s" if "current_token_account a x s = Inr b" "yx_kind x = KindToken"
    using that L(1) by (auto simp: current_token_account_def may_use_inbox_def Let_def split: if_splits)
  have key: "may_use_inbox a v x (ac_id b) s"
    if "lookup_account_by_address a x q True s = Inr b" "yx_kind x \<noteq> KindToken" for q
    using L(2) [OF that(1)] that(2) by (cases "yx_kind x") (auto simp: may_use_inbox_def)
  show "may_use_inbox a v x (ac_id b) s" if acc: "account_by_id_authorized a x i s = Inr b" and kind: "yx_kind x \<noteq> KindNone"
  proof -
    have b: "load_account a i s = Inr b" using acc by (auto simp: account_by_id_authorized_def split: sum.splits if_splits)
    have hex: "hex_laws (ae_db (ya_env a))" by (rule accounts_laws(4) [OF laws])
    show ?thesis
    proof (cases "yx_kind x = KindToken")
      case True
      then have "get_string (cx_account_id (yx_cx x)) = db_hex (ae_db (ya_env a)) (ac_id b)"
        using acc b by (auto simp: account_by_id_authorized_def split: if_splits)
      then show ?thesis using True hex by (simp add: may_use_inbox_def hex_laws_def)
    next
      case False
      then obtain d where "check_address_domain a x (ac_address b) False s = Inr d"
        using acc b by (cases "check_address_domain a x (ac_address b) False s") (auto simp: account_by_id_authorized_def)
      from check_address_domain_Inr [OF laws this] show ?thesis
        using False kind L(1) [OF b] by (cases "yx_kind x") (auto simp: may_use_inbox_def)
    qed
  qed
  show "may_use_inbox a v x (ac_id b) s" if "message_list_account a x q s = Inr b" "yx_kind x \<noteq> KindNone"
    using that tok key [of q]
    by (cases "yx_kind x = KindToken") (auto simp: message_list_account_def Let_def split: sum.splits if_splits)
  show "may_use_inbox a v x (ac_id b) s"
    if "account_from_address_body_or_token a x q body s = Inr b" "yx_kind x \<noteq> KindNone"
    using that tok key
    by (cases "yx_kind x = KindToken")
      (auto simp: account_from_address_body_or_token_def Let_def split: sum.splits if_splits option.splits)
qed

lemma message_authorized_found:
  assumes laws: "database_laws (ae_db (ya_env a)) v"
    and run: "message_authorized a x (find_message (ae_db (ya_env a)) p i s) s = Inr m" and p: "is_shown p ''accountId''"
    and kind: "yx_kind x \<noteq> KindNone"
  obtains y where "y \<in> set (in_messages v s)" "live (ms_account_id y) None y" "db_from_hex (ae_db (ya_env a)) i = Some (ms_id y)"
    "m = project_message p y" "may_use_inbox a v x (ms_account_id y) s"
proof -
  let ?db = "ae_db (ya_env a)"
  have hex: "hex_laws ?db" by (rule accounts_laws(4) [OF laws])
  have m: "find_message ?db p i s = Inr m" "authorize_message_account a x (ms_account_id m) s = None"
    using run by (auto simp: message_authorized_def split: sum.splits option.splits)
  obtain oid where oid: "db_from_hex ?db i = Some oid"
    "co_find_one (db_messages ?db) [CEq ''_id'' (BId oid), CEq ''isDeleted'' (BBool False)] p s = Inr m"
    using m(1) by (auto simp: find_message_def find_one_error_def split: option.splits sum.splits)
  from find_one_Inr [OF accounts_laws(2) [OF laws] oid(2)] obtain y where
    y: "y \<in> set (in_messages v s)" "ms_id y = oid" "\<not> ms_is_deleted y" "m = project_message p y"
    by (auto simp: message_fields_def)
  have acc: "ms_account_id m = ms_account_id y" using p by (simp add: y(4) project_message_def Let_def)
  have "may_use_inbox a v x (ms_account_id y) s"
  proof (cases "yx_kind x = KindToken")
    case True
    then have "get_string (cx_account_id (yx_cx x)) = db_hex ?db (ms_account_id y)"
      using m(2) by (auto simp: authorize_message_account_def acc split: if_splits)
    then show ?thesis using True hex by (simp add: may_use_inbox_def hex_laws_def)
  next
    case False
    then obtain b d where b: "load_account a (db_hex ?db (ms_account_id y)) s = Inr b"
      "check_address_domain a x (ac_address b) False s = Inr d"
      using m(2) by (auto simp: authorize_message_account_def acc split: sum.splits)
    have "b \<in> set (in_accounts v s)" "ac_id b = ms_account_id y"
      using load_account_Inr [OF laws b(1)] hex by (auto simp: hex_laws_def)
    then show ?thesis
      using check_address_domain_Inr [OF laws b(2)] False kind by (cases "yx_kind x") (auto simp: may_use_inbox_def)
  qed
  then show thesis using that y oid(1) by (simp add: live_def)
qed

lemma deleting_account_others:
  assumes laws: "database_laws db v"
  shows "others_same v acc s (snd (hard_delete_messages_by_account db acc s))"
    "db_from_hex db i = Some acc \<Longrightarrow> others_same v acc s (snd (delete_account db i s))"
proof -
  have "others_same v acc s s'" if del: "co_delete_many (db_messages db) [CEq ''accountId'' (BId acc)] s = (r, s')" for r s'
  proof -
    obtain keep where "in_messages v s' = filter (\<lambda>x. keep x \<or> ms_account_id x \<noteq> acc) (in_messages v s)"
      using delete_many_law(2) [OF accounts_laws(2) [OF laws] del] by (auto simp: message_fields_def)
    then have "filter (\<lambda>m. ms_account_id m \<noteq> acc) (in_messages v s') = filter (\<lambda>m. ms_account_id m \<noteq> acc) (in_messages v s)"
      by (auto intro: filter_cong)
    then show ?thesis using delete_many_law(1) [OF accounts_laws(2) [OF laws] del] by (simp add: others_same_def)
  qed
  then show "others_same v acc s (snd (hard_delete_messages_by_account db acc s))"
    by (auto simp: hard_delete_messages_by_account_def split: prod.splits sum.splits)
  show "others_same v acc s (snd (delete_account db i s))" if i: "db_from_hex db i = Some acc"
  proof -
    obtain r s' where r: "co_delete_one (db_accounts db) [CEq ''_id'' (BId acc)] s = (r, s')" by fastforce
    have "filter (\<lambda>b. ac_id b \<noteq> acc) (in_accounts v s') = filter (\<lambda>b. ac_id b \<noteq> acc) (in_accounts v s)"
      using delete_one_law(2) [OF accounts_laws(1) [OF laws] r] by (auto simp: account_fields_def)
    then have "others_same v acc s s'"
      using delete_one_law(1) [OF accounts_laws(1) [OF laws] r] by (simp add: others_same_def)
    then show ?thesis using r i by (auto simp: delete_account_def split: sum.splits)
  qed
qed

section \<open>Requests\<close>

datatype inbox_request =
    MeRequest
  | InboxRequest string
  | DropInboxRequest string
  | InboxListRequest string string
  | MarkReadRequest string "string option"
  | MessageRequest string
  | FlagRequest string "bool option option"
  | RemoveRequest string
  | SourceRequest string
  | FileRequest string string

datatype inbox_answer =
    InboxAnswer yyds_account
  | ListAnswer message_envelope
  | CountsAnswer "int \<times> int \<times> int"
  | DetailAnswer message_detail
  | FlagAnswer "string \<times> bool"
  | SourceAnswer "string \<times> bytes"
  | NoAnswer unit

text \<open>The routes of \<open>New\<close> with the middleware in front of each.\<close>

definition serve_inbox ::
  "('s, 'r, 'g) yyds_api \<Rightarrow> (nat \<Rightarrow> time) \<Rightarrow> yyds_context \<Rightarrow> inbox_request \<Rightarrow> ('s, 'r, 'g) api_state
     \<Rightarrow> inbox_answer yyds_response \<times> ('s, 'r, 'g) api_state" where
  "serve_inbox a clk x rq st =
     (case (if rq = MeRequest then require_token_auth x else require_any_auth x) of
        Some e \<Rightarrow> (Rejected e, st)
      | None \<Rightarrow>
          (case rq of
             MeRequest \<Rightarrow> apfst (map_yyds_response InboxAnswer) (get_current_account a clk x st)
           | InboxRequest i \<Rightarrow> apfst (map_yyds_response InboxAnswer) (get_account_by_id a clk x i st)
           | DropInboxRequest i \<Rightarrow> apfst (map_yyds_response NoAnswer) (yyds_delete_account a x i st)
           | InboxListRequest q l \<Rightarrow> apfst (map_yyds_response ListAnswer) (yyds_list_messages a clk x q l st)
           | MarkReadRequest q body \<Rightarrow> apfst (map_yyds_response CountsAnswer) (mark_messages_read a clk x q body st)
           | MessageRequest i \<Rightarrow> (map_yyds_response DetailAnswer (yyds_get_message a x i st), st)
           | FlagRequest i body \<Rightarrow> apfst (map_yyds_response FlagAnswer) (yyds_update_message a (clk 0) x i body st)
           | RemoveRequest i \<Rightarrow> apfst (map_yyds_response NoAnswer) (yyds_delete_message a (clk 0, clk 1) x i st)
           | SourceRequest i \<Rightarrow> (map_yyds_response SourceAnswer (get_message_source a x i st), st)
           | FileRequest i k \<Rightarrow> (map_yyds_response NoAnswer (yyds_download_attachment a x i k st), st)))"

text \<open>What an answer may show of an inbox.\<close>

definition answers_from ::
  "('s, 'r, 'g) api_env \<Rightarrow> object_id \<Rightarrow> 's \<Rightarrow> message list \<Rightarrow> inbox_answer \<Rightarrow> bool" where
  "answers_from env acc s ms ans =
     (case ans of
        InboxAnswer r \<Rightarrow> yn_id r = db_hex (ae_db env) acc
      | ListAnswer e \<Rightarrow> \<forall>su \<in> set (me_messages e). \<exists>y \<in> set ms. live acc None y \<and> su_id su = db_hex (ae_db env) (ms_id y) \<and>
          su_inbox_id su = db_hex (ae_db env) acc \<and> su_subject su = ms_subject y
      | DetailAnswer d \<Rightarrow> \<exists>y \<in> set ms. live acc None y \<and> d = to_message_detail (ae_db env) y
      | FlagAnswer f \<Rightarrow> \<exists>y \<in> set ms. live acc None y \<and> fst f = db_hex (ae_db env) (ms_id y)
      | SourceAnswer f \<Rightarrow> \<exists>y \<in> set ms. live acc None y \<and> fst f = db_hex (ae_db env) (ms_id y) \<and>
          (snd f = ms_raw_message y \<or> (\<exists>k n ct. ae_get_object env (object_key (fst f) k n) s = Some (snd f, ct)))
      | _ \<Rightarrow> True)"

text \<open>A request that stays within one inbox.\<close>

definition within_inbox ::
  "('s, 'r, 'g) yyds_api \<Rightarrow> 's contents \<Rightarrow> object_id \<Rightarrow> ('s, 'r, 'g) api_state
     \<Rightarrow> inbox_answer yyds_response \<times> ('s, 'r, 'g) api_state \<Rightarrow> bool" where
  "within_inbox a v acc st r \<longleftrightarrow>
     others_same v acc (db_state st) (db_state (snd r)) \<and>
     (\<forall>n ans. fst r = Answered n ans \<longrightarrow> answers_from (ya_env a) acc (db_state st) (in_messages v (db_state st)) ans) \<and>
     (\<forall>n body. fst r = FromCore (Success n body) \<longrightarrow>
        shows_only (ya_env a) acc (db_state st) (in_messages v (db_state st)) body)"

lemma within_inbox_simps [simp]:
  "within_inbox a v acc st (Rejected e, st') = others_same v acc (db_state st) (db_state st')"
  "within_inbox a v acc st (Answered n b, st') = (others_same v acc (db_state st) (db_state st') \<and>
     answers_from (ya_env a) acc (db_state st) (in_messages v (db_state st)) b)"
  "within_inbox a v acc st (FromCore c, st') = kept_private (ya_env a) v acc st (c, st')"
  by (auto simp: within_inbox_def kept_private_def)

text \<open>Either the request is refused without an effect, or it stays within an inbox the caller may use.\<close>

definition authorised ::
  "('s, 'r, 'g) yyds_api \<Rightarrow> 's contents \<Rightarrow> yyds_context \<Rightarrow> ('s, 'r, 'g) api_state
     \<Rightarrow> inbox_answer yyds_response \<times> ('s, 'r, 'g) api_state \<Rightarrow> bool" where
  "authorised a v x st r \<longleftrightarrow>
     (\<exists>e. r = (Rejected e, st)) \<or> (\<exists>acc. may_use_inbox a v x acc (db_state st) \<and> within_inbox a v acc st r)"

lemma authorised_refused [simp]: "authorised a v x st (Rejected e, st)"
  by (simp add: authorised_def)

lemma authorisedI:
  "may_use_inbox a v x acc (db_state st) \<Longrightarrow> within_inbox a v acc st r \<Longrightarrow> authorised a v x st r"
  by (auto simp: authorised_def)

lemma counted_state:
  "db_state (st\<lparr>as_store := snd (count_messages_by_account db clk acc (as_store st))\<rparr>) = db_state st"
  using counting_keeps [of db clk acc None "as_store st"] by (simp add: count_messages_by_account_def db_state_def)

lemma account_answer_authorised:
  assumes "\<And>b. r = Inr b \<Longrightarrow> may_use_inbox a v x (ac_id b) (db_state st)"
  shows "authorised a v x st (apfst (map_yyds_response InboxAnswer) (answer_account a clk r st))"
proof (cases r)
  case (Inr b)
  obtain c so where c: "count_messages_by_account (ae_db (ya_env a)) (clk 0, clk 1, clk 2) (ac_id b) (as_store st) = (c, so)"
    by fastforce
  have "db_state (st\<lparr>as_store := so\<rparr>) = db_state st"
    using counted_state [where st = st and db = "ae_db (ya_env a)" and acc = "ac_id b" and clk = "(clk 0, clk 1, clk 2)"]
    unfolding c by simp
  then have "within_inbox a v (ac_id b) st (apfst (map_yyds_response InboxAnswer) (answer_account a clk r st))"
    using Inr by (cases c) (simp_all del: One_nat_def add: answer_account_def c answers_from_def to_account_response_def Let_def)
  then show ?thesis using assms [OF Inr] authorisedI by blast
qed (simp add: answer_account_def)

lemma caller_core: "caller (ya_env a) (core_context a x acc) acc"
  "caller (ya_env a) ((core_context a x acc)\<lparr>cx_address := w\<rparr>) acc"
  by (simp_all add: caller_def core_context_def)

text \<open>\<open>DeleteAccount\<close> of the native dialect.\<close>

lemma delete_account_private:
  assumes laws: "api_laws env v" and cx: "caller env cx acc"
  shows "others_same v acc (db_state st) (db_state (snd (delete_account_handler env cx i st)))"
proof (cases "i = get_string (cx_account_id cx)")
  case True
  then have i: "db_from_hex (ae_db env) i = Some acc" by (simp add: own_id [OF laws cx])
  show ?thesis
  proof (cases "get_account (ae_db env) i (db_state st)")
    case (Inr b)
    have b: "ac_id b = acc"
    proof -
      have "co_find_one (db_accounts (ae_db env)) [CEq ''_id'' (BId acc)] ProjAll (db_state st) = Inr b"
        using Inr i by (auto simp: get_account_def find_one_error_def split: sum.splits)
      from find_one_Inr [OF accounts_laws(1) [OF db_laws [OF laws]] this] show ?thesis
        by (auto simp: account_fields_def account_schema_def)
    qed
    define st1 where "st1 = st\<lparr>as_cache := snd (remove_address (ae_redis env) (ac_address b) (as_cache st))\<rparr>"
    obtain ms s2 where hard: "hard_delete_messages_by_account (ae_db env) (ac_id b) (db_state st1) = (ms, s2)" by fastforce
    define st3 where "st3 = (case ms of Inl e \<Rightarrow> set_db s2 st1
      | Inr ms \<Rightarrow> foldl (\<lambda>st m. api_storage_cleanup env (db_hex (ae_db env) (ms_id m)) st) (set_db s2 st1) ms)"
    obtain e s4 where del: "delete_account (ae_db env) i (db_state st3) = (e, s4)" by fastforce
    have st1: "db_state st1 = db_state st" by (simp add: st1_def db_state_def)
    have s2: "others_same v acc (db_state st) s2"
      using deleting_account_others(1) [OF db_laws [OF laws], of acc "db_state st1"] hard by (simp add: b st1)
    have fold: "foldl (\<lambda>st m. api_storage_cleanup env (db_hex (ae_db env) (ms_id m)) st) st0 ms0 =
        foldl (\<lambda>st i. api_storage_cleanup env i st) st0 (map (\<lambda>m. db_hex (ae_db env) (ms_id m)) ms0)" for st0 and ms0 :: "message list"
      by (induction ms0 arbitrary: st0) simp_all
    have "tables_of v (db_state st3) = tables_of v s2"
      using cleanup_keeps(2) [OF laws] by (cases ms) (simp_all add: st3_def fold)
    then have "others_same v acc (db_state st) (db_state st3)" by (rule others_same_tables [OF s2])
    then have s4: "others_same v acc (db_state st) s4"
      using others_trans deleting_account_others(2) [OF db_laws [OF laws] i, of "db_state st3"] del by (metis snd_conv)
    have "db_state (snd (delete_account_handler env cx i st)) = s4"
      unfolding delete_account_handler_def Let_def Inr sum.case st1_def [symmetric] hard prod.case st3_def [symmetric] del
      using True by (cases e) simp_all
    then show ?thesis using s4 by simp
  qed (simp add: delete_account_handler_def True)
qed (simp add: delete_account_handler_def)

lemma drop_authorised:
  assumes laws: "api_laws (ya_env a) v" and kind: "yx_kind x \<noteq> KindNone"
  shows "authorised a v x st (apfst (map_yyds_response NoAnswer) (yyds_delete_account a x i st))"
proof (cases "account_by_id_authorized a x i (db_state st)")
  case (Inr b)
  let ?cx = "(core_context a x (ac_id b))\<lparr>cx_address := Some (ac_address b)\<rparr>"
  obtain r st' where run: "delete_account_handler (ya_env a) ?cx i st = (r, st')" by fastforce
  have "others_same v (ac_id b) (db_state st) (db_state (snd (delete_account_handler (ya_env a) ?cx i st)))"
    by (rule delete_account_private [OF laws caller_core(2)])
  then have "within_inbox a v (ac_id b) st (apfst (map_yyds_response NoAnswer) (yyds_delete_account a x i st))"
    using Inr run by (cases r) (simp_all add: yyds_delete_account_def)
  then show ?thesis by (rule authorisedI [OF account_authorized(2) [OF db_laws [OF laws] Inr kind]])
qed (simp add: yyds_delete_account_def)

lemma list_authorised:
  assumes laws: "api_laws (ya_env a) v" and kind: "yx_kind x \<noteq> KindNone"
  shows "authorised a v x st (apfst (map_yyds_response ListAnswer) (yyds_list_messages a clk x q l st))"
proof (cases "message_list_account a x q (db_state st)")
  case (Inr b)
  let ?db = "ae_db (ya_env a)"
  obtain r1 so1 where r1: "list_messages_filtered ?db (clk 0, clk 1, clk 2) (ac_id b) 1 (parse_limit l) None (as_store st) = (r1, so1)"
    by fastforce
  obtain r2 so2 where r2: "list_messages_filtered ?db (clk 3, clk 4, clk 5) (ac_id b) 1 1 (Some False) so1 = (r2, so2)"
    by fastforce
  note K = list_query_keeps [OF r1 [unfolded list_messages_filtered_def]] list_query_keeps [OF r2 [unfolded list_messages_filtered_def]]
  have s: "so_db so1 = db_state st" "so_db so2 = db_state st" using K by (simp_all add: db_state_def)
  have from_inbox: "\<exists>y \<in> set (in_messages v (db_state st)). shown_from (ac_id b) m y"
    if "r1 = Inr (ms, n)" "m \<in> set ms" for ms n m
    using K(1) that find_page_shows [OF db_laws [OF laws], of "ac_id b" None "[]"] by (simp add: db_state_def) blast
  have "answers_from (ya_env a) (ac_id b) (db_state st) (in_messages v (db_state st))
      (ListAnswer \<lparr>me_messages = map (to_message_summary ?db) ms, me_total = n, me_unread_count = k\<rparr>)"
    if "r1 = Inr (ms, n)" for ms n k
    using from_inbox [OF that] by (fastforce simp: answers_from_def to_message_summary_def shown_from_def)
  then have "within_inbox a v (ac_id b) st (apfst (map_yyds_response ListAnswer) (yyds_list_messages a clk x q l st))"
    using Inr s
    by (auto simp del: One_nat_def simp: yyds_list_messages_def list_messages_def r1 r2 Let_def db_state_def split: sum.split)
  then show ?thesis by (rule authorisedI [OF account_authorized(3) [OF db_laws [OF laws] Inr kind]])
qed (simp add: yyds_list_messages_def)

lemma mark_authorised:
  assumes laws: "api_laws (ya_env a) v" and kind: "yx_kind x \<noteq> KindNone"
  shows "authorised a v x st (apfst (map_yyds_response CountsAnswer) (mark_messages_read a clk x q body st))"
proof (cases "account_from_address_body_or_token a x q body (db_state st)")
  case (Inr b)
  let ?db = "ae_db (ya_env a)"
  obtain r s1 where r: "bulk_update_message_flags_by_account ?db (clk 0) (ac_id b) (Some True) None (db_state st) = (r, s1)"
    by fastforce
  have s1: "others_same v (ac_id b) (db_state st) s1"
    using bulk_flags_others(2) [OF db_laws [OF laws], of "ac_id b" "db_state st" "clk 0" "Some True" None] r by simp
  obtain c so where c: "count_messages_by_account ?db (clk 1, clk 2, clk 3) (ac_id b) (as_store (set_db s1 st)) = (c, so)"
    by fastforce
  have so: "db_state ((set_db s1 st)\<lparr>as_store := so\<rparr>) = s1"
    using counted_state [where st = "set_db s1 st" and db = ?db and acc = "ac_id b" and clk = "(clk 1, clk 2, clk 3)"]
    unfolding c by simp
  have "within_inbox a v (ac_id b) st (apfst (map_yyds_response CountsAnswer) (mark_messages_read a clk x q body st))"
    using Inr s1 so by (cases r; cases c) (simp_all del: One_nat_def add: mark_messages_read_def r c Let_def answers_from_def)
  then show ?thesis by (rule authorisedI [OF account_authorized(4) [OF db_laws [OF laws] Inr kind]])
qed (simp add: mark_messages_read_def)

lemma detail_projected:
  "to_message_detail db (project_message (ProjExclude [''rawMessage'']) y) = to_message_detail db y"
  by (simp add: to_message_detail_def to_message_summary_def project_message_def is_shown_def Let_def)

lemma message_authorised:
  assumes laws: "api_laws (ya_env a) v" and kind: "yx_kind x \<noteq> KindNone"
  shows "authorised a v x st (map_yyds_response DetailAnswer (yyds_get_message a x i st), st)"
proof (cases "message_by_id_authorized a x i (db_state st)")
  case (Inr m)
  obtain y where y: "y \<in> set (in_messages v (db_state st))" "live (ms_account_id y) None y"
    "m = project_message (ProjExclude [''rawMessage'']) y" "may_use_inbox a v x (ms_account_id y) (db_state st)"
    using message_authorized_found [OF db_laws [OF laws] Inr [unfolded message_by_id_authorized_def get_message_def] _ kind]
    by auto
  have "within_inbox a v (ms_account_id y) st (map_yyds_response DetailAnswer (yyds_get_message a x i st), st)"
    using y(1,2) by (auto simp: yyds_get_message_def Inr answers_from_def y(3) detail_projected)
  then show ?thesis by (rule authorisedI [OF y(4)])
qed (simp add: yyds_get_message_def)

lemma flag_authorised:
  assumes laws: "api_laws (ya_env a) v" and kind: "yx_kind x \<noteq> KindNone"
    and ids: "distinct (map ms_id (in_messages v (db_state st)))"
  shows "authorised a v x st (apfst (map_yyds_response FlagAnswer) (yyds_update_message a now x i body st))"
proof (cases "message_by_id_authorized a x i (db_state st)")
  case (Inr m)
  let ?db = "ae_db (ya_env a)"
  obtain y where y: "y \<in> set (in_messages v (db_state st))" "live (ms_account_id y) None y"
    "m = project_message (ProjExclude [''rawMessage'']) y" "may_use_inbox a v x (ms_account_id y) (db_state st)"
    using message_authorized_found [OF db_laws [OF laws] Inr [unfolded message_by_id_authorized_def get_message_def] _ kind]
    by auto
  have mid: "ms_id m = ms_id y" by (simp add: y(3) project_message_def Let_def)
  have "db_from_hex ?db (db_hex ?db (ms_id m)) = Some (ms_id y)"
    using accounts_laws(4) [OF db_laws [OF laws]] by (simp add: hex_laws_def mid)
  then have own: "id_of_owner ?db v (ms_account_id y) (db_hex ?db (ms_id m)) (db_state st)"
    by (rule owner_unique [OF ids y(1) refl])
  have "others_same v (ms_account_id y) (db_state st) s'"
    if "update_message_flags ?db now (db_hex ?db (ms_id m)) seen keep (db_state st) = (e, s')" for seen keep e s'
    using flags_and_delete_others(1) [OF db_laws [OF laws] own, of now seen keep] that by simp
  then have "within_inbox a v (ms_account_id y) st (apfst (map_yyds_response FlagAnswer) (yyds_update_message a now x i body st))"
    using y(1,2) by (auto simp: yyds_update_message_def Inr answers_from_def mid Let_def split: option.split prod.split)
  then show ?thesis by (rule authorisedI [OF y(4)])
qed (simp add: yyds_update_message_def)

lemma meta_found:
  assumes laws: "api_laws (ya_env a) v" and kind: "yx_kind x \<noteq> KindNone"
    and run: "message_meta_by_id_authorized a x i s = Inr m"
  shows "may_use_inbox a v x (ms_account_id m) s"
proof -
  obtain y where "m = project_message (ProjExclude [''rawMessage'', ''text'', ''html'']) y" "may_use_inbox a v x (ms_account_id y) s"
    using message_authorized_found [OF db_laws [OF laws] run [unfolded message_meta_by_id_authorized_def get_message_meta_def] _ kind]
    by auto
  then show ?thesis by (simp add: project_message_def is_shown_def Let_def)
qed

lemma core_answer:
  "kept_private env v acc st (c, st') \<Longrightarrow> env = ya_env a \<Longrightarrow> within_inbox a v acc st (FromCore c, st')"
  by simp

lemma remove_authorised:
  assumes laws: "api_laws (ya_env a) v" and kind: "yx_kind x \<noteq> KindNone"
    and ids: "distinct (map ms_id (in_messages v (db_state st)))"
  shows "authorised a v x st (apfst (map_yyds_response NoAnswer) (yyds_delete_message a clk x i st))"
proof (cases "message_meta_by_id_authorized a x i (db_state st)")
  case (Inr m)
  obtain c st' where run: "delete_message_handler (ya_env a) clk (core_context a x (ms_account_id m)) i st = (c, st')"
    by fastforce
  have "kept_private (ya_env a) v (ms_account_id m) st (c, st')"
    unfolding run [symmetric] by (rule delete_private [OF laws caller_core(1) ids])
  then have "within_inbox a v (ms_account_id m) st (apfst (map_yyds_response NoAnswer) (yyds_delete_message a clk x i st))"
    using run by (simp add: yyds_delete_message_def Inr)
  then show ?thesis by (rule authorisedI [OF meta_found [OF laws kind Inr]])
qed (simp add: yyds_delete_message_def)

lemma file_authorised:
  assumes laws: "api_laws (ya_env a) v" and kind: "yx_kind x \<noteq> KindNone"
  shows "authorised a v x st (map_yyds_response NoAnswer (yyds_download_attachment a x i k st), st)"
proof (cases "message_meta_by_id_authorized a x i (db_state st)")
  case (Inr m)
  have "within_inbox a v (ms_account_id m) st (map_yyds_response NoAnswer (yyds_download_attachment a x i k st), st)"
    using attachment_private [OF laws caller_core(1)] by (simp add: yyds_download_attachment_def Inr)
  then show ?thesis by (rule authorisedI [OF meta_found [OF laws kind Inr]])
qed (simp add: yyds_download_attachment_def)

lemma source_authorised:
  assumes laws: "api_laws (ya_env a) v" and kind: "yx_kind x \<noteq> KindNone"
  shows "authorised a v x st (map_yyds_response SourceAnswer (get_message_source a x i st), st)"
proof (cases "message_raw_by_id_authorized a x i (db_state st)")
  case (Inr m)
  obtain y where y: "y \<in> set (in_messages v (db_state st))" "live (ms_account_id y) None y"
    "m = project_message (ProjInclude [''accountId'', ''rawMessage'']) y" "may_use_inbox a v x (ms_account_id y) (db_state st)"
    using message_authorized_found [OF db_laws [OF laws] Inr [unfolded message_raw_by_id_authorized_def get_message_raw_def] _ kind]
    by auto
  have m: "ms_id m = ms_id y" "ms_raw_message m = ms_raw_message y" by (simp_all add: y(3) project_message_def is_shown_def Let_def)
  have "within_inbox a v (ms_account_id y) st (map_yyds_response SourceAnswer (get_message_source a x i st), st)"
    using y(1,2)
    by (auto simp: get_message_source_def Inr answers_from_def m open_raw_message_def open_object_def Let_def split: option.split)
  then show ?thesis by (rule authorisedI [OF y(4)])
qed (simp add: get_message_source_def)


definition example_yyds :: "(tables, unit, nat) yyds_api" where
  "example_yyds = new_yyds example_env (new_handler 1 hour Map.empty 0 0 False) hour hour Map.empty 0 default_yyds
     (\<lambda>n. State_Monad.return (Some 0)) (\<lambda>n. State_Monad.return (Some (replicate n 0)))"

definition example_token :: yyds_context where
  "example_token = \<lparr>yx_kind = KindToken, yx_cx = example_caller\<rparr>"

lemma example_inbox_answers:
  "fst (serve_inbox example_yyds (\<lambda>_. 0) example_token (RemoveRequest ''1'') example_mailbox) = FromCore (Success 204 NoContent)"
  "fst (serve_inbox example_yyds (\<lambda>_. 0) example_token (RemoveRequest ''2'') example_mailbox) = Rejected access_denied"
  by code_simp+


end
