(* ===== verification/Routes.thy ===== *)
theory Routes
  imports ApiKeys Isolation YydsAccess
begin

text \<open>
  What a request passes before a handler sees it, in both dialects: the chain of middlewares, the table of routes and what stands in front of
  each route (\<open>SetupRoutes\<close> of \<open>internal/handler/handler.go\<close>, the routes of \<open>New\<close> in \<open>internal/dialect/yyds/api.go\<close>). Gin finds the route:
  \<open>router\<close> is its router, of which only \<open>router_law\<close> is used: a route that is found is one of the table. (Its
  redirects for a trailing slash are not modelled.)
\<close>

record ('g, 'e) route =
  ro_method :: string
  ro_pattern :: string
  ro_guard :: 'g
  ro_endpoint :: 'e

type_synonym path_params = "string \<rightharpoonup> string"
type_synonym ('g, 'e) router = "('g, 'e) route list \<Rightarrow> string \<Rightarrow> string \<Rightarrow> (('g, 'e) route \<times> path_params) option"

definition router_law :: "('g, 'e) router \<Rightarrow> bool" where
  "router_law router \<longleftrightarrow> (\<forall>table m p r ps. router table m p = Some (r, ps) \<longrightarrow> r \<in> set table \<and> ro_method r = m)"

record http_head =
  hh_method :: string
  hh_path :: string
  hh_ip :: string
  hh_authorization :: string
  hh_x_api_key :: string

section \<open>The native dialect\<close>

datatype native_guard = PublicRoute | KeyRoute | AccountRoute

datatype native_endpoint =
    ListDomains | CreateAccount | CreateToken | RandomAddress
  | GetMe | GetAccount | DeleteAccount | ListMessages | BulkUpdateMessages | DeleteMessages | BulkDeleteMessagesByIDs
  | GetMessage | UpdateMessage | DeleteMessage | DownloadMessage | DownloadAttachment | SSE

abbreviation route_of :: "string \<Rightarrow> string \<Rightarrow> 'g \<Rightarrow> 'e \<Rightarrow> ('g, 'e) route" where
  "route_of m p g e \<equiv> \<lparr>ro_method = m, ro_pattern = p, ro_guard = g, ro_endpoint = e\<rparr>"

definition native_routes :: "(native_guard, native_endpoint) route list" where
  "native_routes =
     [route_of ''GET'' ''/domains'' PublicRoute ListDomains,
      route_of ''POST'' ''/accounts'' KeyRoute CreateAccount,
      route_of ''POST'' ''/token'' PublicRoute CreateToken,
      route_of ''GET'' ''/addresses/random'' KeyRoute RandomAddress,
      route_of ''GET'' ''/me'' AccountRoute GetMe,
      route_of ''GET'' ''/accounts/:id'' AccountRoute GetAccount,
      route_of ''DELETE'' ''/accounts/:id'' AccountRoute DeleteAccount,
      route_of ''GET'' ''/messages'' AccountRoute ListMessages,
      route_of ''PATCH'' ''/messages'' AccountRoute BulkUpdateMessages,
      route_of ''DELETE'' ''/messages'' AccountRoute DeleteMessages,
      route_of ''POST'' ''/messages/bulk-delete'' AccountRoute BulkDeleteMessagesByIDs,
      route_of ''GET'' ''/messages/:id'' AccountRoute GetMessage,
      route_of ''PATCH'' ''/messages/:id'' AccountRoute UpdateMessage,
      route_of ''DELETE'' ''/messages/:id'' AccountRoute DeleteMessage,
      route_of ''GET'' ''/messages/:id/download'' AccountRoute DownloadMessage,
      route_of ''GET'' ''/messages/:id/attachments/:attachmentId'' AccountRoute DownloadAttachment,
      route_of ''GET'' ''/sse'' AccountRoute SSE]"

datatype ('e, 'x) routed = Aborted int string | NoRoute | Reached 'e path_params 'x

text \<open>The middlewares of a group or a route, one after the other.\<close>

definition native_guarded :: "bool \<Rightarrow> native_guard \<Rightarrow> req_context \<Rightarrow> flow \<times> req_context" where
  "native_guarded has_api_keys g cx =
     (case g of
        PublicRoute \<Rightarrow> (Next, cx)
      | KeyRoute \<Rightarrow> require_api_key has_api_keys cx
      | AccountRoute \<Rightarrow>
          (case auth_required cx of (Next, cx1) \<Rightarrow> domain_scope_check cx1 | (Abort code msg, cx1) \<Rightarrow> (Abort code msg, cx1)))"

definition native_front ::
  "(native_guard, native_endpoint) router \<Rightarrow> (string, 'e, 'l) limiter \<Rightarrow> (string, 'e, 'l) limiter \<Rightarrow> (string \<Rightarrow> 'a \<Rightarrow> (auth_error + claims) \<times> 'a)
     \<Rightarrow> handler \<Rightarrow> time \<times> time \<Rightarrow> time \<times> time \<Rightarrow> http_head \<Rightarrow> 'l \<times> 'a \<Rightarrow> (native_endpoint, req_context) routed \<times> 'l \<times> 'a" where
  "native_front router check key_check validate h clk key_clk rq st =
     (let (l, au) = st in
      case rate_limit check (hd_global_rpm h) minute clk (hh_ip rq) l of
        (Abort code msg, l1) \<Rightarrow> (Aborted code msg, l1, au)
      | (Next, l1) \<Rightarrow>
          (case bearer_auth (hd_api_keys h) validate (hh_authorization rq) fresh_context au of
             (Abort code msg, cx, au1) \<Rightarrow> (Aborted code msg, l1, au1)
           | (Next, cx, au1) \<Rightarrow>
               (case api_key_rate_limit key_check key_clk cx l1 of
                  (Abort code msg, l2) \<Rightarrow> (Aborted code msg, l2, au1)
                | (Next, l2) \<Rightarrow>
                    (case router native_routes (hh_method rq) (hh_path rq) of
                       None \<Rightarrow> (NoRoute, l2, au1)
                     | Some (r, ps) \<Rightarrow>
                         (case native_guarded (hd_api_keys h \<noteq> Map.empty) (ro_guard r) cx of
                            (Abort code msg, cx') \<Rightarrow> (Aborted code msg, l2, au1)
                          | (Next, cx') \<Rightarrow> (Reached (ro_endpoint r) ps cx', l2, au1))))))"

section \<open>The yyds dialect\<close>

datatype yyds_guard = FreeRoute | CreateRoute | AnyAuthRoute | TokenRoute

datatype yyds_endpoint =
    YListDomains | YWildcardRules | YQuota | YPlans | YPricing | YReward | YStats | YLlms | YTicket | YWebSocket
  | YCreate | YCreateWildcard | YToken | YMe | YAccount | YDeleteAccount
  | YMessages | YMarkRead | YMessage | YSource | YUpdate | YDelete | YAttachment

definition yyds_routes :: "(yyds_guard, yyds_endpoint) route list" where
  "yyds_routes =
     [route_of ''GET'' ''/v1/domains'' FreeRoute YListDomains,
      route_of ''GET'' ''/v1/me/domains'' AnyAuthRoute YListDomains,
      route_of ''GET'' ''/v1/me/wildcard-rules'' AnyAuthRoute YWildcardRules,
      route_of ''GET'' ''/v1/me/quota'' AnyAuthRoute YQuota,
      route_of ''GET'' ''/v1/plans'' FreeRoute YPlans,
      route_of ''GET'' ''/v1/pricing'' FreeRoute YPricing,
      route_of ''GET'' ''/v1/domain-reward/config'' FreeRoute YReward,
      route_of ''GET'' ''/v1/stats'' FreeRoute YStats,
      route_of ''GET'' ''/v1/llms.txt'' FreeRoute YLlms,
      route_of ''GET'' ''/v1/auth/ws-ticket'' AnyAuthRoute YTicket,
      route_of ''GET'' ''/v1/ws'' FreeRoute YWebSocket,
      route_of ''POST'' ''/v1/accounts'' CreateRoute YCreate,
      route_of ''POST'' ''/v1/accounts/wildcard'' CreateRoute YCreateWildcard,
      route_of ''POST'' ''/v1/token'' FreeRoute YToken,
      route_of ''GET'' ''/v1/accounts/me'' TokenRoute YMe,
      route_of ''GET'' ''/v1/accounts/:id'' AnyAuthRoute YAccount,
      route_of ''DELETE'' ''/v1/accounts/:id'' AnyAuthRoute YDeleteAccount,
      route_of ''GET'' ''/v1/messages'' AnyAuthRoute YMessages,
      route_of ''POST'' ''/v1/messages/mark-read'' AnyAuthRoute YMarkRead,
      route_of ''GET'' ''/v1/messages/:id'' AnyAuthRoute YMessage,
      route_of ''GET'' ''/v1/messages/:id/source'' AnyAuthRoute YSource,
      route_of ''PATCH'' ''/v1/messages/:id'' AnyAuthRoute YUpdate,
      route_of ''DELETE'' ''/v1/messages/:id'' AnyAuthRoute YDelete,
      route_of ''GET'' ''/v1/sources/:id'' AnyAuthRoute YSource,
      route_of ''GET'' ''/v1/messages/:id/attachments/:attachmentId'' AnyAuthRoute YAttachment]"

definition yyds_guarded :: "('d, 'r, 'g) yyds_api \<Rightarrow> yyds_guard \<Rightarrow> yyds_context \<Rightarrow> api_error option" where
  "yyds_guarded a g x =
     (case g of FreeRoute \<Rightarrow> None | CreateRoute \<Rightarrow> require_create_auth a x | AnyAuthRoute \<Rightarrow> require_any_auth x
      | TokenRoute \<Rightarrow> require_token_auth x)"

datatype ('e, 'x) yyds_routed = YRefused api_error | YNoRoute | YReached 'e path_params 'x

definition yyds_front ::
  "(yyds_guard, yyds_endpoint) router \<Rightarrow> (string, 'e, 'l) limiter \<Rightarrow> (string, 'e, 'l) limiter \<Rightarrow> (string \<Rightarrow> 'a \<Rightarrow> (auth_error + claims) \<times> 'a)
     \<Rightarrow> ('d, 'r, 'g) yyds_api \<Rightarrow> time \<times> time \<Rightarrow> time \<times> time \<Rightarrow> http_head \<Rightarrow> 'l \<times> 'a \<Rightarrow> (yyds_endpoint, yyds_context) yyds_routed \<times> 'l \<times> 'a" where
  "yyds_front router check key_check validate a clk key_clk rq st =
     (let (l, au) = st in
      case yyds_global_rate_limit check a clk (hh_ip rq) l of
        (Some e, l1) \<Rightarrow> (YRefused e, l1, au)
      | (None, l1) \<Rightarrow>
          (case yyds_auth a validate (hh_x_api_key rq) (hh_authorization rq) fresh_context au of
             (Inl e, au1) \<Rightarrow> (YRefused e, l1, au1)
           | (Inr x, au1) \<Rightarrow>
               (case yyds_key_rate_limit key_check key_clk x l1 of
                  (Some e, l2) \<Rightarrow> (YRefused e, l2, au1)
                | (None, l2) \<Rightarrow>
                    (case router yyds_routes (hh_method rq) (hh_path rq) of
                       None \<Rightarrow> (YNoRoute, l2, au1)
                     | Some (r, ps) \<Rightarrow>
                         (case yyds_guarded a (ro_guard r) x of
                            Some e \<Rightarrow> (YRefused e, l2, au1) | None \<Rightarrow> (YReached (ro_endpoint r) ps x, l2, au1))))))"

section \<open>Who reaches a handler\<close>

text \<open>The credentials of a request: a configured API key, or a token that is valid.\<close>

definition has_key :: "(string \<rightharpoonup> api_key_info) \<Rightarrow> http_head \<Rightarrow> api_key_info \<Rightarrow> bool" where
  "has_key keys rq info \<longleftrightarrow>
     (\<exists>token. bearer_token_from_authorization (hh_authorization rq) = Some token \<and> keys token = Some info)"

definition has_token :: "(string \<Rightarrow> 'a \<Rightarrow> (auth_error + claims) \<times> 'a) \<Rightarrow> http_head \<Rightarrow> 'a \<Rightarrow> claims \<Rightarrow> bool" where
  "has_token validate rq au c \<longleftrightarrow>
     (\<exists>token. bearer_token_from_authorization (hh_authorization rq) = Some token \<and> fst (validate token au) = Inr c)"

lemma native_front_Reached:
  assumes "native_front router check key_check validate h clk key_clk rq (l, au) = (Reached e ps cx', st')"
  shows "\<exists>cx l1 au1 r. rate_limit check (hd_global_rpm h) minute clk (hh_ip rq) l = (Next, l1) \<and>
    bearer_auth (hd_api_keys h) validate (hh_authorization rq) fresh_context au = (Next, cx, au1) \<and>
    fst (api_key_rate_limit key_check key_clk cx l1) = Next \<and>
    router native_routes (hh_method rq) (hh_path rq) = Some (r, ps) \<and> e = ro_endpoint r \<and>
    native_guarded (hd_api_keys h \<noteq> Map.empty) (ro_guard r) cx = (Next, cx')"
  using assms by (auto simp: native_front_def Let_def split: prod.splits flow.splits option.splits)

lemma yyds_front_YReached:
  assumes "yyds_front router check key_check validate a clk key_clk rq (l, au) = (YReached e ps x, st')"
  shows "\<exists>l1 au1 r. yyds_global_rate_limit check a clk (hh_ip rq) l = (None, l1) \<and>
    yyds_auth a validate (hh_x_api_key rq) (hh_authorization rq) fresh_context au = (Inr x, au1) \<and>
    fst (yyds_key_rate_limit key_check key_clk x l1) = None \<and>
    router yyds_routes (hh_method rq) (hh_path rq) = Some (r, ps) \<and> e = ro_endpoint r \<and>
    yyds_guarded a (ro_guard r) x = None"
  using assms by (auto simp: yyds_front_def Let_def split: prod.splits option.splits sum.splits)

lemma native_guards:
  assumes "r \<in> set native_routes"
  shows "ro_guard r = PublicRoute \<longleftrightarrow> ro_endpoint r \<in> {ListDomains, CreateToken}"
    "ro_guard r = KeyRoute \<longleftrightarrow> ro_endpoint r \<in> {CreateAccount, RandomAddress}"
  using assms by (auto simp: native_routes_def)

lemma yyds_guards:
  assumes "r \<in> set yyds_routes"
  shows "ro_guard r = FreeRoute \<Longrightarrow> ro_endpoint r \<in> {YListDomains, YPlans, YPricing, YReward, YStats, YLlms, YWebSocket, YToken}"
    "ro_guard r = CreateRoute \<Longrightarrow> ro_endpoint r \<in> {YCreate, YCreateWildcard}" "ro_guard r = TokenRoute \<Longrightarrow> ro_endpoint r = YMe"
    "ro_endpoint r = YMe \<Longrightarrow> ro_guard r = TokenRoute"
  using assms by (auto simp: yyds_routes_def)

lemma yyds_auth_kind:
  assumes "yyds_auth a validate key header fresh_context au = (Inr x, au1)"
  shows "yx_kind x = KindApiKey \<Longrightarrow>
      \<exists>info. cx_api_key_info (yx_cx x) = Some info \<and> (ya_api_keys a (trim_space key) = Some info \<or>
        (\<exists>token. bearer_token_from_authorization header = Some token \<and> ya_api_keys a token = Some info))"
    "yx_kind x = KindToken \<Longrightarrow>
      \<exists>token c. bearer_token_from_authorization header = Some token \<and> fst (validate token au) = Inr c \<and>
        cx_account_id (yx_cx x) = Some (cl_account_id c) \<and> cx_api_key_info (yx_cx x) = None"
  using assms
  by (auto simp: yyds_auth_def Let_def apply_api_key_context_def fresh_context_def split: if_splits option.splits sum.splits prod.splits)

section \<open>The guarantees\<close>

lemma native_access:
  assumes law: "router_law router"
    and run: "native_front router check key_check validate h clk key_clk rq (l, au) = (Reached e ps cx, st1)"
  shows "fst (check (hh_ip rq) (hd_global_rpm h) minute clk l) \<noteq> Inr False \<and>
      (e \<in> {ListDomains, CreateToken} \<or>
       e \<in> {CreateAccount, RandomAddress} \<and> (hd_api_keys h = Map.empty \<or> (\<exists>info. has_key (hd_api_keys h) rq info \<and> cx_api_key_info cx = Some info)) \<or>
       (\<exists>c. has_token validate rq au c \<and> cl_account_id c \<noteq> [] \<and> cx_account_id cx = Some (cl_account_id c) \<and> cx_api_key_info cx = None))"
proof
  obtain cx0 l1 au1 r where rl: "rate_limit check (hd_global_rpm h) minute clk (hh_ip rq) l = (Next, l1)"
    and ba: "bearer_auth (hd_api_keys h) validate (hh_authorization rq) fresh_context au = (Next, cx0, au1)"
    and ro: "router native_routes (hh_method rq) (hh_path rq) = Some (r, ps)" "e = ro_endpoint r"
    and gd: "native_guarded (hd_api_keys h \<noteq> Map.empty) (ro_guard r) cx0 = (Next, cx)"
    using native_front_Reached [OF run] by blast
  show "fst (check (hh_ip rq) (hd_global_rpm h) minute clk l) \<noteq> Inr False"
    using rl by (auto simp: rate_limit_def split: prod.splits sum.splits if_splits)
  have r: "r \<in> set native_routes" using law ro(1) unfolding router_law_def by blast
  have cred: "(\<exists>info. has_key (hd_api_keys h) rq info \<and> cx_api_key_info cx0 = Some info \<and> cx_account_id cx0 = None) \<or>
      (\<exists>c. has_token validate rq au c \<and> cx_account_id cx0 = Some (cl_account_id c) \<and> cx_api_key_info cx0 = None \<and> cx_api_key cx0 = None) \<or>
      (cx_account_id cx0 = None \<and> cx_api_key cx0 = None)"
    using bearer_auth_Next [OF ba] unfolding has_key_def has_token_def by (elim disjE) (metis fst_conv)+
  show "e \<in> {ListDomains, CreateToken} \<or>
      e \<in> {CreateAccount, RandomAddress} \<and> (hd_api_keys h = Map.empty \<or> (\<exists>info. has_key (hd_api_keys h) rq info \<and> cx_api_key_info cx = Some info)) \<or>
      (\<exists>c. has_token validate rq au c \<and> cl_account_id c \<noteq> [] \<and> cx_account_id cx = Some (cl_account_id c) \<and> cx_api_key_info cx = None)"
  proof (cases "ro_guard r")
    case PublicRoute
    then show ?thesis using native_guards(1) [OF r] ro(2) by simp
  next
    case KeyRoute
    then have e: "e \<in> {CreateAccount, RandomAddress}" using native_guards(2) [OF r] ro(2) by simp
    show ?thesis
    proof (cases "hd_api_keys h = Map.empty")
      case True
      then show ?thesis using e by blast
    next
      case False
      then have "cx = cx0 \<and> (cx_api_key cx0 \<noteq> None \<or> get_string (cx_account_id cx0) \<noteq> [])"
        using gd KeyRoute by (auto simp: native_guarded_def require_api_key_def split: if_splits)
      then show ?thesis using cred e by (auto simp: get_string_def)
    qed
  next
    case AccountRoute
    then have "cx = cx0 \<and> get_string (cx_account_id cx0) \<noteq> []"
      using gd by (auto simp: native_guarded_def auth_required_def domain_scope_check_def Let_def split: if_splits)
    then show ?thesis using cred by (auto simp: get_string_def)
  qed
qed

lemma yyds_access:
  assumes law: "router_law router"
    and run: "yyds_front router check key_check validate a clk key_clk rq (l, au) = (YReached f qs x, st2)"
  shows "(0 < ya_global_rpm a \<longrightarrow> fst (check (hh_ip rq) (ya_global_rpm a) minute clk l) \<noteq> Inr False) \<and>
      (f \<in> {YListDomains, YPlans, YPricing, YReward, YStats, YLlms, YWebSocket, YToken} \<or>
       f \<in> {YCreate, YCreateWildcard} \<and> ya_api_keys a = Map.empty \<or>
       f \<noteq> YMe \<and> (\<exists>info. cx_api_key_info (yx_cx x) = Some info \<and> (has_key (ya_api_keys a) rq info \<or> ya_api_keys a (trim_space (hh_x_api_key rq)) = Some info)) \<or>
       (\<exists>c. has_token validate rq au c \<and> cx_account_id (yx_cx x) = Some (cl_account_id c) \<and> cx_api_key_info (yx_cx x) = None))"
proof (intro conjI impI)
  obtain l1 au1 r where rl: "yyds_global_rate_limit check a clk (hh_ip rq) l = (None, l1)"
    and au: "yyds_auth a validate (hh_x_api_key rq) (hh_authorization rq) fresh_context au = (Inr x, au1)"
    and ro: "router yyds_routes (hh_method rq) (hh_path rq) = Some (r, qs)" "f = ro_endpoint r"
    and gd: "yyds_guarded a (ro_guard r) x = None"
    using yyds_front_YReached [OF run] by blast
  show "fst (check (hh_ip rq) (ya_global_rpm a) minute clk l) \<noteq> Inr False" if "0 < ya_global_rpm a"
    using rl that by (auto simp: yyds_global_rate_limit_def split: prod.splits sum.splits bool.splits)
  have r: "r \<in> set yyds_routes" using law ro(1) unfolding router_law_def by blast
  have key: "\<exists>info. cx_api_key_info (yx_cx x) = Some info \<and>
      (has_key (ya_api_keys a) rq info \<or> ya_api_keys a (trim_space (hh_x_api_key rq)) = Some info)" if "yx_kind x = KindApiKey"
    using yyds_auth_kind(1) [OF au that] unfolding has_key_def by blast
  have token: "\<exists>c. has_token validate rq au c \<and> cx_account_id (yx_cx x) = Some (cl_account_id c) \<and> cx_api_key_info (yx_cx x) = None"
    if "yx_kind x = KindToken"
    using yyds_auth_kind(2) [OF au that] unfolding has_token_def by blast
  show "f \<in> {YListDomains, YPlans, YPricing, YReward, YStats, YLlms, YWebSocket, YToken} \<or>
      f \<in> {YCreate, YCreateWildcard} \<and> ya_api_keys a = Map.empty \<or>
      f \<noteq> YMe \<and> (\<exists>info. cx_api_key_info (yx_cx x) = Some info \<and> (has_key (ya_api_keys a) rq info \<or> ya_api_keys a (trim_space (hh_x_api_key rq)) = Some info)) \<or>
      (\<exists>c. has_token validate rq au c \<and> cx_account_id (yx_cx x) = Some (cl_account_id c) \<and> cx_api_key_info (yx_cx x) = None)"
  proof (cases "ro_guard r = FreeRoute \<or> ro_guard r = CreateRoute \<and> ya_api_keys a = Map.empty")
    case True
    then show ?thesis using yyds_guards(1,2) [OF r] unfolding ro(2) by blast
  next
    case False
    then have kind: "yx_kind x \<noteq> KindNone \<and> (ro_guard r = TokenRoute \<longrightarrow> yx_kind x = KindToken)"
      using gd by (cases "ro_guard r")
        (auto simp: yyds_guarded_def require_create_auth_def require_any_auth_def require_token_auth_def split: if_splits)
    then show ?thesis using key token yyds_guards(4) [OF r] ro(2) by (cases "yx_kind x") auto
  qed
qed

text \<open>
  C17: who reaches which handler, over both dialects: a request reaches a handler only if the limit of its address did not refuse it.
  In the native dialect, without credentials it reaches the list of domains and the login, and the creation of accounts and random addresses
  only when no API keys are configured; with a configured API key also these, and everything else only with a valid token for a non-empty account, which is
  then the account of the request. In the yyds dialect it is likewise, where any key or token opens the inboxes and messages, and a token alone the own inbox.
\<close>

theorem endpoints_are_guarded:
  assumes law: "router_law router" "router_law yyds_router"
  shows "(native_front router check key_check validate h clk key_clk rq (l, au) = (Reached e ps cx, st1) \<longrightarrow>
      fst (check (hh_ip rq) (hd_global_rpm h) minute clk l) \<noteq> Inr False \<and>
      (e \<in> {ListDomains, CreateToken} \<or>
       e \<in> {CreateAccount, RandomAddress} \<and> (hd_api_keys h = Map.empty \<or> (\<exists>info. has_key (hd_api_keys h) rq info \<and> cx_api_key_info cx = Some info)) \<or>
       (\<exists>c. has_token validate rq au c \<and> cl_account_id c \<noteq> [] \<and> cx_account_id cx = Some (cl_account_id c) \<and> cx_api_key_info cx = None))) \<and>
    (yyds_front yyds_router check key_check validate a clk key_clk rq (l, au) = (YReached f qs x, st2) \<longrightarrow>
      (0 < ya_global_rpm a \<longrightarrow> fst (check (hh_ip rq) (ya_global_rpm a) minute clk l) \<noteq> Inr False) \<and>
      (f \<in> {YListDomains, YPlans, YPricing, YReward, YStats, YLlms, YWebSocket, YToken} \<or>
       f \<in> {YCreate, YCreateWildcard} \<and> ya_api_keys a = Map.empty \<or>
       f \<noteq> YMe \<and> (\<exists>info. cx_api_key_info (yx_cx x) = Some info \<and> (has_key (ya_api_keys a) rq info \<or> ya_api_keys a (trim_space (hh_x_api_key rq)) = Some info)) \<or>
       (\<exists>c. has_token validate rq au c \<and> cx_account_id (yx_cx x) = Some (cl_account_id c) \<and> cx_api_key_info (yx_cx x) = None)))"
  by (rule conjI, rule impI, erule native_access [OF law(1)], rule impI, erule yyds_access [OF law(2)])

text \<open>A router for tables without parameters.\<close>

definition static_router :: "('g, 'e) router" where
  "static_router table m p = map_option (\<lambda>r. (r, Map.empty)) (List.find (\<lambda>r. ro_method r = m \<and> ro_pattern r = p) table)"

lemma static_router_law: "router_law static_router"
  by (auto simp: router_law_def static_router_def find_Some_iff)

text \<open>The requests about messages from the connection to the answer; \<open>decode\<close> reads the parameters and the body of a request.\<close>

definition message_endpoints :: "native_endpoint set" where
  "message_endpoints = {ListMessages, BulkUpdateMessages, DeleteMessages, BulkDeleteMessagesByIDs, GetMessage, UpdateMessage,
     DeleteMessage, DownloadMessage, DownloadAttachment}"

definition serve_message_request ::
  "(native_guard, native_endpoint) router \<Rightarrow> (string, 'e, 'l) limiter \<Rightarrow> (string, 'e, 'l) limiter \<Rightarrow> (string \<Rightarrow> 'a \<Rightarrow> (auth_error + claims) \<times> 'a)
     \<Rightarrow> (native_endpoint \<Rightarrow> path_params \<Rightarrow> message_request) \<Rightarrow> ('s, 'r, 'g) api_env \<Rightarrow> handler \<Rightarrow> time \<times> time \<Rightarrow> time \<times> time \<Rightarrow> (nat \<Rightarrow> time)
     \<Rightarrow> http_head \<Rightarrow> 'l \<times> 'a \<Rightarrow> ('s, 'r, 'g) api_state \<Rightarrow> message_body response option \<times> ('s, 'r, 'g) api_state" where
  "serve_message_request router check key_check validate decode env h clk key_clk tms rq la st =
     (case native_front router check key_check validate h clk key_clk rq la of
        (Aborted code msg, la') \<Rightarrow> (Some (Failure code msg), st)
      | (NoRoute, la') \<Rightarrow> (Some (Failure 404 ''404 page not found''), st)
      | (Reached e ps cx, la') \<Rightarrow>
          if e \<in> message_endpoints then apfst Some (serve_messages env h tms cx (decode e ps) st) else (None, st))"

text \<open>
  C6: messages are private, from the connection on: whatever request about messages arrives, with whatever headers, and whichever accesses to the
  database fail, either it is refused and nothing changes, or its token is valid for an account, no message
  and no account of anybody else is changed, and what is answered comes from live messages of that account: their fields, their source, or files stored under
  their id.
\<close>

theorem message_requests_are_private:
  assumes law: "router_law router" and laws: "api_laws env v" and ids: "distinct (map ms_id (in_messages v (db_state st)))"
    and run: "serve_message_request router check key_check validate decode env h clk key_clk tms rq (l, au) st = (Some res, st')"
  shows "(\<exists>code msg. res = Failure code msg) \<and> st' = st \<or>
    (\<exists>c. has_token validate rq au c \<and> cl_account_id c \<noteq> [] \<and>
       (\<forall>acc. cl_account_id c = db_hex (ae_db env) acc \<longrightarrow>
          others_same v acc (db_state st) (db_state st') \<and>
          (\<forall>n body. res = Success n body \<longrightarrow> shows_only env acc (db_state st) (in_messages v (db_state st)) body)))"
proof -
  obtain o1 la where front: "native_front router check key_check validate h clk key_clk rq (l, au) = (o1, la)" by (meson surj_pair)
  show ?thesis
  proof (cases o1)
    case (Reached e ps cx)
    then have e: "e \<in> message_endpoints" and res: "serve_messages env h tms cx (decode e ps) st = (res, st')"
      using run front by (auto simp: serve_message_request_def apfst_def map_prod_def split: if_splits prod.splits)
    have "e \<notin> {ListDomains, CreateToken}" "e \<notin> {CreateAccount, RandomAddress}" using e by (auto simp: message_endpoints_def)
    then obtain c where c: "has_token validate rq au c" "cl_account_id c \<noteq> []" "cx_account_id cx = Some (cl_account_id c)"
      using native_access [OF law front [unfolded Reached]] by blast
    have "kept_private env v acc st (res, st')" if "cl_account_id c = db_hex (ae_db env) acc" for acc
      using serve_messages_private [OF laws _ ids, of cx acc h tms "decode e ps"] c(3) that by (simp add: caller_def res)
    then show ?thesis using c(1,2) unfolding kept_private_def by auto
  qed (use run front in \<open>auto simp: serve_message_request_def\<close>)
qed

text \<open>Two messages of two accounts and a request to delete one, with a token of its account.\<close>

definition example_claims :: claims where
  "example_claims = \<lparr>cl_account_id = ''7'', cl_address = [], cl_expires_at = None, cl_issued_at = None, cl_not_before = None\<rparr>"

definition example_validate :: "string \<Rightarrow> unit \<Rightarrow> (auth_error + claims) \<times> unit" where
  "example_validate token s = (if token = ''t'' then Inr example_claims else Inl ErrInvalidToken, s)"

definition example_head :: http_head where
  "example_head = \<lparr>hh_method = ''POST'', hh_path = ''/messages/bulk-delete'', hh_ip = ''192.0.2.1'', hh_authorization = ''Bearer t'', hh_x_api_key = []\<rparr>"

definition free_limiter :: "(string, unit, unit) limiter" where "free_limiter k n w clk s = (Inr True, s)"

definition example_core :: handler where "example_core = new_handler 1 hour Map.empty 0 0 False"

lemma example_front:
  "fst (native_front static_router free_limiter free_limiter example_validate example_core (0, 0) (0, 0) example_head ((), ())) =
     Reached BulkDeleteMessagesByIDs Map.empty
       (fresh_context\<lparr>cx_api_key_domains := Some [''*''], cx_account_id := Some ''7'', cx_address := Some []\<rparr>)"
proof -
  have "bearer_token_from_authorization ''Bearer t'' = Some ''t''" by code_simp
  moreover have "static_router native_routes ''POST'' ''/messages/bulk-delete'' =
      Some (route_of ''POST'' ''/messages/bulk-delete'' AccountRoute BulkDeleteMessagesByIDs, Map.empty)"
    by (simp add: static_router_def native_routes_def)
  ultimately show ?thesis
    by (simp add: native_front_def rate_limit_def free_limiter_def bearer_auth_def example_head_def example_core_def new_handler_def
        example_validate_def example_claims_def has_prefix_def api_key_rate_limit_def native_guarded_def auth_required_def get_string_def
        domain_scope_check_def domain_from_address_def last_index_byte_def fresh_context_def Let_def)
qed

theorem endpoints_are_guarded_witness:
  "\<exists>cx c. fst (native_front static_router free_limiter free_limiter example_validate example_core (0, 0) (0, 0) example_head ((), ())) =
       Reached BulkDeleteMessagesByIDs Map.empty cx \<and>
     has_token example_validate example_head () c \<and> cx_account_id cx = Some (cl_account_id c)"
proof -
  let ?cx = "fresh_context\<lparr>cx_api_key_domains := Some [''*''], cx_account_id := Some ''7'', cx_address := Some []\<rparr>"
  obtain la where run: "native_front static_router free_limiter free_limiter example_validate example_core (0, 0) (0, 0) example_head ((), ()) =
      (Reached BulkDeleteMessagesByIDs Map.empty ?cx, la)"
    using example_front by (metis prod.collapse)
  have "BulkDeleteMessagesByIDs \<notin> {ListDomains, CreateToken}" "BulkDeleteMessagesByIDs \<notin> {CreateAccount, RandomAddress}" by simp_all
  then have "\<exists>c. has_token example_validate example_head () c \<and> cl_account_id c \<noteq> [] \<and> cx_account_id ?cx = Some (cl_account_id c)"
    using endpoints_are_guarded [OF static_router_law static_router_law, THEN conjunct1, THEN mp, OF run] by blast
  then show ?thesis using run by (metis fst_conv)
qed

theorem message_requests_are_private_witness:
  "\<exists>res st'. serve_message_request static_router free_limiter free_limiter example_validate (\<lambda>_ _. BulkDeleteRequest (Some [''1'', ''2'']))
       example_env example_core (0, 0) (0, 0) (\<lambda>_. 0) example_head ((), ()) example_mailbox = (Some res, st') \<and>
     others_same mem_contents 7 (db_state example_mailbox) (db_state st')"
proof -
  let ?run = "serve_message_request static_router free_limiter free_limiter example_validate (\<lambda>_ _. BulkDeleteRequest (Some [''1'', ''2'']))
    example_env example_core (0, 0) (0, 0) (\<lambda>_. 0) example_head ((), ()) example_mailbox"
  have "\<exists>res. fst ?run = Some res"
    unfolding serve_message_request_def using example_front by (auto simp: message_endpoints_def split: prod.splits routed.splits)
  then obtain res st' where run: "?run = (Some res, st')" by (metis prod.collapse)
  have ids: "distinct (map ms_id (in_messages mem_contents (db_state example_mailbox)))"
    by (simp add: example_mailbox_def mem_contents_def)
  have hex: "db_hex (ae_db example_env) 7 = ''7''" by code_simp
  have "bearer_token_from_authorization ''Bearer t'' = Some ''t''" by code_simp
  then have "cl_account_id c = ''7''" if "has_token example_validate example_head () c" for c
    using that by (auto simp: has_token_def example_head_def example_validate_def example_claims_def)
  then have "others_same mem_contents 7 (db_state example_mailbox) (db_state st')"
    using message_requests_are_private [OF static_router_law example_api_laws ids run] hex others_refl by metis
  then show ?thesis using run by blast
qed

end
