(* ===== verification/YydsPublic.thy ===== *)
theory YydsPublic
  imports Routes YydsApi
begin

text \<open>
  The public side of \<open>internal/dialect/yyds/api.go\<close>: the envelopes of all answers, the endpoints that hand out configured data,
  and the text of \<open>llms.txt\<close>, which documents the endpoints; it is compared with the table of routes.
\<close>

section \<open>Answers\<close>

datatype 'a envelope = SuccessBody 'a | ErrorBody string string

text \<open>\<open>ErrorBody message code\<close>; both carry the flag \<open>success\<close>.\<close>

definition write_success :: "int \<Rightarrow> 'a \<Rightarrow> int \<times> 'a envelope" where
  "write_success status data = (status, SuccessBody data)"

definition abort_error :: "api_error \<Rightarrow> int \<times> 'a envelope" where
  "abort_error e = (er_status e, ErrorBody (er_message e) (er_code e))"

definition answer :: "int \<Rightarrow> api_error + 'a \<Rightarrow> int \<times> 'a envelope" where
  "answer status r = (case r of Inl e \<Rightarrow> abort_error e | Inr data \<Rightarrow> write_success status data)"

section \<open>Configured data\<close>

definition list_plans :: "('s, 'r, 'g) yyds_api \<Rightarrow> int \<times> yyds_plan_config list envelope" where
  "list_plans a = write_success 200 (yy_plans (ya_public a))"

definition get_pricing :: "('s, 'r, 'g) yyds_api \<Rightarrow> int \<times> yyds_pricing_config envelope" where
  "get_pricing a = write_success 200 (yy_pricing (ya_public a))"

definition get_domain_reward_config :: "('s, 'r, 'g) yyds_api \<Rightarrow> int \<times> yyds_domain_reward_config envelope" where
  "get_domain_reward_config a = write_success 200 (yy_domain_reward (ya_public a))"

section \<open>The documentation\<close>

definition llms_head :: "string list" where
  "llms_head =
     [''# MailAPI yyds dialect'',
      ''> Public temporary-inbox integration summary for developers and AI assistants.'']"

definition llms_body :: "string list" where
  "llms_body =
     ['''',
      ''## Public Scope'',
      ''This llms.txt documents the public yyds-compatible surface implemented by MailAPI:'',
      ''- Domains'',
      ''- Temporary Email'',
      ''- Messages'',
      ''- Public metadata endpoints'',
      '''',
      ''Public query endpoints:'',
      ''- GET /v1/domains'',
      ''- GET /v1/me/domains'',
      ''- GET /v1/me/wildcard-rules'',
      ''- GET /v1/me/quota'',
      ''- GET /v1/plans'',
      ''- GET /v1/pricing'',
      ''- GET /v1/domain-reward/config'',
      ''- GET /v1/stats'',
      ''- GET /v1/llms.txt'',
      '''',
      ''## Authentication'',
      ''- API Key: X-API-Key: <configured key>'',
      ''- Temp Token: Authorization: Bearer <temp_token>'',
      '''',
      ''## Temporary Email'',
      ''- POST   /v1/accounts'',
      ''- POST   /v1/accounts/wildcard'',
      ''- POST   /v1/token'',
      ''- GET    /v1/accounts/me'',
      ''- GET    /v1/accounts/{id}'',
      ''- DELETE /v1/accounts/{id}'',
      '''',
      ''Notes:'',
      ''- POST /v1/accounts accepts localPart, address, domain, and subdomain.'',
      ''- wildcardRuleId and subdomainLabel remain accepted for legacy callers.'',
      ''- localPart is preferred; address remains accepted for compatibility.'',
      ''- subdomain is appended as a child-domain under the selected parent domain.'',
      ''- When domain is omitted, the API key default domain is used first; otherwise autoDomainStrategy selects from visible domains.'',
      ''- POST /v1/accounts/wildcard uses the requested child-domain, or the default/random child-domain when subdomain is omitted.'',
      ''- Wildcard child-domains require the parent domain's DNS/MX wildcard to already route to this MailAPI deployment.'',
      ''- POST /v1/token refreshes a temp token by address. Unauthenticated access is only allowed for public domains.'',
      '''',
      ''## Messages'',
      ''- GET    /v1/messages'',
      ''- POST   /v1/messages/mark-read'',
      ''- GET    /v1/messages/{id}'',
      ''- GET    /v1/messages/{id}/source'',
      ''- PATCH  /v1/messages/{id}'',
      ''- DELETE /v1/messages/{id}'',
      ''- GET    /v1/sources/{id}'',
      '''',
      ''Message notes:'',
      ''- GET /v1/messages and POST /v1/messages/mark-read accept address as a query parameter.'',
      ''- For wildcard inboxes, always use the final address returned by account creation.'',
      '''',
      ''## Realtime'',
      ''- GET /v1/auth/ws-ticket'',
      ''- GET /v1/ws'',
      '''',
      ''## Error Handling'',
      ''All errors follow the same envelope:'',
      ''{ \"success\": false, \"error\": \"...\", \"errorCode\": \"...\" }'',
      '''',
      ''429 responses include Retry-After.'',
      '''',
      ''## Intentionally Excluded'',
      ''YYDS Mail dashboard-only features such as signed-in console routes, billing, webhook management, and DNS automation are not part of this MailAPI dialect.'']"

definition get_llms_text :: "yyds_dialect_config \<Rightarrow> string \<Rightarrow> bool \<Rightarrow> string \<Rightarrow> string list" where
  "get_llms_text public proto tls host = llms_head @ [''> Base URL: '' @ base_url public proto tls host] @ llms_body"

text \<open>The endpoints a line documents, with the parameters as Gin writes them.\<close>

fun gin_path :: "string \<Rightarrow> string" where
  "gin_path [] = []"
| "gin_path (c # cs) = (if c = CHR ''{'' then CHR '':'' # gin_path cs else if c = CHR ''}'' then gin_path cs else c # gin_path cs)"

definition documented_endpoint :: "string \<Rightarrow> (string \<times> string) list" where
  "documented_endpoint line =
     (case filter (\<lambda>w. w \<noteq> []) (split_on line (CHR '' '')) of
        dash # m # p # rest \<Rightarrow>
          if dash = ''-'' \<and> m \<in> {''GET'', ''POST'', ''PATCH'', ''DELETE''} \<and> has_prefix p ''/v1/'' then [(m, gin_path p)] else []
      | _ \<Rightarrow> [])"

lemma documented_in_body:
  "set (concat (map documented_endpoint llms_body)) =
     {(ro_method r, ro_pattern r) | r. r \<in> set yyds_routes \<and> ro_endpoint r \<noteq> YAttachment}"
proof -
  have "set (concat (map documented_endpoint llms_body)) =
      set (map (\<lambda>r. (ro_method r, ro_pattern r)) (filter (\<lambda>r. ro_endpoint r \<noteq> YAttachment) yyds_routes))"
    by code_simp
  then show ?thesis by auto
qed

end
