(* ===== verification/YydsTokens.thy ===== *)
theory YydsTokens
  imports YydsAccess
begin

section \<open>How a temp token reaches other inboxes\<close>

text \<open>
  \<open>POST /v1/token\<close> is the exception: it hands out the token of any inbox in a domain the client may use, and for the
  holder of a temp token that is the domain of its own address, also when the domain is private. What is more, a
  requested domain may contain an at sign: then the domain that is checked (a public one) is not the domain of the
  address that is created.
\<close>

definition vip_state :: "(tables, unit, nat) api_state" where
  "vip_state = set_db
     ([example_domain ''mail.com'', (example_domain ''vip.mail.com'')\<lparr>dm_id := 2, dm_is_private := True\<rparr>],
      [empty_account\<lparr>ac_id := 3, ac_address := ''bob@vip.mail.com''\<rparr>], []) example_state"

definition anonymous :: yyds_context where
  "anonymous = \<lparr>yx_kind = KindNone, yx_cx = fresh_context\<lparr>cx_api_key_domains := Some [''*'']\<rparr>\<rparr>"

definition vip_request :: yyds_create_request where
  "vip_request = \<lparr>yq_address = [], yq_local_part = ''me'', yq_domain = ''x@vip.mail.com'', yq_subdomain = [],
     yq_wildcard_rule_id = [], yq_subdomain_label = [], yq_auto_domain_strategy = []\<rparr>"

definition token_for :: "string \<Rightarrow> string \<Rightarrow> yyds_context" where
  "token_for account_id address =
     \<lparr>yx_kind = KindToken,
      yx_cx = fresh_context\<lparr>cx_api_key_domains := Some [domain_from_address address], cx_account_id := Some account_id,
                cx_address := Some (to_lower (trim_space address))\<rparr>\<rparr>"

lemma yyds_auth_token:
  assumes "ya_api_keys a = Map.empty" "trim_space x_api_key = []" "bearer_token_from_authorization authorization = Some t"
    and "t \<noteq> []" "validate t s = (Inr claims, s')" "domain_from_address (cl_address claims) \<noteq> []"
  shows "yyds_auth a validate x_api_key authorization fresh_context s =
    (Inr (token_for (cl_account_id claims) (cl_address claims)), s')"
  using assms by (simp add: yyds_auth_def token_for_def Let_def)

text \<open>Anonymous clients are refused in a private domain, but not with an at sign in the domain.\<close>

lemma private_domain_by_at_sign:
  "check_address_domain example_yyds anonymous ''me@vip.mail.com'' True (db_state vip_state) =
     Inl \<lparr>er_status = 403, er_code = ''domain_not_public'', er_message = ''Domain is not available for anonymous access''\<rparr>"
  "fst (resolve_create_address example_yyds anonymous vip_request False vip_state) = Inr (''me@x@vip.mail.com'', False)"
  "address_domain ''me@x@vip.mail.com'' = ''vip.mail.com''"
  by code_simp+

text \<open>The token of that inbox gives the token of any other inbox of the private domain.\<close>

lemma token_of_another_inbox:
  "yyds_create_token example_yyds 0 (token_for ''9'' ''me@x@vip.mail.com'') (Some ''bob@vip.mail.com'') vip_state =
     Answered 200 \<lparr>yo_id = ''3'', yo_address = ''bob@vip.mail.com'', yo_token = ''3''\<rparr>"
  "yyds_create_token example_yyds 0 anonymous (Some ''bob@vip.mail.com'') vip_state =
     Rejected \<lparr>er_status = 403, er_code = ''domain_not_public'', er_message = ''Domain is not available for anonymous access''\<rparr>"
  by code_simp+

end
