(* ===== verification/YydsScope.thy ===== *)
theory YydsScope
  imports YydsAccess
begin

text \<open>Which inboxes a client of the yyds dialect can create (\<open>createAccountWithMode\<close> of \<open>internal/dialect/yyds/api.go\<close>).\<close>

section \<open>Domains and addresses\<close>

definition plain_domain :: "string \<Rightarrow> bool" where
  "plain_domain t \<longleftrightarrow> t \<noteq> [] \<and> trimmed t \<and> to_lower t = t \<and> CHR ''@'' \<notin> set t"

lemma at_lower: "CHR ''@'' \<in> set (to_lower s) \<longleftrightarrow> CHR ''@'' \<in> set s"
proof -
  have "CHR ''@'' = lower_char c \<longleftrightarrow> CHR ''@'' = c" for c by (metis lower_char_at)
  then show ?thesis by (induction s) simp_all
qed

lemma plain_normal:
  assumes "CHR ''@'' \<notin> set s" "to_lower (trim_space s) \<noteq> []"
  shows "plain_domain (to_lower (trim_space s))"
  using assms set_trim_space [of s] by (auto simp: plain_domain_def at_lower trimmed_to_lower)

lemma plain_join: "plain_domain u \<Longrightarrow> plain_domain t \<Longrightarrow> plain_domain (u @ CHR ''.'' # t)"
  by (auto simp: plain_domain_def trimmed_def)

lemma trim_space_at:
  assumes "plain_domain t" shows "trim_space (l @ CHR ''@'' # t) = trim_left l @ CHR ''@'' # t"
proof -
  have at: "\<not> is_space (CHR ''@'')" by (simp add: is_space_def)
  have "dropWhile is_space (l @ CHR ''@'' # t) = dropWhile is_space l @ CHR ''@'' # t" for l t
    by (induction l) (simp_all add: at)
  moreover have "trim_right (u @ CHR ''@'' # t) = u @ CHR ''@'' # t" for u
    using assms by (cases t rule: rev_cases) (auto simp: trim_right_def plain_domain_def trimmed_def)
  ultimately show ?thesis by (simp add: trim_space_def trim_left_def)
qed

lemma address_parts_plain:
  assumes "plain_domain t"
  shows "domain_from_address (l @ CHR ''@'' # t) = t" "address_domain (l @ CHR ''@'' # t) = t"
proof -
  have at: "CHR ''@'' \<notin> set t" and ne: "t \<noteq> []" and low: "to_lower t = t" "trim_space t = t"
    using assms by (simp_all add: plain_domain_def trim_space_trimmed)
  show d: "domain_from_address (l @ CHR ''@'' # t) = t" for l
    using ne low(1) by (simp add: domain_from_address_def last_index_byte_append [OF at])
  have "to_lower (trim_space (l @ CHR ''@'' # t)) = to_lower (trim_left l) @ CHR ''@'' # t"
    by (simp add: trim_space_at [OF assms] low(1))
  then show "address_domain (l @ CHR ''@'' # t) = t" by (simp add: address_domain_def d low)
qed

section \<open>The attempts\<close>

lemma create_account_keeps_address:
  "create_account db now a s = (err, a', s') \<Longrightarrow> ac_address a' = ac_address a"
  by (auto simp: create_account_def Let_def split: prod.splits sum.splits)

lemma create_inbox_effect:
  assumes laws: "database_laws (ae_db (ya_env a)) v" and draw: "draw_law (ae_draw (ya_env a))"
  shows "create_inbox a clk auto n b st = (Inr b', st') \<Longrightarrow> ac_id b = 0 \<Longrightarrow> ac_used b = 0 \<Longrightarrow>
    ac_quota b = 0 \<or> ac_quota b = 40000000 \<Longrightarrow> (auto \<Longrightarrow> \<exists>l t. plain_domain t \<and> ac_address b = l @ CHR ''@'' # t) \<Longrightarrow>
    \<exists>addr. (addr = ac_address b \<or> auto \<and> address_domain addr = address_domain (ac_address b)) \<and>
      opens v addr (ac_password b) b' (db_state st) (db_state st')"
proof (induction n arbitrary: b st)
  case (Suc n)
  obtain err c s' where cr: "create_account (ae_db (ya_env a)) (clk n) b (db_state st) = (err, c, s')"
    by (cases "create_account (ae_db (ya_env a)) (clk n) b (db_state st)") auto
  note C = create_account_effect [OF laws cr Suc.prems(2-4)]
  note step = Suc.prems(1) [unfolded create_inbox.simps Let_def cr prod.case]
  show ?case
  proof (cases err)
    case None
    then show ?thesis using step C(1) by auto
  next
    case (Some e)
    then have auto: auto and e: "e = ErrDuplicateKey" using step by (auto split: if_splits)
    obtain addr g where gen: "run_state (generate_for_domain (ae_draw (ya_env a)) (domain_from_address (ac_address c)))
        (as_rand st) = (addr, g)" by fastforce
    from pred_stateD [OF pred_state_generate_for_domain [OF draw] this]
    obtain p where p: "addr = p @ ''@'' @ domain_from_address (ac_address c)" "to_lower p = p" by blast
    obtain l t where t: "plain_domain t" "ac_address b = l @ CHR ''@'' # t" using Suc.prems(5) [OF auto] by blast
    have c: "ac_address c = l @ CHR ''@'' # t" using create_account_keeps_address [OF cr] t(2) by simp
    have addr: "to_lower addr = p @ CHR ''@'' # t"
      using p address_parts_plain(1) [OF t(1)] t(1) by (simp add: c plain_domain_def)
    have rec: "create_inbox a clk auto n (c\<lparr>ac_address := to_lower addr\<rparr>) ((set_db s' st)\<lparr>as_rand := g\<rparr>) = (Inr b', st')"
      using step unfolding Some e option.case using auto by (simp add: gen)
    have B: "same_contents v (db_state st) s'" "ac_id c = 0" "ac_used c = 0" "ac_quota c = 40000000" "ac_password c = ac_password b"
      using C(2) Some e by auto
    obtain addr' where "addr' = p @ CHR ''@'' # t \<or> address_domain addr' = address_domain (p @ CHR ''@'' # t)"
      "opens v addr' (ac_password b) b' s' (db_state st')"
      using Suc.IH [OF rec] B(2-5) t(1) addr by auto
    moreover have "address_domain addr' = address_domain (ac_address b)"
      using calculation(1) address_parts_plain(2) [OF t(1)] by (auto simp: t(2))
    ultimately show ?thesis using auto same_contents_trans(2) [OF B(1)] by blast
  qed
qed simp

section \<open>The address\<close>

text \<open>No at sign in the domains a request, an API key or the database names.\<close>

definition no_at :: "'s contents \<Rightarrow> yyds_context \<Rightarrow> yyds_create_request \<Rightarrow> 's \<Rightarrow> bool" where
  "no_at v x req s \<longleftrightarrow> CHR ''@'' \<notin> set (yq_domain req) \<and> CHR ''@'' \<notin> set (yq_wildcard_rule_id req) \<and>
     (\<forall>info. cx_api_key_info (yx_cx x) = Some info \<longrightarrow> CHR ''@'' \<notin> set (ki_default_domain info)) \<and>
     (\<forall>d \<in> set (in_domains v s). CHR ''@'' \<notin> set (dm_domain d))"

definition rand_int_law :: "(nat \<Rightarrow> ('g, nat option) state) \<Rightarrow> bool" where
  "rand_int_law rand_int \<longleftrightarrow> (\<forall>n > 0. pred_state (\<lambda>r. \<forall>i. r = Some i \<longrightarrow> i < n) (rand_int n))"

lemma visible_domains_subset:
  assumes "database_laws (ae_db (ya_env a)) v" "visible_domains a x s = Inr ds"
  shows "set ds \<subseteq> {d \<in> set (in_domains v s). domain_visible x d}"
proof -
  obtain es where es: "list_domains (ae_db (ya_env a)) s = Inr es" "ds = filter (domain_visible x) es"
    using assms(2) by (auto simp: visible_domains_def split: sum.splits)
  then have "co_find (db_domains (ae_db (ya_env a))) [CEq ''isActive'' (BBool True)] find_all s = Inr es"
    by (auto simp: list_domains_def split: sum.splits)
  from selects_subset [OF find_law [OF accounts_laws(3) [OF assms(1)] this]] show ?thesis
    using es(2) by auto
qed

lemma first_names_of_subset: "set (first_names_of seen ds) \<subseteq> {d \<in> set ds. domain_name d \<noteq> []}"
  by (induction seen ds rule: first_names_of.induct) auto

lemma candidate_domains_names:
  assumes "database_laws (ae_db (ya_env a)) v" "candidate_domains a x strategy s = Inr names"
  shows "set names \<subseteq> {n. n \<noteq> [] \<and> (\<exists>d \<in> set (in_domains v s). n = domain_name d)}"
proof -
  obtain ds where ds: "visible_domains a x s = Inr ds"
    using assms(2) by (cases "visible_domains a x s") (simp_all add: candidate_domains_def)
  let ?out = "map domain_name (first_names_of {} ds)"
  let ?public = "map domain_name (filter (\<lambda>d. \<not> dm_is_private d) (first_names_of {} ds))"
  let ?s = "to_lower (trim_space strategy)"
  have "set names \<subseteq> set ?out"
  proof -
    consider "?s = [] \<or> ?s = ''balanced''" | "?s = ''prefer_public''" | "?s = ''prefer_owned''"
      using assms(2) ds by (auto simp: candidate_domains_def Let_def split: if_splits)
    then show ?thesis
    proof cases
      case 1
      then show ?thesis using assms(2) ds by (auto simp: candidate_domains_def Let_def)
    next
      case 2
      have "candidate_domains a x strategy s = Inr (if ?public = [] then ?out else ?public @ filter (\<lambda>n. n \<notin> set ?public) ?out)"
        unfolding candidate_domains_def ds sum.case Let_def 2 by (simp del: map_is_Nil_conv)
      then have "names = (if ?public = [] then ?out else ?public @ filter (\<lambda>n. n \<notin> set ?public) ?out)" using assms(2) by simp
      then show ?thesis by (auto split: if_splits)
    next
      case 3
      let ?allowed = "is_domain_explicitly_allowed (yx_cx x)"
      have "candidate_domains a x strategy s =
          Inr (if filter ?allowed ?out = [] then ?out else filter ?allowed ?out @ filter (\<lambda>n. \<not> ?allowed n) ?out)"
        unfolding candidate_domains_def ds sum.case Let_def 3 by (simp del: filter_empty_conv)
      then have "names = (if filter ?allowed ?out = [] then ?out else filter ?allowed ?out @ filter (\<lambda>n. \<not> ?allowed n) ?out)"
        using assms(2) by simp
      then show ?thesis by (auto split: if_splits)
    qed
  qed
  then have "set names \<subseteq> domain_name ` set (first_names_of {} ds)" by simp
  also have "\<dots> \<subseteq> {n. n \<noteq> [] \<and> (\<exists>d \<in> set (in_domains v s). n = domain_name d)}"
  proof (rule image_subsetI)
    fix d assume "d \<in> set (first_names_of {} ds)"
    then have "d \<in> set ds" "domain_name d \<noteq> []" using first_names_of_subset [of "{}" ds] by auto
    then show "domain_name d \<in> {n. n \<noteq> [] \<and> (\<exists>d \<in> set (in_domains v s). n = domain_name d)}"
      using visible_domains_subset [OF assms(1) ds] by auto
  qed
  finally show ?thesis .
qed

lemma default_domain_plain:
  assumes laws: "database_laws (ae_db (ya_env a)) v" and rand: "rand_int_law (ya_rand_int a)"
    and at: "no_at v x req (db_state st)" and run: "default_domain_for_create a x strategy force st = (Inr t, st')"
  shows "plain_domain t \<and> db_state st' = db_state st"
proof (cases "default_domain_from_context a x (db_state st)")
  case (Some d)
  then obtain info where "cx_api_key_info (yx_cx x) = Some info" "d = to_lower (trim_space (ki_default_domain info))" "d \<noteq> []"
    by (auto simp: default_domain_from_context_def Let_def split: option.splits if_splits sum.splits)
  then show ?thesis using run Some at plain_normal [of "ki_default_domain info"]
    by (auto simp: default_domain_for_create_def no_at_def)
next
  case None
  obtain names where names: "candidate_domains a x strategy (db_state st) = Inr names" "names \<noteq> []"
    using run None by (auto simp: default_domain_for_create_def split: sum.splits if_splits)
  have plain: "plain_domain n" if "n \<in> set names" for n
  proof -
    obtain d where d: "n \<noteq> []" "d \<in> set (in_domains v (db_state st))" "n = domain_name d"
      using candidate_domains_names [OF laws names(1)] \<open>n \<in> set names\<close> by blast
    then show ?thesis using at plain_normal [of "dm_domain d"] by (auto simp: no_at_def domain_name_def)
  qed
  obtain idx g where idx: "run_state (random_intn (ya_rand_int a) (length names)) (as_rand st) = (idx, g)" by fastforce
  have "i < length names" if "idx = Some i" for i
  proof -
    have "pred_state (\<lambda>r. \<forall>i. r = Some i \<longrightarrow> i < length names) (random_intn (ya_rand_int a) (length names))"
      using rand names(2) by (auto simp: rand_int_law_def random_intn_def)
    from pred_stateD [OF this idx] show ?thesis using that by simp
  qed
  then show ?thesis using run None names idx plain
    by (auto simp: default_domain_for_create_def db_state_def Let_def split: if_splits option.splits)
qed


section \<open>The subdomain\<close>

lemma split_on_members: "c \<in> set s \<Longrightarrow> c \<noteq> b \<Longrightarrow> \<exists>part \<in> set (split_on s b). c \<in> set part"
  by (induction s b rule: split_on.induct) (auto split: list.splits)

lemma validated_subdomain:
  assumes "validate_wildcard_subdomain s = None"
  shows "to_lower (trim_space s) \<noteq> [] \<and> CHR ''@'' \<notin> set (to_lower (trim_space s))"
proof -
  let ?s = "to_lower (trim_space s)"
  have s: "?s \<noteq> []" "list_all is_dns_label (split_on ?s (CHR ''.''))"
    using assms by (auto simp: validate_wildcard_subdomain_def Let_def split: if_splits)
  have "\<not> is_dns_label part" if "CHR ''@'' \<in> set part" for part
  proof -
    have "\<not> (lower_letter (CHR ''@'') \<or> is_digit (CHR ''@'') \<or> CHR ''@'' = CHR ''-'')" by code_simp
    then show ?thesis using that by (auto simp: is_dns_label_def list_all_iff simp del: disj_not1)
  qed
  then show ?thesis using s split_on_members [of "CHR ''@''" ?s "CHR ''.''"] by (auto simp: list_all_iff)
qed

lemma hex_digit_plain:
  assumes "n < 16" shows "lower_char (hex_digit n) = hex_digit n" "\<not> is_space (hex_digit n)"
proof -
  have h: "(of_char (hex_digit n) :: nat) = (if n < 10 then 48 + n else 87 + n)" using assms by (simp add: hex_digit_def)
  show "lower_char (hex_digit n) = hex_digit n" using assms by (simp add: lower_char_def h)
  have "(of_char c :: nat) \<le> 32" if "is_space c" for c using that by (auto simp: is_space_def)
  from this [of "hex_digit n"] show "\<not> is_space (hex_digit n)" by (auto simp: h split: if_splits)
qed

lemma hex_encode_plain: "to_lower (hex_encode bs) = hex_encode bs \<and> list_all (\<lambda>c. \<not> is_space c) (hex_encode bs)"
proof (induction bs)
  case (Cons b bs)
  have "unat b < 256" using unsigned_less [of b] by simp
  then have "unat b div 16 < 16" "unat b mod 16 < 16" by auto
  then show ?case using Cons by (simp add: hex_encode_def to_lower_def hex_digit_plain)
qed (simp_all add: hex_encode_def to_lower_def)

lemma chosen_subdomain:
  assumes "choose_subdomain a x force sub st = (Some sub', st')" "to_lower (trim_space sub) = sub"
  shows "to_lower (trim_space sub') = sub' \<and> db_state st' = db_state st"
proof -
  have norm: "to_lower (trim_space (to_lower (trim_space s))) = to_lower (trim_space s)" for s
    using normalize_idem [of s] by (simp add: Domainutil.normalize_def)
  have label: "to_lower (trim_space (''w'' @ hex_encode b)) = ''w'' @ hex_encode b" for b
  proof -
    have "trimmed (''w'' @ hex_encode b)"
      using hex_encode_plain [of b] by (auto simp: trimmed_def list_all_iff is_space_def)
    moreover have "lower_char (CHR ''w'') = CHR ''w''" by code_simp
    ultimately show ?thesis using hex_encode_plain [of b] by (simp add: trim_space_trimmed to_lower_def)
  qed
  show ?thesis
    using assms norm label
    by (auto simp: choose_subdomain_def default_subdomain_for_create_def random_child_domain_label_def Let_def
        split: if_splits option.splits prod.splits)
qed


section \<open>The address that is chosen\<close>

lemma resolved_address:
  assumes laws: "database_laws (ae_db (ya_env a)) v" and rand: "rand_int_law (ya_rand_int a)"
    and at: "no_at v x req (db_state st)"
    and run: "resolve_create_address a x req force st = (Inr (addr, auto), st')"
  shows "db_state st' = db_state st \<and> may_use_domain v x (address_domain addr) (db_state st) \<and>
    (auto \<longrightarrow> (\<exists>l t. plain_domain t \<and> addr = l @ CHR ''@'' # t))"
proof (cases "CHR ''@'' \<in> set (trim_space (yq_address req))")
  case True
  then obtain d where "check_address_domain a x (to_lower (trim_space (yq_address req))) True (db_state st) = Inr d"
    "addr = to_lower (trim_space (yq_address req))" "st' = st" "\<not> auto"
    using run by (auto simp: resolve_create_address_def Let_def split: sum.splits)
  then show ?thesis using check_address_domain_Inr [OF laws] by auto
next
  case False
  let ?norm = "\<lambda>s. to_lower (trim_space s)"
  have norm: "?norm (?norm s) = ?norm s" for s
    using normalize_idem [of s] by (simp add: Domainutil.normalize_def)
  define requested where "requested = (if ?norm (yq_domain req) = [] then ?norm (yq_wildcard_rule_id req) else ?norm (yq_domain req))"
  define sub where "sub = (if ?norm (yq_subdomain req) = [] then ?norm (yq_subdomain_label req) else ?norm (yq_subdomain req))"
  define local where "local = (if trim_space (yq_local_part req) = [] \<and> trim_space (yq_address req) \<noteq> []
    then trim_space (yq_address req) else trim_space (yq_local_part req))"
  note run = run [unfolded resolve_create_address_def Let_def if_not_P [OF False],
      folded requested_def sub_def local_def]
  obtain parent st1 where parent: "(if requested = []
      then default_domain_for_create a x (yq_auto_domain_strategy req) force st else (Inr requested, st)) = (Inr parent, st1)"
    using run by (auto split: prod.splits sum.splits)
  note run = run [unfolded parent prod.case sum.case]
  obtain subdomain st2 where subdomain: "choose_subdomain a x force sub st1 = (Some subdomain, st2)"
    using run by (auto split: prod.splits option.splits)
  note run = run [unfolded subdomain prod.case option.case]
  have valid: "subdomain \<noteq> [] \<Longrightarrow> validate_wildcard_subdomain subdomain = None"
    using run by (auto split: if_splits option.splits)
  let ?target = "if subdomain \<noteq> [] then subdomain @ ''.'' @ parent else parent"
  have P: "plain_domain parent \<and> db_state st1 = db_state st"
  proof (cases "requested = []")
    case True
    then show ?thesis using parent default_domain_plain [OF laws rand at] by simp
  next
    case False
    then have "parent = requested" "st1 = st" "plain_domain requested"
      using parent at plain_normal [of "yq_domain req"] plain_normal [of "yq_wildcard_rule_id req"]
      by (auto simp: requested_def no_at_def split: if_splits)
    then show ?thesis by simp
  qed
  have S: "?norm subdomain = subdomain" "db_state st2 = db_state st"
    using chosen_subdomain [OF subdomain] norm P by (auto simp: sub_def)
  have target: "plain_domain ?target"
  proof (cases "subdomain = []")
    case False
    then have "plain_domain subdomain"
      using validated_subdomain [OF valid [OF False]] S(1) plain_normal [of subdomain]
      by (auto simp: plain_domain_def)
    then show ?thesis using P plain_join by simp
  qed (use P in simp)
  obtain d c where ok: "ensure_domain_accessible a x ?target True (db_state st) = Inr (d, c)"
    using run valid S(2) by (cases "ensure_domain_accessible a x ?target True (db_state st2)") (auto split: if_splits)
  have may: "may_use_domain v x ?target (db_state st)"
    using ensure_domain_accessible_Inr [OF laws ok] target by (simp add: plain_domain_def trim_space_trimmed)
  obtain l where addr: "addr = to_lower (l @ CHR ''@'' # ?target)" "db_state st' = db_state st2"
    using run valid ok S(2) by (cases "local = []") (auto split: prod.splits if_splits)
  have "addr = to_lower l @ CHR ''@'' # ?target"
    using target by (simp add: addr(1) plain_domain_def)
  moreover have "address_domain (to_lower l @ CHR ''@'' # ?target) = ?target" by (rule address_parts_plain(2) [OF target])
  ultimately show ?thesis using addr(2) S(2) may target by (intro conjI impI exI [of _ "to_lower l"] exI [of _ ?target]) simp_all
qed

section \<open>The inbox that is created\<close>


definition example_inbox :: yyds_create_request where
  "example_inbox = \<lparr>yq_address = [], yq_local_part = ''amy'', yq_domain = [], yq_subdomain = ''Team'',
     yq_wildcard_rule_id = ''ok.com'', yq_subdomain_label = [], yq_auto_domain_strategy = []\<rparr>"

definition key_holder :: yyds_context where "key_holder = \<lparr>yx_kind = KindApiKey, yx_cx = example_context\<rparr>"

lemma example_inbox_created:
  "(case fst (create_account_with_mode example_yyds (\<lambda>_. second) key_holder (Some example_inbox) True example_state) of
      Answered n r \<Rightarrow> yn_address r = ''amy@team.ok.com'' | _ \<Rightarrow> False)"
  by code_simp


end
