(* ===== verification/Realtime.thy ===== *)
theory Realtime
  imports YydsApi
begin

text \<open>
  \<open>internal/dialect/yyds/realtime.go\<close>: tickets for the WebSocket, and the events an account's subscription delivers,
  translated for the client. \<open>json.Unmarshal\<close> into the two structures is a parameter; \<open>'j\<close> is the JSON data a payload
  carries along. A connection is the list of the payloads it receives, each with the time of its translation and whether the
  client could be written to.
\<close>

section \<open>Tickets\<close>

record ws_ticket =
  wt_token :: string
  wt_address :: string
  wt_expires_at :: time

definition ticket_expiry :: "duration \<Rightarrow> duration" where
  "ticket_expiry token_ttl = (let expiry = 5 * minute in if 0 < token_ttl \<and> token_ttl < expiry then token_ttl else expiry)"

definition create_ws_ticket ::
  "('s, 'r, 'g) yyds_api \<Rightarrow> (nat \<Rightarrow> time) \<Rightarrow> yyds_context \<Rightarrow> string \<Rightarrow> ('s, 'r, 'g) api_state \<Rightarrow> ws_ticket yyds_response" where
  "create_ws_ticket a clk x address_query st =
     (case message_list_account a x address_query (db_state st) of
        Inl e \<Rightarrow> Rejected e
      | Inr acc \<Rightarrow>
          (let expiry = ticket_expiry (ya_token_ttl a) in
           case generate_token_with_expiry (ae_numeric_date (ya_env a)) (ae_sign (ya_env a)) (ae_auth (ya_env a))
                  (db_hex (ae_db (ya_env a)) (ac_id acc)) (ac_address acc) expiry (clk 0) of
             Inl _ \<Rightarrow> Rejected (internal_error ''Failed to create websocket ticket'')
           | Inr token \<Rightarrow>
               Answered 200 \<lparr>wt_token = token, wt_address = to_lower (ac_address acc), wt_expires_at = clk 1 + expiry\<rparr>))"

section \<open>Events\<close>

record published_event =
  pe_type :: string
  pe_id :: string
  pe_subject :: string
  pe_from :: mail_address
  pe_intro :: string
  pe_seen :: bool

datatype 'j realtime_data =
    Opaque 'j
  | NewMessage string mail_address string time string bool
  | RawPayload string

record 'j realtime_envelope =
  rt_type :: string
  rt_mailbox :: string
  rt_data :: "'j realtime_data"

record 'j json_api =
  js_envelope :: "string \<Rightarrow> 'j realtime_envelope option"
  js_event :: "string \<Rightarrow> published_event option"

text \<open>The rest of \<open>translateRealtimePayload\<close>: a published event, or a payload of no known form.\<close>

definition translate_event ::
  "'j json_api \<Rightarrow> 's database \<Rightarrow> string \<Rightarrow> string \<Rightarrow> time \<Rightarrow> 's \<Rightarrow> 'j realtime_envelope option" where
  "translate_event js db mailbox payload now s =
     (let raw = Some \<lparr>rt_type = ''message.raw'', rt_mailbox = mailbox, rt_data = RawPayload payload\<rparr> in
      case js_event js payload of
        None \<Rightarrow> raw
      | Some e \<Rightarrow>
          if pe_id e \<noteq> [] \<or> pe_subject e \<noteq> [] \<or> pe_type e \<noteq> [] \<or> ma_address (pe_from e) \<noteq> [] \<or> ma_name (pe_from e) \<noteq> []
          then
            (let event_time =
               (if pe_id e \<noteq> []
                then (case get_message_meta db (pe_id e) s of
                        Inl _ \<Rightarrow> now
                      | Inr m \<Rightarrow> if is_zero_time (ms_created_at m) then now else ms_created_at m)
                else now)
             in Some \<lparr>rt_type = ''message.new'', rt_mailbox = mailbox,
                      rt_data = NewMessage (pe_id e) (pe_from e) (pe_subject e) event_time (pe_intro e) (pe_seen e)\<rparr>)
          else raw)"

definition translate_payload ::
  "'j json_api \<Rightarrow> 's database \<Rightarrow> string \<Rightarrow> string \<Rightarrow> time \<Rightarrow> 's \<Rightarrow> 'j realtime_envelope option" where
  "translate_payload js db mailbox payload0 now s =
     (let payload = trim_space payload0 in
      if payload = [] then None
      else
        (case js_envelope js payload of
           Some e \<Rightarrow>
             if rt_type e \<noteq> [] then Some (if rt_mailbox e = [] then e\<lparr>rt_mailbox := mailbox\<rparr> else e)
             else translate_event js db mailbox payload now s
         | None \<Rightarrow> translate_event js db mailbox payload now s))"

section \<open>Connections\<close>

fun ws_loop ::
  "'j json_api \<Rightarrow> 's database \<Rightarrow> string \<Rightarrow> 's \<Rightarrow> (string \<times> time \<times> bool) list \<Rightarrow> 'j realtime_envelope list" where
  "ws_loop js db mailbox s [] = []"
| "ws_loop js db mailbox s ((payload, now, writable) # ps) =
     (case translate_payload js db mailbox payload now s of
        None \<Rightarrow> ws_loop js db mailbox s ps
      | Some e \<Rightarrow> if writable then e # ws_loop js db mailbox s ps else [])"

text \<open>
  The answer is the account whose events the connection subscribes to, with what it sends; \<open>payloads\<close> is what Redis
  delivers to the subscription of an account.
\<close>

definition handle_ws ::
  "'j json_api \<Rightarrow> 's database \<Rightarrow> (string \<Rightarrow> 'a \<Rightarrow> (auth_error + claims) \<times> 'a) \<Rightarrow> (string \<Rightarrow> (string \<times> time \<times> bool) list)
     \<Rightarrow> string \<Rightarrow> 's \<Rightarrow> 'a \<Rightarrow> (api_error + string \<times> 'j realtime_envelope list) \<times> 'a" where
  "handle_ws js db validate payloads token_query s au =
     (let token = trim_space token_query in
      if token = []
      then (Inl \<lparr>er_status = 401, er_code = ''authorization_required_ws_ticket'',
                 er_message = ''WebSocket ticket required''\<rparr>, au)
      else
        (case validate token au of
           (Inl _, au') \<Rightarrow>
             (Inl \<lparr>er_status = 401, er_code = ''invalid_or_expired_ws_ticket'',
                   er_message = ''Invalid or expired WebSocket ticket''\<rparr>, au')
         | (Inr claims, au') \<Rightarrow>
             (Inr (cl_account_id claims,
                   ws_loop js db (to_lower (trim_space (cl_address claims))) s (payloads (cl_account_id claims))), au')))"

end
