(* ===== verification/Health.thy ===== *)
theory Health
  imports Prelude "HOL-Library.Multiset"
begin

text \<open>
  The probes of \<open>internal/health\<close> (\<open>health.go\<close>, \<open>checks.go\<close>). Every check runs in a goroutine of its own and sends its
  result into a channel; the handler receives until it has all results or the context is done. What it
  receives, in this order, is a list of events; a list that ends too early stands for a handler that still waits.
\<close>

datatype probe_event = Received string "string option" | Expired string

datatype probe_answer = MethodNotAllowed | Alive | Readiness int string "string \<rightharpoonup> string"

definition probe_timeout :: "duration \<Rightarrow> duration" where
  "probe_timeout t = (if t \<le> 0 then 2 * second else t)"

definition probe_method :: "string \<Rightarrow> bool" where "probe_method m \<longleftrightarrow> m = ''GET'' \<or> m = ''HEAD''"

definition healthz :: "string \<Rightarrow> probe_answer" where
  "healthz m = (if probe_method m then Alive else MethodNotAllowed)"

fun receive :: "nat \<Rightarrow> probe_event list \<Rightarrow> (string \<rightharpoonup> string) \<Rightarrow> bool \<Rightarrow> ((string \<rightharpoonup> string) \<times> bool) option" where
  "receive 0 evs checks ready = Some (checks, ready)"
| "receive (Suc n) [] checks ready = None"
| "receive (Suc n) (Received name err # evs) checks ready =
     (case err of
        Some e \<Rightarrow> receive n evs (checks(name \<mapsto> e)) False
      | None \<Rightarrow> receive n evs (checks(name \<mapsto> ''ok'')) ready)"
| "receive (Suc n) (Expired e # evs) checks ready = Some (checks(''timeout'' \<mapsto> e), False)"

definition readiness :: "(string \<rightharpoonup> string) \<times> bool \<Rightarrow> probe_answer" where
  "readiness r = (if snd r then Readiness 200 ''ready'' (fst r) else Readiness 503 ''not ready'' (fst r))"

text \<open>The checks with a name and a function.\<close>

definition normalized_checks :: "(string \<times> 'f option) list \<Rightarrow> (string \<times> 'f) list" where
  "normalized_checks checks =
     concat (map (\<lambda>(name, f). if trim_space name = [] then [] else case f of None \<Rightarrow> [] | Some g \<Rightarrow> [(trim_space name, g)]) checks)"

definition readyz_checks :: "(string \<times> 'f option) list \<Rightarrow> string \<Rightarrow> probe_event list \<Rightarrow> probe_answer option" where
  "readyz_checks checks m evs =
     (if \<not> probe_method m then Some MethodNotAllowed
      else map_option readiness (receive (length (normalized_checks checks)) evs Map.empty True))"

definition dependency_checks :: "'f option \<Rightarrow> 'f option \<Rightarrow> 'f option \<Rightarrow> (string \<times> 'f) list" where
  "dependency_checks store cache storage =
     (case store of None \<Rightarrow> [] | Some f \<Rightarrow> [(''store'', f)]) @ (case cache of None \<Rightarrow> [] | Some f \<Rightarrow> [(''cache'', f)]) @
     (case storage of None \<Rightarrow> [] | Some f \<Rightarrow> [(''storage'', f)])"

definition readyz :: "'f option \<Rightarrow> 'f option \<Rightarrow> 'f option \<Rightarrow> string \<Rightarrow> probe_event list \<Rightarrow> probe_answer option" where
  "readyz store cache storage m evs =
     (if \<not> probe_method m then Some MethodNotAllowed
      else map_option readiness (receive (length (dependency_checks store cache storage)) evs Map.empty True))"

section \<open>What the probe tells\<close>

definition expired :: "probe_event \<Rightarrow> bool" where "expired ev \<longleftrightarrow> (\<exists>e. ev = Expired e)"

definition succeeded :: "probe_event \<Rightarrow> bool" where "succeeded ev \<longleftrightarrow> (\<exists>name. ev = Received name None)"

text \<open>The handler answers as soon as it has all results or the context is done.\<close>

lemma receive_answers: "n \<le> length evs \<or> (\<exists>ev \<in> set evs. expired ev) \<Longrightarrow> receive n evs checks ready \<noteq> None"
  by (induction n evs checks ready rule: receive.induct) (auto simp: expired_def split: option.split)

lemma receive_ready:
  "receive n evs checks ready = Some (checks', ready') \<Longrightarrow>
   ready' \<longleftrightarrow> ready \<and> n \<le> length evs \<and> list_all succeeded (take n evs)"
  by (induction n evs checks ready arbitrary: checks' ready' rule: receive.induct)
    (auto simp: succeeded_def split: option.splits)

text \<open>
  The service is reported ready exactly when every check has succeeded before the context was done, in whatever
  order the results arrive; each check sends one result.
\<close>

theorem readiness_exact:
  assumes sent: "mset (filter (\<lambda>ev. \<not> expired ev) evs) \<subseteq># mset (map (\<lambda>(name, err). Received name err) results)"
    and answer: "receive (length results) evs Map.empty True = Some (checks, ready)"
  shows "ready \<longleftrightarrow> list_all (\<lambda>(name, err). err = None) results \<and> length results \<le> length evs \<and>
     (\<forall>ev \<in> set (take (length results) evs). \<not> expired ev)"
proof -
  let ?n = "length results" and ?all = "map (\<lambda>(name, err). Received name err) results"
  have ready: "ready \<longleftrightarrow> ?n \<le> length evs \<and> list_all succeeded (take ?n evs)"
    using receive_ready [OF answer] by simp
  have perm: "mset (take ?n evs) = mset ?all" if "?n \<le> length evs" "\<forall>ev \<in> set (take ?n evs). \<not> expired ev"
  proof -
    have "filter (\<lambda>ev. \<not> expired ev) evs = take ?n evs @ filter (\<lambda>ev. \<not> expired ev) (drop ?n evs)"
      using that(2) by (metis (no_types, lifting) append_take_drop_id filter_append filter_id_conv)
    then have sub: "mset (take ?n evs) \<subseteq># mset ?all" using sent by (metis mset_append mset_subset_eq_add_left subset_mset.trans)
    have "size (mset ?all - mset (take ?n evs)) = size (mset ?all) - size (mset (take ?n evs))" by (rule size_Diff_submset [OF sub])
    then have "mset ?all - mset (take ?n evs) = {#}" using that(1) by simp
    then show ?thesis using sub by (metis Diff_eq_empty_iff_mset subset_mset.antisym)
  qed
  have ok: "list_all succeeded evs' \<longleftrightarrow> list_all (\<lambda>(name, err). err = None) results" if "mset evs' = mset ?all" for evs'
    using mset_eq_setD [OF that] by (auto simp: list_all_iff succeeded_def)
  have "\<not> expired ev" if "list_all succeeded (take ?n evs)" "ev \<in> set (take ?n evs)" for ev
    using that by (auto simp: list_all_iff succeeded_def expired_def)
  then show ?thesis using ready perm ok by metis
qed

text \<open>Two results that arrive in the other order, one of them an error.\<close>

theorem readiness_exact_witness:
  "\<exists>checks. receive 2 [Received ''cache'' (Some ''refused''), Received ''store'' None] Map.empty True = Some (checks, False)"
proof -
  let ?evs = "[Received ''cache'' (Some ''refused''), Received ''store'' None]"
  let ?results = "[(''store'', None), (''cache'', Some ''refused'')]"
  obtain checks ready where r: "receive (length ?results) ?evs Map.empty True = Some (checks, ready)"
    by (auto simp: numeral_2_eq_2)
  have "ready \<longleftrightarrow> list_all (\<lambda>(name, err). err = None) ?results \<and> length ?results \<le> length ?evs \<and>
      (\<forall>ev \<in> set (take (length ?results) ?evs). \<not> expired ev)"
    by (rule readiness_exact [OF _ r]) (simp add: expired_def add_mset_commute)
  then have "\<not> ready" by simp
  with r show ?thesis by (auto simp: numeral_2_eq_2)
qed

end
