(* ===== verification/Programs.thy ===== *)
theory Programs
  imports Validate Smtp ApiKeys Dispatcher Proxy Indexes Handler Yyds
begin

text \<open>
  The three programs, \<open>cmd/api/main.go\<close>, \<open>cmd/smtp/main.go\<close> and \<open>cmd/worker/main.go\<close>, from the command line to what they
  serve. The environment, the files and the outcome of each connection are parameters; \<open>log.Fatalf\<close> ends a run
  with \<open>Fatal\<close>. \<open>gomax\<close> is \<open>runtime.GOMAXPROCS(0)\<close>.
\<close>

section \<open>Command line and configuration\<close>

record invocation =
  iv_config :: string
  iv_args :: "string list"
  iv_check :: bool
  iv_print :: bool
  iv_full :: bool
  iv_debug_addr :: string

datatype file_kind = NoFile | Directory | RegularFile

record surroundings =
  en_getenv :: "string \<Rightarrow> string"
  en_stat :: "string \<Rightarrow> file_kind"
  en_load :: "string \<Rightarrow> load_error + config"
  en_marshal :: "config \<Rightarrow> bytes option"

datatype fatal_error =
    ConfigNotFound | ConfigIsDirectory string | ConfigNotLoaded load_error | ConfigInvalid config_error | NotMarshalled
  | BadKeyPair | BadMinVersion string | NotConnected string | DomainsNotSynced | BadTrustedProxies
  | BadDebugServer config_error | NoListeners

datatype 'r run = Fatal fatal_error | CheckedOk string | Printed bytes | Running 'r

definition config_path :: "invocation \<Rightarrow> string" where
  "config_path iv = (case iv_args iv of a # _ \<Rightarrow> if trim_space a \<noteq> [] then a else iv_config iv | [] \<Rightarrow> iv_config iv)"

text \<open>
  The start of the three programs, which differ in the prefix of their variables, in the debug settings these override
  and in the validation. Either the run ends here or it goes on with a configuration.
\<close>

definition prepare ::
  "string \<Rightarrow> ((debug_server_config \<Rightarrow> debug_server_config) \<Rightarrow> config \<Rightarrow> config) \<Rightarrow> (config option \<Rightarrow> config_error option)
     \<Rightarrow> surroundings \<Rightarrow> invocation \<Rightarrow> 'r run + config" where
  "prepare pfx at_debug invalid en iv =
     (let path = config_path iv; inspect = iv_check iv \<or> iv_print iv in
      case (if \<not> inspect then None
            else (case en_stat en path of
                    NoFile \<Rightarrow> Some ConfigNotFound | Directory \<Rightarrow> Some (ConfigIsDirectory path) | RegularFile \<Rightarrow> None)) of
        Some err \<Rightarrow> Inl (Fatal err)
      | None \<Rightarrow>
          (case en_load en path of
             Inl err \<Rightarrow> Inl (Fatal (ConfigNotLoaded err))
           | Inr cfg0 \<Rightarrow>
               (let cfg = at_debug (\<lambda>d. the (apply_debug_addr_override (iv_debug_addr iv)
                              (apply_debug_env_overrides (en_getenv en) pfx (Some d)))) cfg0
                in if \<not> inspect then Inr cfg
                   else
                     (case invalid (Some cfg) of
                        Some err \<Rightarrow> Inl (Fatal (ConfigInvalid err))
                      | None \<Rightarrow>
                          if iv_check iv then Inl (CheckedOk path)
                          else (case en_marshal en (if iv_full iv then cfg else the (redact (Some cfg))) of
                                  None \<Rightarrow> Inl (Fatal NotMarshalled) | Some out \<Rightarrow> Inl (Printed out))))))"

definition api_debug :: "(debug_server_config \<Rightarrow> debug_server_config) \<Rightarrow> config \<Rightarrow> config" where
  "api_debug f cfg = cfg\<lparr>cf_server := (cf_server cfg)\<lparr>sv_api := (sv_api (cf_server cfg))\<lparr>as_debug := f (as_debug (sv_api (cf_server cfg)))\<rparr>\<rparr>\<rparr>"

definition smtp_debug :: "(debug_server_config \<Rightarrow> debug_server_config) \<Rightarrow> config \<Rightarrow> config" where
  "smtp_debug f cfg = cfg\<lparr>cf_server := (cf_server cfg)\<lparr>sv_smtp := (sv_smtp (cf_server cfg))\<lparr>ss_debug := f (ss_debug (sv_smtp (cf_server cfg)))\<rparr>\<rparr>\<rparr>"

definition worker_debug :: "(debug_server_config \<Rightarrow> debug_server_config) \<Rightarrow> config \<Rightarrow> config" where
  "worker_debug f cfg = cfg\<lparr>cf_server := (cf_server cfg)\<lparr>sv_worker := \<lparr>ws_debug = f (ws_debug (sv_worker (cf_server cfg)))\<rparr>\<rparr>\<rparr>"

definition prepare_api ::
  "(string \<Rightarrow> (string \<times> string) option) \<Rightarrow> surroundings \<Rightarrow> invocation \<Rightarrow> 'r run + config" where
  "prepare_api url_parse = prepare ''MAILAPI_API'' api_debug (validate_api_config url_parse)"

definition prepare_smtp :: "surroundings \<Rightarrow> invocation \<Rightarrow> 'r run + config" where
  "prepare_smtp en = prepare ''MAILAPI_SMTP'' smtp_debug (validate_smtp_config (\<lambda>p. en_stat en p \<noteq> NoFile)) en"

definition prepare_worker :: "surroundings \<Rightarrow> invocation \<Rightarrow> 'r run + config" where
  "prepare_worker = prepare ''MAILAPI_WORKER'' worker_debug validate_worker_config"

definition store_settings :: "config \<Rightarrow> mongo_settings" where
  "store_settings cfg =
     (let m = cf_mongodb cfg in
      \<lparr>mo_uri = mg_uri m, mo_database = mg_database m, mo_max_pool_size = mg_max_pool_size m, mo_min_pool_size = mg_min_pool_size m,
       mo_max_connecting = mg_max_connecting m, mo_connect_timeout = mg_connect_timeout m,
       mo_server_selection_timeout = mg_server_selection_timeout m, mo_max_conn_idle_time = mg_max_conn_idle_time m,
       mo_app_name = mg_app_name m\<rparr>)"

text \<open>Which connections succeed.\<close>

record connections =
  cn_store :: "mongo_settings \<Rightarrow> duration \<Rightarrow> duration \<Rightarrow> bool"
  cn_cache :: "redis_config \<Rightarrow> bool"
  cn_queue :: "nats_config \<Rightarrow> bool"
  cn_storage :: "minio_config \<Rightarrow> bool"

text \<open>A debug server: its address, its paths and the names of the readiness checks.\<close>

type_synonym debug_service = "(string \<times> string list) \<times> string list"

definition start_debug :: "debug_server_config \<Rightarrow> string list \<Rightarrow> fatal_error + debug_service option" where
  "start_debug d checks =
     (if \<not> ds_enabled d then Inr None
      else (case debug_server d of Inl err \<Rightarrow> Inl (BadDebugServer err) | Inr s \<Rightarrow> Inr (Some (s, checks))))"

section \<open>SMTP\<close>

record smtp_server =
  sr_backend :: "backend \<times> ttl_set"
  sr_addr :: string
  sr_domain :: string
  sr_max_message_bytes :: int
  sr_max_recipients :: int
  sr_read_timeout :: duration
  sr_write_timeout :: duration
  sr_allow_insecure_auth :: bool
  sr_tls :: "int option"

text \<open>TLS is the minimum version; \<open>key_pair\<close> tells whether certificate and key can be loaded.\<close>

definition smtp_tls :: "(string \<Rightarrow> string \<Rightarrow> bool) \<Rightarrow> smtp_tls_config \<Rightarrow> fatal_error + int option" where
  "smtp_tls key_pair tls =
     (if \<not> st_enabled tls then Inr None
      else if \<not> key_pair (st_cert_file tls) (st_key_file tls) then Inl BadKeyPair
      else
        (let s = trim_space (st_min_version tls) in
         if s = [] then Inr (Some 0x0303)
         else (case parse_tls_min_version s of None \<Rightarrow> Inl (BadMinVersion (st_min_version tls)) | Some n \<Rightarrow> Inr (Some n))))"

definition new_server :: "backend \<times> ttl_set \<Rightarrow> string \<Rightarrow> smtp_server_config \<Rightarrow> int option \<Rightarrow> smtp_server" where
  "new_server b addr ss tls =
     \<lparr>sr_backend = b, sr_addr = addr, sr_domain = ss_domain ss, sr_max_message_bytes = ss_max_message_bytes ss,
      sr_max_recipients = ss_max_recipients ss, sr_read_timeout = ss_read_timeout ss, sr_write_timeout = ss_write_timeout ss,
      sr_allow_insecure_auth = True, sr_tls = tls\<rparr>"

definition active_domain_ips :: "domain_config list \<Rightarrow> string \<rightharpoonup> string list" where
  "active_domain_ips ds = foldl (\<lambda>m d. if dc_is_active d then m(dc_domain d \<mapsto> dc_ips d) else m) Map.empty ds"

text \<open>\<open>visit\<close> is the order in which \<open>range\<close> visits the map; \<open>interface_addrs\<close> the addresses of the machine.\<close>

definition start_smtp_servers ::
  "int \<Rightarrow> ((string \<rightharpoonup> string list) \<Rightarrow> string list) \<Rightarrow> string list option \<Rightarrow> config \<Rightarrow> int option \<Rightarrow> fatal_error + smtp_server list" where
  "start_smtp_servers gomax visit interface_addrs cfg tls =
     (let ss = sv_smtp (cf_server cfg);
          serve = (\<lambda>addr domains. new_server
             (new_backend gomax (cf_account_ttl cfg) (st_require_tls (ss_tls ss)) (ss_domain ss) domains (ss_max_message_bytes ss)) addr ss tls)
      in if cf_domains cfg \<noteq> []
         then (let m = active_domain_ips (cf_domains cfg);
                   listeners = build_listeners interface_addrs (map (\<lambda>d. (d, the (m d))) (visit m)) (ss_port ss)
               in if listeners = [] then Inl NoListeners
                  else Inr (map (\<lambda>l. serve (lc_addr l) (lc_domains l)) listeners))
         else Inr [serve (ss_host ss @ '':'' @ format_int (ss_port ss)) []])"

record smtp_service =
  sm_servers :: "smtp_server list"
  sm_lookup :: bool
  sm_debug :: "debug_service option"

definition smtp_main ::
  "int \<Rightarrow> ((string \<rightharpoonup> string list) \<Rightarrow> string list) \<Rightarrow> string list option \<Rightarrow> (string \<Rightarrow> string \<Rightarrow> bool) \<Rightarrow> connections \<Rightarrow> surroundings
     \<Rightarrow> invocation \<Rightarrow> smtp_service run" where
  "smtp_main gomax visit interface_addrs key_pair cn en iv =
     (case prepare_smtp en iv of
        Inl r \<Rightarrow> r
      | Inr cfg \<Rightarrow>
          (case smtp_tls key_pair (ss_tls (sv_smtp (cf_server cfg))) of
             Inl err \<Rightarrow> Fatal err
           | Inr tls \<Rightarrow>
               (let m = cf_mongodb cfg;
                    lookup = (trim_space (mg_uri m) \<noteq> [] \<and> trim_space (mg_database m) \<noteq> [] \<and>
                              cn_store cn (store_settings cfg) (cf_account_ttl cfg) (cf_message_ttl cfg))
                in if \<not> cn_cache cn (cf_redis cfg) then Fatal (NotConnected ''Redis'')
                   else if \<not> cn_queue cn (cf_nats cfg) then Fatal (NotConnected ''NATS'')
                   else
                     (case start_debug (ss_debug (sv_smtp (cf_server cfg)))
                             ([''redis'', ''nats''] @ (if lookup then [''mongodb''] else [])) of
                        Inl err \<Rightarrow> Fatal err
                      | Inr debug \<Rightarrow>
                          (case start_smtp_servers gomax visit interface_addrs cfg tls of
                             Inl err \<Rightarrow> Fatal err
                           | Inr servers \<Rightarrow> Running \<lparr>sm_servers = servers, sm_lookup = lookup, sm_debug = debug\<rparr>)))))"

section \<open>Worker\<close>

definition worker_main :: "connections \<Rightarrow> surroundings \<Rightarrow> invocation \<Rightarrow> debug_service option run" where
  "worker_main cn en iv =
     (case prepare_worker en iv of
        Inl r \<Rightarrow> r
      | Inr cfg \<Rightarrow>
          if \<not> cn_store cn (store_settings cfg) (cf_account_ttl cfg) (cf_message_ttl cfg) then Fatal (NotConnected ''MongoDB'')
          else if \<not> cn_cache cn (cf_redis cfg) then Fatal (NotConnected ''Redis'')
          else if \<not> cn_queue cn (cf_nats cfg) then Fatal (NotConnected ''NATS'')
          else if \<not> cn_storage cn (cf_minio cfg) then Fatal (NotConnected ''MinIO'')
          else
            (case start_debug (ws_debug (sv_worker (cf_server cfg))) [''mongodb'', ''redis'', ''minio'', ''nats''] of
               Inl err \<Rightarrow> Fatal err | Inr debug \<Rightarrow> Running debug))"

section \<open>API\<close>

text \<open>The dialects with what the program hands to them.\<close>

record yyds_settings =
  yd_core :: handler
  yd_account_ttl :: duration
  yd_token_ttl :: duration
  yd_api_keys :: "string \<rightharpoonup> api_key_info"
  yd_global_rpm :: int
  yd_trusted_proxies :: "string list"
  yd_access_log :: access_log_config
  yd_public :: yyds_dialect_config

datatype dialect_handler = Duck handler | CfWorker proxy_config | YydsDialect yyds_settings

definition allow_message_keep :: "(string \<Rightarrow> string) \<Rightarrow> bool" where
  "allow_message_keep getenv =
     (case env_bool getenv ''MAILAPI_API_ALLOW_MESSAGE_KEEP'' of
        Some b \<Rightarrow> b
      | None \<Rightarrow> (case env_bool getenv ''MAILAPI_ALLOW_MESSAGE_KEEP'' of Some b \<Rightarrow> b | None \<Rightarrow> False))"

definition root_handler ::
  "config \<Rightarrow> handler \<Rightarrow> (string \<rightharpoonup> api_key_info) \<Rightarrow> dialect_handler dispatcher option" where
  "root_handler cfg core keys =
     (let as = sv_api (cf_server cfg); cw = di_cfworker (cf_dialects cfg) in
      if trim_space (as_base_host as) = [] then None
      else
        (let d = Some (new_dispatcher (as_base_host as) (as_default_dialect as) (as_enabled_dialects as) (as_unknown_dialect as));
             d = register ''duck'' (Some (Duck core)) d;
             d = register ''cfworker'' (Some (CfWorker \<lparr>pc_upstream = cw_upstream cw, pc_timeout = cw_timeout cw\<rparr>)) d
         in register ''yyds''
              (Some (YydsDialect \<lparr>yd_core = core, yd_account_ttl = cf_account_ttl cfg, yd_token_ttl = jc_expiry (cf_jwt cfg),
                 yd_api_keys = keys, yd_global_rpm = cf_rate_limit_global cfg, yd_trusted_proxies = as_trusted_proxies as,
                 yd_access_log = as_access_log as, yd_public = di_yyds (cf_dialects cfg)\<rparr>)) d))"

record api_service =
  am_addr :: string
  am_core :: handler
  am_access_log :: "access_log_config option"
  am_jwt_secret :: string
  am_token_ttl :: duration
  am_root :: "dialect_handler dispatcher option"
  am_synced :: "mail_domain list"
  am_debug :: "debug_service option"

text \<open>\<open>sync\<close> tells whether the domains could be stored; \<open>proxies_ok\<close> whether Gin accepts the trusted proxies.\<close>

definition api_main ::
  "int \<Rightarrow> (string \<Rightarrow> (string \<times> string) option) \<Rightarrow> (mail_domain list \<Rightarrow> bool) \<Rightarrow> (string list \<Rightarrow> bool) \<Rightarrow> connections \<Rightarrow> surroundings
     \<Rightarrow> invocation \<Rightarrow> api_service run" where
  "api_main gomax url_parse sync proxies_ok cn en iv =
     (case prepare_api url_parse en iv of
        Inl r \<Rightarrow> r
      | Inr cfg \<Rightarrow>
          (let as = sv_api (cf_server cfg); domains = config_domains (cf_domains cfg); keys = build_api_keys (cf_api_keys cfg) in
           if \<not> cn_store cn (store_settings cfg) (cf_account_ttl cfg) (cf_message_ttl cfg) then Fatal (NotConnected ''MongoDB'')
           else if \<not> cn_cache cn (cf_redis cfg) then Fatal (NotConnected ''Redis'')
           else if \<not> cn_storage cn (cf_minio cfg) then Fatal (NotConnected ''MinIO'')
           else if cf_domains cfg \<noteq> [] \<and> \<not> sync domains then Fatal DomainsNotSynced
           else if as_trusted_proxies as \<noteq> [] \<and> \<not> proxies_ok (as_trusted_proxies as) then Fatal BadTrustedProxies
           else
             (case start_debug (as_debug as) [''store'', ''cache'', ''storage''] of
                Inl err \<Rightarrow> Fatal err
              | Inr debug \<Rightarrow>
                  (let core = new_handler gomax (cf_account_ttl cfg) keys (cf_rate_limit_global cfg) (as_max_concurrent_bcrypt as)
                         (allow_message_keep (en_getenv en))
                   in Running \<lparr>am_addr = as_host as @ '':'' @ format_int (as_port as), am_core = core,
                        am_access_log = (if al_enabled (as_access_log as) then Some (as_access_log as) else None),
                        am_jwt_secret = jc_secret (cf_jwt cfg), am_token_ttl = jc_expiry (cf_jwt cfg),
                        am_root = root_handler cfg core keys, am_synced = (if cf_domains cfg \<noteq> [] then domains else []),
                        am_debug = debug\<rparr>))))"

section \<open>What a start guarantees\<close>

lemma prepare_goes_on:
  assumes "prepare pfx at_debug invalid en iv = Inr cfg"
  shows "\<not> iv_check iv \<and> \<not> iv_print iv \<and> (\<exists>cfg0 f. en_load en (config_path iv) = Inr cfg0 \<and> cfg = at_debug f cfg0)"
  using assms by (auto simp: prepare_def Let_def split: if_splits option.splits sum.splits file_kind.splits)

lemma prepare_ends:
  assumes "prepare pfx at_debug invalid en iv = Inl r"
  shows "r \<noteq> Running x"
  using assms by (auto simp: prepare_def Let_def split: if_splits option.splits sum.splits file_kind.splits)

lemma smtp_main_running:
  assumes "smtp_main gomax visit interface_addrs key_pair cn en iv = Running r"
  shows "\<exists>cfg tls checks. (prepare_smtp en iv :: smtp_service run + config) = Inr cfg \<and>
    smtp_tls key_pair (ss_tls (sv_smtp (cf_server cfg))) = Inr tls \<and>
    start_debug (ss_debug (sv_smtp (cf_server cfg))) checks = Inr (sm_debug r) \<and>
    start_smtp_servers gomax visit interface_addrs cfg tls = Inr (sm_servers r)"
proof (cases "prepare_smtp en iv :: smtp_service run + config")
  case (Inl r')
  then have "r' = Running r" using assms by (simp add: smtp_main_def)
  then show ?thesis using prepare_ends Inl unfolding prepare_smtp_def by metis
next
  case (Inr cfg)
  show ?thesis
  proof (cases "smtp_tls key_pair (ss_tls (sv_smtp (cf_server cfg)))")
    case (Inl err)
    then show ?thesis using assms Inr by (simp add: smtp_main_def)
  next
    case (Inr tls)
    with \<open>prepare_smtp en iv = Inr cfg\<close> show ?thesis
      using assms by (auto simp: smtp_main_def Let_def split: if_splits sum.splits)
  qed
qed

lemma worker_main_running:
  assumes "worker_main cn en iv = Running d"
  shows "\<exists>(cfg :: config) checks. start_debug (ws_debug (sv_worker (cf_server cfg))) checks = Inr d"
proof (cases "prepare_worker en iv :: debug_service option run + config")
  case (Inl r')
  then have "r' = Running d" using assms by (simp add: worker_main_def)
  then show ?thesis using prepare_ends Inl unfolding prepare_worker_def by metis
next
  case (Inr cfg)
  with assms have "start_debug (ws_debug (sv_worker (cf_server cfg))) [''mongodb'', ''redis'', ''minio'', ''nats''] = Inr d"
    by (auto simp: worker_main_def split: if_splits sum.splits)
  then show ?thesis by blast
qed

lemma api_main_running:
  assumes "api_main gomax url_parse sync proxies_ok cn en iv = Running r"
  shows "\<exists>cfg checks. (prepare_api url_parse en iv :: api_service run + config) = Inr cfg \<and>
    am_jwt_secret r = jc_secret (cf_jwt cfg) \<and>
    start_debug (as_debug (sv_api (cf_server cfg))) checks = Inr (am_debug r)"
proof (cases "prepare_api url_parse en iv :: api_service run + config")
  case (Inl r')
  then have "r' = Running r" using assms by (simp add: api_main_def)
  then show ?thesis using prepare_ends Inl unfolding prepare_api_def by metis
next
  case (Inr cfg)
  then show ?thesis using assms unfolding api_main_def by (auto simp: Let_def split: if_splits sum.splits)
qed

lemma start_debug_local:
  assumes "start_debug d checks = Inr (Some ((addr, paths), names))"
  shows "\<exists>host port. is_loopback_host host \<and> addr = join_host_port host (format_int port) \<and> 0 < port \<and> port \<le> 65535"
proof -
  have "debug_server d = Inr (addr, paths)" using assms by (auto simp: start_debug_def split: if_splits sum.splits)
  from debug_server_Inr(1) [OF this] show ?thesis by blast
qed

text \<open>A debug server that one of the programs runs.\<close>

definition runs_debug ::
  "smtp_service run \<Rightarrow> debug_service option run \<Rightarrow> api_service run \<Rightarrow> debug_service \<Rightarrow> bool" where
  "runs_debug smtp worker api d \<longleftrightarrow>
     (\<exists>r. smtp = Running r \<and> sm_debug r = Some d) \<or> worker = Running (Some d) \<or> (\<exists>r. api = Running r \<and> am_debug r = Some d)"

section \<open>An example\<close>

definition example_config :: config where
  "example_config = default_config\<lparr>
     cf_domains := [\<lparr>dc_domain = ''example.com'', dc_is_active = True, dc_is_private = False, dc_ips = []\<rparr>],
     cf_server := (cf_server default_config)\<lparr>sv_smtp := default_smtp_server\<lparr>ss_debug := default_debug 6061\<lparr>ds_enabled := True\<rparr>\<rparr>\<rparr>\<rparr>"

definition example_surroundings :: "config \<Rightarrow> surroundings" where
  "example_surroundings cfg =
     \<lparr>en_getenv = \<lambda>_. [], en_stat = \<lambda>_. RegularFile, en_load = \<lambda>_. Inr cfg, en_marshal = \<lambda>_. Some []\<rparr>"

definition example_invocation :: invocation where
  "example_invocation =
     \<lparr>iv_config = ''config.yaml'', iv_args = [], iv_check = False, iv_print = False, iv_full = False, iv_debug_addr = []\<rparr>"

definition all_connected :: connections where
  "all_connected = \<lparr>cn_store = \<lambda>_ _ _. True, cn_cache = \<lambda>_. True, cn_queue = \<lambda>_. True, cn_storage = \<lambda>_. True\<rparr>"

definition example_visit :: "(string \<rightharpoonup> string list) \<Rightarrow> string list" where
  "example_visit m = sorted_list_of_set (dom m)"

lemma example_visit_law: "range_law example_visit"
  by (simp add: range_law_def example_visit_def)

lemma no_overrides: "apply_debug_addr_override [] (apply_debug_env_overrides (\<lambda>_. []) pfx (Some d)) = Some d"
  by (simp add: apply_debug_addr_override_def apply_debug_env_overrides_def env_bool_def to_lower_def)

lemma prepare_example:
  "prepare pfx at_debug invalid (example_surroundings cfg) example_invocation = Inr (at_debug (\<lambda>d. d) cfg)"
  by (simp add: prepare_def example_surroundings_def example_invocation_def no_overrides Let_def)

lemma example_debug: "\<exists>s. debug_server (default_debug 6061\<lparr>ds_enabled := True\<rparr>) = Inr s"
proof -
  have "trim_space ''127.0.0.1'' = ''127.0.0.1''"
    by (rule trim_space_trimmed) (simp add: trimmed_def is_space_code)
  moreover from this have "is_loopback_host ''127.0.0.1''"
    by (simp add: is_loopback_host_def trim_suffix_def trim_prefix_def has_prefix_def has_suffix_def
        equal_fold_def to_lower_def lower_char_def parse_ip_def parse_ipv4_def ipv4_field_def is_digit_def
        digits_val_def digit_val_def ipv4_prefix_def ip_is_loopback_def nth_append)
  ultimately show ?thesis by (simp add: debug_server_def default_debug_def Let_def)
qed

lemma example_start:
  "\<exists>r d. smtp_main 1 example_visit None (\<lambda>_ _. True) all_connected (example_surroundings example_config) example_invocation = Running r \<and>
    sm_debug r = Some d \<and> sm_servers r \<noteq> []"
proof -
  obtain s where s: "debug_server (default_debug 6061\<lparr>ds_enabled := True\<rparr>) = Inr s" using example_debug by blast
  have v: "example_visit (active_domain_ips (cf_domains example_config)) = [''example.com'']"
    by (simp add: example_visit_def active_domain_ips_def example_config_def)
  have a: "(case split_host_port (join_host_port ''0.0.0.0'' (format_int 25)) of None \<Rightarrow> False | Some (h, _) \<Rightarrow> h = ''0.0.0.0'')"
    by code_simp
  then obtain q where q: "split_host_port (join_host_port ''0.0.0.0'' (format_int 25)) = Some (''0.0.0.0'', q)"
    by (auto split: option.splits)
  have "\<exists>servers. start_smtp_servers 1 example_visit None example_config None = Inr servers \<and> servers \<noteq> []"
    unfolding start_smtp_servers_def Let_def v
    by (simp add: build_listeners_def ip_domains_def listen_addrs_def active_domain_ips_def example_config_def default_smtp_server_def
        default_config_def q is_local_ip_def)
  then obtain servers where "start_smtp_servers 1 example_visit None example_config None = Inr servers" "servers \<noteq> []" by blast
  moreover have "smtp_debug (\<lambda>d. d) example_config = example_config"
    by (simp add: smtp_debug_def)
  ultimately show ?thesis
    using s
    by (simp add: smtp_main_def prepare_smtp_def prepare_example smtp_tls_def all_connected_def start_debug_def example_config_def
        default_config_def default_smtp_server_def Let_def)
qed

text \<open>
  C36: no debug endpoint is public: whatever configuration file, flags and environment variables the three
  programs are started with, and although the configuration is not validated at a start, the debug server of a
  program that runs listens on a loopback host and a valid port.
\<close>

theorem debug_endpoints_are_local:
  assumes "runs_debug (smtp_main gomax visit interface_addrs key_pair cn en iv) (worker_main cn en iv)
    (api_main gomax url_parse sync proxies_ok cn en iv) ((addr, paths), names)"
  shows "\<exists>host port. is_loopback_host host \<and> addr = join_host_port host (format_int port) \<and> 0 < port \<and> port \<le> 65535"
proof -
  have "\<exists>d checks. start_debug d checks = Inr (Some ((addr, paths), names))"
    using assms unfolding runs_debug_def by (metis smtp_main_running worker_main_running api_main_running)
  then show ?thesis using start_debug_local by blast
qed

theorem debug_endpoints_are_local_witness:
  "\<exists>r addr paths names. smtp_main 1 example_visit None (\<lambda>_ _. True) all_connected (example_surroundings example_config)
       example_invocation = Running r \<and> sm_debug r = Some ((addr, paths), names) \<and>
     (\<exists>host port. is_loopback_host host \<and> addr = join_host_port host (format_int port) \<and> 0 < port \<and> port \<le> 65535)"
proof -
  let ?en = "example_surroundings example_config" and ?iv = example_invocation
  obtain r d where r: "smtp_main 1 example_visit None (\<lambda>_ _. True) all_connected ?en ?iv = Running r" and d: "sm_debug r = Some d"
    using example_start by blast
  obtain addr paths names where ap: "d = ((addr, paths), names)" by (metis surj_pair)
  have "runs_debug (smtp_main 1 example_visit None (\<lambda>_ _. True) all_connected ?en ?iv) (worker_main all_connected ?en ?iv)
      (api_main 1 (\<lambda>_. None) (\<lambda>_. True) (\<lambda>_. True) all_connected ?en ?iv) ((addr, paths), names)"
    using r d ap by (auto simp: runs_debug_def)
  from debug_endpoints_are_local [OF this] show ?thesis using r d ap by blast
qed

section \<open>The SMTP listeners\<close>

lemma active_domain_ips_append:
  "active_domain_ips (ds @ [d]) = (if dc_is_active d then (active_domain_ips ds)(dc_domain d \<mapsto> dc_ips d) else active_domain_ips ds)"
  by (simp add: active_domain_ips_def)

lemma active_domain_ips_finite: "finite (dom (active_domain_ips ds))"
  by (induction ds rule: rev_induct) (simp_all add: active_domain_ips_append active_domain_ips_def)

text \<open>The last active entry of a name counts.\<close>

lemma active_domain_ips_eq:
  "active_domain_ips ds name = map_option dc_ips (find (\<lambda>d. dc_is_active d \<and> dc_domain d = name) (rev ds))"
  by (induction ds rule: rev_induct) (auto simp: active_domain_ips_append active_domain_ips_def)

lemma smtp_tls_version:
  assumes "smtp_tls key_pair tls = Inr v"
  shows "(v \<noteq> None) = st_enabled tls" "v = Some n \<Longrightarrow> n \<in> {0x0303, 0x0304}"
  using assms by (auto simp: smtp_tls_def parse_tls_min_version_def Let_def split: if_splits option.splits)

lemma started_servers:
  assumes "start_smtp_servers gomax visit interface_addrs cfg tls = Inr servers" "srv \<in> set servers"
  shows "be_require_tls (fst (sr_backend srv)) = st_require_tls (ss_tls (sv_smtp (cf_server cfg)))" "sr_tls srv = tls"
  using assms by (auto simp: start_smtp_servers_def new_server_def new_backend_def Let_def split: if_splits)

lemma visited_domains:
  assumes "range_law visit"
  shows "list_ex (\<lambda>(d, ips). d = name \<and> P ips) (map (\<lambda>d. (d, the (active_domain_ips ds d))) (visit (active_domain_ips ds))) =
    (\<exists>ips. active_domain_ips ds name = Some ips \<and> P ips)"
proof -
  have "set (visit (active_domain_ips ds)) = dom (active_domain_ips ds)"
    using assms active_domain_ips_finite by (simp add: range_law_def)
  then show ?thesis by (auto simp: list_ex_iff)
qed

lemma started_listeners:
  assumes law: "range_law visit" and ds: "cf_domains cfg \<noteq> []"
    and run: "start_smtp_servers gomax visit interface_addrs cfg tls = Inr servers"
  shows "servers \<noteq> [] \<and> distinct (map sr_addr servers) \<and>
    ((\<exists>srv \<in> set servers. sr_addr srv = addr \<and> name \<in> set (be_allowed_domains (fst (sr_backend srv)))) \<longleftrightarrow>
      is_local_addr interface_addrs addr \<and>
      (\<exists>ips. active_domain_ips (cf_domains cfg) name = Some ips \<and>
        addr \<in> set (listen_addrs ips (ss_port (sv_smtp (cf_server cfg))))))"
proof -
  let ?m = "active_domain_ips (cf_domains cfg)" and ?port = "ss_port (sv_smtp (cf_server cfg))"
  define ls where "ls = build_listeners interface_addrs (map (\<lambda>d. (d, the (?m d))) (visit ?m)) ?port"
  obtain serve where servers: "servers = map (\<lambda>l. serve (lc_addr l) (lc_domains l)) ls" and ne: "ls \<noteq> []"
    and serve: "\<And>a d. sr_addr (serve a d) = a" "\<And>a d. be_allowed_domains (fst (sr_backend (serve a d))) = d"
  proof -
    let ?s = "\<lambda>addr domains. new_server (new_backend gomax (cf_account_ttl cfg) (st_require_tls (ss_tls (sv_smtp (cf_server cfg))))
      (ss_domain (sv_smtp (cf_server cfg))) domains (ss_max_message_bytes (sv_smtp (cf_server cfg)))) addr (sv_smtp (cf_server cfg)) tls"
    have "sr_addr (?s a d) = a" "be_allowed_domains (fst (sr_backend (?s a d))) = d" for a d
      by (simp_all add: new_server_def new_backend_def Let_def)
    moreover have "servers = map (\<lambda>l. ?s (lc_addr l) (lc_domains l)) ls \<and> ls \<noteq> []"
      using run ds by (simp add: start_smtp_servers_def Let_def ls_def [symmetric] split: if_splits)
    ultimately show thesis by (intro that [of ?s]) auto
  qed
  have addrs: "map sr_addr servers = map lc_addr ls" by (simp add: servers serve)
  have "(\<exists>srv \<in> set servers. sr_addr srv = addr \<and> name \<in> set (be_allowed_domains (fst (sr_backend srv)))) \<longleftrightarrow>
      list_ex (\<lambda>l. lc_addr l = addr \<and> name \<in> set (lc_domains l)) ls"
    by (auto simp: servers serve list_ex_iff)
  also have "\<dots> \<longleftrightarrow> is_local_addr interface_addrs addr \<and>
      (\<exists>ips. ?m name = Some ips \<and> addr \<in> set (listen_addrs ips ?port))"
    unfolding ls_def listeners_serve_configured_domains [THEN conjunct2, THEN conjunct2] visited_domains [OF law] ..
  moreover have "distinct (map sr_addr servers)"
    unfolding addrs ls_def by (rule listeners_serve_configured_domains [THEN conjunct1])
  moreover have "servers \<noteq> []" using ne by (simp add: servers)
  ultimately show ?thesis by blast
qed

text \<open>
  C29: what the SMTP program serves when it has started. TLS is on exactly when the configuration enables it,
  then with at least version 1.2, and every session requires it if the configuration says so. If domains are configured
  there is a server, the addresses are distinct, and a server on an address accepts a domain exactly when the address is
  one of this machine and is among the addresses of the domain's last active entry in the configuration.
\<close>

theorem started_smtp_service:
  assumes range: "range_law visit" and run: "smtp_main gomax visit interface_addrs key_pair cn en iv = Running r"
  shows "\<exists>cfg. en_load en (config_path iv) = Inr cfg \<and>
    (\<forall>srv \<in> set (sm_servers r).
       be_require_tls (fst (sr_backend srv)) = st_require_tls (ss_tls (sv_smtp (cf_server cfg))) \<and>
       (sr_tls srv \<noteq> None) = st_enabled (ss_tls (sv_smtp (cf_server cfg))) \<and> (\<forall>n. sr_tls srv = Some n \<longrightarrow> n \<in> {0x0303, 0x0304})) \<and>
    (cf_domains cfg \<noteq> [] \<longrightarrow> sm_servers r \<noteq> [] \<and> distinct (map sr_addr (sm_servers r)) \<and>
       (\<forall>addr name. (\<exists>srv \<in> set (sm_servers r). sr_addr srv = addr \<and> name \<in> set (be_allowed_domains (fst (sr_backend srv)))) \<longleftrightarrow>
          is_local_addr interface_addrs addr \<and>
          (\<exists>d. find (\<lambda>d. dc_is_active d \<and> dc_domain d = name) (rev (cf_domains cfg)) = Some d \<and>
             addr \<in> set (listen_addrs (dc_ips d) (ss_port (sv_smtp (cf_server cfg)))))))"
proof -
  obtain cfg tls where cfg: "(prepare_smtp en iv :: smtp_service run + config) = Inr cfg"
    and tls: "smtp_tls key_pair (ss_tls (sv_smtp (cf_server cfg))) = Inr tls"
    and srv: "start_smtp_servers gomax visit interface_addrs cfg tls = Inr (sm_servers r)"
    using smtp_main_running [OF run] by blast
  obtain cfg0 f where cfg0: "en_load en (config_path iv) = Inr cfg0" "cfg = smtp_debug f cfg0"
    using prepare_goes_on cfg unfolding prepare_smtp_def by blast
  have same: "ss_tls (sv_smtp (cf_server cfg)) = ss_tls (sv_smtp (cf_server cfg0))"
    "ss_port (sv_smtp (cf_server cfg)) = ss_port (sv_smtp (cf_server cfg0))" "cf_domains cfg = cf_domains cfg0"
    by (simp_all add: cfg0(2) smtp_debug_def)
  have find: "(\<exists>ips. active_domain_ips ds name = Some ips \<and> P ips) \<longleftrightarrow>
      (\<exists>d. find (\<lambda>d. dc_is_active d \<and> dc_domain d = name) (rev ds) = Some d \<and> P (dc_ips d))" for ds name P
    by (auto simp: active_domain_ips_eq)
  show ?thesis
    using cfg0(1) started_servers [OF srv] smtp_tls_version [OF tls] started_listeners [OF range _ srv]
    unfolding same find by (intro exI [of _ cfg0]) simp
qed

theorem started_smtp_service_witness:
  "\<exists>r. smtp_main 1 example_visit None (\<lambda>_ _. True) all_connected (example_surroundings example_config) example_invocation = Running r \<and>
    (\<exists>srv \<in> set (sm_servers r). ''example.com'' \<in> set (be_allowed_domains (fst (sr_backend srv))) \<and> sr_tls srv = None)"
proof -
  let ?en = "example_surroundings example_config" and ?iv = example_invocation
  let ?addr = "join_host_port ''0.0.0.0'' (format_int 25)"
  obtain r where r: "smtp_main 1 example_visit None (\<lambda>_ _. True) all_connected ?en ?iv = Running r" using example_start by blast
  have cfg: "en_load ?en (config_path ?iv) = Inr c \<longleftrightarrow> c = example_config" for c by (auto simp: example_surroundings_def)
  have a: "is_local_addr None ?addr \<and> ?addr \<in> set (listen_addrs [] 25)" by code_simp
  have c: "cf_domains example_config \<noteq> []" "ss_port (sv_smtp (cf_server example_config)) = 25"
    "\<not> st_enabled (ss_tls (sv_smtp (cf_server example_config)))"
    "find (\<lambda>d. dc_is_active d \<and> dc_domain d = ''example.com'') (rev (cf_domains example_config)) =
       Some \<lparr>dc_domain = ''example.com'', dc_is_active = True, dc_is_private = False, dc_ips = []\<rparr>"
    by (simp_all add: example_config_def default_config_def default_smtp_server_def)
  show ?thesis using started_smtp_service [OF example_visit_law r] r a c unfolding cfg by force
qed

text \<open>
  Since only \<open>-check-config\<close> and \<open>-print-effective-config\<close> validate the configuration, the API also starts with one
  that its validation refuses, for example with an empty secret for the tokens it signs.
\<close>

definition empty_secret_config :: config where
  "empty_secret_config = default_config\<lparr>cf_jwt := (cf_jwt default_config)\<lparr>jc_secret := []\<rparr>\<rparr>"

lemma api_starts_without_secret:
  "\<exists>r. api_main 1 (\<lambda>_. None) (\<lambda>_. True) (\<lambda>_. True) all_connected (example_surroundings empty_secret_config)
     example_invocation = Running r \<and> am_jwt_secret r = []"
  by (simp add: api_main_def prepare_api_def prepare_example start_debug_def api_debug_def all_connected_def default_config_def
      default_api_server_def default_debug_def empty_secret_config_def Let_def)

lemma empty_secret_refused: "validate_api_config url_parse (Some empty_secret_config) \<noteq> None"
proof
  assume "validate_api_config url_parse (Some empty_secret_config) = None"
  then have "required (jc_secret (cf_jwt empty_secret_config)) ''jwt.secret'' = None"
    unfolding validate_api_config_def Let_def option.sel by (simp only: first_error_None list.pred_inject option.distinct split: option.splits)
  then show False by (simp add: empty_secret_config_def default_config_def)
qed

end
