(* ===== verification/Clients.thy ===== *)
theory Clients
  imports Queue Cache Storage
begin

text \<open>
  How the packages open, use and close what they are connected to: \<open>New\<close>, \<open>Close\<close> and the frame of \<open>Consume\<close> in
  \<open>internal/queue/queue.go\<close>; \<open>New\<close>, \<open>Close\<close>, \<open>Publish\<close> and \<open>Subscribe\<close> in \<open>internal/cache/cache.go\<close> with the goroutine that sweeps the
  cache of blocked keys; \<open>GetPresignedURL\<close> in \<open>internal/storage/storage.go\<close>; \<open>checkNATSStream\<close> of the programs. The clients of NATS,
  Redis and MinIO are libraries: records of functions over the state of the outside world.
\<close>

section \<open>The queue's connection\<close>

datatype retention = WorkQueuePolicy

record stream_config =
  st_name :: string
  st_subjects :: "string list"
  st_retention :: retention
  st_max_bytes :: int
  st_max_age :: duration

record consumer_config =
  cs_durable :: string
  cs_explicit_ack :: bool
  cs_max_deliver :: int
  cs_ack_wait :: duration
  cs_filter_subject :: string

record connect_options =
  co_retry :: bool
  co_max_reconnects :: int
  co_reconnect_wait :: duration

record ('c, 's) nats_client =
  na_connect :: "string \<Rightarrow> connect_options \<Rightarrow> 's \<Rightarrow> (go_error + 'c) \<times> 's"
  na_jetstream :: "'c \<Rightarrow> 's \<Rightarrow> go_error option"
  na_create_stream :: "'c \<Rightarrow> stream_config \<Rightarrow> 's \<Rightarrow> go_error option \<times> 's"
  na_create_consumer :: "'c \<Rightarrow> string \<Rightarrow> consumer_config \<Rightarrow> 's \<Rightarrow> go_error option \<times> 's"
  na_consume :: "'c \<Rightarrow> 's \<Rightarrow> go_error option \<times> 's"
  na_until_done :: "'s \<Rightarrow> 's"
  na_stop :: "'c \<Rightarrow> 's \<Rightarrow> 's"
  na_close :: "'c \<Rightarrow> 's \<Rightarrow> 's"
  na_connected :: "'c \<Rightarrow> 's \<Rightarrow> bool"
  na_status :: "'c \<Rightarrow> 's \<Rightarrow> string"
  na_stream_exists :: "'c \<Rightarrow> string \<Rightarrow> 's \<Rightarrow> go_error option"

record 'c queue_conn =
  qc_conn :: 'c
  qc_stream :: string
  qc_subject :: string
  qc_ack_wait :: duration
  qc_max_deliver :: int

definition queue_options :: connect_options where
  "queue_options = \<lparr>co_retry = True, co_max_reconnects = 10, co_reconnect_wait = second\<rparr>"

definition queue_stream :: "string \<Rightarrow> string \<Rightarrow> stream_config" where
  "queue_stream stream subject =
     \<lparr>st_name = stream, st_subjects = [subject], st_retention = WorkQueuePolicy, st_max_bytes = 2 ^ 30, st_max_age = 24 * hour\<rparr>"

definition new_queue ::
  "('c, 's) nats_client \<Rightarrow> string \<Rightarrow> string \<Rightarrow> string \<Rightarrow> duration \<Rightarrow> int \<Rightarrow> 's \<Rightarrow> (go_error + 'c queue_conn) \<times> 's" where
  "new_queue na url stream subject ack_wait0 max_deliver0 s =
     (case na_connect na url queue_options s of
        (Inl err, s1) \<Rightarrow> (Inl (WrapError ''nats connect'' err), s1)
      | (Inr nc, s1) \<Rightarrow>
          (case na_jetstream na nc s1 of
             Some err \<Rightarrow> (Inl (WrapError ''jetstream new'' err), na_close na nc s1)
           | None \<Rightarrow>
               (case na_create_stream na nc (queue_stream stream subject) s1 of
                  (Some err, s2) \<Rightarrow> (Inl (WrapError ''create stream'' err), na_close na nc s2)
                | (None, s2) \<Rightarrow>
                    (let (ack_wait, max_deliver) = consumer_defaults ack_wait0 max_deliver0 in
                     (Inr \<lparr>qc_conn = nc, qc_stream = stream, qc_subject = subject, qc_ack_wait = ack_wait,
                        qc_max_deliver = max_deliver\<rparr>, s2)))))"

definition close_queue :: "('c, 's) nats_client \<Rightarrow> 'c queue_conn \<Rightarrow> 's \<Rightarrow> 's" where
  "close_queue na q s = na_close na (qc_conn q) s"

definition worker_consumer :: "'c queue_conn \<Rightarrow> consumer_config" where
  "worker_consumer q =
     \<lparr>cs_durable = ''email-worker'', cs_explicit_ack = True, cs_max_deliver = qc_max_deliver q,
      cs_ack_wait = qc_ack_wait q, cs_filter_subject = qc_subject q\<rparr>"

text \<open>\<open>Consume\<close> around its callback: it returns when its context is done, without waiting for the callbacks that still run.\<close>

definition consume_until_done :: "('c, 's) nats_client \<Rightarrow> 'c queue_conn \<Rightarrow> 's \<Rightarrow> go_error option \<times> 's" where
  "consume_until_done na q s =
     (case na_consume na (qc_conn q) s of
        (Some err, s1) \<Rightarrow> (Some (WrapError ''consume'' err), s1)
      | (None, s1) \<Rightarrow> (None, na_stop na (qc_conn q) (na_until_done na s1)))"

definition consume_queue :: "('c, 's) nats_client \<Rightarrow> 'c queue_conn \<Rightarrow> 's \<Rightarrow> go_error option \<times> 's" where
  "consume_queue na q s =
     (case na_create_consumer na (qc_conn q) (qc_stream q) (worker_consumer q) s of
        (Some err, s1) \<Rightarrow> (Some (WrapError ''create consumer'' err), s1)
      | (None, s1) \<Rightarrow> consume_until_done na q s1)"

text \<open>\<open>quote\<close> is the verb \<open>%q\<close> of \<open>fmt\<close>.\<close>

definition check_nats_stream ::
  "(string \<Rightarrow> string) \<Rightarrow> ('c, 's) nats_client \<Rightarrow> 'c option \<Rightarrow> string \<Rightarrow> 's \<Rightarrow> go_error option" where
  "check_nats_stream quote na nc stream s =
     (case nc of
        None \<Rightarrow> Some (PlainError ''no nats health connection'')
      | Some c \<Rightarrow>
          if \<not> na_connected na c s then Some (PlainError (''nats status: '' @ na_status na c s))
          else
            (case na_jetstream na c s of
               Some err \<Rightarrow> Some (WrapError ''jetstream'' err)
             | None \<Rightarrow> map_option (WrapError (''stream '' @ quote stream)) (na_stream_exists na c stream s)))"

section \<open>The cache's connection\<close>

record ('c, 's) redis_client =
  rc_new :: "string \<Rightarrow> string \<Rightarrow> int \<Rightarrow> 's \<Rightarrow> 'c \<times> 's"
  rc_ping :: "'c \<Rightarrow> 's \<Rightarrow> go_error option"
  rc_close :: "'c \<Rightarrow> 's \<Rightarrow> go_error option \<times> 's"
  rc_publish :: "'c \<Rightarrow> string \<Rightarrow> string \<Rightarrow> 's \<Rightarrow> go_error option \<times> 's"
  rc_subscribe :: "'c \<Rightarrow> string \<Rightarrow> 's \<Rightarrow> nat \<times> 's"

definition new_cache ::
  "('c, 's) redis_client \<Rightarrow> string \<Rightarrow> string \<Rightarrow> int \<Rightarrow> 's \<Rightarrow> (go_error + 'c \<times> block_cache) \<times> 's" where
  "new_cache rc addr password db s =
     (let (c, s1) = rc_new rc addr password db s in
      case rc_ping rc c s1 of
        Some err \<Rightarrow> (Inl (WrapError ''redis ping'' err), snd (rc_close rc c s1))
      | None \<Rightarrow> (Inr (c, new_block_cache 200000 (30 * second)), s1))"

text \<open>After the goroutine of the cache of blocked keys has ended (below).\<close>

definition close_cache :: "('c, 's) redis_client \<Rightarrow> 'c \<Rightarrow> 's \<Rightarrow> go_error option \<times> 's" where
  "close_cache rc c s = rc_close rc c s"

definition cache_publish :: "('c, 's) redis_client \<Rightarrow> 'c \<Rightarrow> string \<Rightarrow> string \<Rightarrow> 's \<Rightarrow> go_error option \<times> 's" where
  "cache_publish rc c account_id payload s = rc_publish rc c (event_channel account_id) payload s"

definition cache_subscribe :: "('c, 's) redis_client \<Rightarrow> 'c \<Rightarrow> string \<Rightarrow> 's \<Rightarrow> nat \<times> 's" where
  "cache_subscribe rc c account_id s = rc_subscribe rc c (event_channel account_id) s"

section \<open>The goroutine that sweeps the cache of blocked keys\<close>

text \<open>
  \<open>Close\<close> closes \<open>stopCh\<close> and waits for \<open>doneCh\<close>; a further \<open>Close\<close> panics, recovers and returns at once. \<open>sw_closers\<close> holds the
  phase of each call.
\<close>

datatype closer = NotCalled | AwaitsDone | HasClosed

record sweeper =
  sw_cache :: block_cache
  sw_stopping :: bool
  sw_done :: bool
  sw_closers :: "nat \<Rightarrow> closer"

definition start_sweeper :: "int \<Rightarrow> duration \<Rightarrow> sweeper" where
  "start_sweeper max_entries interval =
     \<lparr>sw_cache = new_block_cache max_entries interval, sw_stopping = False, sw_done = False, sw_closers = (\<lambda>i. NotCalled)\<rparr>"

inductive sweeper_step :: "((string \<rightharpoonup> int) \<Rightarrow> string list) \<Rightarrow> sweeper \<Rightarrow> sweeper \<Rightarrow> bool" for visit where
  used: "op = BcIsBlocked key now \<or> op = BcBlock key until now \<Longrightarrow>
    sweeper_step visit s (s\<lparr>sw_cache := bc_step visit op (sw_cache s)\<rparr>)"
| sweeps: "\<not> sw_done s \<Longrightarrow> sweeper_step visit s (s\<lparr>sw_cache := bc_sweep visit now (sw_cache s)\<rparr>)"
| stops: "sw_stopping s \<Longrightarrow> \<not> sw_done s \<Longrightarrow>
    sweeper_step visit s (s\<lparr>sw_cache := bc_sweep visit now (sw_cache s), sw_done := True\<rparr>)"
| closes: "sw_closers s i = NotCalled \<Longrightarrow>
    sweeper_step visit s
      (if sw_stopping s then s\<lparr>sw_closers := (sw_closers s)(i := HasClosed)\<rparr>
       else s\<lparr>sw_stopping := True, sw_closers := (sw_closers s)(i := AwaitsDone)\<rparr>)"
| close_returns: "sw_closers s i = AwaitsDone \<Longrightarrow> sw_done s \<Longrightarrow>
    sweeper_step visit s (s\<lparr>sw_closers := (sw_closers s)(i := HasClosed)\<rparr>)"

lemma sweeper_cache_step: "sweeper_step visit s s' \<Longrightarrow> sw_cache s' = sw_cache s \<or> (\<exists>op. sw_cache s' = bc_step visit op (sw_cache s))"
  by (erule sweeper_step.cases) (auto simp: bc_step_def intro: exI [of _ "BcSweep _"] split: block_op.splits)

definition sweeper_ok :: "sweeper \<Rightarrow> bool" where
  "sweeper_ok s \<longleftrightarrow> exact (sw_cache s) \<and> (sw_done s \<longrightarrow> sw_stopping s) \<and>
     (sw_stopping s \<longleftrightarrow> (\<exists>i. sw_closers s i \<noteq> NotCalled)) \<and>
     (sw_stopping s \<and> \<not> sw_done s \<longrightarrow> (\<exists>i. sw_closers s i = AwaitsDone))"

text \<open>The first \<open>Close\<close> returns only after the goroutine has ended; every call returns once it has.\<close>

lemma sweeper_ok_run:
  assumes "(sweeper_step visit)\<^sup>*\<^sup>* (start_sweeper max_entries interval) s"
  shows "sweeper_ok s"
  using assms
proof (induction rule: rtranclp_induct)
  case base
  then show ?case by (simp add: sweeper_ok_def start_sweeper_def new_block_cache_def exact_def)
next
  case (step s t)
  have "exact (bc_step visit op (sw_cache s))" for op
    using block_cache.step_count [of "sw_cache s" visit op] step.IH by (simp add: sweeper_ok_def exact_def)
  then have e: "exact (sw_cache t)" using sweeper_cache_step [OF step.hyps(2)] step.IH by (auto simp: sweeper_ok_def)
  from step.hyps(2) show ?case
  proof cases
    case (closes i)
    show ?thesis
    proof (cases "sw_stopping s")
      case True
      have "\<exists>j. j \<noteq> i \<and> sw_closers s j = AwaitsDone" if "\<not> sw_done s"
        using step.IH True that closes(2) by (metis closer.distinct(1) sweeper_ok_def)
      then show ?thesis using e step.IH True closes unfolding sweeper_ok_def by auto
    next
      case False
      then show ?thesis using e step.IH closes unfolding sweeper_ok_def by auto
    qed
  next
    case (close_returns i)
    then show ?thesis using e step.IH unfolding sweeper_ok_def by auto
  qed (use e step.IH in \<open>auto simp: sweeper_ok_def\<close>)
qed

section \<open>A presigned URL\<close>

definition get_presigned_url ::
  "(string \<Rightarrow> string \<Rightarrow> duration \<Rightarrow> go_error + string) \<Rightarrow> string \<Rightarrow> string \<Rightarrow> string \<Rightarrow> string \<Rightarrow> duration \<Rightarrow> go_error + string" where
  "get_presigned_url presign bucket message_id attachment_id filename expiry =
     presign bucket (object_key message_id attachment_id filename) expiry"

section \<open>No connection is lost\<close>

text \<open>What the client promises of the open connections.\<close>

definition nats_laws :: "('s \<Rightarrow> 'c set) \<Rightarrow> ('c, 's) nats_client \<Rightarrow> bool" where
  "nats_laws conns na \<longleftrightarrow>
     (\<forall>url o' s. case na_connect na url o' s of (Inl err, s') \<Rightarrow> conns s' = conns s
        | (Inr c, s') \<Rightarrow> c \<notin> conns s \<and> conns s' = insert c (conns s)) \<and>
     (\<forall>c cfg s. conns (snd (na_create_stream na c cfg s)) = conns s) \<and>
     (\<forall>c s. conns (na_close na c s) = conns s - {c})"

lemma new_queue_connections:
  assumes "nats_laws conns na" and "new_queue na url stream subject ack_wait max_deliver s = (r, s')"
  shows "case r of Inl err \<Rightarrow> conns s' = conns s
    | Inr q \<Rightarrow> conns s' = insert (qc_conn q) (conns s) \<and> conns (close_queue na q s') = conns s \<and>
        0 < qc_ack_wait q \<and> 0 < qc_max_deliver q"
proof -
  obtain r1 s1 where c: "na_connect na url queue_options s = (r1, s1)" by fastforce
  from assms(1) have "case na_connect na url queue_options s of (Inl err, s') \<Rightarrow> conns s' = conns s
      | (Inr c, s') \<Rightarrow> c \<notin> conns s \<and> conns s' = insert c (conns s)"
    unfolding nats_laws_def by (elim conjE) (drule spec [of _ url], drule spec [of _ queue_options], drule spec [of _ s])
  then have L: "case r1 of Inl err \<Rightarrow> conns s1 = conns s | Inr c \<Rightarrow> c \<notin> conns s \<and> conns s1 = insert c (conns s)"
    unfolding c by simp
  have closed: "conns (na_close na c t) = conns t - {c}" for c t using assms(1) by (simp add: nats_laws_def)
  show ?thesis
  proof (cases r1)
    case (Inl err)
    then show ?thesis using assms(2) c L by (auto simp: new_queue_def)
  next
    case (Inr nc)
    obtain err2 s2 where st: "na_create_stream na nc (queue_stream stream subject) s1 = (err2, s2)" by fastforce
    have "conns s2 = conns s1" using assms(1) st unfolding nats_laws_def by (metis snd_conv)
    then show ?thesis
      using assms(2) L closed unfolding new_queue_def c Inr
      by (auto simp: st consumer_defaults_def second_def close_queue_def split: option.splits)
  qed
qed

text \<open>
  The lease of a delivery is renewed in time exactly when the acknowledgement wait is more than five seconds; the validation
  of the configuration asks only for a positive one.
\<close>

lemma lease_renewal: "0 < ack_wait \<Longrightarrow> in_progress_every ack_wait < ack_wait \<longleftrightarrow> 5 * second < ack_wait"
  by (auto simp: in_progress_every_def Let_def second_def)

end
