(* ===== verification/Lifecycle.thy ===== *)
theory Lifecycle
  imports Prelude Queue
begin

text \<open>
  How the programs end: the end of \<open>main\<close> in \<open>cmd/worker/main.go\<close>, \<open>cmd/smtp/main.go\<close> and \<open>cmd/api/main.go\<close>, from the signal (or the
  worker's own end) to the return, as timed step relations. A signal may come at any time, requests begin and end as they like; what
  \<open>main\<close> does itself takes no time, so that time passes only where it waits, and not beyond the deadline of what it waits for.
\<close>

section \<open>What the three programs have in common\<close>

text \<open>
  \<open>due\<close> is the instant by which a program that was asked to end has ended; \<open>rank\<close> counts what it has still to do.
\<close>

locale timed_end =
  fixes step :: "'s \<Rightarrow> 's \<Rightarrow> bool" and now :: "'s \<Rightarrow> time" and due :: "'s \<Rightarrow> time option"
    and over :: "'s \<Rightarrow> bool" and rank :: "'s \<Rightarrow> nat"
  assumes over_stays: "step s s' \<Longrightarrow> over s \<Longrightarrow> over s'"
    and due_kept: "step s s' \<Longrightarrow> due s = Some d \<Longrightarrow> now s \<le> d \<Longrightarrow> \<not> over s \<Longrightarrow>
      over s' \<or> (\<exists>d'. due s' = Some d' \<and> now s' \<le> d' \<and> d' \<le> d)"
    and moves: "due s = Some d \<Longrightarrow> now s \<le> d \<Longrightarrow> \<not> over s \<Longrightarrow> \<exists>s'. step s s' \<and> rank s' < rank s"
begin

lemma run_in_time:
  assumes "step\<^sup>*\<^sup>* s s'" and "due s = Some d" and "now s \<le> d"
  shows "over s' \<or> (\<exists>d'. due s' = Some d' \<and> now s' \<le> d' \<and> d' \<le> d)"
  using assms(1)
proof (induction rule: rtranclp_induct)
  case base
  then show ?case using assms(2,3) by auto
next
  case (step t u)
  show ?case
  proof (cases "over t")
    case True
    then show ?thesis using over_stays step.hyps(2) by blast
  next
    case False
    then obtain d' where "due t = Some d'" "now t \<le> d'" "d' \<le> d" using step.IH by blast
    then show ?thesis using due_kept [OF step.hyps(2) _ _ False] by force
  qed
qed

lemma can_end:
  assumes "due s = Some d" and "now s \<le> d"
  shows "\<exists>s'. step\<^sup>*\<^sup>* s s' \<and> over s'"
  using assms
proof (induction "rank s" arbitrary: s d rule: less_induct)
  case less
  show ?case
  proof (cases "over s")
    case False
    then obtain t where t: "step s t" "rank t < rank s" using moves less.prems by blast
    from due_kept [OF t(1) less.prems False] show ?thesis
    proof
      assume "\<exists>d'. due t = Some d' \<and> now t \<le> d' \<and> d' \<le> d"
      then obtain u where "step\<^sup>*\<^sup>* t u" "over u" using less.hyps t(2) by blast
      then show ?thesis using t(1) by (meson converse_rtranclp_into_rtranclp)
    qed (use t(1) in blast)
  qed auto
qed

end

text \<open>
  \<open>Shutdown\<close> of an HTTP server: its listener is closed; it looks for active requests, waits a little while there are some
  and looks again, until there are none or its context is done. Connections that were taken over (WebSockets) do not count.
\<close>

datatype shutdown = Polling | Pausing | AllIdle | Expired

inductive shutdown_step :: "nat set \<Rightarrow> time \<Rightarrow> time \<Rightarrow> shutdown \<Rightarrow> shutdown \<Rightarrow> bool" for active now deadline where
  idle: "active = {} \<Longrightarrow> shutdown_step active now deadline Polling AllIdle"
| busy: "active \<noteq> {} \<Longrightarrow> shutdown_step active now deadline Polling Pausing"
| again: "shutdown_step active now deadline Pausing Polling"
| expired: "deadline \<le> now \<Longrightarrow> shutdown_step active now deadline Pausing Expired"

inductive_cases shutdown_stepE: "shutdown_step active now deadline c c'"

definition returned :: "shutdown \<Rightarrow> bool" where "returned c = (c = AllIdle \<or> c = Expired)"

definition shutdown_rank :: "time \<Rightarrow> time \<Rightarrow> shutdown \<Rightarrow> nat" where
  "shutdown_rank now deadline c = (case c of Polling \<Rightarrow> 3 | Pausing \<Rightarrow> if now < deadline then 2 else 1 | _ \<Rightarrow> 0)"

lemma shutdown_moves:
  assumes "\<not> returned c"
  obtains c' where "shutdown_step active now deadline c c'" "shutdown_rank now deadline c' < shutdown_rank now deadline c"
  | "c = Pausing" "now < deadline" "shutdown_rank deadline deadline c < shutdown_rank now deadline c"
proof (cases c)
  case Polling
  then show thesis
    using that(1) [of AllIdle] that(1) [of Pausing]
    by (cases "active = {}") (simp_all add: shutdown_rank_def shutdown_step.intros)
next
  case Pausing
  show thesis
  proof (cases "now < deadline")
    case True
    then show thesis using that(2) Pausing by (simp add: shutdown_rank_def)
  next
    case False
    then have "shutdown_step active now deadline c Expired" using Pausing by (simp add: expired)
    then show thesis using that(1) [of Expired] Pausing False by (simp add: shutdown_rank_def)
  qed
qed (use assms in \<open>simp_all add: returned_def\<close>)

section \<open>The worker\<close>

text \<open>The error of \<open>Start\<close>: \<open>errors.Is(err, context.Canceled)\<close>, or another one.\<close>

datatype start_error = Canceled | StartError string

text \<open>
  \<open>Selecting\<close>: before the signal; \<open>StoppingDebug exited err deadline c\<close>: in the debug server's \<open>Shutdown\<close>, with \<open>workerExited\<close> and
  \<open>workerErr\<close>; \<open>AwaitingWorker deadline\<close>: in the last \<open>select\<close>; \<open>WorkerStopped err\<close>: returned.
\<close>

datatype worker_phase =
    Selecting
  | StoppingDebug bool "start_error option" time shutdown
  | AwaitingWorker time
  | WorkerStopped "start_error option"

record worker_life =
  wl_now :: time
  wl_quit :: bool
  wl_result :: "start_error option option"
  wl_running :: bool
  wl_cancelled :: bool
  wl_debug :: "nat set"
  wl_phase :: worker_phase

definition worker_started :: "time \<Rightarrow> worker_life" where
  "worker_started now = \<lparr>wl_now = now, wl_quit = False, wl_result = None, wl_running = True, wl_cancelled = False,
     wl_debug = {}, wl_phase = Selecting\<rparr>"

definition await_worker :: "bool \<Rightarrow> start_error option \<Rightarrow> worker_life \<Rightarrow> worker_life" where
  "await_worker exited err s =
     s\<lparr>wl_phase := (if exited then WorkerStopped err else AwaitingWorker (wl_now s + 5 * second))\<rparr>"

definition stop_debug :: "bool \<Rightarrow> bool \<Rightarrow> start_error option \<Rightarrow> worker_life \<Rightarrow> worker_life" where
  "stop_debug debug exited err s =
     (if debug then s\<lparr>wl_phase := StoppingDebug exited err (wl_now s + 5 * second) Polling\<rparr> else await_worker exited err s)"

text \<open>Where time may pass, and how far.\<close>

definition worker_waits :: "time \<Rightarrow> worker_life \<Rightarrow> bool" where
  "worker_waits t s =
     (case wl_phase s of
        Selecting \<Rightarrow> \<not> wl_quit s \<and> wl_result s = None
      | StoppingDebug exited err deadline c \<Rightarrow> c = Pausing \<and> t \<le> deadline
      | AwaitingWorker deadline \<Rightarrow> wl_result s = None \<and> t \<le> deadline
      | WorkerStopped err \<Rightarrow> True)"

text \<open>
  \<open>start_fails\<close>: \<open>Consume\<close> could not set its consumer up; \<open>start_ends\<close>: it has stopped, since \<open>runCtx\<close> is done. The rest is \<open>main\<close>.
\<close>

inductive worker_step :: "bool \<Rightarrow> worker_life \<Rightarrow> worker_life \<Rightarrow> bool" for debug :: bool where
  signal: "worker_step debug s (s\<lparr>wl_quit := True\<rparr>)"
| start_fails: "wl_running s \<Longrightarrow> worker_step debug s (s\<lparr>wl_running := False, wl_result := Some (Some err)\<rparr>)"
| start_ends: "wl_running s \<Longrightarrow> wl_cancelled s \<Longrightarrow> worker_step debug s (s\<lparr>wl_running := False, wl_result := Some None\<rparr>)"
| debug_request: "debug \<Longrightarrow> wl_phase s = Selecting \<Longrightarrow> worker_step debug s (s\<lparr>wl_debug := insert i (wl_debug s)\<rparr>)"
| debug_answered: "worker_step debug s (s\<lparr>wl_debug := wl_debug s - {i}\<rparr>)"
| take_quit: "wl_phase s = Selecting \<Longrightarrow> wl_quit s \<Longrightarrow>
    worker_step debug s (stop_debug debug False None (s\<lparr>wl_quit := False, wl_cancelled := True\<rparr>))"
| take_result: "wl_phase s = Selecting \<Longrightarrow> wl_result s = Some err \<Longrightarrow>
    worker_step debug s (stop_debug debug True err (s\<lparr>wl_result := None, wl_cancelled := True\<rparr>))"
| debug_shutdown: "wl_phase s = StoppingDebug exited err deadline c \<Longrightarrow> shutdown_step (wl_debug s) (wl_now s) deadline c c' \<Longrightarrow>
    worker_step debug s (if returned c' then await_worker exited err s else s\<lparr>wl_phase := StoppingDebug exited err deadline c'\<rparr>)"
| worker_answers: "wl_phase s = AwaitingWorker deadline \<Longrightarrow> wl_result s = Some err \<Longrightarrow>
    worker_step debug s (s\<lparr>wl_result := None, wl_phase := WorkerStopped err\<rparr>)"
| worker_late: "wl_phase s = AwaitingWorker deadline \<Longrightarrow> deadline \<le> wl_now s \<Longrightarrow>
    worker_step debug s (s\<lparr>wl_phase := WorkerStopped None\<rparr>)"
| tick: "wl_now s < t \<Longrightarrow> worker_waits t s \<Longrightarrow> worker_step debug s (s\<lparr>wl_now := t\<rparr>)"

text \<open>What is logged as the reason: nothing for a cancelled run.\<close>

definition logged_error :: "start_error option \<Rightarrow> start_error option" where
  "logged_error err = (if err \<noteq> None \<and> err \<noteq> Some Canceled then err else None)"

definition worker_asked :: "worker_life \<Rightarrow> bool" where
  "worker_asked s \<longleftrightarrow> wl_phase s = Selecting \<and> (wl_quit s \<or> wl_result s \<noteq> None)"

definition worker_over :: "worker_life \<Rightarrow> bool" where
  "worker_over s \<longleftrightarrow> (\<exists>err. wl_phase s = WorkerStopped err)"

definition worker_due :: "worker_life \<Rightarrow> time option" where
  "worker_due s =
     (case wl_phase s of
        Selecting \<Rightarrow> if wl_quit s \<or> wl_result s \<noteq> None then Some (wl_now s + 10 * second) else None
      | StoppingDebug exited err deadline c \<Rightarrow>
          if wl_now s \<le> deadline \<and> \<not> returned c then Some (if exited then deadline else deadline + 5 * second) else None
      | AwaitingWorker deadline \<Rightarrow> Some deadline
      | WorkerStopped err \<Rightarrow> None)"

definition worker_rank :: "worker_life \<Rightarrow> nat" where
  "worker_rank s =
     (case wl_phase s of
        Selecting \<Rightarrow> 20
      | StoppingDebug exited err deadline c \<Rightarrow> 10 + shutdown_rank (wl_now s) deadline c
      | AwaitingWorker deadline \<Rightarrow> if wl_now s < deadline then 2 else 1
      | WorkerStopped err \<Rightarrow> 0)"

interpretation worker_end: timed_end "worker_step debug" wl_now worker_due worker_over worker_rank
proof
  fix s s' assume "worker_step debug s s'" "worker_over s"
  then show "worker_over s'" by (cases rule: worker_step.cases) (auto simp: worker_over_def)
next
  fix s s' d assume "worker_step debug s s'" "worker_due s = Some d" "wl_now s \<le> d" "\<not> worker_over s"
  then show "worker_over s' \<or> (\<exists>d'. worker_due s' = Some d' \<and> wl_now s' \<le> d' \<and> d' \<le> d)"
    by (cases rule: worker_step.cases)
      (auto simp: worker_over_def worker_due_def worker_waits_def stop_debug_def await_worker_def second_def returned_def
        split: worker_phase.splits if_splits elim: shutdown_stepE)
next
  fix s d assume "worker_due s = Some d" "wl_now s \<le> d" "\<not> worker_over s"
  then show "\<exists>s'. worker_step debug s s' \<and> worker_rank s' < worker_rank s"
  proof (cases "wl_phase s")
    case Selecting
    then have "wl_quit s \<or> wl_result s \<noteq> None" using \<open>worker_due s = Some d\<close> by (simp add: worker_due_def split: if_splits)
    then obtain exited err t where "worker_step debug s (stop_debug debug exited err t)"
      using take_quit [OF Selecting] take_result [OF Selecting] by blast
    moreover have "worker_rank (stop_debug debug exited err t) < worker_rank s"
      using Selecting by (simp add: worker_rank_def stop_debug_def await_worker_def shutdown_rank_def)
    ultimately show ?thesis by blast
  next
    case (StoppingDebug exited err deadline c)
    then have c: "\<not> returned c" using \<open>worker_due s = Some d\<close> by (simp add: worker_due_def split: if_splits)
    show ?thesis
    proof (rule shutdown_moves [OF c, of "wl_debug s" "wl_now s" deadline])
      fix c' assume "shutdown_step (wl_debug s) (wl_now s) deadline c c'"
        "shutdown_rank (wl_now s) deadline c' < shutdown_rank (wl_now s) deadline c"
      then show ?thesis
        using debug_shutdown [OF StoppingDebug] StoppingDebug
        by (cases "returned c'") (force simp: worker_rank_def await_worker_def)+
    next
      assume "c = Pausing" "wl_now s < deadline" "shutdown_rank deadline deadline c < shutdown_rank (wl_now s) deadline c"
      then show ?thesis using tick [of s deadline debug] StoppingDebug
        by (intro exI [of _ "s\<lparr>wl_now := deadline\<rparr>"]) (simp add: worker_waits_def worker_rank_def)
    qed
  next
    case (AwaitingWorker deadline)
    show ?thesis
    proof (cases "wl_result s")
      case None
      show ?thesis
      proof (cases "wl_now s < deadline")
        case True
        then show ?thesis using tick [of s deadline debug] AwaitingWorker None
          by (intro exI [of _ "s\<lparr>wl_now := deadline\<rparr>"]) (simp add: worker_waits_def worker_rank_def)
      next
        case False
        then show ?thesis using worker_late [OF AwaitingWorker, of debug] AwaitingWorker by (force simp: worker_rank_def)
      qed
    next
      case (Some err)
      then show ?thesis using worker_answers [OF AwaitingWorker, of err debug] AwaitingWorker by (force simp: worker_rank_def)
    qed
  qed (use \<open>\<not> worker_over s\<close> in \<open>simp add: worker_over_def\<close>)
qed

section \<open>The SMTP server\<close>

text \<open>After the signal the debug server is shut down, with five seconds, and then every listener is closed at once.\<close>

datatype smtp_phase = SmtpServing | SmtpStoppingDebug time shutdown | SmtpStopped

record smtp_life =
  sl_now :: time
  sl_quit :: bool
  sl_debug :: "nat set"
  sl_phase :: smtp_phase

definition smtp_started :: "time \<Rightarrow> smtp_life" where
  "smtp_started now = \<lparr>sl_now = now, sl_quit = False, sl_debug = {}, sl_phase = SmtpServing\<rparr>"

definition smtp_waits :: "time \<Rightarrow> smtp_life \<Rightarrow> bool" where
  "smtp_waits t s =
     (case sl_phase s of
        SmtpServing \<Rightarrow> \<not> sl_quit s | SmtpStoppingDebug deadline c \<Rightarrow> c = Pausing \<and> t \<le> deadline | SmtpStopped \<Rightarrow> True)"

inductive smtp_step :: "bool \<Rightarrow> smtp_life \<Rightarrow> smtp_life \<Rightarrow> bool" for debug :: bool where
  smtp_signal: "smtp_step debug s (s\<lparr>sl_quit := True\<rparr>)"
| smtp_debug_request: "debug \<Longrightarrow> sl_phase s = SmtpServing \<Longrightarrow> smtp_step debug s (s\<lparr>sl_debug := insert i (sl_debug s)\<rparr>)"
| smtp_debug_answered: "smtp_step debug s (s\<lparr>sl_debug := sl_debug s - {i}\<rparr>)"
| smtp_quit: "sl_phase s = SmtpServing \<Longrightarrow> sl_quit s \<Longrightarrow>
    smtp_step debug s (s\<lparr>sl_quit := False,
      sl_phase := (if debug then SmtpStoppingDebug (sl_now s + 5 * second) Polling else SmtpStopped)\<rparr>)"
| smtp_debug_shutdown: "sl_phase s = SmtpStoppingDebug deadline c \<Longrightarrow> shutdown_step (sl_debug s) (sl_now s) deadline c c' \<Longrightarrow>
    smtp_step debug s (s\<lparr>sl_phase := (if returned c' then SmtpStopped else SmtpStoppingDebug deadline c')\<rparr>)"
| smtp_tick: "sl_now s < t \<Longrightarrow> smtp_waits t s \<Longrightarrow> smtp_step debug s (s\<lparr>sl_now := t\<rparr>)"

definition smtp_asked :: "smtp_life \<Rightarrow> bool" where "smtp_asked s \<longleftrightarrow> sl_phase s = SmtpServing \<and> sl_quit s"

definition smtp_over :: "smtp_life \<Rightarrow> bool" where "smtp_over s \<longleftrightarrow> sl_phase s = SmtpStopped"

definition smtp_due :: "smtp_life \<Rightarrow> time option" where
  "smtp_due s =
     (case sl_phase s of
        SmtpServing \<Rightarrow> if sl_quit s then Some (sl_now s + 5 * second) else None
      | SmtpStoppingDebug deadline c \<Rightarrow> if returned c then None else Some deadline
      | SmtpStopped \<Rightarrow> None)"

definition smtp_rank :: "smtp_life \<Rightarrow> nat" where
  "smtp_rank s =
     (case sl_phase s of
        SmtpServing \<Rightarrow> 20 | SmtpStoppingDebug deadline c \<Rightarrow> 10 + shutdown_rank (sl_now s) deadline c | SmtpStopped \<Rightarrow> 0)"

interpretation smtp_end: timed_end "smtp_step debug" sl_now smtp_due smtp_over smtp_rank
proof
  fix s s' assume "smtp_step debug s s'" "smtp_over s"
  then show "smtp_over s'" by (cases rule: smtp_step.cases) (auto simp: smtp_over_def)
next
  fix s s' d assume "smtp_step debug s s'" "smtp_due s = Some d" "sl_now s \<le> d" "\<not> smtp_over s"
  then show "smtp_over s' \<or> (\<exists>d'. smtp_due s' = Some d' \<and> sl_now s' \<le> d' \<and> d' \<le> d)"
    by (cases rule: smtp_step.cases)
      (auto simp: smtp_over_def smtp_due_def smtp_waits_def second_def returned_def split: smtp_phase.splits if_splits)
next
  fix s d assume due: "smtp_due s = Some d" and "sl_now s \<le> d" "\<not> smtp_over s"
  show "\<exists>s'. smtp_step debug s s' \<and> smtp_rank s' < smtp_rank s"
  proof (cases "sl_phase s")
    case SmtpServing
    then have "sl_quit s" using due by (simp add: smtp_due_def split: if_splits)
    from smtp_quit [OF SmtpServing this, of debug] show ?thesis
      using SmtpServing by (force simp: smtp_rank_def shutdown_rank_def)
  next
    case (SmtpStoppingDebug deadline c)
    then have c: "\<not> returned c" using due by (simp add: smtp_due_def split: if_splits)
    show ?thesis
    proof (rule shutdown_moves [OF c, of "sl_debug s" "sl_now s" deadline])
      fix c' assume "shutdown_step (sl_debug s) (sl_now s) deadline c c'"
        "shutdown_rank (sl_now s) deadline c' < shutdown_rank (sl_now s) deadline c"
      then show ?thesis
        using smtp_debug_shutdown [OF SmtpStoppingDebug, of c' debug] SmtpStoppingDebug by (force simp: smtp_rank_def)
    next
      assume "c = Pausing" "sl_now s < deadline" "shutdown_rank deadline deadline c < shutdown_rank (sl_now s) deadline c"
      then show ?thesis using smtp_tick [of s deadline debug] SmtpStoppingDebug
        by (intro exI [of _ "s\<lparr>sl_now := deadline\<rparr>"]) (simp add: smtp_waits_def smtp_rank_def)
    qed
  qed (use \<open>\<not> smtp_over s\<close> in \<open>simp add: smtp_over_def\<close>)
qed

section \<open>The API\<close>

text \<open>
  The debug server and the API server are shut down one after the other, with ten seconds for both. When the second
  \<open>Shutdown\<close> fails the program ends by \<open>log.Fatalf\<close>: exit status 1, and no deferred call is run.
\<close>

datatype api_phase =
    ApiServing
  | ApiStoppingDebug time shutdown
  | ApiStopping time shutdown
  | ApiStopped
  | ApiForced

record api_life =
  al_now :: time
  al_quit :: bool
  al_debug :: "nat set"
  al_active :: "nat set"
  al_phase :: api_phase

definition api_started :: "time \<Rightarrow> api_life" where
  "api_started now = \<lparr>al_now = now, al_quit = False, al_debug = {}, al_active = {}, al_phase = ApiServing\<rparr>"

definition api_listens :: "api_life \<Rightarrow> bool" where
  "api_listens s = (case al_phase s of ApiServing \<Rightarrow> True | ApiStoppingDebug deadline c \<Rightarrow> True | _ \<Rightarrow> False)"

definition api_waits :: "time \<Rightarrow> api_life \<Rightarrow> bool" where
  "api_waits t s =
     (case al_phase s of
        ApiServing \<Rightarrow> \<not> al_quit s
      | ApiStoppingDebug deadline c \<Rightarrow> c = Pausing \<and> t \<le> deadline
      | ApiStopping deadline c \<Rightarrow> c = Pausing \<and> t \<le> deadline
      | _ \<Rightarrow> True)"

definition api_next :: "time \<Rightarrow> shutdown \<Rightarrow> api_phase" where
  "api_next deadline c =
     (case c of AllIdle \<Rightarrow> ApiStopped | Expired \<Rightarrow> ApiForced | _ \<Rightarrow> ApiStopping deadline c)"

inductive api_step :: "bool \<Rightarrow> api_life \<Rightarrow> api_life \<Rightarrow> bool" for debug :: bool where
  api_signal: "api_step debug s (s\<lparr>al_quit := True\<rparr>)"
| api_request: "api_listens s \<Longrightarrow> api_step debug s (s\<lparr>al_active := insert i (al_active s)\<rparr>)"
| api_answered: "api_step debug s (s\<lparr>al_active := al_active s - {i}\<rparr>)"
| api_debug_request: "debug \<Longrightarrow> al_phase s = ApiServing \<Longrightarrow> api_step debug s (s\<lparr>al_debug := insert i (al_debug s)\<rparr>)"
| api_debug_answered: "api_step debug s (s\<lparr>al_debug := al_debug s - {i}\<rparr>)"
| api_quit: "al_phase s = ApiServing \<Longrightarrow> al_quit s \<Longrightarrow>
    api_step debug s (s\<lparr>al_quit := False,
      al_phase := (let deadline = al_now s + 10 * second in
        if debug then ApiStoppingDebug deadline Polling else ApiStopping deadline Polling)\<rparr>)"
| api_debug_shutdown: "al_phase s = ApiStoppingDebug deadline c \<Longrightarrow> shutdown_step (al_debug s) (al_now s) deadline c c' \<Longrightarrow>
    api_step debug s (s\<lparr>al_phase := (if returned c' then ApiStopping deadline Polling else ApiStoppingDebug deadline c')\<rparr>)"
| api_shutdown: "al_phase s = ApiStopping deadline c \<Longrightarrow> shutdown_step (al_active s) (al_now s) deadline c c' \<Longrightarrow>
    api_step debug s (s\<lparr>al_phase := api_next deadline c'\<rparr>)"
| api_tick: "al_now s < t \<Longrightarrow> api_waits t s \<Longrightarrow> api_step debug s (s\<lparr>al_now := t\<rparr>)"

definition api_asked :: "api_life \<Rightarrow> bool" where "api_asked s \<longleftrightarrow> al_phase s = ApiServing \<and> al_quit s"

definition api_over :: "api_life \<Rightarrow> bool" where "api_over s \<longleftrightarrow> al_phase s = ApiStopped \<or> al_phase s = ApiForced"

definition api_due :: "api_life \<Rightarrow> time option" where
  "api_due s =
     (case al_phase s of
        ApiServing \<Rightarrow> if al_quit s then Some (al_now s + 10 * second) else None
      | ApiStoppingDebug deadline c \<Rightarrow> if returned c then None else Some deadline
      | ApiStopping deadline c \<Rightarrow> if returned c then None else Some deadline
      | _ \<Rightarrow> None)"

definition api_rank :: "api_life \<Rightarrow> nat" where
  "api_rank s =
     (case al_phase s of
        ApiServing \<Rightarrow> 30
      | ApiStoppingDebug deadline c \<Rightarrow> 20 + shutdown_rank (al_now s) deadline c
      | ApiStopping deadline c \<Rightarrow> 10 + shutdown_rank (al_now s) deadline c
      | _ \<Rightarrow> 0)"

interpretation api_end: timed_end "api_step debug" al_now api_due api_over api_rank
proof
  fix s s' assume "api_step debug s s'" "api_over s"
  then show "api_over s'" by (cases rule: api_step.cases) (auto simp: api_over_def)
next
  fix s s' d assume "api_step debug s s'" "api_due s = Some d" "al_now s \<le> d" "\<not> api_over s"
  then show "api_over s' \<or> (\<exists>d'. api_due s' = Some d' \<and> al_now s' \<le> d' \<and> d' \<le> d)"
    by (cases rule: api_step.cases)
      (auto simp: api_over_def api_due_def api_waits_def api_next_def second_def returned_def
        split: api_phase.splits shutdown.splits if_splits)
next
  fix s d assume due: "api_due s = Some d" and "al_now s \<le> d" "\<not> api_over s"
  show "\<exists>s'. api_step debug s s' \<and> api_rank s' < api_rank s"
  proof (cases "al_phase s")
    case ApiServing
    then have "al_quit s" using due by (simp add: api_due_def split: if_splits)
    from api_quit [OF ApiServing this, of debug] show ?thesis
      using ApiServing by (force simp: api_rank_def shutdown_rank_def Let_def)
  next
    case (ApiStoppingDebug deadline c)
    then have c: "\<not> returned c" using due by (simp add: api_due_def split: if_splits)
    show ?thesis
    proof (rule shutdown_moves [OF c, of "al_debug s" "al_now s" deadline])
      fix c' assume c': "shutdown_step (al_debug s) (al_now s) deadline c c'"
        "shutdown_rank (al_now s) deadline c' < shutdown_rank (al_now s) deadline c"
      have "shutdown_rank (al_now s) deadline Polling = 3" by (simp add: shutdown_rank_def)
      with c'(2) show ?thesis
        using api_debug_shutdown [OF ApiStoppingDebug c'(1), of debug] ApiStoppingDebug
        by (intro exI [of _ "s\<lparr>al_phase := (if returned c' then ApiStopping deadline Polling else ApiStoppingDebug deadline c')\<rparr>"])
          (simp add: api_rank_def)
    next
      assume "c = Pausing" "al_now s < deadline" "shutdown_rank deadline deadline c < shutdown_rank (al_now s) deadline c"
      then show ?thesis using api_tick [of s deadline debug] ApiStoppingDebug
        by (intro exI [of _ "s\<lparr>al_now := deadline\<rparr>"]) (simp add: api_waits_def api_rank_def)
    qed
  next
    case (ApiStopping deadline c)
    then have c: "\<not> returned c" using due by (simp add: api_due_def split: if_splits)
    show ?thesis
    proof (rule shutdown_moves [OF c, of "al_active s" "al_now s" deadline])
      fix c' assume "shutdown_step (al_active s) (al_now s) deadline c c'"
        "shutdown_rank (al_now s) deadline c' < shutdown_rank (al_now s) deadline c"
      then show ?thesis
        using api_shutdown [OF ApiStopping, of c' debug] ApiStopping
        by (cases c') (force simp: api_rank_def api_next_def)+
    next
      assume "c = Pausing" "al_now s < deadline" "shutdown_rank deadline deadline c < shutdown_rank (al_now s) deadline c"
      then show ?thesis using api_tick [of s deadline debug] ApiStopping
        by (intro exI [of _ "s\<lparr>al_now := deadline\<rparr>"]) (simp add: api_waits_def api_rank_def)
    qed
  qed (use \<open>\<not> api_over s\<close> in \<open>simp_all add: api_over_def\<close>)
qed

section \<open>How the programs have ended\<close>

lemma worker_cancelled_step:
  assumes "worker_step debug s s'" and "wl_phase s = Selecting \<or> wl_cancelled s"
  shows "wl_phase s' = Selecting \<or> wl_cancelled s'"
  using assms(1) by cases (use assms(2) in \<open>auto simp: stop_debug_def await_worker_def\<close>)

lemma worker_cancelled:
  assumes "(worker_step debug)\<^sup>*\<^sup>* (worker_started now) s"
  shows "wl_phase s = Selecting \<or> wl_cancelled s"
  using assms
proof (induction rule: rtranclp_induct)
  case (step t u)
  then show ?case using worker_cancelled_step by blast
qed (simp add: worker_started_def)

text \<open>The shutdown that a signal at the instant \<open>t\<close> has started: its deadline, and what its end means.\<close>

definition api_since :: "time \<Rightarrow> api_life \<Rightarrow> bool" where
  "api_since t s =
     (case al_phase s of
        ApiServing \<Rightarrow> al_now s = t \<and> al_quit s
      | ApiStoppingDebug deadline c \<Rightarrow> deadline = t + 10 * second
      | ApiStopping deadline c \<Rightarrow> deadline = t + 10 * second
      | ApiStopped \<Rightarrow> al_active s = {}
      | ApiForced \<Rightarrow> t + 10 * second \<le> al_now s)"

lemma api_since_step:
  assumes "api_step debug s s'" and "api_since t s"
  shows "api_since t s'"
  using assms(1)
proof cases
  case (api_shutdown deadline c c')
  then show ?thesis using assms(2) by (auto simp: api_since_def api_next_def elim: shutdown_stepE)
qed (use assms(2) in \<open>auto simp: api_since_def api_waits_def api_listens_def Let_def split: api_phase.splits\<close>)

lemma api_since_run:
  assumes "(api_step debug)\<^sup>*\<^sup>* s s'" and "api_asked s"
  shows "api_since (al_now s) s'"
  using assms(1)
proof (induction rule: rtranclp_induct)
  case base
  then show ?case using assms(2) by (simp add: api_since_def api_asked_def)
next
  case (step u u')
  then show ?case using api_since_step by blast
qed


text \<open>An event stream is open when the signal comes, and its client stays: the API ends by force.\<close>

definition streaming_api :: "shutdown \<Rightarrow> time \<Rightarrow> api_life" where
  "streaming_api c now = \<lparr>al_now = now, al_quit = False, al_debug = {}, al_active = {1}, al_phase = ApiStopping (10 * second) c\<rparr>"


end
