(* ===== verification/Removal.thy ===== *)
theory Removal
  imports Storage
begin

text \<open>
  \<open>DeleteByMessage\<close> of \<open>internal/storage/storage.go\<close> as a step relation. Four activities run concurrently: the listing and
  the bulk removal of the MinIO client, the goroutine that hands the listed keys over, and the function itself, which reads
  the errors of the removal. The client is what its documentation says: the listing delivers events and may stop
  early, with or without an error, once the context is done; the removal receives keys until their channel is closed, removes each or
  sends a result for it, and then closes its own channel.
\<close>

section \<open>The bucket\<close>

text \<open>\<open>New\<close>: \<open>bucket_exists\<close> and \<open>make_bucket\<close> are \<open>BucketExists\<close> and \<open>MakeBucket\<close>, \<open>client_ok\<close> tells whether \<open>minio.New\<close> accepts its arguments.\<close>

datatype storage_error = ClientError | CheckBucket string | CreateBucket string | NoBucket string

definition new_storage ::
  "bool \<Rightarrow> (string \<Rightarrow> 's \<Rightarrow> string + bool) \<Rightarrow> (string \<Rightarrow> 's \<Rightarrow> string option \<times> 's) \<Rightarrow> string \<Rightarrow> 's \<Rightarrow> (storage_error + string) \<times> 's" where
  "new_storage client_ok bucket_exists make_bucket bucket s =
     (if \<not> client_ok then (Inl ClientError, s)
      else (case bucket_exists bucket s of
              Inl err \<Rightarrow> (Inl (CheckBucket err), s)
            | Inr True \<Rightarrow> (Inr bucket, s)
            | Inr False \<Rightarrow>
                (case make_bucket bucket s of (Some err, s') \<Rightarrow> (Inl (CreateBucket err), s') | (None, s') \<Rightarrow> (Inr bucket, s'))))"

definition storage_health :: "(string \<Rightarrow> 's \<Rightarrow> string + bool) \<Rightarrow> string \<Rightarrow> 's \<Rightarrow> storage_error option" where
  "storage_health bucket_exists bucket s =
     (case bucket_exists bucket s of Inl err \<Rightarrow> Some (CheckBucket err) | Inr b \<Rightarrow> if \<not> b then Some (NoBucket bucket) else None)"

text \<open>\<open>Download\<close>: the object may be opened and then not be readable to its end (\<open>read_all\<close>).\<close>

definition download_object ::
  "'s get_object \<Rightarrow> (bytes \<Rightarrow> bytes option) \<Rightarrow> string \<Rightarrow> string \<Rightarrow> string \<Rightarrow> 's \<Rightarrow> (bytes \<times> string) option" where
  "download_object get read_all message_id attachment_id filename s =
     (case open_object get message_id attachment_id filename s of
        None \<Rightarrow> None
      | Some (obj, content_type) \<Rightarrow> (case read_all obj of None \<Rightarrow> None | Some data \<Rightarrow> Some (data, content_type)))"

section \<open>Deleting the objects of a message\<close>

text \<open>Where the goroutine is: it receives from the listing, sends a key, has reported and returns, or has returned.\<close>

datatype feeder = Receiving | Sending string | Returning | Returned

record removal =
  rv_objects :: "string set"
  rv_listing :: "list_event list"
  rv_cut :: bool
  rv_ctx :: "string option"
  rv_feeder :: feeder
  rv_keys :: "string list"
  rv_closed :: bool
  rv_list_err :: "string option option"
  rv_taken :: "string list"
  rv_results :: "string option list"
  rv_removed :: bool
  rv_first_err :: "string option"
  rv_result :: "string option option"

definition start_removal :: "string set \<Rightarrow> list_event list \<Rightarrow> string option \<Rightarrow> removal" where
  "start_removal objects listing ctx =
     \<lparr>rv_objects = objects, rv_listing = listing, rv_cut = False, rv_ctx = ctx, rv_feeder = Receiving, rv_keys = [], rv_closed = False,
      rv_list_err = None, rv_taken = [], rv_results = [], rv_removed = False, rv_first_err = None, rv_result = None\<rparr>"

definition keys_capacity :: nat where "keys_capacity = 128"

definition cancel :: "removal \<Rightarrow> removal" where
  "cancel s = s\<lparr>rv_ctx := (case rv_ctx s of None \<Rightarrow> Some ''context canceled'' | Some e \<Rightarrow> Some e)\<rparr>"

text \<open>The goroutine.\<close>

inductive feeder_step :: "removal \<Rightarrow> removal \<Rightarrow> bool" where
  receive_key: "rv_feeder s = Receiving \<Longrightarrow> rv_listing s = ListedObject k # es \<Longrightarrow>
    feeder_step s (s\<lparr>rv_feeder := Sending k, rv_listing := es\<rparr>)"
| receive_error: "rv_feeder s = Receiving \<Longrightarrow> rv_listing s = ListError e # es \<Longrightarrow>
    feeder_step s (s\<lparr>rv_feeder := Returning, rv_list_err := Some (Some e), rv_listing := es\<rparr>)"
| send_key: "rv_feeder s = Sending k \<Longrightarrow> length (rv_keys s) < keys_capacity \<Longrightarrow>
    feeder_step s (s\<lparr>rv_feeder := Receiving, rv_keys := rv_keys s @ [k]\<rparr>)"
| send_cancelled: "rv_feeder s = Sending k \<Longrightarrow> rv_ctx s = Some e \<Longrightarrow>
    feeder_step s (s\<lparr>rv_feeder := Returning, rv_list_err := Some (Some e)\<rparr>)"
| listing_ends: "rv_feeder s = Receiving \<Longrightarrow> rv_listing s = [] \<Longrightarrow>
    feeder_step s (s\<lparr>rv_feeder := Returning, rv_list_err := Some (rv_ctx s)\<rparr>)"
| close_keys: "rv_feeder s = Returning \<Longrightarrow> feeder_step s (s\<lparr>rv_feeder := Returned, rv_closed := True\<rparr>)"

text \<open>The client: what it does by itself.\<close>

inductive client_step :: "removal \<Rightarrow> removal \<Rightarrow> bool" where
  stop_listing: "rv_ctx s \<noteq> None \<Longrightarrow> \<not> rv_cut s \<Longrightarrow> stop = [] \<or> stop = [ListError e] \<Longrightarrow> n < length (rv_listing s) \<Longrightarrow>
    client_step s (s\<lparr>rv_listing := take n (rv_listing s) @ stop, rv_cut := True\<rparr>)"
| take_key: "rv_keys s = k # ks \<Longrightarrow> client_step s (s\<lparr>rv_keys := ks, rv_taken := rv_taken s @ [k]\<rparr>)"
| remove_key: "rv_taken s = k # ks \<Longrightarrow> client_step s (s\<lparr>rv_taken := ks, rv_objects := rv_objects s - {k}\<rparr>)"
| fail_key: "rv_taken s = k # ks \<Longrightarrow> client_step s (s\<lparr>rv_taken := ks, rv_results := rv_results s @ [Some e]\<rparr>)"
| close_results: "rv_keys s = [] \<Longrightarrow> rv_closed s \<Longrightarrow> rv_taken s = [] \<Longrightarrow> \<not> rv_removed s \<Longrightarrow>
    client_step s (s\<lparr>rv_removed := True\<rparr>)"

text \<open>The function: the loop over the results, and what it returns.\<close>

inductive delete_step :: "removal \<Rightarrow> removal \<Rightarrow> bool" where
  first_error: "rv_results s = Some e # rs \<Longrightarrow> rv_first_err s = None \<Longrightarrow>
    delete_step s (cancel (s\<lparr>rv_results := rs, rv_first_err := Some e\<rparr>))"
| skip_result: "rv_results s = r # rs \<Longrightarrow> r = None \<or> rv_first_err s \<noteq> None \<Longrightarrow> delete_step s (s\<lparr>rv_results := rs\<rparr>)"
| return: "rv_results s = [] \<Longrightarrow> rv_removed s \<Longrightarrow> rv_result s = None \<Longrightarrow> rv_list_err s = Some err \<Longrightarrow>
    delete_step s (s\<lparr>rv_result := Some (case rv_first_err s of None \<Rightarrow> err | Some e \<Rightarrow> Some e)\<rparr>)"

text \<open>Together with the caller, whose context may end at any time.\<close>

inductive removal_step :: "removal \<Rightarrow> removal \<Rightarrow> bool" where
  by_feeder: "feeder_step s s' \<Longrightarrow> removal_step s s'"
| by_client: "client_step s s' \<Longrightarrow> removal_step s s'"
| by_function: "delete_step s s' \<Longrightarrow> removal_step s s'"
| context_ends: "rv_ctx s = None \<Longrightarrow> rv_result s = None \<Longrightarrow> removal_step s (s\<lparr>rv_ctx := Some e\<rparr>)"

section \<open>It returns\<close>

text \<open>A run cannot get stuck before the function returns: a full channel is read or the context is done.\<close>

definition feeder_ok :: "removal \<Rightarrow> bool" where
  "feeder_ok s \<longleftrightarrow> (rv_closed s \<longleftrightarrow> rv_feeder s = Returned) \<and> (rv_list_err s \<noteq> None \<longleftrightarrow> rv_feeder s \<in> {Returning, Returned}) \<and>
     (rv_removed s \<longrightarrow> rv_feeder s = Returned \<and> rv_keys s = [] \<and> rv_taken s = [])"

inductive_cases feeder_stepE: "feeder_step s s'"
inductive_cases client_stepE: "client_step s s'"
inductive_cases delete_stepE: "delete_step s s'"
inductive_cases removal_stepE: "removal_step s s'"

lemma feeder_ok_step: "feeder_ok s \<Longrightarrow> removal_step s s' \<Longrightarrow> feeder_ok s'"
  by (elim removal_stepE feeder_stepE client_stepE delete_stepE) (auto simp: feeder_ok_def cancel_def)

lemma removal_not_stuck:
  assumes "feeder_ok s" "rv_result s = None"
  shows "\<exists>s'. feeder_step s s' \<or> client_step s s' \<or> delete_step s s'"
proof (cases "rv_keys s = [] \<and> rv_taken s = [] \<and> rv_results s = []")
  case False
  then show ?thesis
    by (metis first_error skip_result take_key fail_key list.exhaust not_None_eq)
next
  case empty: True
  show ?thesis
  proof (cases "rv_feeder s")
    case Receiving
    then show ?thesis
      by (metis receive_key receive_error listing_ends list.exhaust list_event.exhaust)
  next
    case (Sending k)
    then show ?thesis using empty send_key [OF Sending] by (auto simp: keys_capacity_def)
  next
    case Returning
    then show ?thesis using close_keys by blast
  next
    case Returned
    then have c: "rv_closed s" "rv_list_err s \<noteq> None" using assms(1) by (auto simp: feeder_ok_def)
    show ?thesis
    proof (cases "rv_removed s")
      case True
      then show ?thesis using c(2) empty assms(2) return by blast
    next
      case False
      then show ?thesis using c(1) empty close_results by blast
    qed
  qed
qed

text \<open>Every step uses up some of a budget.\<close>

definition feeder_cost :: "feeder \<Rightarrow> nat" where
  "feeder_cost f = (case f of Receiving \<Rightarrow> 2 | Sending k \<Rightarrow> 7 | Returning \<Rightarrow> 1 | Returned \<Rightarrow> 0)"

definition budget :: "removal \<Rightarrow> nat" where
  "budget s = 6 * length (rv_listing s) + feeder_cost (rv_feeder s) + 4 * length (rv_keys s) + 3 * length (rv_taken s) +
     length (rv_results s) + (if rv_cut s then 0 else 1) + (if rv_ctx s = None then 1 else 0) + (if rv_removed s then 0 else 1) +
     (if rv_result s = None then 1 else 0)"

lemma removal_step_budget: "removal_step s s' \<Longrightarrow> budget s' < budget s"
  by (elim removal_stepE feeder_stepE client_stepE delete_stepE)
    (auto simp: budget_def feeder_cost_def cancel_def split: option.split)

lemma removal_steps_bounded: "(removal_step ^^ n) s s' \<Longrightarrow> n + budget s' \<le> budget s"
proof (induction n arbitrary: s')
  case (Suc n)
  then obtain t where "(removal_step ^^ n) s t" "removal_step t s'" by auto
  with Suc.IH [of t] removal_step_budget [of t s'] show ?case by simp
qed simp

section \<open>What it returns\<close>

text \<open>
  Where the keys of the listing are. \<open>full\<close> is what the listing would deliver; as long as the context is not done, nothing of it is lost:
  each key is still to come, on its way, removed, or has failed.
\<close>

definition listed_keys :: "list_event list \<Rightarrow> string set" where
  "listed_keys es = {k. ListedObject k \<in> set es}"

definition on_its_way :: "removal \<Rightarrow> string set" where
  "on_its_way s = (case rv_feeder s of Sending k \<Rightarrow> {k} | _ \<Rightarrow> {}) \<union> set (rv_keys s) \<union> set (rv_taken s)"

definition failed :: "removal \<Rightarrow> bool" where
  "failed s \<longleftrightarrow> rv_first_err s \<noteq> None \<or> (\<exists>e. Some e \<in> set (rv_results s))"

definition unspoilt :: "removal \<Rightarrow> bool" where
  "unspoilt s \<longleftrightarrow> \<not> rv_cut s \<and> rv_list_err s \<in> {None, Some None}"

definition accounted :: "string set \<Rightarrow> list_event list \<Rightarrow> removal \<Rightarrow> bool" where
  "accounted objects full s \<longleftrightarrow>
     rv_objects s \<subseteq> objects \<and> objects - rv_objects s \<subseteq> listed_keys full \<and>
     listed_keys (rv_listing s) \<union> on_its_way s \<subseteq> listed_keys full \<and>
     (rv_ctx s = None \<longrightarrow> \<not> rv_cut s) \<and>
     (unspoilt s \<and> \<not> failed s \<longrightarrow> listed_keys full \<inter> rv_objects s \<subseteq> listed_keys (rv_listing s) \<union> on_its_way s) \<and>
     (unspoilt s \<longrightarrow> (\<forall>e. ListError e \<in> set full \<longrightarrow> ListError e \<in> set (rv_listing s))) \<and>
     (rv_list_err s = Some None \<longrightarrow> \<not> rv_cut s \<and> rv_listing s = []) \<and>
     (rv_result s \<noteq> None \<longrightarrow> rv_removed s \<and> rv_results s = []) \<and>
     (rv_result s = Some None \<longrightarrow> rv_list_err s = Some None \<and> rv_first_err s = None)"

lemma listed_keys_simps [simp]:
  "listed_keys [] = {}" "listed_keys (ListedObject k # es) = insert k (listed_keys es)"
  "listed_keys (ListError e # es) = listed_keys es"
  by (auto simp: listed_keys_def)

lemma listed_keys_take: "stop = [] \<or> stop = [ListError e] \<Longrightarrow> listed_keys (take n es @ stop) \<subseteq> listed_keys es"
  by (auto simp: listed_keys_def dest: in_set_takeD)

lemma accounted_start: "accounted objects full (start_removal objects full ctx)"
  by (auto simp: accounted_def start_removal_def on_its_way_def unspoilt_def)

lemma accountedD:
  assumes "accounted objects full s"
  shows "rv_objects s \<subseteq> objects" "objects - rv_objects s \<subseteq> listed_keys full"
    "listed_keys (rv_listing s) \<union> on_its_way s \<subseteq> listed_keys full" "rv_ctx s = None \<Longrightarrow> \<not> rv_cut s"
    "unspoilt s \<Longrightarrow> \<not> failed s \<Longrightarrow> listed_keys full \<inter> rv_objects s \<subseteq> listed_keys (rv_listing s) \<union> on_its_way s"
    "unspoilt s \<Longrightarrow> ListError e \<in> set full \<Longrightarrow> ListError e \<in> set (rv_listing s)"
    "rv_list_err s = Some None \<Longrightarrow> \<not> rv_cut s" "rv_list_err s = Some None \<Longrightarrow> rv_listing s = []"
    "rv_result s \<noteq> None \<Longrightarrow> rv_removed s" "rv_result s \<noteq> None \<Longrightarrow> rv_results s = []"
    "rv_result s = Some None \<Longrightarrow> rv_list_err s = Some None" "rv_result s = Some None \<Longrightarrow> rv_first_err s = None"
  using assms unfolding accounted_def by simp_all

lemma accounted_feeder:
  assumes acc: "accounted objects full s" and ok: "feeder_ok s" and step: "feeder_step s s'"
  shows "accounted objects full s'"
proof -
  note D = accountedD [OF acc]
  have same: "rv_objects s' = rv_objects s" "rv_cut s' = rv_cut s" "rv_ctx s' = rv_ctx s" "failed s' = failed s"
    "rv_result s' = rv_result s" "rv_removed s' = rv_removed s" "rv_results s' = rv_results s" "rv_first_err s' = rv_first_err s"
    using step by (elim feeder_stepE; simp add: failed_def)+
  have sub: "listed_keys (rv_listing s') \<union> on_its_way s' \<subseteq> listed_keys (rv_listing s) \<union> on_its_way s"
    using step by (elim feeder_stepE) (auto simp: on_its_way_def)
  have clean: "unspoilt s \<and> listed_keys (rv_listing s) \<union> on_its_way s \<subseteq> listed_keys (rv_listing s') \<union> on_its_way s' \<and>
      (\<forall>e. ListError e \<in> set (rv_listing s) \<longrightarrow> ListError e \<in> set (rv_listing s'))" if "unspoilt s'"
    using step that ok by (elim feeder_stepE) (auto simp: on_its_way_def unspoilt_def feeder_ok_def)
  have none: "\<not> rv_cut s \<and> rv_listing s' = []" if "rv_list_err s' = Some None"
    using step that ok D(4,7,8) by (elim feeder_stepE) (simp_all add: feeder_ok_def)
  have keep: "rv_list_err s' = Some None" if "rv_list_err s = Some None"
    using step that ok by (elim feeder_stepE) (auto simp: feeder_ok_def)
  show ?thesis
    unfolding accounted_def same
  proof (intro conjI impI allI)
    show "listed_keys (rv_listing s') \<union> on_its_way s' \<subseteq> listed_keys full" using D(3) sub by (rule subset_trans [rotated])
  next
    assume "unspoilt s' \<and> \<not> failed s"
    then show "listed_keys full \<inter> rv_objects s \<subseteq> listed_keys (rv_listing s') \<union> on_its_way s'"
      using D(5) clean by (meson subset_trans)
  next
    fix e assume "unspoilt s'" "ListError e \<in> set full"
    then show "ListError e \<in> set (rv_listing s')" using D(6) clean by simp
  qed (use D none keep in simp_all)
qed

lemma accounted_client:
  assumes acc: "accounted objects full s" and ok: "feeder_ok s" and step: "client_step s s'"
  shows "accounted objects full s'"
proof -
  note D = accountedD [OF acc]
  have same: "rv_list_err s' = rv_list_err s" "rv_ctx s' = rv_ctx s" "rv_result s' = rv_result s" "rv_first_err s' = rv_first_err s"
    and more: "failed s \<Longrightarrow> failed s'" "rv_removed s \<Longrightarrow> rv_removed s'"
    using step by (elim client_stepE; auto simp: failed_def)+
  have fin: "rv_results s' = rv_results s" if "rv_removed s"
    using step that ok by (elim client_stepE) (auto simp: feeder_ok_def)
  have sub: "listed_keys (rv_listing s') \<union> on_its_way s' \<subseteq> listed_keys (rv_listing s) \<union> on_its_way s"
    using step
  proof (elim client_stepE, goal_cases)
    case (1 stop e n)
    then show ?case using listed_keys_take [of stop e n "rv_listing s"] by (simp add: on_its_way_def le_supI1)
  qed (auto simp: on_its_way_def)
  have objs: "rv_objects s' \<subseteq> rv_objects s" "rv_objects s - rv_objects s' \<subseteq> on_its_way s"
    using step by (elim client_stepE; auto simp: on_its_way_def)+
  have cut: "rv_cut s' = rv_cut s \<and> rv_listing s' = rv_listing s \<or> rv_ctx s \<noteq> None \<and> rv_cut s' \<and> rv_listing s \<noteq> []"
    using step by (elim client_stepE) auto
  have clean: "on_its_way s \<inter> rv_objects s' \<subseteq> on_its_way s'" if "\<not> rv_cut s'" "\<not> failed s'"
    using step that by (elim client_stepE) (auto simp: on_its_way_def failed_def)
  show ?thesis
    unfolding accounted_def same
  proof (intro conjI impI allI)
    show "rv_objects s' \<subseteq> objects" using D(1) objs(1) by simp
    show "objects - rv_objects s' \<subseteq> listed_keys full" using D(1,2,3) objs by blast
    show "listed_keys (rv_listing s') \<union> on_its_way s' \<subseteq> listed_keys full" using D(3) sub by (rule subset_trans [rotated])
  next
    assume u: "unspoilt s' \<and> \<not> failed s'"
    then have "\<not> rv_cut s'" by (simp add: unspoilt_def)
    with cut have "rv_cut s' = rv_cut s" "rv_listing s' = rv_listing s" by auto
    moreover from this u have "unspoilt s" "\<not> failed s" using more(1) by (auto simp: unspoilt_def same)
    then have "listed_keys full \<inter> rv_objects s \<subseteq> listed_keys (rv_listing s) \<union> on_its_way s" by (rule D(5))
    moreover have "on_its_way s \<inter> rv_objects s' \<subseteq> on_its_way s'" using clean \<open>\<not> rv_cut s'\<close> u by simp
    ultimately show "listed_keys full \<inter> rv_objects s' \<subseteq> listed_keys (rv_listing s') \<union> on_its_way s'"
      using objs(1) by auto
  next
    fix e assume "unspoilt s'" "ListError e \<in> set full"
    then show "ListError e \<in> set (rv_listing s')" using D(6) cut by (auto simp: unspoilt_def same)
  next
    assume "rv_list_err s = Some None"
    then show "\<not> rv_cut s'" "rv_listing s' = []" using D(7,8) cut by auto
  qed (use D cut fin more in auto)
qed

lemma accounted_result:
  assumes "accounted objects full s" "feeder_ok s" "delete_step s s'"
  shows "rv_result s' \<noteq> None \<longrightarrow> rv_removed s' \<and> rv_results s' = []"
    "rv_result s' = Some None \<longrightarrow> rv_list_err s' = Some None \<and> rv_first_err s' = None"
  using assms(3) assms(1,2) unfolding accounted_def by (elim delete_stepE; simp add: cancel_def split: option.splits)+

lemma accounted_delete:
  assumes acc: "accounted objects full s" and ok: "feeder_ok s" and step: "delete_step s s'"
  shows "accounted objects full s'"
proof -
  have same: "rv_objects s' = rv_objects s" "rv_listing s' = rv_listing s" "on_its_way s' = on_its_way s" "rv_cut s' = rv_cut s"
    "rv_list_err s' = rv_list_err s" "rv_ctx s' = None \<Longrightarrow> rv_ctx s = None" "failed s \<Longrightarrow> failed s'"
    using step by (elim delete_stepE; auto simp: cancel_def on_its_way_def failed_def split: option.splits feeder.splits)+
  then have "unspoilt s' = unspoilt s" by (simp add: unspoilt_def)
  with same acc accounted_result [OF acc ok step] show ?thesis unfolding accounted_def by metis
qed

lemma removal_run:
  assumes "(removal_step ^^ n) (start_removal objects full ctx) s"
  shows "feeder_ok s \<and> accounted objects full s"
  using assms
proof (induction n arbitrary: s)
  case 0
  then have s: "s = start_removal objects full ctx" by simp
  show ?case unfolding s by (rule conjI [OF _ accounted_start]) (simp add: feeder_ok_def start_removal_def)
next
  case (Suc n)
  then obtain t where t: "feeder_ok t" "accounted objects full t" "removal_step t s" by auto
  from t(3) have "accounted objects full s"
  proof (elim removal_stepE, goal_cases)
    case (4 e)
    then show ?case using t(2) by (auto simp: accounted_def on_its_way_def unspoilt_def failed_def)
  qed (use t accounted_feeder accounted_client accounted_delete in blast)+
  with feeder_ok_step t show ?case by blast
qed

text \<open>The listing of a bucket: it delivers keys with the prefix, and without an error all of them.\<close>

definition listing_law :: "string set \<Rightarrow> string \<Rightarrow> list_event list \<Rightarrow> bool" where
  "listing_law objects pfx es \<longleftrightarrow>
     listed_keys es \<subseteq> {k. has_prefix k pfx} \<and> ((\<forall>e. ListError e \<notin> set es) \<longrightarrow> {k \<in> objects. has_prefix k pfx} \<subseteq> listed_keys es)"

lemma prefix_of_other_message:
  assumes "length mid = 24" "length mid' = 24" "has_prefix (object_key mid' attachment_id filename) (message_prefix mid)"
  shows "mid' = mid"
proof -
  obtain r where "object_key mid' attachment_id filename = message_prefix mid @ r" using assms(3) unfolding has_prefix_iff by blast
  then have "mid' @ CHR ''/'' # attachment_id @ CHR ''/'' # filename = mid @ CHR ''/'' # r"
    by (simp add: object_key_def message_prefix_def)
  then show ?thesis using assms(1,2) by simp
qed

text \<open>
  C34: \<open>DeleteByMessage\<close> returns however its goroutines, the client and the end of its context interleave: a run has at most
  as many steps as six per listed object and six more, and it is never stuck before it has returned. It removes nothing but objects under the
  prefix of the message, hence no object of another message; and when it reports no error, all of them are gone.
\<close>

theorem delete_by_message_exact:
  assumes law: "listing_law objects (message_prefix mid) full"
    and run: "(removal_step ^^ n) (start_removal objects full ctx) s"
  shows "n \<le> 6 * length full + 6 \<and>
    (rv_result s = None \<longrightarrow> (\<exists>s'. feeder_step s s' \<or> client_step s s' \<or> delete_step s s')) \<and>
    objects - rv_objects s \<subseteq> {k. has_prefix k (message_prefix mid)} \<and>
    (rv_result s = Some None \<longrightarrow> rv_objects s = {k \<in> objects. \<not> has_prefix k (message_prefix mid)}) \<and>
    (length mid = 24 \<and> length mid' = 24 \<and> mid' \<noteq> mid \<and> object_key mid' attachment_id filename \<in> objects \<longrightarrow>
       object_key mid' attachment_id filename \<in> rv_objects s)"
proof (intro conjI impI)
  have inv: "feeder_ok s" "accounted objects full s" using removal_run [OF run] by blast+
  show "n \<le> 6 * length full + 6"
    using removal_steps_bounded [OF run] by (simp add: budget_def start_removal_def feeder_cost_def split: if_splits)
  show "\<exists>s'. feeder_step s s' \<or> client_step s s' \<or> delete_step s s'" if "rv_result s = None"
    using removal_not_stuck inv(1) that by blast
  show pre: "objects - rv_objects s \<subseteq> {k. has_prefix k (message_prefix mid)}"
    using inv(2) law by (auto simp: accounted_def listing_law_def)
  show "rv_objects s = {k \<in> objects. \<not> has_prefix k (message_prefix mid)}" if "rv_result s = Some None"
  proof -
    have r: "rv_removed s" "rv_results s = []" "rv_list_err s = Some None" "rv_first_err s = None" "\<not> rv_cut s" "rv_listing s = []"
      using inv(2) that by (auto simp: accounted_def)
    have "unspoilt s" "\<not> failed s" "on_its_way s = {}"
      using r inv(1) by (auto simp: unspoilt_def failed_def on_its_way_def feeder_ok_def)
    then have "listed_keys full \<inter> rv_objects s = {}" "\<forall>e. ListError e \<notin> set full" "rv_objects s \<subseteq> objects"
      using inv(2) r(6) by (auto simp: accounted_def)
    then show ?thesis using law pre by (auto simp: listing_law_def)
  qed
  show "object_key mid' attachment_id filename \<in> rv_objects s"
    if "length mid = 24 \<and> length mid' = 24 \<and> mid' \<noteq> mid \<and> object_key mid' attachment_id filename \<in> objects"
    using that pre prefix_of_other_message by blast
qed

text \<open>A message with one object beside another message: a run that returns without an error, and what it leaves.\<close>

definition example_id :: string where "example_id = ''0123456789abcdef01234567''"

theorem delete_by_message_exact_witness:
  "\<exists>s. (removal_step ^^ 8) (start_removal {object_key example_id ''_raw'' ''message.eml'', ''messages/x/y''}
       [ListedObject (object_key example_id ''_raw'' ''message.eml'')] None) s \<and>
     rv_result s = Some None \<and> rv_objects s = {''messages/x/y''}"
proof -
  let ?k = "object_key example_id ''_raw'' ''message.eml''"
  define s0 where "s0 = start_removal {?k, ''messages/x/y''} [ListedObject ?k] None"
  define s1 where "s1 = s0\<lparr>rv_feeder := Sending ?k, rv_listing := []\<rparr>"
  define s2 where "s2 = s1\<lparr>rv_feeder := Receiving, rv_keys := rv_keys s1 @ [?k]\<rparr>"
  define s3 where "s3 = s2\<lparr>rv_feeder := Returning, rv_list_err := Some (rv_ctx s2)\<rparr>"
  define s4 where "s4 = s3\<lparr>rv_feeder := Returned, rv_closed := True\<rparr>"
  define s5 where "s5 = s4\<lparr>rv_keys := [], rv_taken := rv_taken s4 @ [?k]\<rparr>"
  define s6 where "s6 = s5\<lparr>rv_taken := [], rv_objects := rv_objects s5 - {?k}\<rparr>"
  define s7 where "s7 = s6\<lparr>rv_removed := True\<rparr>"
  define s8 where "s8 = s7\<lparr>rv_result := Some (case rv_first_err s7 of None \<Rightarrow> None | Some e \<Rightarrow> Some e)\<rparr>"
  note defs = s1_def s2_def s3_def s4_def s5_def s6_def s7_def s8_def s0_def start_removal_def
  have "removal_step s0 s1" unfolding s1_def by (rule by_feeder, rule receive_key) (simp_all add: defs)
  moreover have "removal_step s1 s2" unfolding s2_def by (rule by_feeder, rule send_key) (simp_all add: defs keys_capacity_def)
  moreover have "removal_step s2 s3" unfolding s3_def by (rule by_feeder, rule listing_ends) (simp_all add: defs)
  moreover have "removal_step s3 s4" unfolding s4_def by (rule by_feeder, rule close_keys) (simp_all add: defs)
  moreover have "removal_step s4 s5" unfolding s5_def by (rule by_client, rule take_key) (simp_all add: defs)
  moreover have "removal_step s5 s6" unfolding s6_def by (rule by_client, rule remove_key) (simp_all add: defs)
  moreover have "removal_step s6 s7" unfolding s7_def by (rule by_client, rule close_results) (simp_all add: defs)
  moreover have "removal_step s7 s8" unfolding s8_def by (rule by_function, rule return) (simp_all add: defs)
  ultimately have run: "(removal_step ^^ 8) s0 s8"
    by (simp add: eval_nat_numeral) blast
  have pre: "has_prefix ?k (message_prefix example_id)" by (rule object_key_prefix)
  have other: "\<not> has_prefix ''messages/x/y'' (message_prefix example_id)" by code_simp
  have law: "listing_law {?k, ''messages/x/y''} (message_prefix example_id) [ListedObject ?k]"
    using pre other by (auto simp: listing_law_def)
  have "rv_result s8 = Some None" by (simp add: defs)
  moreover from this have "rv_objects s8 = {k \<in> {?k, ''messages/x/y''}. \<not> has_prefix k (message_prefix example_id)}"
    using delete_by_message_exact [OF law run [unfolded s0_def]] by blast
  ultimately show ?thesis using run pre other unfolding s0_def by (intro exI [of _ s8]) auto
qed

end
