(* ===== verification/GcLock.thy ===== *)
theory GcLock
  imports Worker
begin

text \<open>
  The loop that runs the object GC in every worker process and the lock in Redis that keeps these runs apart (\<open>Start\<close>, \<open>objectGCLoop\<close>,
  \<open>objectGCOnce\<close> and the unlock script of \<open>internal/worker/worker.go\<close>), as a timed step relation over all processes. What one run does is
  \<open>object_gc_once\<close> of theory \<open>Worker\<close>. Redis carries out a request at any time after it was sent, also after the
  client has given up; an expired key is absent.
\<close>

section \<open>The processes\<close>

text \<open>
  \<open>Asleep b due\<close>: waiting, \<open>b\<close> the start of the ticker (\<^const>\<open>None\<close> before the first run). \<open>Asking v t\<close>: \<open>SetNX\<close> with value \<open>v\<close> was sent at \<open>t\<close>;
  \<open>Asked v t ok\<close>: Redis has carried it out. \<open>Scanning v deadline\<close>: the GC runs. \<open>Unlocking v\<close>: the script was sent.
\<close>

datatype gc_phase =
    Asleep "time option" time | Asking string time | Asked string time bool | Scanning string time | Unlocking string | Stopped

definition first_run_delay :: duration where "first_run_delay = 30 * second"
definition gc_interval :: duration where "gc_interval = 5 * minute"
definition lock_timeout :: duration where "lock_timeout = 2 * second"
definition lock_ttl :: duration where "lock_ttl = 10 * minute"
definition run_budget :: duration where "run_budget = 8 * minute"

record gc_process =
  gp_phase :: gc_phase
  gp_ticker :: time
  gp_woken :: time

definition start_process :: "duration \<Rightarrow> time \<Rightarrow> gc_process" where
  "start_process message_ttl now =
     \<lparr>gp_phase = (if 0 < message_ttl then Asleep None (now + first_run_delay) else Stopped), gp_ticker = now, gp_woken = now\<rparr>"

text \<open>The first tick after \<open>p\<close> of a ticker that started at \<open>b\<close>; a tick that comes early waits in the channel.\<close>

definition next_tick :: "time \<Rightarrow> time \<Rightarrow> time" where
  "next_tick b p = b + gc_interval * ((p - b) div gc_interval + 1)"

definition wake :: "time \<Rightarrow> time option \<Rightarrow> string \<Rightarrow> gc_process" where
  "wake now b v = \<lparr>gp_phase = Asking v now, gp_ticker = (case b of None \<Rightarrow> now | Some t \<Rightarrow> t), gp_woken = now\<rparr>"

definition sleep :: "gc_process \<Rightarrow> gc_process" where
  "sleep p = p\<lparr>gp_phase := Asleep (Some (gp_ticker p)) (next_tick (gp_ticker p) (gp_woken p))\<rparr>"

section \<open>The system\<close>

text \<open>\<open>gs_used\<close>: the values drawn so far; requests that were given up and not carried out yet are in \<open>gs_late_set\<close>, \<open>gs_late_del\<close>.\<close>

record 'w gc_system =
  gs_now :: time
  gs_lock :: "(string \<times> time) option"
  gs_process :: "'w \<Rightarrow> gc_process"
  gs_used :: "string set"
  gs_late_set :: "string set"
  gs_late_del :: "string set"

definition lock_free :: "'w gc_system \<Rightarrow> bool" where
  "lock_free s \<longleftrightarrow> (case gs_lock s of None \<Rightarrow> True | Some (v, expires) \<Rightarrow> expires \<le> gs_now s)"

definition set_nx :: "string \<Rightarrow> 'w gc_system \<Rightarrow> bool \<times> 'w gc_system" where
  "set_nx v s = (if lock_free s then (True, s\<lparr>gs_lock := Some (v, gs_now s + lock_ttl)\<rparr>) else (False, s))"

text \<open>The unlock script.\<close>

definition unlock_script :: "string \<Rightarrow> 'w gc_system \<Rightarrow> 'w gc_system" where
  "unlock_script v s =
     (case gs_lock s of
        None \<Rightarrow> s
      | Some (v', expires) \<Rightarrow> if gs_now s < expires \<and> v' = v then s\<lparr>gs_lock := None\<rparr> else s)"

definition set_phase :: "'w \<Rightarrow> gc_phase \<Rightarrow> 'w gc_system \<Rightarrow> 'w gc_system" where
  "set_phase w ph s = s\<lparr>gs_process := (gs_process s)(w := (gs_process s w)\<lparr>gp_phase := ph\<rparr>)\<rparr>"

definition go_to_sleep :: "'w \<Rightarrow> 'w gc_system \<Rightarrow> 'w gc_system" where
  "go_to_sleep w s = s\<lparr>gs_process := (gs_process s)(w := sleep (gs_process s w))\<rparr>"

definition phase :: "'w gc_system \<Rightarrow> 'w \<Rightarrow> gc_phase" where "phase s w = gp_phase (gs_process s w)"

text \<open>
  The value is the time in nanoseconds; that no two processes draw the same is assumed (\<open>v \<notin> gs_used s\<close>). A run stops at its deadline, since
  its context is done then: time does not pass a deadline of a process that scans.
\<close>

inductive gc_step :: "'w gc_system \<Rightarrow> 'w gc_system \<Rightarrow> bool" where
  ask: "phase s w = Asleep b due \<Longrightarrow> due \<le> gs_now s \<Longrightarrow> v \<notin> gs_used s \<Longrightarrow>
    gc_step s (s\<lparr>gs_process := (gs_process s)(w := wake (gs_now s) b v), gs_used := insert v (gs_used s)\<rparr>)"
| stop: "phase s w = Asleep b due \<Longrightarrow> gc_step s (set_phase w Stopped s)"
| carry_out: "phase s w = Asking v t \<Longrightarrow> set_nx v s = (ok, s') \<Longrightarrow> gc_step s (set_phase w (Asked v t ok) s')"
| locked: "phase s w = Asked v t True \<Longrightarrow> gs_now s \<le> t + lock_timeout \<Longrightarrow>
    gc_step s (set_phase w (Scanning v (gs_now s + run_budget)) s)"
| not_locked: "phase s w = Asked v t False \<Longrightarrow> gc_step s (go_to_sleep w s)"
| request_fails: "phase s w = Asking v t \<Longrightarrow> gc_step s (go_to_sleep w (s\<lparr>gs_late_set := insert v (gs_late_set s)\<rparr>))"
| reply_lost: "phase s w = Asked v t ok \<Longrightarrow> gc_step s (go_to_sleep w s)"
| late_set: "v \<in> gs_late_set s \<Longrightarrow> set_nx v s = (ok, s') \<Longrightarrow> gc_step s (s'\<lparr>gs_late_set := gs_late_set s - {v}\<rparr>)"
| finish: "phase s w = Scanning v deadline \<Longrightarrow> gc_step s (set_phase w (Unlocking v) s)"
| unlock: "phase s w = Unlocking v \<Longrightarrow> gc_step s (go_to_sleep w (unlock_script v s))"
| unlock_fails: "phase s w = Unlocking v \<Longrightarrow> gc_step s (go_to_sleep w (s\<lparr>gs_late_del := insert v (gs_late_del s)\<rparr>))"
| late_del: "v \<in> gs_late_del s \<Longrightarrow> gc_step s ((unlock_script v s)\<lparr>gs_late_del := gs_late_del s - {v}\<rparr>)"
| tick: "gs_now s < now \<Longrightarrow> (\<And>w v deadline. phase s w = Scanning v deadline \<Longrightarrow> now \<le> deadline) \<Longrightarrow> gc_step s (s\<lparr>gs_now := now\<rparr>)"

inductive gc_reachable :: "duration \<Rightarrow> 'w gc_system \<Rightarrow> bool" for message_ttl :: duration where
  init: "gc_reachable message_ttl
    \<lparr>gs_now = now, gs_lock = None, gs_process = \<lambda>w. start_process message_ttl now, gs_used = {}, gs_late_set = {}, gs_late_del = {}\<rparr>"
| step: "gc_reachable message_ttl s \<Longrightarrow> gc_step s s' \<Longrightarrow> gc_reachable message_ttl s'"

inductive_cases gc_stepE: "gc_step s s'"

section \<open>One run at a time\<close>

text \<open>The value a process has drawn and may still use.\<close>

definition drawn :: "gc_phase \<Rightarrow> string option" where
  "drawn ph = (case ph of Asking v t \<Rightarrow> Some v | Asked v t ok \<Rightarrow> Some v | Scanning v d \<Rightarrow> Some v | Unlocking v \<Rightarrow> Some v | _ \<Rightarrow> None)"

definition holds_lock :: "string \<Rightarrow> time \<Rightarrow> 'w gc_system \<Rightarrow> bool" where
  "holds_lock v till s \<longleftrightarrow> (\<exists>expires. gs_lock s = Some (v, expires) \<and> till < expires)"

definition late :: "'w gc_system \<Rightarrow> string set" where "late s = gs_late_set s \<union> gs_late_del s"

definition values_ok :: "'w gc_system \<Rightarrow> bool" where
  "values_ok s \<longleftrightarrow> (\<forall>w v. drawn (phase s w) = Some v \<longrightarrow> v \<in> gs_used s \<and> v \<notin> late s) \<and>
     (\<forall>w w' v. drawn (phase s w) = Some v \<longrightarrow> drawn (phase s w') = Some v \<longrightarrow> w = w') \<and> late s \<subseteq> gs_used s"

lemma phase_simps [simp]:
  "phase (set_phase w ph s) w' = (if w' = w then ph else phase s w')"
  "phase (go_to_sleep w s) w' =
     (if w' = w then Asleep (Some (gp_ticker (gs_process s w))) (next_tick (gp_ticker (gs_process s w)) (gp_woken (gs_process s w))) else phase s w')"
  "phase (s\<lparr>gs_process := (gs_process s)(w := wake now b v), gs_used := u\<rparr>) w' = (if w' = w then Asking v now else phase s w')"
  "phase (s\<lparr>gs_lock := l\<rparr>) w' = phase s w'" "phase (s\<lparr>gs_now := n\<rparr>) w' = phase s w'"
  "phase (s\<lparr>gs_late_set := x\<rparr>) w' = phase s w'" "phase (s\<lparr>gs_late_del := x\<rparr>) w' = phase s w'"
  "phase (unlock_script v s) w' = phase s w'"
  by (simp_all add: phase_def set_phase_def go_to_sleep_def sleep_def wake_def unlock_script_def split: option.split prod.split)

lemma field_simps_gc [simp]:
  "gs_now (set_phase w ph s) = gs_now s" "gs_lock (set_phase w ph s) = gs_lock s" "gs_used (set_phase w ph s) = gs_used s"
  "gs_late_set (set_phase w ph s) = gs_late_set s" "gs_late_del (set_phase w ph s) = gs_late_del s"
  "gs_now (go_to_sleep w s) = gs_now s" "gs_lock (go_to_sleep w s) = gs_lock s" "gs_used (go_to_sleep w s) = gs_used s"
  "gs_late_set (go_to_sleep w s) = gs_late_set s" "gs_late_del (go_to_sleep w s) = gs_late_del s"
  "gs_process (unlock_script v s) = gs_process s" "gs_now (unlock_script v s) = gs_now s" "gs_used (unlock_script v s) = gs_used s"
  "gs_late_set (unlock_script v s) = gs_late_set s" "gs_late_del (unlock_script v s) = gs_late_del s"
  by (simp_all add: set_phase_def go_to_sleep_def unlock_script_def split: option.split prod.split)

lemma set_nx_cases:
  assumes "set_nx v s = (ok, s')"
  obtains "ok" "lock_free s" "s' = s\<lparr>gs_lock := Some (v, gs_now s + lock_ttl)\<rparr>" | "\<not> ok" "s' = s"
  using assms by (auto simp: set_nx_def split: if_splits)

lemma set_nx_fields:
  assumes "set_nx v s = (ok, s')"
  shows "gs_now s' = gs_now s" "gs_used s' = gs_used s" "gs_late_set s' = gs_late_set s" "gs_late_del s' = gs_late_del s"
    "phase s' w = phase s w"
  using assms by (auto simp: set_nx_def split: if_splits)

lemma drawn_simps [simp]:
  "drawn (Asleep b due) = None" "drawn (Asking v t) = Some v" "drawn (Asked v t ok) = Some v" "drawn (Scanning v d) = Some v"
  "drawn (Unlocking v) = Some v" "drawn Stopped = None"
  by (simp_all add: drawn_def)

text \<open>A step by which no process draws a value: a process keeps its value or gives it up.\<close>

lemma values_ok_less:
  assumes ok: "values_ok s" and used: "gs_used s' = gs_used s"
    and less: "\<And>w. drawn (phase s' w) = drawn (phase s w) \<or> drawn (phase s' w) = None"
    and late: "\<And>v. v \<in> late s' \<Longrightarrow> v \<in> late s \<or> (\<exists>w. drawn (phase s w) = Some v \<and> drawn (phase s' w) = None)"
  shows "values_ok s'"
proof -
  have old: "drawn (phase s w) = Some v" if "drawn (phase s' w) = Some v" for w v
    using less [of w] that by auto
  have one: "w = w'" if "drawn (phase s w) = Some v" "drawn (phase s w') = Some v" for w w' v
    using ok that unfolding values_ok_def by blast
  have used_late: "v \<in> gs_used s \<and> v \<notin> late s" if "drawn (phase s w) = Some v" for w v
    using ok that unfolding values_ok_def by blast
  have "late s \<subseteq> gs_used s" using ok unfolding values_ok_def by blast
  then have "late s' \<subseteq> gs_used s" using late used_late by blast
  moreover have "v \<notin> late s'" if "drawn (phase s' w) = Some v" for w v
    using late [of v] used_late old [OF that] one that by fastforce
  ultimately show ?thesis
    unfolding values_ok_def used by (metis old one used_late)
qed

lemma values_ok_step:
  assumes ok: "values_ok s" and step: "gc_step s s'"
  shows "values_ok s'"
  using step
proof (cases rule: gc_step.cases)
  case (ask w b due v)
  then have fresh: "v \<notin> late s" "\<And>w'. drawn (phase s w') \<noteq> Some v" using ok unfolding values_ok_def by blast+
  show ?thesis
    unfolding values_ok_def ask(1)
  proof (intro conjI allI impI)
    fix w1 w2 v1
    assume "drawn (phase (s\<lparr>gs_process := (gs_process s)(w := wake (gs_now s) b v), gs_used := insert v (gs_used s)\<rparr>) w1) = Some v1"
      "drawn (phase (s\<lparr>gs_process := (gs_process s)(w := wake (gs_now s) b v), gs_used := insert v (gs_used s)\<rparr>) w2) = Some v1"
    then show "w1 = w2" using ok fresh unfolding values_ok_def by (auto split: if_splits)
  qed (use ok fresh in \<open>auto simp: values_ok_def late_def split: if_splits\<close>)
next
  case (carry_out w v t ok s1)
  then show ?thesis using set_nx_fields [OF carry_out(3)]
    by (intro values_ok_less [OF assms(1)]) (auto simp: late_def)
next
  case (late_set v ok s1)
  then show ?thesis using set_nx_fields [OF late_set(3)]
    by (intro values_ok_less [OF assms(1)]) (auto simp: late_def phase_def)
next
  case (request_fails w v t)
  show ?thesis
  proof (rule values_ok_less [OF ok])
    show "u \<in> late s \<or> (\<exists>w. drawn (phase s w) = Some u \<and> drawn (phase s' w) = None)" if "u \<in> late s'" for u
      using that request_fails by (cases "u = v") (auto simp: late_def intro!: exI [of _ w])
  qed (use request_fails in auto)
next
  case (unlock_fails w v)
  show ?thesis
  proof (rule values_ok_less [OF ok])
    show "u \<in> late s \<or> (\<exists>w. drawn (phase s w) = Some u \<and> drawn (phase s' w) = None)" if "u \<in> late s'" for u
      using that unlock_fails by (cases "u = v") (auto simp: late_def intro!: exI [of _ w])
  qed (use unlock_fails in auto)
next
  case (late_del v)
  show ?thesis by (rule values_ok_less [OF ok]) (auto simp: late_del late_def phase_def)
qed (rule values_ok_less [OF ok]; auto simp: late_def; fail)+

lemma set_nx_holds:
  assumes "set_nx v' s = (ok, s')" "holds_lock v till s" "gs_now s \<le> till"
  shows "\<not> ok" "s' = s"
  using assms by (auto simp: set_nx_def lock_free_def holds_lock_def split: if_splits)

lemma holds_lock_fields [simp]:
  "holds_lock v till (set_phase w ph s) = holds_lock v till s" "holds_lock v till (go_to_sleep w s) = holds_lock v till s"
  "holds_lock v till (s\<lparr>gs_now := n\<rparr>) = holds_lock v till s" "holds_lock v till (s\<lparr>gs_late_set := x\<rparr>) = holds_lock v till s"
  "holds_lock v till (s\<lparr>gs_late_del := x\<rparr>) = holds_lock v till s"
  "holds_lock v till (s\<lparr>gs_process := p, gs_used := u\<rparr>) = holds_lock v till s"
  "v' \<noteq> v \<Longrightarrow> holds_lock v till (unlock_script v' s) = holds_lock v till s"
  by (auto simp: holds_lock_def unlock_script_def split: option.split)

text \<open>As long as a process that holds the lock has not given its value up, nobody else gets the lock before it expires.\<close>

lemma holds_lock_stays:
  assumes ok: "values_ok s" and step: "gc_step s s'" and lock: "holds_lock v till s" "gs_now s \<le> till"
    and old: "drawn (phase s w) = Some v" and new: "drawn (phase s' w) = Some v"
  shows "holds_lock v till s'"
proof -
  have one: "drawn (phase s w') \<noteq> Some v" if "w' \<noteq> w" for w' using ok old that unfolding values_ok_def by blast
  have nlate: "v \<notin> late s" using ok old unfolding values_ok_def by blast
  from step show ?thesis
  proof (cases rule: gc_step.cases)
    case (carry_out w v t ok s1)
    then show ?thesis using set_nx_holds [OF carry_out(3) lock] lock by simp
  next
    case (late_set v ok s1)
    then show ?thesis using set_nx_holds [OF late_set(3) lock] lock by simp
  next
    case (unlock w' v')
    then have "w' \<noteq> w" using new by auto
    then have "v' \<noteq> v" using one unlock(2) by fastforce
    then show ?thesis using lock(1) unlock(1) by simp
  next
    case (late_del v')
    then have "v' \<noteq> v" using nlate by (auto simp: late_def)
    then show ?thesis using lock(1) late_del(1) by simp
  qed (use lock in simp_all)
qed

text \<open>The cases in which a process is scanning, or has the lock and may still learn of it.\<close>

definition entitled :: "'w gc_system \<Rightarrow> 'w \<Rightarrow> (string \<times> time) option" where
  "entitled s w =
     (case phase s w of
        Scanning v d \<Rightarrow> Some (v, d)
      | Asked v t ok \<Rightarrow> if ok \<and> gs_now s \<le> t + lock_timeout then Some (v, t + lock_timeout + run_budget) else None
      | _ \<Rightarrow> None)"

definition lock_ok :: "'w gc_system \<Rightarrow> bool" where
  "lock_ok s \<longleftrightarrow>
     (\<forall>w v till. entitled s w = Some (v, till) \<longrightarrow> gs_now s \<le> till \<and> holds_lock v till s) \<and>
     (\<forall>w v t. phase s w = Asking v t \<longrightarrow> t \<le> gs_now s) \<and>
     (\<forall>v expires. gs_lock s = Some (v, expires) \<longrightarrow> expires \<le> gs_now s + lock_ttl)"

lemma entitled_drawn: "entitled s w = Some (v, till) \<Longrightarrow> drawn (phase s w) = Some v"
  by (auto simp: entitled_def split: gc_phase.splits if_splits)

lemma entitled_cong: "phase s' w = phase s w \<Longrightarrow> gs_now s' = gs_now s \<Longrightarrow> entitled s' w = entitled s w"
  by (simp add: entitled_def split: gc_phase.split)

lemmas durations = lock_timeout_def lock_ttl_def run_budget_def minute_def second_def

lemma entitled_back:
  assumes step: "gc_step s s'" and new: "entitled s' w = Some (v, till)"
  shows "(\<exists>till'. entitled s w = Some (v, till') \<and> till \<le> till') \<or>
    (\<exists>t. phase s w = Asking v t \<and> gs_now s' = gs_now s \<and> gs_lock s' = Some (v, gs_now s + lock_ttl) \<and> till = t + lock_timeout + run_budget)"
  using step
proof (cases rule: gc_step.cases)
  case (carry_out w' v' t ok s1)
  show ?thesis
  proof (cases "w' = w")
    case True
    then have "ok" "v' = v" "till = t + lock_timeout + run_budget"
      using new carry_out(1) by (auto simp: entitled_def split: if_splits)
    then show ?thesis using carry_out True by (auto simp: set_nx_def split: if_splits)
  next
    case False
    then have "entitled s' w = entitled s w" using set_nx_fields [OF carry_out(3)] carry_out(1) by (intro entitled_cong) auto
    then show ?thesis using new by (metis order_refl)
  qed
next
  case (late_set v' ok s1)
  then have "entitled s' w = entitled s w" using set_nx_fields [OF late_set(3)] by (intro entitled_cong) (auto simp: phase_def)
  then show ?thesis using new by (metis order_refl)
next
  case (late_del v')
  then have "entitled s' w = entitled s w" by (intro entitled_cong) (auto simp: phase_def)
  then show ?thesis using new by (metis order_refl)
next
  case (tick now)
  then show ?thesis using new by (auto simp: entitled_def split: gc_phase.splits if_splits)
qed (use new in \<open>auto simp: entitled_def durations split: gc_phase.splits if_splits\<close>)

lemma scanning_back:
  assumes step: "gc_step s s'" and new: "phase s' w = Scanning v d"
  shows "gs_now s' \<le> d \<or> phase s w = Scanning v d \<and> gs_now s' = gs_now s"
  using step
proof (cases rule: gc_step.cases)
  case (carry_out w' v' t ok s1)
  then show ?thesis using new set_nx_fields [OF carry_out(3)] by (auto split: if_splits)
next
  case (late_set v' ok s1)
  then show ?thesis using new set_nx_fields [OF late_set(3)] by (auto simp: phase_def)
next
  case (late_del v')
  then show ?thesis using new by (auto simp: phase_def)
qed (use new in \<open>auto simp: durations split: if_splits\<close>)

lemma lock_ok_step:
  assumes lock: "lock_ok s" and vals: "values_ok s" and step: "gc_step s s'"
  shows "lock_ok s'"
proof -
  have ent: "gs_now s' \<le> till \<and> holds_lock v till s'" if new: "entitled s' w = Some (v, till)" for w v till
  proof
    show "gs_now s' \<le> till"
    proof (cases "phase s' w = Scanning v till")
      case True
      from scanning_back [OF step True] show ?thesis
      proof
        assume a: "phase s w = Scanning v till \<and> gs_now s' = gs_now s"
        then have "entitled s w = Some (v, till)" by (simp add: entitled_def)
        then show ?thesis using a lock unfolding lock_ok_def by auto
      qed
    next
      case False
      then show ?thesis using new by (auto simp: entitled_def durations split: gc_phase.splits if_splits)
    qed
    from entitled_back [OF step new] show "holds_lock v till s'"
    proof (elim disjE exE conjE)
      fix till' assume old: "entitled s w = Some (v, till')" "till \<le> till'"
      then have "gs_now s \<le> till'" "holds_lock v till' s" using lock unfolding lock_ok_def by simp_all
      then have "holds_lock v till' s'"
        using holds_lock_stays [OF vals step _ _ entitled_drawn [OF old(1)] entitled_drawn [OF new]] by simp
      then show ?thesis using old(2) by (auto simp: holds_lock_def)
    next
      fix t assume a: "phase s w = Asking v t" "gs_lock s' = Some (v, gs_now s + lock_ttl)" "till = t + lock_timeout + run_budget"
      then have "t \<le> gs_now s" using lock unfolding lock_ok_def by blast
      then show ?thesis unfolding holds_lock_def a(2,3) by (simp add: durations)
    qed
  qed
  have ask: "t \<le> gs_now s" if "phase s w = Asking v t" for w v t using lock that unfolding lock_ok_def by blast
  have ex: "expires \<le> gs_now s + lock_ttl" if "gs_lock s = Some (v, expires)" for v expires using lock that unfolding lock_ok_def by blast
  have asking: "t \<le> gs_now s'" if "phase s' w = Asking v t" for w v t
    using step
  proof (cases rule: gc_step.cases)
    case (carry_out w' v' t' ok s1)
    then show ?thesis using that ask set_nx_fields [OF carry_out(3)] by (auto split: if_splits)
  next
    case (late_set v' ok s1)
    then show ?thesis using that ask set_nx_fields [OF late_set(3)] by (auto simp: phase_def)
  next
    case (late_del v')
    then show ?thesis using that ask by (auto simp: phase_def)
  next
    case (tick n)
    then show ?thesis using that ask by force
  qed (use that ask in \<open>auto split: if_splits\<close>)
  have exp: "expires \<le> gs_now s' + lock_ttl" if "gs_lock s' = Some (v, expires)" for v expires
    using step
  proof (cases rule: gc_step.cases)
    case (carry_out w' v' t' ok s1)
    then show ?thesis using that ex by (auto simp: set_nx_def split: if_splits)
  next
    case (late_set v' ok s1)
    then show ?thesis using that ex by (auto simp: set_nx_def split: if_splits)
  next
    case (tick n)
    then show ?thesis using that ex by force
  qed (use that ex in \<open>auto simp: unlock_script_def split: if_splits option.splits prod.splits\<close>)
  show ?thesis unfolding lock_ok_def using ent asking exp by blast
qed

lemma gc_reachable_ok: "gc_reachable message_ttl s \<Longrightarrow> values_ok s \<and> lock_ok s"
proof (induction rule: gc_reachable.induct)
  case (init now)
  show ?case
    by (auto simp: values_ok_def lock_ok_def late_def phase_def start_process_def entitled_def)
next
  case (step s s')
  then show ?case using values_ok_step lock_ok_step by blast
qed

text \<open>
  C33: at most one process of the cluster scans at any time, whatever requests are lost, carried out late or answered late; a process
  that scans still owns the lock in Redis at its deadline, and a lock, left behind or not, expires within ten minutes.
\<close>

theorem one_gc_at_a_time:
  assumes "gc_reachable message_ttl s"
  shows "(phase s w = Scanning v d \<and> phase s w' = Scanning v' d' \<longrightarrow> w = w') \<and>
    (phase s w = Scanning v d \<longrightarrow> gs_now s \<le> d \<and> (\<exists>expires. gs_lock s = Some (v, expires) \<and> d < expires)) \<and>
    (gs_lock s = Some (u, expires) \<longrightarrow> expires \<le> gs_now s + 10 * minute)"
proof -
  have vals: "values_ok s" and lock: "lock_ok s" using gc_reachable_ok [OF assms] by auto
  have scan: "gs_now s \<le> d \<and> holds_lock v d s" if "phase s w = Scanning v d" for w v d
  proof -
    have "entitled s w = Some (v, d)" using that by (simp add: entitled_def)
    then show ?thesis using lock unfolding lock_ok_def by blast
  qed
  show ?thesis
  proof (intro conjI impI)
    assume both: "phase s w = Scanning v d \<and> phase s w' = Scanning v' d'"
    then have "v = v'" using scan [of w v d] scan [of w' v' d'] by (auto simp: holds_lock_def)
    then show "w = w'" using vals both unfolding values_ok_def by (metis drawn_simps(4))
  next
    assume "gs_lock s = Some (u, expires)"
    then show "expires \<le> gs_now s + 10 * minute" using lock unfolding lock_ok_def lock_ttl_def by blast
  qed (use scan in \<open>auto simp: holds_lock_def\<close>)
qed

theorem one_gc_at_a_time_witness:
  "\<exists>s. gc_reachable 1 s \<and> phase s (0 :: nat) = Scanning ''1'' (510 * second) \<and> (\<forall>w v d. phase s w = Scanning v d \<longrightarrow> w = 0)"
proof -
  define s0 :: "nat gc_system" where "s0 = \<lparr>gs_now = 0, gs_lock = None, gs_process = \<lambda>w. start_process 1 0, gs_used = {},
    gs_late_set = {}, gs_late_del = {}\<rparr>"
  define s1 where "s1 = s0\<lparr>gs_now := 30 * second\<rparr>"
  define s2 where "s2 = s1\<lparr>gs_process := (gs_process s1)(0 := wake (gs_now s1) None ''1''), gs_used := insert ''1'' (gs_used s1)\<rparr>"
  define s3 where "s3 = set_phase 0 (Asked ''1'' (30 * second) True) (snd (set_nx ''1'' s2))"
  define s4 where "s4 = set_phase 0 (Scanning ''1'' (gs_now s3 + run_budget)) s3"
  have p0: "phase s0 w = Asleep None (30 * second)" for w
    by (simp add: s0_def phase_def start_process_def first_run_delay_def)
  have p1: "phase s1 w = Asleep None (30 * second)" "gs_now s1 = 30 * second" "gs_used s1 = {}" for w
    by (simp add: s1_def p0, simp_all add: s1_def s0_def)
  have p2: "phase s2 w = (if w = 0 then Asking ''1'' (30 * second) else Asleep None (30 * second))" "gs_now s2 = 30 * second"
    "gs_lock s2 = None" for w
    by (simp add: s2_def p1, simp_all add: s2_def s1_def s0_def)
  have nx: "set_nx ''1'' s2 = (True, snd (set_nx ''1'' s2))" using p2 by (simp add: set_nx_def lock_free_def)
  have p3: "phase s3 w = (if w = 0 then Asked ''1'' (30 * second) True else Asleep None (30 * second))" "gs_now s3 = 30 * second" for w
    using p2 set_nx_fields [OF nx] by (simp_all add: s3_def)
  have r0: "gc_reachable 1 s0" unfolding s0_def by (rule gc_reachable.init)
  have "gc_step s0 s1" unfolding s1_def by (rule gc_step.tick) (simp_all add: p0, simp add: s0_def second_def)
  note r1 = gc_reachable.step [OF r0 this]
  have "gc_step s1 s2" unfolding s2_def by (rule gc_step.ask [OF p1(1)]) (simp_all add: p1)
  note r2 = gc_reachable.step [OF r1 this]
  have "gc_step s2 s3" unfolding s3_def by (rule gc_step.carry_out [OF _ nx]) (simp add: p2)
  note r3 = gc_reachable.step [OF r2 this]
  have "gc_step s3 s4" unfolding s4_def by (rule gc_step.locked [where t = "30 * second"]) (simp_all add: p3 durations)
  note r4 = gc_reachable.step [OF r3 this]
  have p4: "phase s4 0 = Scanning ''1'' (510 * second)" by (simp add: s4_def p3 durations)
  have "w = 0" if "phase s4 w = Scanning v d" for w v d
    using one_gc_at_a_time [OF r4, of w v d 0 "''1''" "510 * second"] p4 that by blast
  with r4 p4 show ?thesis by blast
qed

end
