(* ===== verification/SseRun.thy ===== *)
theory SseRun
  imports Prelude
begin

text \<open>
  The goroutine of a topic of the SSE hub and its end (\<open>sseTopic.run\<close> and \<open>sseTopic.close\<close> of \<open>internal/handler/sse_hub.go\<close>) as a
  step relation, and what the two event endpoints send to a client (\<open>SSE\<close> of \<open>internal/handler/sse.go\<close>, the event stream of
  \<open>internal/dialect/yyds/realtime.go\<close>). The hub itself is theory \<open>Sse\<close>. Subscriptions are numbers, given out in order. The channel of a
  subscription may be closed at any time; what it has buffered is delivered before.
\<close>

section \<open>The goroutine of a topic\<close>

text \<open>
  \<open>Fetching\<close>: at the head of the loop. \<open>Reading\<close>: in the inner \<open>select\<close>. \<open>Checking\<close>: at \<open>resubscribe\<close>. \<open>Reopening\<close>: the topic was
  not stopped. \<open>Waiting\<close>: for the timer.
\<close>

datatype runner = Fetching | Reading | Checking | Reopening | Waiting | Ended

datatype closer = NotClosing | ClosingSub | AwaitingEnd | Closed

record topic_run =
  tr_runner :: runner
  tr_closer :: closer
  tr_stop :: bool
  tr_sub :: nat
  tr_open :: "nat set"
  tr_next :: nat
  tr_backoff :: duration
  tr_resubscribed :: nat
  tr_sent :: "string list"

definition start_topic :: topic_run where
  "start_topic = \<lparr>tr_runner = Fetching, tr_closer = NotClosing, tr_stop = False, tr_sub = 0, tr_open = {0}, tr_next = 1,
     tr_backoff = second, tr_resubscribed = 0, tr_sent = []\<rparr>"

definition resubscribe :: "topic_run \<Rightarrow> topic_run" where
  "resubscribe s = s\<lparr>tr_open := insert (tr_next s) (tr_open s - {tr_sub s}), tr_sub := tr_next s, tr_next := Suc (tr_next s),
     tr_resubscribed := Suc (tr_resubscribed s), tr_runner := Waiting\<rparr>"

definition double_backoff :: "duration \<Rightarrow> duration" where
  "double_backoff b = (if b < 30 * second then b * 2 else b)"

inductive run_step :: "topic_run \<Rightarrow> topic_run \<Rightarrow> bool" where
  fetch: "tr_runner s = Fetching \<Longrightarrow> run_step s (s\<lparr>tr_runner := Reading\<rparr>)"
| stop_reading: "tr_runner s = Reading \<Longrightarrow> tr_stop s \<Longrightarrow> run_step s (s\<lparr>tr_runner := Ended\<rparr>)"
| message: "tr_runner s = Reading \<Longrightarrow> run_step s (s\<lparr>tr_backoff := second, tr_sent := tr_sent s @ [p]\<rparr>)"
| channel_closed: "tr_runner s = Reading \<Longrightarrow> run_step s (s\<lparr>tr_runner := Checking\<rparr>)"
| stop_checking: "tr_runner s = Checking \<Longrightarrow> tr_stop s \<Longrightarrow> run_step s (s\<lparr>tr_runner := Ended\<rparr>)"
| not_stopped: "tr_runner s = Checking \<Longrightarrow> \<not> tr_stop s \<Longrightarrow> run_step s (s\<lparr>tr_runner := Reopening\<rparr>)"
| reopen: "tr_runner s = Reopening \<Longrightarrow> run_step s (resubscribe s)"
| stop_waiting: "tr_runner s = Waiting \<Longrightarrow> tr_stop s \<Longrightarrow> run_step s (s\<lparr>tr_runner := Ended\<rparr>)"
| timer: "tr_runner s = Waiting \<Longrightarrow> run_step s (s\<lparr>tr_backoff := double_backoff (tr_backoff s), tr_runner := Fetching\<rparr>)"

inductive close_step :: "topic_run \<Rightarrow> topic_run \<Rightarrow> bool" where
  close_stop: "tr_closer s = NotClosing \<Longrightarrow> close_step s (s\<lparr>tr_stop := True, tr_closer := ClosingSub\<rparr>)"
| close_sub: "tr_closer s = ClosingSub \<Longrightarrow> close_step s (s\<lparr>tr_open := tr_open s - {tr_sub s}, tr_closer := AwaitingEnd\<rparr>)"
| close_end: "tr_closer s = AwaitingEnd \<Longrightarrow> tr_runner s = Ended \<Longrightarrow> close_step s (s\<lparr>tr_closer := Closed\<rparr>)"

definition topic_step :: "topic_run \<Rightarrow> topic_run \<Rightarrow> bool" where
  "topic_step s s' \<longleftrightarrow> run_step s s' \<or> close_step s s'"

lemma by_runner: "run_step s s' \<Longrightarrow> topic_step s s'" and by_closer: "close_step s s' \<Longrightarrow> topic_step s s'"
  by (simp_all add: topic_step_def)

inductive_cases run_stepE: "run_step s s'"
inductive_cases close_stepE: "close_step s s'"

section \<open>What the goroutine guarantees\<close>

definition run_ok :: "topic_run \<Rightarrow> bool" where
  "run_ok s \<longleftrightarrow> tr_open s \<subseteq> {tr_sub s} \<and> tr_sub s < tr_next s \<and>
     tr_backoff s \<in> {second, 2 * second, 4 * second, 8 * second, 16 * second, 32 * second} \<and>
     (tr_stop s \<longleftrightarrow> tr_closer s \<noteq> NotClosing) \<and> (tr_runner s = Ended \<longrightarrow> tr_stop s) \<and> (tr_closer s = Closed \<longrightarrow> tr_runner s = Ended) \<and>
     (tr_closer s \<in> {AwaitingEnd, Closed} \<and> tr_resubscribed s = 0 \<longrightarrow> tr_open s = {})"

lemma run_ok_step: "run_ok s \<Longrightarrow> topic_step s s' \<Longrightarrow> run_ok s'"
  unfolding topic_step_def
  by (elim disjE run_stepE close_stepE) (auto simp: run_ok_def resubscribe_def double_backoff_def second_def)

lemma run_ok_run: "(topic_step ^^ n) start_topic s \<Longrightarrow> run_ok s"
proof (induction n arbitrary: s)
  case 0
  then have "s = start_topic" by simp
  then show ?case by (simp add: run_ok_def start_topic_def)
next
  case (Suc n)
  then obtain t where "run_ok t" "topic_step t s" by auto
  then show ?case by (rule run_ok_step)
qed

text \<open>What is left to do once the topic is stopped, apart from the delivery of messages.\<close>

definition runner_cost :: "runner \<Rightarrow> nat" where
  "runner_cost r = (case r of Fetching \<Rightarrow> 3 | Reading \<Rightarrow> 2 | Checking \<Rightarrow> 1 | Reopening \<Rightarrow> 5 | Waiting \<Rightarrow> 4 | Ended \<Rightarrow> 0)"

definition closer_cost :: "closer \<Rightarrow> nat" where
  "closer_cost c = (case c of NotClosing \<Rightarrow> 3 | ClosingSub \<Rightarrow> 2 | AwaitingEnd \<Rightarrow> 1 | Closed \<Rightarrow> 0)"

definition stop_cost :: "topic_run \<Rightarrow> nat" where
  "stop_cost s = runner_cost (tr_runner s) + closer_cost (tr_closer s)"

lemma stopped_step:
  assumes "topic_step s s'" "tr_stop s"
  shows "tr_stop s' \<and> Suc (stop_cost s') + length (tr_sent s) \<le> stop_cost s + length (tr_sent s')"
  using assms unfolding topic_step_def
  by (elim disjE run_stepE close_stepE) (auto simp: stop_cost_def runner_cost_def closer_cost_def resubscribe_def)

lemma stopped_steps:
  assumes "(topic_step ^^ n) s s'" "tr_stop s"
  shows "tr_stop s' \<and> n + stop_cost s' + length (tr_sent s) \<le> stop_cost s + length (tr_sent s')"
  using assms
proof (induction n arbitrary: s')
  case (Suc n)
  then obtain t where "(topic_step ^^ n) s t" "topic_step t s'" by auto
  with Suc.IH [of t] Suc.prems(2) stopped_step [of t s'] show ?case by auto
qed simp

lemma topic_not_stuck:
  assumes "run_ok s" "tr_closer s \<noteq> Closed"
  shows "\<exists>s'. topic_step s s' \<and> tr_sent s' = tr_sent s"
proof (cases "tr_runner s")
  case Ended
  then have "tr_closer s \<noteq> NotClosing" using assms(1) by (auto simp: run_ok_def)
  with assms(2) have "tr_closer s = ClosingSub \<or> tr_closer s = AwaitingEnd" by (cases "tr_closer s") auto
  then show ?thesis using Ended close_sub [of s] close_end [of s] unfolding topic_step_def by auto
next
  case Fetching
  then show ?thesis using fetch [of s] unfolding topic_step_def by auto
next
  case Reading
  then show ?thesis using channel_closed [of s] unfolding topic_step_def by auto
next
  case Checking
  then show ?thesis using stop_checking [of s] not_stopped [of s] unfolding topic_step_def by (cases "tr_stop s") auto
next
  case Reopening
  then show ?thesis using reopen [of s] unfolding topic_step_def by (auto simp: resubscribe_def)
next
  case Waiting
  then show ?thesis using timer [of s] unfolding topic_step_def by auto
qed

text \<open>
  C27: the goroutine of a topic and its end. A topic never has more than one open subscription; it waits at most 32 seconds between two
  attempts to subscribe again. Once it is stopped at most seven steps are left apart from deliveries, and until \<open>close\<close>
  has returned there is always a next step other than a delivery. When \<open>close\<close> has returned, the goroutine has ended, and if it never had to subscribe
  again its subscription is closed.
\<close>

theorem topic_run_ends:
  assumes run: "(topic_step ^^ n) start_topic s"
  shows "card (tr_open s) \<le> 1 \<and> second \<le> tr_backoff s \<and> tr_backoff s \<le> 32 * second \<and>
    (tr_closer s = Closed \<longrightarrow> tr_runner s = Ended \<and> (tr_resubscribed s = 0 \<longrightarrow> tr_open s = {})) \<and>
    (tr_closer s \<noteq> Closed \<longrightarrow> (\<exists>s'. topic_step s s' \<and> tr_sent s' = tr_sent s)) \<and>
    (tr_stop s \<and> (topic_step ^^ m) s s' \<longrightarrow> m + length (tr_sent s) \<le> 7 + length (tr_sent s'))"
proof -
  have ok: "run_ok s" using run_ok_run [OF run] .
  have "card (tr_open s) \<le> card {tr_sub s}" using ok by (intro card_mono) (auto simp: run_ok_def)
  moreover have "second \<le> tr_backoff s \<and> tr_backoff s \<le> 32 * second" using ok by (auto simp: run_ok_def second_def)
  moreover have "tr_closer s = Closed \<longrightarrow> tr_runner s = Ended \<and> (tr_resubscribed s = 0 \<longrightarrow> tr_open s = {})"
    using ok by (auto simp: run_ok_def)
  moreover have "tr_closer s \<noteq> Closed \<longrightarrow> (\<exists>s'. topic_step s s' \<and> tr_sent s' = tr_sent s)" using topic_not_stuck ok by blast
  moreover have "m + length (tr_sent s) \<le> 7 + length (tr_sent s')" if "tr_stop s \<and> (topic_step ^^ m) s s'"
  proof -
    have "stop_cost s \<le> 7"
      using that ok by (auto simp: run_ok_def stop_cost_def runner_cost_def closer_cost_def split: runner.split closer.split)
    then show ?thesis using stopped_steps that by fastforce
  qed
  ultimately show ?thesis by simp
qed

theorem topic_run_ends_witness:
  "\<exists>s. (topic_step ^^ 6) start_topic s \<and> tr_sent s = [''p''] \<and> tr_closer s = Closed \<and> tr_open s = {}"
proof -
  define s1 where "s1 = start_topic\<lparr>tr_runner := Reading\<rparr>"
  define s2 where "s2 = s1\<lparr>tr_backoff := second, tr_sent := tr_sent s1 @ [''p'']\<rparr>"
  define s3 where "s3 = s2\<lparr>tr_stop := True, tr_closer := ClosingSub\<rparr>"
  define s4 where "s4 = s3\<lparr>tr_runner := Ended\<rparr>"
  define s5 where "s5 = s4\<lparr>tr_open := tr_open s4 - {tr_sub s4}, tr_closer := AwaitingEnd\<rparr>"
  define s6 where "s6 = s5\<lparr>tr_closer := Closed\<rparr>"
  note defs = s1_def s2_def s3_def s4_def s5_def s6_def start_topic_def
  have "topic_step start_topic s1" unfolding s1_def by (rule by_runner, rule fetch) (simp add: defs)
  moreover have "topic_step s1 s2" unfolding s2_def by (rule by_runner, rule message) (simp add: defs)
  moreover have "topic_step s2 s3" unfolding s3_def by (rule by_closer, rule close_stop) (simp add: defs)
  moreover have "topic_step s3 s4" unfolding s4_def by (rule by_runner, rule stop_reading) (simp_all add: defs)
  moreover have "topic_step s4 s5" unfolding s5_def by (rule by_closer, rule close_sub) (simp add: defs)
  moreover have "topic_step s5 s6" unfolding s6_def by (rule by_closer, rule close_end) (simp_all add: defs)
  ultimately have run: "(topic_step ^^ 6) start_topic s6"
    by (simp add: eval_nat_numeral) blast
  have s6: "tr_closer s6 = Closed" "tr_resubscribed s6 = 0" "tr_sent s6 = [''p'']" by (simp_all add: defs)
  then have "tr_open s6 = {}" using topic_run_ends [OF run] by blast
  with run s6 show ?thesis by blast
qed

text \<open>
  Otherwise it may be left open: the channel of the subscription is closed, the goroutine finds the topic not stopped; \<open>close\<close> stops
  it and closes the old subscription; the goroutine then opens a new one, which nobody closes.
\<close>

lemma subscription_left_open:
  "\<exists>s. (topic_step ^^ 8) start_topic s \<and> tr_closer s = Closed \<and> tr_runner s = Ended \<and> tr_open s = {1}"
proof -
  define s1 where "s1 = start_topic\<lparr>tr_runner := Reading\<rparr>"
  define s2 where "s2 = s1\<lparr>tr_runner := Checking\<rparr>"
  define s3 where "s3 = s2\<lparr>tr_runner := Reopening\<rparr>"
  define s4 where "s4 = s3\<lparr>tr_stop := True, tr_closer := ClosingSub\<rparr>"
  define s5 where "s5 = s4\<lparr>tr_open := tr_open s4 - {tr_sub s4}, tr_closer := AwaitingEnd\<rparr>"
  define s6 where "s6 = resubscribe s5"
  define s7 where "s7 = s6\<lparr>tr_runner := Ended\<rparr>"
  define s8 where "s8 = s7\<lparr>tr_closer := Closed\<rparr>"
  note defs = s1_def s2_def s3_def s4_def s5_def s6_def s7_def s8_def start_topic_def resubscribe_def
  have "topic_step start_topic s1" unfolding s1_def by (rule by_runner, rule fetch) (simp add: defs)
  moreover have "topic_step s1 s2" unfolding s2_def by (rule by_runner, rule channel_closed) (simp add: defs)
  moreover have "topic_step s2 s3" unfolding s3_def by (rule by_runner, rule not_stopped) (simp_all add: defs)
  moreover have "topic_step s3 s4" unfolding s4_def by (rule by_closer, rule close_stop) (simp add: defs)
  moreover have "topic_step s4 s5" unfolding s5_def by (rule by_closer, rule close_sub) (simp add: defs)
  moreover have "topic_step s5 s6" unfolding s6_def by (rule by_runner, rule reopen) (simp add: defs)
  moreover have "topic_step s6 s7" unfolding s7_def by (rule by_runner, rule stop_waiting) (simp_all add: defs)
  moreover have "topic_step s7 s8" unfolding s8_def by (rule by_closer, rule close_end) (simp_all add: defs)
  ultimately have "(topic_step ^^ 8) start_topic s8"
    by (simp add: eval_nat_numeral) blast
  moreover have "tr_closer s8 = Closed" "tr_runner s8 = Ended" "tr_open s8 = {1}" by (simp_all add: defs)
  ultimately show ?thesis by blast
qed

section \<open>What a client is sent\<close>

text \<open>What the loop of the handler \<open>SSE\<close> receives, and what it writes.\<close>

datatype stream_event = StreamPayload string | StreamClosed | StreamPing | StreamGone

datatype sse_chunk = SseEvent string string | SseComment string

definition sse_headers :: "(string \<times> string) list" where
  "sse_headers = [(''Content-Type'', ''text/event-stream''), (''Cache-Control'', ''no-cache''), (''Connection'', ''keep-alive''),
     (''X-Accel-Buffering'', ''no'')]"

fun sse_stream :: "stream_event list \<Rightarrow> sse_chunk list" where
  "sse_stream [] = []"
| "sse_stream (StreamPayload payload # es) = SseEvent ''message'' payload # sse_stream es"
| "sse_stream (StreamClosed # es) = []"
| "sse_stream (StreamPing # es) = SseComment '': ping'' # sse_stream es"
| "sse_stream (StreamGone # es) = []"

text \<open>A WebSocket reads from a subscription of its own; \<open>Next\<close> returns a payload or why there is none.\<close>

datatype next_event = ContextDone string | ChannelMessage string | NilMessage | ChannelClosed

datatype stream_error = ContextError string | EOF

definition stream_next :: "next_event \<Rightarrow> stream_error + string" where
  "stream_next ev =
     (case ev of ContextDone e \<Rightarrow> Inl (ContextError e) | ChannelMessage payload \<Rightarrow> Inr payload | NilMessage \<Rightarrow> Inl EOF | ChannelClosed \<Rightarrow> Inl EOF)"

text \<open>The payloads of the loop of a WebSocket up to the first error.\<close>

fun stream_payloads :: "next_event list \<Rightarrow> string list" where
  "stream_payloads [] = []"
| "stream_payloads (ev # es) = (case stream_next ev of Inl err \<Rightarrow> [] | Inr payload \<Rightarrow> payload # stream_payloads es)"

end
