(* ===== verification/EndToEnd.thy ===== *)
theory EndToEnd
  imports Smtp Delivery Quota
begin

text \<open>
  From the SMTP session to the mailboxes: what the worker's consumer (\<open>cmd/worker/main.go\<close> hands \<open>ProcessMessage\<close> to \<open>Consume\<close>)
  leaves in the database for a message that a session has published, however often JetStream delivers it and whatever other
  operations run between two deliveries. It composes the theories \<open>Smtp\<close>, \<open>Queue\<close>, \<open>Worker\<close>, \<open>Process\<close> and \<open>Delivery\<close>.
\<close>

section \<open>Deliveries\<close>

text \<open>The handler of the consumer; each recipient has the clock readings, ids and environment of its run.\<close>

definition worker_handler :: "(string \<Rightarrow> 's worker_env) \<Rightarrow> incoming_email \<Rightarrow> 's \<Rightarrow> handler_result \<times> 's" where
  "worker_handler w e s =
     (let (err, s') = process_message (\<lambda>e r. process_for_recipient (w r) e r) (Some e) s in (HandlerReturns err, s'))"

text \<open>A delivery: its number, the worker that takes it, and what happened to the database since the previous one.\<close>

record 's delivery =
  dl_number :: "64 word"
  dl_worker :: "string \<Rightarrow> 's worker_env"
  dl_since :: "'s \<Rightarrow> 's"

definition deliver ::
  "'h header_api \<Rightarrow> (bytes \<Rightarrow> incoming_email \<Rightarrow> incoming_email option) \<Rightarrow> string \<times> 64 word \<Rightarrow> 'h stream_message
     \<Rightarrow> 's delivery \<Rightarrow> 's \<Rightarrow> acknowledgement \<times> 's" where
  "deliver api json pos m d s =
     consume_callback api json (worker_handler (dl_worker d)) (delivered api (Some (fst pos, snd pos, dl_number d)) m) (dl_since d s)"

definition deliver_all ::
  "'h header_api \<Rightarrow> (bytes \<Rightarrow> incoming_email \<Rightarrow> incoming_email option) \<Rightarrow> string \<times> 64 word \<Rightarrow> 'h stream_message
     \<Rightarrow> 's delivery list \<Rightarrow> 's \<Rightarrow> 's" where
  "deliver_all api json pos m ds s = foldl (\<lambda>s d. snd (deliver api json pos m d s)) s ds"

section \<open>What a run leaves alone\<close>

definition mailboxes :: "'s contents \<Rightarrow> 's \<Rightarrow> (object_id \<times> string \<times> int) list" where
  "mailboxes v s = map (\<lambda>a. (ac_id a, ac_address a, ac_quota a)) (in_accounts v s)"

lemma mailboxes_cong: "in_accounts v s' = in_accounts v s \<Longrightarrow> mailboxes v s' = mailboxes v s"
  by (simp add: mailboxes_def)

lemma same_mailbox:
  assumes "mailboxes v s' = mailboxes v s" "a \<in> set (in_accounts v s)"
  obtains b where "b \<in> set (in_accounts v s')" "ac_id b = ac_id a" "ac_address b = ac_address a" "ac_quota b = ac_quota a"
proof -
  have "(ac_id a, ac_address a, ac_quota a) \<in> set (mailboxes v s')"
    unfolding assms(1) unfolding mailboxes_def set_map using assms(2) by (rule image_eqI [OF refl])
  then obtain b where "b \<in> set (in_accounts v s')" "(ac_id a, ac_address a, ac_quota a) = (ac_id b, ac_address b, ac_quota b)"
    unfolding mailboxes_def set_map by (rule imageE)
  then show thesis using that by simp
qed

lemma mailboxes_update:
  assumes "database_laws db v" "co_update_one (db_accounts db) f us s = (r, s')"
    and keep: "\<And>a. (ac_id (apply_update account_schema us a), ac_address (apply_update account_schema us a),
      ac_quota (apply_update account_schema us a)) = (ac_id a, ac_address a, ac_quota a)"
  shows "mailboxes v s' = mailboxes v s"
proof -
  consider "in_accounts v s' = in_accounts v s" | "updates_one account_schema f us (in_accounts v s) (in_accounts v s')"
    using update_one_law(2) [OF accounts_laws(1) [OF assms(1)] assms(2)] by (auto split: sum.splits if_splits)
  then show ?thesis
  proof cases
    case 2
    then show ?thesis using keep unfolding mailboxes_def updates_one_def by force
  qed (simp add: mailboxes_def)
qed

lemma account_updates_mailboxes:
  assumes laws: "database_laws db v"
  shows "mailboxes v (snd (try_reserve_account_used db now i delta s)) = mailboxes v s"
    "mailboxes v (snd (recalculate_account_used db now i s)) = mailboxes v s"
    "mailboxes v (snd (update_account_used db now i delta s)) = mailboxes v s"
proof -
  note U = mailboxes_update [OF laws]
  have R: "mailboxes v (snd (co_update_one (db_accounts db) f [UInc ''used'' delta, USet ''updatedAt'' (BDate (millis now))] s)) = mailboxes v s" for f
    by (rule U [OF prod.collapse [symmetric]]) (simp only: apply_reserve, simp)
  have C: "mailboxes v (snd (co_update_one (db_accounts db) f [USet ''used'' (BInt u), USet ''updatedAt'' (BDate (millis now))] s)) = mailboxes v s" for f u
    by (rule U [OF prod.collapse [symmetric]]) (simp only: apply_set_used, simp)
  have A: "mailboxes v (snd (co_update_one (db_accounts db) f
      [USetExpr ''used'' (EMax (ELit 0) (EAdd (EIfNull (EField ''used'') (ELit 0)) (ELit delta))), USet ''updatedAt'' (BDate (millis now))] s)) = mailboxes v s" for f
    by (rule U [OF prod.collapse [symmetric]]) (simp only: apply_used, simp)
  have T: "mailboxes v (snd (co_update_one (db_accounts db) f [USet ''updatedAt'' (BDate (millis now))] s)) = mailboxes v s" for f
    by (rule U [OF prod.collapse [symmetric]]) (simp only: apply_set_used, simp)
  show "mailboxes v (snd (try_reserve_account_used db now i delta s)) = mailboxes v s"
    unfolding try_reserve_account_used_def Let_def using R by (auto simp: case_prod_beta split: sum.splits)
  show "mailboxes v (snd (recalculate_account_used db now i s)) = mailboxes v s"
    unfolding recalculate_account_used_def Let_def using C by (auto simp: case_prod_beta split: sum.splits)
  show "mailboxes v (snd (update_account_used db now i delta s)) = mailboxes v s"
    unfolding update_account_used_def update_result_error_def Let_def using A T by (auto simp: case_prod_beta split: sum.splits)
qed

lemma reserve_quota_mailboxes:
  assumes "database_laws (we_db w) v"
  shows "mailboxes v (snd (reserve_quota w acc delta r s)) = mailboxes v s"
proof -
  note K = account_updates_mailboxes [OF assms]
  obtain r1 s1 where 1: "try_reserve_account_used (we_db w) (we_clock w 0) acc delta s = (r1, s1)" by fastforce
  obtain r3 s3 where 3: "try_reserve_account_used (we_db w) (we_clock w 2) acc delta
      (snd (recalculate_account_used (we_db w) (we_clock w 1) acc s1)) = (r3, s3)" by fastforce
  have "mailboxes v s1 = mailboxes v s" using K(1) [of "we_clock w 0" acc delta s] by (simp add: 1)
  moreover have "mailboxes v s3 = mailboxes v s1"
    using K(1) [of "we_clock w 2" acc delta "snd (recalculate_account_used (we_db w) (we_clock w 1) acc s1)"] K(2)
    by (simp only: 3 snd_conv)
  moreover have "snd (reserve_quota w acc delta r s) \<in> {s, s1, s3}"
    unfolding reserve_quota_def Let_def 1 prod.case 3 by (auto split: sum.split bool.split)
  ultimately show ?thesis by auto
qed

lemma process_mailboxes:
  assumes laws: "worker_laws w v" and run: "process_for_recipient w e r s = (err, s')"
  shows "mailboxes v s' = mailboxes v s"
proof -
  have db: "database_laws (we_db w) v" using laws by (simp add: worker_laws_def)
  from laws run show ?thesis
  proof (cases rule: process_cases)
    case (no_quota acc er)
    then show ?thesis using reserve_quota_mailboxes [OF db, of acc "int (length (ie_raw_message e))" r s] by simp
  next
    case (stored acc s1 committed s2)
    have "mailboxes v s1 = mailboxes v s"
      using reserve_quota_mailboxes [OF db, of acc "int (length (ie_raw_message e))" r s] stored(2) by simp
    moreover have "mailboxes v s2 = mailboxes v s1"
      using store_incoming_effect(1) [OF laws stored(3)] by (rule mailboxes_cong)
    ultimately show ?thesis using stored(4) account_updates_mailboxes(3) [OF db] by simp
  qed simp_all
qed

section \<open>Which e-mails are refused\<close>

lemma store_incoming_new_id:
  assumes laws: "worker_laws w v" and run: "store_incoming w e acc s = (err, committed, s')"
  shows "ms_id ` set (in_messages v s') \<subseteq> insert (we_new_id w 0) (ms_id ` set (in_messages v s))"
  using laws run
proof (cases rule: store_incoming_cases)
  case (created msg s2 res m s3)
  have db: "database_laws (we_db w) v" and id0: "we_new_id w 0 \<noteq> 0" using laws by (simp_all add: worker_laws_def)
  obtain msg2 r where r: "co_insert_one (db_messages (we_db w)) msg2 s2 = (r, s3)" "ms_id msg2 = ms_id msg"
    using created(4) unfolding create_message_def Let_def by (auto split: prod.splits sum.splits)
  have "in_messages v s3 = in_messages v s2 \<or> (\<exists>d. ms_id d = we_new_id w 0 \<and> in_messages v s3 = in_messages v s2 @ [d])"
    using insert_law(2) [OF accounts_laws(2) [OF db] r(1)] r(2) created(3) id0
    by (auto simp: inserts_def Let_def split: sum.splits)
  then show ?thesis unfolding same_tables [OF created(5)] same_tables [OF created(1)] by auto
qed auto

lemma process_new_id:
  assumes laws: "worker_laws w v" and run: "process_for_recipient w e r s = (err, s')"
  shows "ms_id ` set (in_messages v s') \<subseteq> insert (we_new_id w 0) (ms_id ` set (in_messages v s))"
proof -
  have db: "database_laws (we_db w) v" using laws by (simp add: worker_laws_def)
  from laws run show ?thesis
  proof (cases rule: process_cases)
    case (no_quota acc er)
    then show ?thesis using reserve_quota_keeps [OF db, of acc "int (length (ie_raw_message e))" r s] by auto
  next
    case (stored acc s1 committed s2)
    have "in_messages v s1 = in_messages v s"
      using reserve_quota_keeps [OF db, of acc "int (length (ie_raw_message e))" r s] stored(2) by simp
    moreover have "in_messages v s' = in_messages v s2" using stored(4) account_updates_keep(3) [OF db] by simp
    ultimately show ?thesis using store_incoming_new_id [OF laws stored(3)] by simp
  qed auto
qed

text \<open>What the mailbox of an account would have to hold; the reservation fails for good only when it does not fit.\<close>

definition overfull :: "incoming_email \<Rightarrow> account \<Rightarrow> message list \<Rightarrow> bool" where
  "overfull e a ms \<longleftrightarrow> 0 < ac_quota a \<and> ac_quota a < live_size (ac_id a) ms + int (length (ie_raw_message e))"

lemma store_error_not_permanent [simp]: "\<not> is_permanent (Some (store_go_error er))"
  by (cases er) (auto simp: store_go_error_def split: mongo_error.split)

lemma reserve_refuses_overfull:
  assumes laws: "database_laws (we_db w) v" and rel: "reliable (we_db w)"
    and pos: "\<forall>m \<in> set (in_messages v s). 0 \<le> ms_size m" and ids: "distinct (map ac_id (in_accounts v s))"
    and a: "a \<in> set (in_accounts v s)"
    and run: "reserve_quota w (ac_id a) delta r s = (err, s')" "is_permanent err"
  shows "0 < ac_quota a \<and> ac_quota a < live_size (ac_id a) (in_messages v s) + delta"
proof -
  let ?i = "ac_id a" and ?db = "we_db w"
  obtain r1 s1 where 1: "try_reserve_account_used ?db (we_clock w 0) ?i delta s = (r1, s1)" by fastforce
  let ?s2 = "snd (recalculate_account_used ?db (we_clock w 1) ?i s1)"
  obtain r3 s3 where 3: "try_reserve_account_used ?db (we_clock w 2) ?i delta ?s2 = (r3, s3)" by fastforce
  have d: "0 < delta"
  proof (rule ccontr)
    assume "\<not> 0 < delta"
    then have "err = None" using run(1) by (simp add: reserve_quota_def)
    then show False using run(2) by simp
  qed
  note step = run(1) [unfolded reserve_quota_def Let_def 1 3 prod.case]
  have r1: "r1 = Inr False"
  proof (cases r1)
    case (Inl x)
    then show ?thesis using step d run(2) by auto
  next
    case (Inr b)
    then show ?thesis using step d run(2) by (cases b) auto
  qed
  have "r3 = Inr False"
  proof (cases r3)
    case (Inl x)
    then show ?thesis using step d r1 run(2) by auto
  next
    case (Inr b)
    then show ?thesis using step d r1 run(2) by (cases b) auto
  qed
  then have r3: "try_reserve_account_used ?db (we_clock w 2) ?i delta ?s2 = (Inr False, s3)" using 3 by simp
  have m1: "in_messages v s1 = in_messages v s"
    using account_updates_keep(1) [OF laws, of "we_clock w 0" ?i delta s] by (simp add: 1)
  have b1: "mailboxes v s1 = mailboxes v s"
    using account_updates_mailboxes(1) [OF laws, of "we_clock w 0" ?i delta s] by (simp add: 1)
  have ids1: "distinct (map ac_id (in_accounts v s1))"
    using ids arg_cong [OF b1, of "map fst"] by (simp add: mailboxes_def o_def)
  obtain a1 where a1: "a1 \<in> set (in_accounts v s1)" "ac_id a1 = ?i" "ac_quota a1 = ac_quota a"
    by (rule same_mailbox [OF b1 a])
  let ?us = "[USet ''used'' (BInt (live_size ?i (in_messages v s1))), USet ''updatedAt'' (BDate (millis (we_clock w 1)))]"
  obtain u where u: "co_update_one (db_accounts ?db) [CEq ''_id'' (BId ?i)] ?us s1 = (Inr u, ?s2)"
    by (rule recalculate_runs [OF laws rel, of s1 ?i "we_clock w 1"]) (use pos m1 in simp_all)
  have f: "\<forall>a. matches [CEq ''_id'' (BId ?i)] (account_fields a) \<longrightarrow> ac_id a = ?i"
    by (simp only: matches_account_id) simp
  have "ur_matched u \<noteq> 0"
  proof
    assume "ur_matched u = 0"
    then have "matching account_schema [CEq ''_id'' (BId ?i)] (in_accounts v s1) = []"
      using update_one_law(2) [OF accounts_laws(1) [OF laws] u] by simp
    then show False using a1 by (auto simp: matching_def filter_empty_conv account_fields_def)
  qed
  have "in_accounts v ?s2 = map (\<lambda>a. if ac_id a = ?i then apply_update account_schema ?us a else a) (in_accounts v s1)"
    using update_account_by_id(3) [OF laws ids1 f u \<open>ur_matched u \<noteq> 0\<close>] by (rule conjunct1 [OF conjunct2])
  moreover have "(if ac_id a1 = ?i then apply_update account_schema ?us a1 else a1)
    \<in> set (map (\<lambda>a. if ac_id a = ?i then apply_update account_schema ?us a else a) (in_accounts v s1))"
    unfolding set_map by (rule imageI [OF a1(1)])
  ultimately have "a1\<lparr>ac_used := live_size ?i (in_messages v s1), ac_updated_at := trunc_ms (we_clock w 1)\<rparr> \<in> set (in_accounts v ?s2)"
    by (simp only: a1(2) simp_thms if_True apply_set_used)
  then have "\<not> has_room delta (a1\<lparr>ac_used := live_size ?i (in_messages v s1), ac_updated_at := trunc_ms (we_clock w 1)\<rparr>)"
    using try_reserve_iff [OF laws d r3] a1(2) by auto
  then show ?thesis using a1(3) m1 by (simp add: has_room_def)
qed

lemma lookup_account:
  assumes laws: "database_laws db v" and addrs: "distinct (map ac_address (in_accounts v s))"
    and a: "a \<in> set (in_accounts v s)" "ac_address a = to_lower (trim_space r)" "ac_address a \<noteq> []"
  shows "case get_account_id_by_address db r s of Inr acc \<Rightarrow> acc = ac_id a | Inl x \<Rightarrow> x \<noteq> ErrNotFound \<and> x \<noteq> ErrAccountDeleted"
proof (cases "get_account_id_by_address db r s")
  case (Inl x)
  let ?f = "[CEq ''address'' (BStr (to_lower (trim_space r)))]"
  have "co_find_one (db_accounts db) ?f p s \<noteq> Inl NoDocuments" for p
  proof
    assume "co_find_one (db_accounts db) ?f p s = Inl NoDocuments"
    from find_one_NoDocuments [OF accounts_laws(1) [OF laws] this a(1)] show False using a(2) by (simp add: account_fields_def)
  qed
  then show ?thesis using Inl a(2,3)
    by (auto simp: get_account_id_by_address_def not_found_error_def Let_def split: if_splits sum.splits mongo_error.splits)
next
  case (Inr acc)
  obtain b where b: "b \<in> set (in_accounts v s)" "ac_id b = acc" "ac_address b = to_lower (trim_space r)"
    by (rule account_id_found [OF laws Inr])
  then have "b = a" using addrs a(1,2) by (simp add: distinct_map inj_on_def)
  then show ?thesis using b(2) Inr by simp
qed

lemma process_permanent:
  assumes run: "process_for_recipient w e r s = (err, s')" "is_permanent err" and acc: "get_account_id_by_address (we_db w) r s = Inr acc"
  shows "(\<exists>s1. reserve_quota w acc (int (length (ie_raw_message e))) r s = (err, s1)) \<or>
    (\<exists>s1 committed s2. store_incoming w e acc s1 = (err, committed, s2))"
proof -
  let ?dup = "if trim_space (ie_ingest_stream e) \<noteq> [] \<and> 0 < ie_ingest_seq e
    then has_message_by_ingest (we_db w) acc (ie_ingest_stream e) (ie_ingest_seq e) s else Inr False"
  obtain er s1 where res: "reserve_quota w acc (int (length (ie_raw_message e))) r s = (er, s1)" by fastforce
  obtain er2 committed s2 where st: "store_incoming w e acc s1 = (er2, committed, s2)"
    by (cases "store_incoming w e acc s1") auto
  note step = run(1) [unfolded process_for_recipient_def Let_def acc sum.case res prod.case st]
  show ?thesis
  proof (cases ?dup)
    case (Inl x)
    then show ?thesis using step run(2) by (simp only: Inl sum.case) auto
  next
    case (Inr b)
    have "b = False" using step run(2) by (cases b) (auto simp only: Inr sum.case bool.case is_permanent_simps prod.inject)
    then show ?thesis using step res st Inr by (cases er) (auto simp only: Inr sum.case bool.case option.case prod.inject)
  qed
qed

lemma process_settles:
  assumes laws: "worker_laws w v" and rel: "reliable (we_db w)" and run: "process_for_recipient w e r s = (err, s')"
    and stream: "trim_space (ie_ingest_stream e) = ie_ingest_stream e" "ie_ingest_stream e \<noteq> []" "0 < ie_ingest_seq e"
    and fresh: "we_new_id w 0 \<notin> ms_id ` set (in_messages v s)"
    and unique: "\<forall>acc. length (copies e acc (in_messages v s)) \<le> 1" and pos: "\<forall>m \<in> set (in_messages v s). 0 \<le> ms_size m"
    and accs: "distinct (map ac_id (in_accounts v s))" "distinct (map ac_address (in_accounts v s))"
    and a: "a \<in> set (in_accounts v s)" "ac_address a = to_lower (trim_space r)" "ac_address a \<noteq> []"
    and readable: "\<not> isl (we_parse w (ie_raw_message e))" and settled: "\<not> transient err"
  shows "length (copies e (ac_id a) (in_messages v s')) = 1 \<or> overfull e a (in_messages v s)"
proof (cases "err = None")
  case True
  have "copies e (ac_id b) (in_messages v s') \<noteq> [] \<Longrightarrow> in_messages v s' = in_messages v s \<Longrightarrow>
      length (copies e (ac_id b) (in_messages v s')) = 1" for b
    using unique by (metis One_nat_def Suc_leI le_antisym length_greater_0_conv)
  then obtain b where b: "b \<in> set (in_accounts v s)" "ac_address b = to_lower (trim_space r)"
      "length (copies e (ac_id b) (in_messages v s')) = 1"
    using delivery_effect [OF laws run stream(1) fresh] copies_adds(1) [OF _ stream(2,3)] True by blast
  have "b = a" using accs(2) a(1,2) b(1,2) by (simp add: distinct_map inj_on_def)
  then show ?thesis using b(3) by simp
next
  case False
  then have perm: "is_permanent err" using settled by (simp add: transient_def)
  have db: "database_laws (we_db w) v" using laws by (simp add: worker_laws_def)
  show ?thesis
  proof (cases "get_account_id_by_address (we_db w) r s")
    case (Inl x)
    then show ?thesis using lookup_account [OF db accs(2) a] run perm by (auto simp: process_for_recipient_def Let_def)
  next
    case (Inr acc)
    then have acc: "acc = ac_id a" using lookup_account [OF db accs(2) a] by simp
    from process_permanent [OF run perm Inr] show ?thesis
    proof (elim disjE exE)
      fix s1 assume "reserve_quota w acc (int (length (ie_raw_message e))) r s = (err, s1)"
      from reserve_refuses_overfull [OF db rel pos accs(1) a(1) this [unfolded acc] perm]
      show ?thesis by (simp add: overfull_def)
    next
      fix s1 committed s2 assume "store_incoming w e acc s1 = (err, committed, s2)"
      from laws this show ?thesis
      proof (cases rule: store_incoming_cases)
        case (created msg s3 res m s4)
        then show ?thesis using perm by (auto split: option.splits if_splits)
      qed (use readable in simp)
    qed
  qed
qed

section \<open>One delivery, all recipients\<close>

text \<open>
  What a delivery relies on: the unique indexes hold, sizes are not negative, no account has two copies, and the ids of the
  messages that runs may still store are not taken.
\<close>

definition ready :: "'s contents \<Rightarrow> incoming_email \<Rightarrow> object_id set \<Rightarrow> 's \<Rightarrow> bool" where
  "ready v e new s \<longleftrightarrow>
     distinct (map ac_id (in_accounts v s)) \<and> distinct (map ac_address (in_accounts v s)) \<and>
     (\<forall>m \<in> set (in_messages v s). 0 \<le> ms_size m) \<and> (\<forall>acc. length (copies e acc (in_messages v s)) \<le> 1) \<and>
     new \<inter> ms_id ` set (in_messages v s) = {}"

text \<open>The messages that one or more runs have added: each is the e-mail, in the account of one of the recipients.\<close>

definition extends :: "'s contents \<Rightarrow> incoming_email \<Rightarrow> string set \<Rightarrow> 's \<Rightarrow> 's \<Rightarrow> bool" where
  "extends v e rs s s' \<longleftrightarrow> mailboxes v s' = mailboxes v s \<and>
     (\<exists>ys. in_messages v s' = in_messages v s @ ys \<and>
       (\<forall>m \<in> set ys. \<exists>a \<in> set (in_accounts v s). ac_address a \<in> same_recipient ` rs \<and> stored_as e (ac_id a) m))"

lemma extends_trans:
  assumes "extends v e rs s t" "extends v e rs' t u"
  shows "extends v e (rs \<union> rs') s u"
proof -
  obtain ys where ys: "in_messages v t = in_messages v s @ ys"
      "\<forall>m \<in> set ys. \<exists>a \<in> set (in_accounts v s). ac_address a \<in> same_recipient ` rs \<and> stored_as e (ac_id a) m"
    using assms(1) by (auto simp: extends_def)
  obtain zs where zs: "in_messages v u = in_messages v t @ zs"
      "\<forall>m \<in> set zs. \<exists>a \<in> set (in_accounts v t). ac_address a \<in> same_recipient ` rs' \<and> stored_as e (ac_id a) m"
    using assms(2) by (auto simp: extends_def)
  have box: "mailboxes v s = mailboxes v t" using assms(1) by (simp add: extends_def)
  have "\<exists>a \<in> set (in_accounts v s). ac_address a \<in> same_recipient ` (rs \<union> rs') \<and> stored_as e (ac_id a) m" if m: "m \<in> set zs" for m
  proof -
    obtain b where b: "b \<in> set (in_accounts v t)" "ac_address b \<in> same_recipient ` rs'" "stored_as e (ac_id b) m"
      using bspec [OF zs(2) m] by blast
    obtain a where "a \<in> set (in_accounts v s)" "ac_id a = ac_id b" "ac_address a = ac_address b"
      by (rule same_mailbox [OF box b(1)])
    then show ?thesis using b(2,3) by (intro bexI [of _ a]) auto
  qed
  moreover have "\<exists>a \<in> set (in_accounts v s). ac_address a \<in> same_recipient ` (rs \<union> rs') \<and> stored_as e (ac_id a) m" if "m \<in> set ys" for m
    using bspec [OF ys(2) that] by blast
  ultimately have "\<forall>m \<in> set (ys @ zs). \<exists>a \<in> set (in_accounts v s). ac_address a \<in> same_recipient ` (rs \<union> rs') \<and> stored_as e (ac_id a) m"
    unfolding set_append by blast
  moreover have "mailboxes v u = mailboxes v s" using assms by (simp add: extends_def)
  moreover have "in_messages v u = in_messages v s @ ys @ zs" using ys(1) zs(1) by simp
  ultimately show ?thesis unfolding extends_def by blast
qed

lemma overfull_extends:
  assumes "overfull e a (in_messages v s)" "extends v e rs s s'"
  shows "overfull e a (in_messages v s')"
proof -
  obtain ys where ys: "in_messages v s' = in_messages v s @ ys" "\<forall>m \<in> set ys. \<exists>i. stored_as e i m"
    using assms(2) unfolding extends_def by blast
  have "0 \<le> live_size (ac_id a) ys" by (rule live_size_nonneg) (use ys(2) in \<open>auto simp: stored_as_def\<close>)
  then show ?thesis using assms(1) ys(1) by (simp add: overfull_def live_size_def)
qed

lemma copies_extends:
  assumes "length (copies e acc (in_messages v s)) = 1" "extends v e rs s s'" "ready v e new s'"
  shows "length (copies e acc (in_messages v s')) = 1"
proof -
  obtain ys where "in_messages v s' = in_messages v s @ ys" using assms(2) unfolding extends_def by blast
  then have "1 \<le> length (copies e acc (in_messages v s'))" using assms(1) by (simp add: copies_def)
  moreover have "length (copies e acc (in_messages v s')) \<le> 1" using assms(3) by (simp add: ready_def)
  ultimately show ?thesis by simp
qed

lemma disjoint_insert: "A \<subseteq> insert i B \<Longrightarrow> insert i C \<inter> B = {} \<Longrightarrow> i \<notin> C \<Longrightarrow> C \<inter> A = {}"
  by blast

lemma process_extends:
  assumes laws: "worker_laws w v" and run: "process_for_recipient w e r s = (err, s')"
    and stream: "trim_space (ie_ingest_stream e) = ie_ingest_stream e" "ie_ingest_stream e \<noteq> []" "0 < ie_ingest_seq e"
    and ready: "ready v e (insert (we_new_id w 0) rest) s" "we_new_id w 0 \<notin> rest"
  shows "extends v e {r} s s'" "ready v e rest s'"
proof -
  have R: "distinct (map ac_id (in_accounts v s))" "distinct (map ac_address (in_accounts v s))"
    "\<forall>m \<in> set (in_messages v s). 0 \<le> ms_size m" "\<forall>acc. length (copies e acc (in_messages v s)) \<le> 1"
    "insert (we_new_id w 0) rest \<inter> ms_id ` set (in_messages v s) = {}"
    using ready(1) by (simp_all add: ready_def)
  have fresh: "we_new_id w 0 \<notin> ms_id ` set (in_messages v s)" using R(5) by blast
  have box: "mailboxes v s' = mailboxes v s" by (rule process_mailboxes [OF laws run])
  have norm: "to_lower (trim_space r) = same_recipient r" by (simp only: same_recipient_def trim_space_to_lower)
  have "in_messages v s' = in_messages v s \<or>
      (\<exists>a \<in> set (in_accounts v s). ac_address a = same_recipient r \<and> adds e (ac_id a) (in_messages v s) (in_messages v s'))"
    using delivery_effect [OF laws run stream(1) fresh] unfolding norm by blast
  then consider (same) "in_messages v s' = in_messages v s"
    | (added) a m where "a \<in> set (in_accounts v s)" "ac_address a = same_recipient r" "stored_as e (ac_id a) m"
      "in_messages v s' = in_messages v s @ [m]" "adds e (ac_id a) (in_messages v s) (in_messages v s')"
    unfolding adds_def by blast
  then have "extends v e {r} s s' \<and> (\<forall>acc. length (copies e acc (in_messages v s')) \<le> 1) \<and> (\<forall>m \<in> set (in_messages v s'). 0 \<le> ms_size m)"
  proof cases
    case same
    then show ?thesis using R(3,4) box by (simp add: extends_def)
  next
    case added
    have "length (copies e acc (in_messages v s')) \<le> 1" for acc
      using copies_adds [OF added(5) stream(2,3)] R(4) by (cases "acc = ac_id a") simp_all
    moreover have "0 \<le> ms_size m" using added(3) by (simp add: stored_as_def)
    moreover have "extends v e {r} s s'"
      unfolding extends_def added(4) using box added(1-3) by (intro conjI exI [of _ "[m]"]) auto
    ultimately show ?thesis using R(3) added(4) by simp
  qed
  moreover have "distinct (map ac_id (in_accounts v s'))" "distinct (map ac_address (in_accounts v s'))"
    using R(1,2) arg_cong [OF box, of "map fst"] arg_cong [OF box, of "map (fst \<circ> snd)"] by (simp_all add: mailboxes_def o_def)
  moreover have "rest \<inter> ms_id ` set (in_messages v s') = {}" by (rule disjoint_insert [OF process_new_id [OF laws run] R(5) ready(2)])
  ultimately show "extends v e {r} s s'" "ready v e rest s'" unfolding ready_def by blast+
qed

text \<open>A recipient is settled: its account has exactly one copy, or the mail does not fit into the account.\<close>

definition settled :: "'s contents \<Rightarrow> incoming_email \<Rightarrow> account \<Rightarrow> 's \<Rightarrow> bool" where
  "settled v e a s \<longleftrightarrow> length (copies e (ac_id a) (in_messages v s)) = 1 \<or> overfull e a (in_messages v s)"

lemma settled_extends: "settled v e a s \<Longrightarrow> extends v e rs s s' \<Longrightarrow> ready v e new s' \<Longrightarrow> settled v e a s'"
  unfolding settled_def by (elim disjE) (blast intro: copies_extends overfull_extends)+

lemma settled_mailbox: "ac_id b = ac_id a \<Longrightarrow> ac_quota b = ac_quota a \<Longrightarrow> settled v e b s = settled v e a s"
  by (simp add: settled_def overfull_def)

text \<open>The ids of the messages that a worker's runs for some recipients may store.\<close>

definition run_ids :: "(string \<Rightarrow> 's worker_env) \<Rightarrow> string list \<Rightarrow> object_id list" where
  "run_ids w rs = map (\<lambda>r. we_new_id (w r) 0) rs"

definition worker_ok :: "'s contents \<Rightarrow> (string \<Rightarrow> 's worker_env) \<Rightarrow> bool" where
  "worker_ok v w \<longleftrightarrow> (\<forall>r. worker_laws (w r) v \<and> reliable (we_db (w r)))"

definition positioned :: "incoming_email \<Rightarrow> bool" where
  "positioned e \<longleftrightarrow> trim_space (ie_ingest_stream e) = ie_ingest_stream e \<and> ie_ingest_stream e \<noteq> [] \<and> 0 < ie_ingest_seq e"

lemma recipients_settled:
  assumes ok: "worker_ok v w" "positioned e"
    and "recipient_results (\<lambda>r. process_for_recipient (w r) e r) rs s = (errs, s')"
    and "distinct (run_ids w rs)" "set (run_ids w rs) \<inter> rest = {}" "ready v e (set (run_ids w rs) \<union> rest) s"
  shows "extends v e (set rs) s s' \<and> ready v e rest s' \<and>
    (\<forall>a \<in> set (in_accounts v s). \<forall>(r, err) \<in> set (zip rs errs). ac_address a = same_recipient r \<longrightarrow> ac_address a \<noteq> [] \<longrightarrow>
       \<not> isl (we_parse (w r) (ie_raw_message e)) \<longrightarrow> \<not> transient err \<longrightarrow> settled v e a s')"
  using assms(3-)
proof (induction rs arbitrary: s errs)
  case Nil
  then show ?case by (simp add: extends_def run_ids_def)
next
  case (Cons r rs)
  obtain err s1 where p: "process_for_recipient (w r) e r s = (err, s1)" by fastforce
  obtain es s2 where q: "recipient_results (\<lambda>r. process_for_recipient (w r) e r) rs s1 = (es, s2)" by fastforce
  have out: "errs = err # es" "s' = s2" using Cons.prems(1) p q by simp_all
  have W: "worker_laws (w r) v" "reliable (we_db (w r))" using ok(1) by (simp_all add: worker_ok_def)
  have S: "trim_space (ie_ingest_stream e) = ie_ingest_stream e" "ie_ingest_stream e \<noteq> []" "0 < ie_ingest_seq e"
    using ok(2) by (simp_all add: positioned_def)
  have new: "we_new_id (w r) 0 \<notin> set (run_ids w rs) \<union> rest" using Cons.prems(2,3) by (auto simp: run_ids_def)
  have ready: "ready v e (insert (we_new_id (w r) 0) (set (run_ids w rs) \<union> rest)) s"
    using Cons.prems(4) by (simp add: run_ids_def)
  note E = process_extends [OF W(1) p S ready new]
  have IH: "extends v e (set rs) s1 s' \<and> ready v e rest s' \<and>
    (\<forall>a \<in> set (in_accounts v s1). \<forall>(r, err) \<in> set (zip rs es). ac_address a = same_recipient r \<longrightarrow> ac_address a \<noteq> [] \<longrightarrow>
       \<not> isl (we_parse (w r) (ie_raw_message e)) \<longrightarrow> \<not> transient err \<longrightarrow> settled v e a s')"
    by (rule Cons.IH [OF _ _ _ E(2)]) (use q out Cons.prems(2,3) in \<open>auto simp: run_ids_def\<close>)
  have ext: "extends v e (set (r # rs)) s s'" using extends_trans [OF E(1)] IH by auto
  have box: "mailboxes v s1 = mailboxes v s" using E(1) by (simp add: extends_def)
  have R: "\<forall>m \<in> set (in_messages v s). 0 \<le> ms_size m" "\<forall>acc. length (copies e acc (in_messages v s)) \<le> 1"
    "distinct (map ac_id (in_accounts v s))" "distinct (map ac_address (in_accounts v s))"
    "we_new_id (w r) 0 \<notin> ms_id ` set (in_messages v s)"
    using ready by (auto simp: ready_def)
  have "settled v e a s'" if a: "a \<in> set (in_accounts v s)" and mem: "(q, er) \<in> set (zip (r # rs) errs)"
    and addr: "ac_address a = same_recipient q" "ac_address a \<noteq> []"
    and h: "\<not> isl (we_parse (w q) (ie_raw_message e))" "\<not> transient er" for a q er
  proof (cases "(q, er) = (r, err)")
    case True
    have addr': "ac_address a = to_lower (trim_space r)"
      using addr(1) True by (simp only: same_recipient_def trim_space_to_lower prod.inject)
    have "length (copies e (ac_id a) (in_messages v s1)) = 1 \<or> overfull e a (in_messages v s)"
      by (rule process_settles [OF W p S R(5,2,1,3,4) a addr' addr(2)]) (use True h in simp_all)
    then have "settled v e a s1" using overfull_extends [OF _ E(1)] by (auto simp: settled_def)
    then show ?thesis by (rule settled_extends [OF _ conjunct1 [OF IH] conjunct1 [OF conjunct2 [OF IH]]])
  next
    case False
    then have mem': "(q, er) \<in> set (zip rs es)" using mem out by auto
    obtain b where b: "b \<in> set (in_accounts v s1)" "ac_id b = ac_id a" "ac_address b = ac_address a" "ac_quota b = ac_quota a"
      by (rule same_mailbox [OF box a])
    have "\<forall>(r, err) \<in> set (zip rs es). ac_address b = same_recipient r \<longrightarrow> ac_address b \<noteq> [] \<longrightarrow>
       \<not> isl (we_parse (w r) (ie_raw_message e)) \<longrightarrow> \<not> transient err \<longrightarrow> settled v e b s'"
      by (rule bspec [OF conjunct2 [OF conjunct2 [OF IH]] b(1)])
    from bspec [OF this mem'] have "settled v e b s'" using b(3) addr h by simp
    then show ?thesis by (simp only: settled_mailbox [OF b(2,4)])
  qed
  note each = this
  show ?case
  proof (intro conjI ballI)
    show "extends v e (set (r # rs)) s s'" by (rule ext)
    show "ready v e rest s'" using IH by (elim conjE)
    fix a x assume ax: "a \<in> set (in_accounts v s)" "x \<in> set (zip (r # rs) errs)"
    obtain q er where x: "x = (q, er)" by fastforce
    show "case x of (r, err) \<Rightarrow> ac_address a = same_recipient r \<longrightarrow> ac_address a \<noteq> [] \<longrightarrow>
       \<not> isl (we_parse (w r) (ie_raw_message e)) \<longrightarrow> \<not> transient err \<longrightarrow> settled v e a s'"
      unfolding x prod.case by (intro impI) (rule each [OF ax(1) ax(2) [unfolded x]])
  qed
qed

section \<open>Deliveries in a row\<close>

definition retried :: "acknowledgement \<Rightarrow> bool" where
  "retried verdict = (case verdict of NakWithDelay d \<Rightarrow> True | _ \<Rightarrow> False)"

lemma worker_handler_results:
  assumes "decode_delivery api json msg = Inr e"
    and "recipient_results (\<lambda>r. process_for_recipient (w r) e r) (unique_recipients (ie_to e)) s = (errs, s')"
  shows "snd (consume_callback api json (worker_handler w) msg s) = s'"
    "retried (fst (consume_callback api json (worker_handler w) msg s)) = list_ex transient errs"
proof -
  have h: "worker_handler w = (\<lambda>e s. let (err, s') = process_message (\<lambda>e r. process_for_recipient (w r) e r) (Some e) s in (HandlerReturns err, s'))"
    by (intro ext) (simp only: worker_handler_def)
  have n: "ie_to e = [] \<Longrightarrow> errs = [] \<and> s' = s" using assms(2) by (simp add: unique_recipients_def)
  show "snd (consume_callback api json (worker_handler w) msg s) = s'"
    "retried (fst (consume_callback api json (worker_handler w) msg s)) = list_ex transient errs"
    using consume_results [where process = "\<lambda>e r. process_for_recipient (w r) e r", OF assms] n
    unfolding h by (auto simp: retried_def)
qed

text \<open>One delivery to a worker, for an e-mail that decodes: what it adds, and that it settles the recipients unless it is retried.\<close>

lemma delivery_settles:
  assumes "decode_delivery api json msg = Inr e" "worker_ok v w" "positioned e"
    and to: "list_all (\<lambda>r. r \<noteq> [] \<and> same_recipient r = r) (ie_to e)"
    and ids: "distinct (run_ids w (unique_recipients (ie_to e)))" "set (run_ids w (unique_recipients (ie_to e))) \<inter> rest = {}"
    and ready: "ready v e (set (run_ids w (unique_recipients (ie_to e))) \<union> rest) s"
    and run: "consume_callback api json (worker_handler w) msg s = (verdict, s')"
  shows "extends v e (set (ie_to e)) s s'" "ready v e rest s'"
    "\<not> retried verdict \<Longrightarrow> a \<in> set (in_accounts v s) \<Longrightarrow> ac_address a \<in> set (ie_to e) \<Longrightarrow>
       \<forall>r. \<not> isl (we_parse (w r) (ie_raw_message e)) \<Longrightarrow> settled v e a s'"
proof -
  let ?u = "unique_recipients (ie_to e)"
  obtain errs t where r: "recipient_results (\<lambda>r. process_for_recipient (w r) e r) ?u s = (errs, t)" by fastforce
  have t: "t = s'" and v: "retried verdict = list_ex transient errs" using worker_handler_results [OF assms(1) r] run by simp_all
  note L = recipients_settled [OF assms(2,3) r ids ready, unfolded t]
  have u: "same_recipient ` set ?u = set (ie_to e)"
  proof (cases "ie_to e = []")
    case False
    have idn: "same_recipient r = r" "r \<noteq> []" if "r \<in> set (ie_to e)" for r using to that by (auto simp: list_all_iff)
    have "same_recipient ` set (ie_to e) = set (ie_to e)" using idn(1) by force
    moreover have "list_ex (\<lambda>r. same_recipient r \<noteq> []) (ie_to e)" using False idn by (cases "ie_to e") auto
    ultimately show ?thesis using unique_recipients_spec [of "ie_to e"] idn(2) by auto
  qed (simp add: unique_recipients_def)
  have c: "same_recipient ` set (ie_to e) = set (ie_to e)" using to by (force simp: list_all_iff)
  show "extends v e (set (ie_to e)) s s'" using L u c by (simp add: extends_def)
  show "ready v e rest s'" using L by blast
  assume h: "\<not> retried verdict" "a \<in> set (in_accounts v s)" "ac_address a \<in> set (ie_to e)"
    "\<forall>r. \<not> isl (we_parse (w r) (ie_raw_message e))"
  obtain r where r': "r \<in> set ?u" "ac_address a = same_recipient r" using h(3) u by force
  obtain er where er: "(r, er) \<in> set (zip ?u errs)"
    using r'(1) length_recipient_results [OF r] by (metis in_set_impl_in_set_zip1)
  have "er \<in> set errs" using er by (rule set_zip_rightD)
  then have tr: "\<not> transient er" using h(1) v by (auto simp: list_ex_iff)
  have ne: "ac_address a \<noteq> []" using to h(3) by (auto simp: list_all_iff)
  show "settled v e a s'" using L h(2) er r'(2) ne h(4) tr by fast
qed

text \<open>The position of a message in the stream, and the recipients a message of the stream names.\<close>

definition at_position :: "string \<times> 64 word \<Rightarrow> incoming_email" where
  "at_position pos = ingest_metadata (Some (fst pos, snd pos, 0))"

definition position_ok :: "string \<times> 64 word \<Rightarrow> bool" where
  "position_ok pos \<longleftrightarrow> trim_space (fst pos) = fst pos \<and> fst pos \<noteq> [] \<and> 0 < uint (snd pos) \<and> uint (snd pos) < 2 ^ 63"

definition recipients_of ::
  "'h header_api \<Rightarrow> (bytes \<Rightarrow> incoming_email \<Rightarrow> incoming_email option) \<Rightarrow> 'h stream_message \<Rightarrow> string list" where
  "recipients_of api json m =
     (case decode_delivery api json (delivered api None m) of Inl err \<Rightarrow> [] | Inr e \<Rightarrow> unique_recipients (ie_to e))"

definition all_ids :: "string list \<Rightarrow> 's delivery list \<Rightarrow> object_id list" where
  "all_ids rs ds = concat (map (\<lambda>d. run_ids (dl_worker d) rs) ds)"

text \<open>
  The worker of a delivery meets the laws of its environment, and whatever else happened before it keeps the unique
  indexes, makes no second copy of this message of the stream and does not use the ids of these runs.
\<close>

definition delivery_ok :: "'s contents \<Rightarrow> incoming_email \<Rightarrow> object_id set \<Rightarrow> 's delivery \<Rightarrow> bool" where
  "delivery_ok v e ids d \<longleftrightarrow> worker_ok v (dl_worker d) \<and>
     (\<forall>new s. new \<subseteq> ids \<longrightarrow> ready v e new s \<longrightarrow> ready v e new (dl_since d s))"

lemma ready_position:
  "ie_ingest_stream e = ie_ingest_stream e' \<Longrightarrow> ie_ingest_seq e = ie_ingest_seq e' \<Longrightarrow> ready v e = ready v e'"
  by (intro ext) (simp add: ready_def copies_def)

lemma deliver_all_ready:
  assumes "\<forall>n. decode_delivery api json (delivered api (Some (fst pos, snd pos, n)) m) = Inr e" "positioned e"
    and "list_all (\<lambda>r. r \<noteq> [] \<and> same_recipient r = r) (ie_to e)"
    and "\<forall>d \<in> set ds. delivery_ok v e ids d"
    and "distinct (all_ids (unique_recipients (ie_to e)) ds)" "set (all_ids (unique_recipients (ie_to e)) ds) \<inter> rest = {}"
    and "set (all_ids (unique_recipients (ie_to e)) ds) \<union> rest \<subseteq> ids"
    and "ready v e (set (all_ids (unique_recipients (ie_to e)) ds) \<union> rest) s"
  shows "ready v e rest (deliver_all api json pos m ds s)"
  using assms(4-)
proof (induction ds arbitrary: s)
  case Nil
  then show ?case by (simp add: deliver_all_def all_ids_def)
next
  case (Cons d ds)
  let ?u = "unique_recipients (ie_to e)" and ?w = "dl_worker d"
  have ids: "all_ids ?u (d # ds) = run_ids ?w ?u @ all_ids ?u ds" by (simp add: all_ids_def)
  have d: "worker_ok v ?w" and since: "ready v e (set (run_ids ?w ?u) \<union> (set (all_ids ?u ds) \<union> rest)) (dl_since d s)"
    using Cons.prems(1,4,5) unfolding ids by (auto simp: delivery_ok_def Un_assoc)
  obtain verdict s1 where run: "deliver api json pos m d s = (verdict, s1)" by fastforce
  have s1: "ready v e (set (all_ids ?u ds) \<union> rest) s1"
    by (rule delivery_settles(2) [OF _ d assms(2,3) _ _ since run [unfolded deliver_def]])
      (use assms(1) Cons.prems(2,3) in \<open>auto simp: ids\<close>)
  have "ready v e rest (deliver_all api json pos m ds s1)"
    by (rule Cons.IH [OF _ _ _ _ s1]) (use Cons.prems in \<open>auto simp: ids\<close>)
  then show ?case by (simp add: deliver_all_def run)
qed


definition sample_mailboxes :: tables where
  "sample_mailboxes = ([], [empty_account\<lparr>ac_id := 3, ac_address := ''u@x''\<rparr>], [])"

definition sample_redelivery :: "64 word \<Rightarrow> tables delivery" where
  "sample_redelivery n = \<lparr>dl_number = n, dl_worker = (\<lambda>r. example_worker), dl_since = (\<lambda>s. s)\<rparr>"

definition sample_mail :: incoming_email where
  "sample_mail = session_email (sample_session\<lparr>se_to := [''u@x'']\<rparr>) [72] 5"

lemma sample_decodes:
  "decode_delivery list_header json (delivered list_header md sample_sent) = Inr (with_ingest (ingest_metadata md) sample_mail)"
proof -
  have "validate_incoming_email (Some sample_mail) = None"
    by (simp add: validate_incoming_email_None sample_mail_def sample_session_def session_email_def codec_limits no_crlf_def has_crlf_def)
  then have "publish list_header (\<lambda>_ _. Published) (\<lambda>_. Published) (Some sample_mail) = (None, Some sample_sent)"
    by (simp add: publish_def sample_sent_def sample_mail_def [symmetric]) (simp add: sample_mail_def session_email_def)
  then show ?thesis
    by (rule decode_delivered_publish [OF list_header_laws])
      (simp_all add: sample_mail_def session_email_def sample_session_def int64_ok_def clean_to_def trimmed_def is_space_code)
qed

lemma sample_recipients: "recipients_of list_header json sample_sent = [''u@x'']"
  by (simp add: recipients_of_def sample_decodes with_ingest_def sample_mail_def session_email_def unique_recipients_def)

lemma sample_handled:
  "fst (worker_handler (\<lambda>r. example_worker) (with_ingest (ingest_metadata (Some (''S'', 4, 1))) sample_mail) sample_mailboxes)
     = HandlerReturns None"
  by code_simp

lemma sample_verdict:
  "fst (deliver list_header json (''S'', 4) sample_sent (sample_redelivery 1) sample_mailboxes) = Ack"
  by (simp add: deliver_def sample_redelivery_def consume_callback_handled [OF sample_decodes prod.collapse [symmetric]] sample_handled)


end
