(* ===== verification/Fidelity.thy ===== *)
theory Fidelity
  imports EndToEnd Isolation
begin

text \<open>
  From the bytes of the \<open>DATA\<close> command to the download: what the owner of an account gets when he downloads the source of a
  message (\<open>DownloadMessage\<close> of \<open>internal/handler/message.go\<close>) that the worker has stored, in the object store or, when the
  upload failed, in the document.
\<close>

section \<open>The object store\<close>

text \<open>What is put is got; a put touches no other object, and neither do the database and the events.\<close>

definition object_laws :: "'s worker_env \<Rightarrow> 's get_object \<Rightarrow> bool" where
  "object_laws w get \<longleftrightarrow>
     (\<forall>k ct r n s. case we_put w k ct r n s of
        (Some written, s') \<Rightarrow> get k s' = Some (fst r, ct) | (None, s') \<Rightarrow> True) \<and>
     (\<forall>k ct r n s k'. k' \<noteq> k \<longrightarrow> get k' (snd (we_put w k ct r n s)) = get k' s) \<and>
     (\<forall>c p s k. get k (we_publish w c p s) = get k s) \<and>
     (\<forall>d s k. get k (snd (co_insert_one (db_messages (we_db w)) d s)) = get k s)"

definition raw_key :: "string \<Rightarrow> string" where "raw_key mid = object_key mid raw_attachment_id raw_filename"

text \<open>The attachments of a message have ids in hexadecimal, so their keys differ from that of the source.\<close>

lemma attachment_key:
  assumes "hex_laws db"
  shows "object_key mid (db_hex db i) filename \<noteq> raw_key mid"
proof
  assume "object_key mid (db_hex db i) filename = raw_key mid"
  then have eq: "db_hex db i @ ''/'' @ filename = raw_attachment_id @ ''/'' @ raw_filename"
    by (simp add: object_key_def raw_key_def)
  obtain c cs where c: "db_hex db i = c # cs" using assms unfolding hex_laws_def by (metis list.exhaust)
  then have "c = CHR ''_''" using eq by (simp add: raw_attachment_id_def)
  moreover have "is_digit c \<or> c \<in> set ''abcdef''" using assms c unfolding hex_laws_def by (metis list.set_intros(1))
  ultimately show False by (auto simp: is_digit_def)
qed

lemma part_step_keeps_source:
  assumes "object_laws w get" "hex_laws (we_db w)"
  shows "get (raw_key mid) (snd (part_step w mid p a s)) = get (raw_key mid) s"
proof (cases p)
  case (AttachmentPart filename ct r)
  let ?k = "object_key mid (db_hex (we_db w) (we_new_id w (pa_next_id a))) (if filename = [] then ''unnamed'' else filename)"
  obtain n s' where put: "we_put w ?k ct (limit_reader (20 * 2 ^ 20) r) (-1) s = (n, s')" by fastforce
  have "raw_key mid \<noteq> ?k" using attachment_key [OF assms(2)] by metis
  then have "get (raw_key mid) (snd (we_put w ?k ct (limit_reader (20 * 2 ^ 20) r) (-1) s)) = get (raw_key mid) s"
    using assms(1) unfolding object_laws_def by blast
  then have "get (raw_key mid) s' = get (raw_key mid) s" by (simp only: put snd_conv)
  moreover have "snd (part_step w mid p a s) = s'"
    unfolding AttachmentPart part_step_def upload_reader_def Let_def
    by (simp only: mail_part.case put) (simp split: option.split)
  ultimately show ?thesis by simp
qed (simp_all add: part_step_def split: option.split)

lemma part_loop_keeps_source:
  assumes "object_laws w get" "hex_laws (we_db w)"
  shows "get (raw_key mid) (snd (part_loop w mid depth ps a s)) = get (raw_key mid) s"
proof (induction ps arbitrary: depth a s)
  case (Cons p ps)
  then show ?case using part_step_keeps_source [OF assms] by (simp add: case_prod_beta)
qed simp

section \<open>What is published is the source\<close>

lemma published_source:
  assumes "reachable env b s0 ss sw sent" "new_session_state s0"
    and "smtp_data env b (content, fails) now ss sw = (None, sw2)" "int64_ok now" "data_limit b < 2 ^ 63 - 1"
    and "header_laws (sv_headers env)"
    and dec: "decode_delivery (sv_headers env) json (delivered (sv_headers env) md (last (sw_stream sw2))) = Inr e"
  shows "ie_raw_message e = content"
proof -
  obtain m data where sent: "sw2 = sw\<lparr>sw_stream := sw_stream sw @ [m]\<rparr>" "carries env m (session_email ss data now)"
      "int (length data) \<le> data_limit b" "data = take (nat (sint (word_of_int (data_limit b + 1) :: 64 word))) content"
    using smtp_data_result [OF assms(3)] by auto
  have "data = content" using data_not_truncated [OF assms(5)] sent(3,4) by simp
  moreover have "clean_to (session_email ss data now)"
    using reachable_inv [OF assms(1,2)] by (auto simp: sent_inv_def clean_to_def recipient_ok_def session_email_def list_all_iff)
  ultimately have "decode_delivery (sv_headers env) json (delivered (sv_headers env) md (last (sw_stream sw2)))
      = Inr (with_ingest (ingest_metadata md) (session_email ss content now))"
    using decode_delivered_publish [OF assms(6) sent(2) [unfolded carries_def]] assms(4)
    by (simp add: sent(1) session_email_def)
  then show ?thesis using dec by (auto simp: with_ingest_def session_email_def)
qed

section \<open>What is stored is the source\<close>

text \<open>The message \<open>x\<close> has the source of \<open>e\<close>: in the document, or in the object store.\<close>

definition has_source :: "'s get_object \<Rightarrow> string \<Rightarrow> bytes \<Rightarrow> message \<Rightarrow> 's \<Rightarrow> bool" where
  "has_source get mid source x s \<longleftrightarrow>
     ms_raw_message x = source \<or> (ms_raw_message x = [] \<and> get (raw_key mid) s = Some (source, raw_content_type))"

lemma create_message_object:
  assumes "object_laws w get" "create_message (we_db w) now msg s = (res, m, s')"
  shows "get k s' = get k s"
proof -
  obtain d r where "co_insert_one (db_messages (we_db w)) d s = (r, s')"
    using assms(2) unfolding create_message_def Let_def by (auto split: prod.splits sum.splits)
  moreover have "get k (snd (co_insert_one (db_messages (we_db w)) d s)) = get k s"
    using assms(1) by (simp add: object_laws_def)
  ultimately show ?thesis by simp
qed

lemma stored_source:
  assumes laws: "worker_laws w v" and objects: "object_laws w get" and run: "store_incoming w e acc s = (err, True, s')"
  obtains x where "in_messages v s' = in_messages v s @ [x]" "ms_id x = we_new_id w 0" "ms_account_id x = acc"
    "\<not> ms_is_deleted x" "has_source get (db_hex (we_db w) (we_new_id w 0)) (ie_raw_message e) x s'"
  using laws run
proof (cases rule: store_incoming_cases)
  case (created msg s2 res m s3 raw s1 ps a0 a channel payload)
  let ?mid = "db_hex (we_db w) (we_new_id w 0)"
  have db: "database_laws (we_db w) v" and id0: "we_new_id w 0 \<noteq> 0" using laws by (simp_all add: worker_laws_def)
  have hex: "hex_laws (we_db w)" using db by (rule accounts_laws(4))
  have res: "res = None" using created(6) by simp
  obtain msg2 i where ins: "co_insert_one (db_messages (we_db w)) msg2 s2 = (Inr i, s3)"
      "ms_id msg2 = ms_id msg" "ms_account_id msg2 = ms_account_id msg" "ms_is_deleted msg2 = ms_is_deleted msg"
      "ms_raw_message msg2 = ms_raw_message msg"
    using created(4) unfolding create_message_def Let_def res by (auto split: prod.splits sum.splits)
  have "inserts message_schema msg2 i (in_messages v s2) (in_messages v s3)"
    using insert_law(2) [OF accounts_laws(2) [OF db] ins(1)] by simp
  then obtain x where x: "in_messages v s3 = in_messages v s2 @ [x]" "ms_id x = we_new_id w 0" "ms_account_id x = acc"
      "\<not> ms_is_deleted x" "ms_raw_message x = ms_raw_message msg"
    using ins(2-5) created(2,3) id0 by (auto simp: inserts_def Let_def stored_as_def message_schema_def)
  have "has_source get ?mid (ie_raw_message e) x s'"
  proof (cases raw)
    case None
    then show ?thesis using x(5) created(10) by (simp add: has_source_def)
  next
    case (Some n)
    have "we_put w (raw_key ?mid) raw_content_type (ie_raw_message e, False) (int (length (ie_raw_message e))) s = (Some n, s1)"
      using created(8) Some by (simp add: upload_raw_message_def upload_def upload_reader_def raw_key_def)
    then have "get (raw_key ?mid) s1 = Some (ie_raw_message e, raw_content_type)"
      using objects unfolding object_laws_def by (metis (mono_tags, lifting) fst_conv old.prod.case option.simps(5))
    moreover have "get (raw_key ?mid) s2 = get (raw_key ?mid) s1"
      using part_loop_keeps_source [OF objects hex, of ?mid 0 ps a0 s1] created(9) by simp
    moreover have "get (raw_key ?mid) s3 = get (raw_key ?mid) s2" by (rule create_message_object [OF objects created(4)])
    moreover have "get (raw_key ?mid) s' = get (raw_key ?mid) s3"
      using created(11) [OF res] objects by (simp add: object_laws_def)
    ultimately show ?thesis using x(5) created(10) Some by (simp add: has_source_def)
  qed
  then show thesis using that x same_tables [OF created(5)] same_tables [OF created(1)] by simp
qed simp

lemma processed_source:
  assumes laws: "worker_laws w v" and objects: "object_laws w get" and run: "process_for_recipient w e r s = (None, s')"
    and new: "in_messages v s' \<noteq> in_messages v s"
    and a: "a \<in> set (in_accounts v s)" "ac_address a = to_lower (trim_space r)" "distinct (map ac_address (in_accounts v s))"
  obtains x where "x \<in> set (in_messages v s')" "ms_id x = we_new_id w 0" "ms_account_id x = ac_id a"
    "\<not> ms_is_deleted x" "has_source get (db_hex (we_db w) (we_new_id w 0)) (ie_raw_message e) x s'"
  using laws run
proof (cases rule: process_cases)
  case (stored acc s1 committed s2)
  have db: "database_laws (we_db w) v" using laws by (simp add: worker_laws_def)
  have s1: "in_messages v s1 = in_messages v s"
    using reserve_quota_keeps [OF db, of acc "int (length (ie_raw_message e))" r s] stored(2) by simp
  have s2: "in_messages v s' = in_messages v s2" using stored(4) account_updates_keep(3) [OF db] by simp
  obtain b where b: "b \<in> set (in_accounts v s)" "ac_id b = acc" "ac_address b = to_lower (trim_space r)"
    by (rule account_id_found [OF db stored(1)])
  then have acc: "acc = ac_id a" using a by (metis distinct_map inj_onD)
  show thesis
  proof (cases committed)
    case True
    then have run2: "store_incoming w e acc s1 = (None, True, s2)" and s': "s' = s2" using stored(3,4) by simp_all
    show thesis
      by (rule stored_source [OF laws objects run2]) (rule that, simp_all add: s' acc)
  next
    case False
    then have "in_messages v s2 = in_messages v s1" using store_incoming_effect(4) [OF laws stored(3)] by simp
    then show thesis using new s1 s2 by simp
  qed
qed (use new in simp_all)

section \<open>What is downloaded is the source\<close>

text \<open>What happened to the database and the object store since has left a message alone, apart from its flags.\<close>

definition mail_kept :: "'s contents \<Rightarrow> 's get_object \<Rightarrow> string \<Rightarrow> object_id \<Rightarrow> 's \<Rightarrow> 's \<Rightarrow> bool" where
  "mail_kept v get mid i s t \<longleftrightarrow>
     (\<forall>x \<in> set (in_messages v s). ms_id x = i \<longrightarrow> \<not> ms_is_deleted x \<longrightarrow>
        (\<exists>y \<in> set (in_messages v t). ms_id y = i \<and> \<not> ms_is_deleted y \<and> ms_account_id y = ms_account_id x \<and>
           ms_raw_message y = ms_raw_message x)) \<and>
     get (raw_key mid) t = get (raw_key mid) s"

lemma get_message_raw_found:
  assumes laws: "database_laws db v" and y: "y \<in> set (in_messages v s)" "\<not> ms_is_deleted y"
    and ids: "distinct (map ms_id (in_messages v s))"
  shows "(\<exists>m. get_message_raw db (db_hex db (ms_id y)) s = Inr m \<and> ms_account_id m = ms_account_id y \<and> ms_raw_message m = ms_raw_message y) \<or>
    (\<exists>err. get_message_raw db (db_hex db (ms_id y)) s = Inl (DriverError err))"
proof -
  let ?f = "[CEq ''_id'' (BId (ms_id y)), CEq ''isDeleted'' (BBool False)]" and ?p = "ProjInclude [''accountId'', ''rawMessage'']"
  have hex: "db_from_hex db (db_hex db (ms_id y)) = Some (ms_id y)"
    using accounts_laws(4) [OF laws] by (simp add: hex_laws_def)
  have get: "get_message_raw db (db_hex db (ms_id y)) s = find_one_error (co_find_one (db_messages db) ?f ?p s)"
    by (simp add: get_message_raw_def find_message_def hex)
  have m: "matches ?f (message_fields y)" using y(2) by (simp add: message_fields_def)
  show ?thesis
  proof (cases "co_find_one (db_messages db) ?f ?p s")
    case (Inl err)
    then have "err \<noteq> NoDocuments" using find_one_NoDocuments [OF accounts_laws(2) [OF laws] _ y(1), of ?f ?p] m by auto
    then show ?thesis unfolding get Inl by (cases err) (simp_all add: find_one_error_def not_found_error_def)
  next
    case (Inr d)
    from find_one_Inr [OF accounts_laws(2) [OF laws] Inr] obtain x where
      x: "x \<in> set (in_messages v s)" "ms_id x = ms_id y" "d = project_message ?p x"
      by (auto simp: message_fields_def)
    then have "x = y" using ids y(1) by (simp add: distinct_map inj_on_def)
    then show ?thesis unfolding get Inr x(3) by (simp add: find_one_error_def project_message_def Let_def)
  qed
qed

lemma download_source:
  assumes laws: "database_laws (ae_db api) v" and y: "y \<in> set (in_messages v (db_state st))" "\<not> ms_is_deleted y"
    and ids: "distinct (map ms_id (in_messages v (db_state st)))" and cx: "caller api cx (ms_account_id y)"
    and source: "has_source (ae_get_object api) (db_hex (ae_db api) (ms_id y)) content y (db_state st)" "content \<noteq> []"
  shows "download_message api cx (db_hex (ae_db api) (ms_id y)) st \<in>
    {Success 200 (FileBody (content_disposition_attachment (db_hex (ae_db api) (ms_id y) @ ''.eml'')) ''message/rfc822'' content),
     Failure 500 ''internal error''}"
  using get_message_raw_found [OF laws y ids]
proof
  assume "\<exists>err. get_message_raw (ae_db api) (db_hex (ae_db api) (ms_id y)) (db_state st) = Inl (DriverError err)"
  then show ?thesis by (auto simp: download_message_def owned_message_def)
next
  assume "\<exists>m. get_message_raw (ae_db api) (db_hex (ae_db api) (ms_id y)) (db_state st) = Inr m \<and>
    ms_account_id m = ms_account_id y \<and> ms_raw_message m = ms_raw_message y"
  then obtain m where m: "get_message_raw (ae_db api) (db_hex (ae_db api) (ms_id y)) (db_state st) = Inr m"
    "ms_account_id m = ms_account_id y" "ms_raw_message m = ms_raw_message y" by blast
  have "db_hex (ae_db api) (ms_account_id y) = get_string (cx_account_id cx)"
    using cx by (simp add: caller_def get_string_def)
  then have o: "owned_message api cx (Inr m) = Inr m" using m(2) by (simp add: owned_message_def)
  show ?thesis
    using source m(3) unfolding download_message_def m(1) o
    by (auto simp: has_source_def Let_def open_raw_message_def open_object_def raw_key_def raw_content_type_def)
qed


text \<open>The object store of the witness takes one object, the source of message 5.\<close>

definition one_object :: "tables worker_env" where
  "one_object = example_worker\<lparr>we_put := \<lambda>k ct r n s.
     (if k = raw_key ''5'' \<and> ct = raw_content_type \<and> r = ([72], False) then Some 1 else None, s)\<rparr>"

definition one_object_env :: "(tables, unit, nat) api_env" where
  "one_object_env = example_env\<lparr>ae_get_object := \<lambda>k s. if k = raw_key ''5'' then Some ([72], raw_content_type) else None\<rparr>"

definition kept_mail :: "(tables, unit, nat) api_state" where
  "kept_mail = example_state\<lparr>as_store := (as_store example_state)\<lparr>so_db :=
     snd (process_for_recipient one_object sample_mail ''u@x'' sample_mailboxes)\<rparr>\<rparr>"

definition owner :: req_context where "owner = fresh_context\<lparr>cx_account_id := Some ''3''\<rparr>"

lemma kept_mail_facts:
  "fst (process_for_recipient one_object sample_mail ''u@x'' sample_mailboxes) = None"
  "map ms_id (in_messages mem_contents (snd (process_for_recipient one_object sample_mail ''u@x'' sample_mailboxes))) = [5]"
  "db_hex mem_database 5 = ''5''" "db_hex mem_database 3 = ''3''"
  "\<not> isl (get_message_raw mem_database ''5'' (snd (process_for_recipient one_object sample_mail ''u@x'' sample_mailboxes)))"
  by code_simp+

lemma kept_mail_read: "download_message one_object_env owner ''5'' kept_mail \<noteq> Failure 500 ''internal error''"
proof -
  have "db_state kept_mail = snd (process_for_recipient one_object sample_mail ''u@x'' sample_mailboxes)" by (simp add: kept_mail_def db_state_def)
  moreover have "ae_db one_object_env = mem_database" by (simp add: one_object_env_def example_env_def)
  ultimately obtain m where "get_message_raw (ae_db one_object_env) ''5'' (db_state kept_mail) = Inr m"
    using kept_mail_facts(5) by (auto simp: isl_def split: sum.splits) (metis sum.exhaust_sel)
  then show ?thesis by (auto simp: download_message_def owned_message_def Let_def split: option.splits sum.splits)
qed


end
