(* ===== verification/Spec2Isabelle.thy ===== *)
theory Spec2Isabelle
  imports Prelude Model Codec Queue Domainutil ExpiringCache RateLimiter Auth Cache Middleware Net
    Config Validate ApiKeys Smtp Storage Utf8 Worker Dispatcher Proxy PrefixData Prefix
    Mongo Indexes IndexGoals Store Documents Quota Listing Deletion Process Delivery
    Handler AccountApi AccountScope MessageApi Isolation Downloads Sse
    Yyds YydsApi YydsPublic YydsAccess YydsTokens YydsScope Realtime Health Programs Clients Lifecycle Removal GcLock SseRun Routes EndToEnd Fidelity
begin

text \<open>
  mailapi, a disposable-mail service: an SMTP server accepts mail for configured domains and publishes it
  to a queue (NATS JetStream); a worker consumes the queue, stores messages in MongoDB and files in an object
  store (MinIO), and announces them through Redis; an API serves accounts and messages in several dialects.

  The theories follow the packages under \<open>internal\<close>. Their dependencies are those of the packages.

  Base. \<open>Prelude\<close>: Go's \<open>strings\<close> and \<open>strconv\<close> as far as used, time; \<open>Model\<close>: \<open>model/model.go\<close>; \<open>Net\<close>: host and
  port syntax; \<open>Utf8\<close>: runes; \<open>Domainutil\<close>: \<open>domainutil/domainutil.go\<close>; \<open>ExpiringCache\<close> and \<open>RateLimiter\<close>: the locales
  for what three caches and four limiters of the program have in common, interpreted in \<open>Auth\<close>, \<open>Cache\<close> and \<open>Smtp\<close>.

  Receiving mail. \<open>Smtp\<close>: sessions, the cache of unknown addresses and listeners (\<open>smtp/server.go\<close>,
  \<open>cmd/smtp/main.go\<close>); \<open>Codec\<close> and \<open>Queue\<close>: the binary envelope, \<open>Publish\<close>, the decoder and the consumer callback
  (\<open>queue/codec.go\<close>, \<open>queue/queue.go\<close>; the locale \<open>email_codec\<close> states what both encodings promise);
  \<open>Worker\<close> and \<open>Process\<close>: \<open>worker/worker.go\<close>, from an e-mail with several recipients to the files and the message
  of each, and the object GC; \<open>GcLock\<close>: the loop that runs it in every process and the lock that keeps the runs apart.

  Keeping mail. \<open>Mongo\<close>: the driver as an interface of filters, updates and projections with laws, and an instance in
  memory; \<open>Indexes\<close> and \<open>IndexGoals\<close>: connecting, and the indexes that enforce what \<open>Store\<close> relies on; \<open>Store\<close>: \<open>store/store.go\<close>, operation by operation, with the count cache; \<open>Storage\<close> and \<open>Removal\<close>: \<open>storage/storage.go\<close>, the concurrent removal of objects as a step relation;
  \<open>Cache\<close>: \<open>cache/cache.go\<close>. On top of them: \<open>Documents\<close>, \<open>Quota\<close>, \<open>Listing\<close>, \<open>Deletion\<close> and \<open>Delivery\<close> state what the operations
  amount to (well-formed documents, quotas under interleaving, enumeration by cursors, batches of deletions, exactly-once
  storage with exact accounting).

  Serving mail. \<open>Config\<close>, \<open>Validate\<close> and \<open>ApiKeys\<close>: \<open>config/config.go\<close>, \<open>config/redact.go\<close>, \<open>config/validate.go\<close>,
  \<open>debugserver/server.go\<close> and the start of \<open>cmd/api/main.go\<close>; \<open>Auth\<close> and \<open>Middleware\<close>: tokens and the Gin
  middlewares; \<open>Dispatcher\<close> and \<open>Proxy\<close>: \<open>dialect/dispatcher.go\<close>, \<open>dialect/cfworker/proxy.go\<close>; \<open>PrefixData\<close> and \<open>Prefix\<close>:
  \<open>prefix/data.go\<close>, \<open>prefix/generator.go\<close>; \<open>Handler\<close>, \<open>AccountApi\<close> and \<open>MessageApi\<close>: the native dialect
  \<open>internal/handler\<close>; \<open>Yyds\<close>, \<open>YydsApi\<close> and \<open>Realtime\<close>: \<open>dialect/yyds/api.go\<close> and \<open>realtime.go\<close>; \<open>Sse\<close> and \<open>SseRun\<close>: \<open>handler/sse_hub.go\<close> as
  step relations; \<open>Routes\<close>: the routes of both dialects with the middlewares in front of each. \<open>AccountScope\<close>, \<open>Isolation\<close> and \<open>Downloads\<close> state what
  the handlers guarantee: who may create which account, that messages are private, that headers are safe;
  \<open>YydsAccess\<close>, \<open>YydsTokens\<close> and \<open>YydsScope\<close> the same for the yyds dialect, with its gaps; \<open>YydsPublic\<close>: its configured data, and its
  \<open>llms.txt\<close> against the table of routes.

  Running. \<open>Programs\<close>: the three programs in \<open>cmd\<close> from the command line to what they serve; \<open>Lifecycle\<close>: how they end, as timed step
  relations under one locale; \<open>Clients\<close>: how the packages open, use and close their connections; \<open>Health\<close>: the probes of \<open>internal/health\<close>.

  All together. \<open>EndToEnd\<close> composes \<open>Smtp\<close>, \<open>Queue\<close>, \<open>Worker\<close>, \<open>Process\<close> and \<open>Delivery\<close>: what becomes of a message from the SMTP
  session to the mailboxes under redelivery. It relies on fresh object ids (each run has its own), on the unique indexes (ensured by
  \<open>IndexGoals\<close>) and on a database that answers (\<open>reliable\<close>); how often JetStream delivers at all (\<open>MaxDeliver\<close>) is its own affair.
  \<open>Fidelity\<close> follows the bytes of DATA to the download: through the object store, of which it assumes that a get returns what was
  put (\<open>object_laws\<close>), and the document, whose source must be kept as it is by whatever else runs (\<open>mail_kept\<close>).

  State and effects. A handler or operation takes the state and returns the result with the new state; an error is a
  value (\<open>Inl\<close>, or \<open>Some\<close> for operations that return nothing else). The state behind a client library is a type parameter,
  the library a record of functions on it. What a theorem needs of them is a named predicate, each true of a concrete
  instance used in the witnesses: \<open>header_laws\<close> (NATS headers), \<open>redis_laws\<close> (\<open>INCR\<close>, \<open>PEXPIRE\<close>; an error may leave
  the script run or not), \<open>jwt_time_law\<close> and \<open>jwt_sign_law\<close> (the JWT library), \<open>range_law\<close> (\<open>sync.Map.Range\<close> visits each key once),
  \<open>gc_laws\<close>, \<open>draw_law\<close> (\<open>rand.IntN(n)\<close> is below \<open>n\<close>), \<open>collection_laws\<close> and \<open>database_laws\<close> (find, insert, update and delete of MongoDB,
  unique indexes, \<open>index_laws\<close> for the indexes, \<open>hex_laws\<close> for object ids; an operation that fails changes nothing or was carried out),
  \<open>worker_laws\<close> and \<open>api_laws\<close> (uploads and clean-ups leave the database alone), \<open>reliable\<close> and \<open>reads_ok\<close> (the database
  answers).

  Concurrency. What is atomic in the program (an operation under a mutex, on a \<open>sync.Map\<close>, of Redis or of MongoDB on one
  document) is one step; the theorems about limiters, caches, quotas, SMTP sessions, the SSE hub and its goroutines, the removal of objects and the GC lock hold for every
  sequence of steps. A handler as a whole runs without interleaving.

  Time in \<open>GcLock\<close> passes only up to the deadline of a running GC, whose context is done then; the values of the lock, times in
  nanoseconds, are taken to be different.

  Numbers and bounds. \<open>int\<close>, \<open>int64\<close> and times are unbounded integers, which agrees with the program below \<open>2 ^ 63\<close>; the
  codec uses words of 8 and 64 bits, and its conversions wrap. Loops end by the measures of their definitions; where the
  code counts attempts (ten prefixes, five addresses) so does the model; the GC and the listing of objects have a
  number of rounds derived from the code's own limits. Case folding and white space are those of ASCII, except in \<open>Utf8\<close> and
  its users, which treat the white space of Unicode.

  Time in \<open>Lifecycle\<close> passes only where a program waits, up to the deadline of what it waits for.

  Not modelled: what the client libraries do inside (parameters with laws), MIME and YAML parsing, the SMTP and HTTP engines,
  bcrypt and JWT cryptography (parameters); logging, metrics (except the gauges of the SSE hub), the router of gin (a
  parameter), and branches for components that the programs always configure. The overrides of the debug
  server and \<open>checkNATSStream\<close> stand in several of the programs with the same body; each is modelled once, with the prefix of
  the environment variables as an argument.
\<close>

end
